(* ===== verification/Prelude.thy ===== *)
theory Prelude
  imports Main "HOL-Library.Word" "HOL-Library.Signed_Division"
begin

section \<open>Types, integer widths and shared lemmas\<close>

text \<open>
  What every component theory uses: names for the machine types of \<^verbatim>\<open>types.h\<close>, the
  wrap-around of the signed 32-bit \<^verbatim>\<open>int\<close> and \<^verbatim>\<open>long\<close> (the kernel is built with
  \<^verbatim>\<open>gcc -m32 -O0\<close>, where both are 32 bits wide and signed arithmetic wraps), the
  collections of rewrite rules the components share, and generic lemmas on lists and
  intervals.

  A signed C integer is an Isabelle \<open>int\<close>; each operation that can leave the 32-bit range is
  wrapped by \<open>i32\<close>.  An unsigned integer is a word of its width.
\<close>

unbundle bit_operations_syntax

type_synonym u8 = "8 word"
type_synonym u16 = "16 word"
type_synonym u32 = "32 word"
type_synonym u64 = "64 word"

named_theorems bounds_simps \<open>rules that discharge range side conditions of wrapped arithmetic\<close>
named_theorems frame_simps \<open>rules that say what an operation leaves unchanged\<close>

subsection \<open>Signed 32-bit arithmetic\<close>

definition i32 :: "int \<Rightarrow> int" where
  "i32 v = (v + 2147483648) mod 4294967296 - 2147483648"

lemma i32_id [simp]: "- 2147483648 \<le> v \<Longrightarrow> v < 2147483648 \<Longrightarrow> i32 v = v"
  by (simp add: i32_def)

lemma i32_lower [simp, bounds_simps]: "- 2147483648 \<le> i32 v"
  by (simp add: i32_def)

lemma i32_upper [simp, bounds_simps]: "i32 v < 2147483648"
  by (simp add: i32_def)

lemma i32_idem [simp]: "i32 (i32 v) = i32 v"
  by simp

lemma i32_mod: "i32 v mod 4294967296 = v mod 4294967296"
proof -
  have "((v + 2147483648) mod 4294967296 - 2147483648) mod 4294967296
    = ((v + 2147483648) - 2147483648) mod 4294967296"
    by (rule mod_diff_left_eq)
  then show ?thesis by (simp only: i32_def add_diff_cancel_right')
qed
lemma i32_eqI: "v mod 4294967296 = w mod 4294967296 \<Longrightarrow> i32 v = i32 w"
  unfolding i32_def by (rule arg_cong [OF mod_add_cong [OF _ refl]])

lemma i32_above: "2147483648 \<le> v \<Longrightarrow> v < 6442450944 \<Longrightarrow> i32 v = v - 4294967296"
proof -
  assume "2147483648 \<le> v" "v < 6442450944"
  moreover have "(v + 2147483648) mod 4294967296 = (v - 2147483648) mod 4294967296"
    using mod_add_self2 [of "v - 2147483648" "4294967296 :: int"] by (simp add: add.commute)
  ultimately show ?thesis by (simp add: i32_def)
qed

definition in_i32 :: "int \<Rightarrow> bool" where
  "in_i32 v \<longleftrightarrow> - 2147483648 \<le> v \<and> v < 2147483648"

lemma in_i32_i32 [simp]: "in_i32 (i32 v)"
  by (simp add: in_i32_def)

lemma i32_in_i32: "in_i32 v \<Longrightarrow> i32 v = v"
  by (simp add: in_i32_def)

subsection \<open>Functions updated on an interval\<close>

text \<open>
  \<open>patch f lo n g\<close> is \<open>f\<close> with the cells \<open>lo, \<dots>, lo + n - 1\<close> replaced by those of \<open>g\<close>: what a
  block write of \<open>n\<close> cells leaves behind.
\<close>

definition patch :: "(int \<Rightarrow> 'a) \<Rightarrow> int \<Rightarrow> int \<Rightarrow> (int \<Rightarrow> 'a) \<Rightarrow> (int \<Rightarrow> 'a)" where
  "patch f lo n g = (\<lambda>a. if lo \<le> a \<and> a < lo + n then g a else f a)"

lemma patch_inside [simp]: "lo \<le> a \<Longrightarrow> a < lo + n \<Longrightarrow> patch f lo n g a = g a"
  by (simp add: patch_def)

lemma patch_outside [simp]: "a < lo \<or> lo + n \<le> a \<Longrightarrow> patch f lo n g a = f a"
  by (auto simp: patch_def)

lemma patch_empty [simp]: "n \<le> 0 \<Longrightarrow> patch f lo n g = f"
  by (rule ext) (auto simp: patch_def)

lemma patch_snoc:
  "0 \<le> n \<Longrightarrow> (patch f lo n g)(lo + n := g (lo + n)) = patch f lo (n + 1) g"
  by (auto simp: patch_def fun_eq_iff)

lemma patch_cong: "(\<And>a. lo \<le> a \<Longrightarrow> a < lo + n \<Longrightarrow> g a = h a) \<Longrightarrow> patch f lo n g = patch f lo n h"
  by (auto simp: patch_def fun_eq_iff)

end
