(* ===== verification/CMath.thy ===== *)
theory CMath
  imports Prelude
begin

section \<open>Integer helpers (math.c)\<close>

text \<open>
  The five functions of \<^verbatim>\<open>src/kernel/math.c\<close> on 32-bit \<^verbatim>\<open>int\<close>s.  Names that HOL already
  uses carry the suffix \<open>_c\<close>.
\<close>

definition max_c :: "int \<Rightarrow> int \<Rightarrow> int" where
  "max_c left right = (if left > right then left else right)"

definition min_c :: "int \<Rightarrow> int \<Rightarrow> int" where
  "min_c left right = (if left < right then left else right)"

definition clamp :: "int \<Rightarrow> int \<Rightarrow> int \<Rightarrow> int" where
  "clamp v low high =
     (if v < low then low
      else if v > high then high
      else v)"

definition sgn_c :: "int \<Rightarrow> int" where
  "sgn_c v =
     (if v < 0 then -1
      else if v > 0 then 1
      else 0)"

definition abs_c :: "int \<Rightarrow> int" where
  "abs_c v = (if v < 0 then i32 (- v) else v)"

lemma max_c_max [simp]: "max_c a b = max a b"
  by (simp add: max_c_def)

lemma min_c_min [simp]: "min_c a b = min a b"
  by (simp add: min_c_def)

lemma clamp_bounds [bounds_simps]: "low \<le> high \<Longrightarrow> low \<le> clamp v low high \<and> clamp v low high \<le> high"
  by (simp add: clamp_def)

lemma clamp_inside: "low \<le> v \<Longrightarrow> v \<le> high \<Longrightarrow> clamp v low high = v"
  by (simp add: clamp_def)

lemma sgn_c_sgn: "sgn_c v = sgn v"
  by (simp add: sgn_c_def)

lemma abs_c_abs: "- 2147483648 < v \<Longrightarrow> v < 2147483648 \<Longrightarrow> abs_c v = \<bar>v\<bar>"
  by (simp add: abs_c_def)

lemma abs_c_int_min: "abs_c (- 2147483648) = - 2147483648"
  by (simp add: abs_c_def i32_def)

end
