(* ===== verification/CMemory.thy ===== *)
theory CMemory
  imports CMath
begin

section \<open>Memory blocks and C strings (memory.c)\<close>

text \<open>
  \<^verbatim>\<open>src/kernel/memory.c\<close> over an explicit byte memory: an address is an \<open>int\<close> and the memory a
  function from addresses to bytes, so that a write outside the intended block is visible.
  The block routines return the destination pointer, as the C does, and the new memory.
  The string routines scan for a terminator and have no bound, so they are
  \<open>partial_function\<close>s: \<open>None\<close> is a scan that never ends.
\<close>

type_synonym mem = "int \<Rightarrow> u8"

subsection \<open>Block operations\<close>

function memcpy_loop :: "mem \<Rightarrow> int \<Rightarrow> int \<Rightarrow> int \<Rightarrow> int \<Rightarrow> mem" where
  "memcpy_loop m dst src i bytes =
     (if i < bytes then memcpy_loop (m(dst + i := m (src + i))) dst src (i + 1) bytes else m)"
  by pat_completeness auto
termination
  by (relation "measure (\<lambda>(m, dst, src, i, bytes). nat (bytes - i))") auto

declare memcpy_loop.simps [simp del]

definition memcpy :: "mem \<Rightarrow> int \<Rightarrow> int \<Rightarrow> int \<Rightarrow> int \<times> mem" where
  "memcpy m dst src bytes =
     (if src = dst \<or> bytes = 0 then (dst, m)
      else (dst, memcpy_loop m dst src 0 bytes))"

function memmove_loop :: "mem \<Rightarrow> int \<Rightarrow> int \<Rightarrow> int \<Rightarrow> mem" where
  "memmove_loop m dst src i =
     (if i \<ge> 0 then memmove_loop (m(dst + i := m (src + i))) dst src (i - 1) else m)"
  by pat_completeness auto
termination
  by (relation "measure (\<lambda>(m, dst, src, i). nat (i + 1))") auto

declare memmove_loop.simps [simp del]

definition memmove :: "mem \<Rightarrow> int \<Rightarrow> int \<Rightarrow> int \<Rightarrow> int \<times> mem" where
  "memmove m dst src bytes =
     (if src = dst \<or> bytes = 0 then (dst, m)
      else if src > dst then memcpy m dst src bytes
      else (dst, memmove_loop m dst src (i32 (bytes - 1))))"

function memset_loop :: "mem \<Rightarrow> int \<Rightarrow> u8 \<Rightarrow> int \<Rightarrow> int \<Rightarrow> mem" where
  "memset_loop m dst v i bytes =
     (if i < bytes then memset_loop (m(dst + i := v)) dst v (i + 1) bytes else m)"
  by pat_completeness auto
termination
  by (relation "measure (\<lambda>(m, dst, v, i, bytes). nat (bytes - i))") auto

declare memset_loop.simps [simp del]

definition memset :: "mem \<Rightarrow> int \<Rightarrow> u8 \<Rightarrow> int \<Rightarrow> int \<times> mem" where
  "memset m dst v bytes = (dst, memset_loop m dst v 0 bytes)"

subsection \<open>String operations\<close>

partial_function (option) strlen_loop :: "mem \<Rightarrow> int \<Rightarrow> int \<Rightarrow> int option" where
  "strlen_loop m cstr len =
     (if m (cstr + len) \<noteq> 0 then strlen_loop m cstr (i32 (len + 1)) else Some len)"

definition strlen :: "mem \<Rightarrow> int \<Rightarrow> int option" where
  "strlen m cstr = strlen_loop m cstr 0"

text \<open>A little-endian 16-bit load, as \<^verbatim>\<open>wstr[length]\<close> compiles on i386.\<close>

definition load16 :: "mem \<Rightarrow> int \<Rightarrow> u16" where
  "load16 m a = ucast (m a) OR push_bit 8 (ucast (m (a + 1)))"

partial_function (option) wstrlen_loop :: "mem \<Rightarrow> int \<Rightarrow> int \<Rightarrow> int option" where
  "wstrlen_loop m wstr len =
     (if load16 m (wstr + 2 * len) \<noteq> 0 then wstrlen_loop m wstr (i32 (len + 1)) else Some len)"

definition wstrlen :: "mem \<Rightarrow> int \<Rightarrow> int option" where
  "wstrlen m wstr = wstrlen_loop m wstr 0"

partial_function (option) streq_loop :: "mem \<Rightarrow> int \<Rightarrow> int \<Rightarrow> int \<Rightarrow> bool option" where
  "streq_loop m lcstr rcstr i =
     (let ca = m (lcstr + i); cb = m (rcstr + i) in
      if ca \<noteq> cb then Some False
      else if ca = 0 then Some True
      else streq_loop m lcstr rcstr (i32 (i + 1)))"

definition streq :: "mem \<Rightarrow> int \<Rightarrow> int \<Rightarrow> bool option" where
  "streq m lcstr rcstr = streq_loop m lcstr rcstr 0"

definition strcpy :: "mem \<Rightarrow> int \<Rightarrow> int \<Rightarrow> (int \<times> mem) option" where
  "strcpy m buffer cstr =
     (case strlen m cstr of
        None \<Rightarrow> None
      | Some len \<Rightarrow> Some (len, snd (memcpy m buffer cstr len)))"

subsection \<open>Block operations: what they leave behind\<close>

text \<open>The memory after an ideal copy: the \<open>bytes\<close> cells at \<open>dst\<close> hold what \<open>src\<close> held before.\<close>

definition copied :: "mem \<Rightarrow> int \<Rightarrow> int \<Rightarrow> int \<Rightarrow> mem" where
  "copied m dst src bytes = patch m dst bytes (\<lambda>a. m (src + (a - dst)))"

lemma copied_self [simp]: "copied m p p bytes = m"
  by (auto simp: copied_def patch_def)

lemma copied_none [simp]: "bytes \<le> 0 \<Longrightarrow> copied m dst src bytes = m"
  by (simp add: copied_def)

text \<open>
  A forward copy in progress: below \<open>i\<close> the destination is done, and the source cells still
  to be read are untouched, because no destination cell written so far lies among them.
\<close>

lemma memcpy_loop_copied:
  assumes "dst \<le> src \<or> src + bytes \<le> dst" and "0 \<le> i" and "i \<le> bytes"
  shows "memcpy_loop (copied m dst src i) dst src i bytes = copied m dst src bytes"
  using assms
proof (induction "nat (bytes - i)" arbitrary: i)
  case 0
  then show ?case by (simp add: memcpy_loop.simps)
next
  case (Suc k)
  from Suc.hyps(2) have lt: "i < bytes" by simp
  have rd: "copied m dst src i (src + i) = m (src + i)"
    using Suc.prems lt by (auto simp: copied_def patch_def)
  have "(copied m dst src i)(dst + i := m (src + i)) = copied m dst src (i + 1)"
    unfolding copied_def using patch_snoc [OF Suc.prems(2), of m dst "\<lambda>a. m (src + (a - dst))"]
    by simp
  then have "memcpy_loop (copied m dst src i) dst src i bytes
      = memcpy_loop (copied m dst src (i + 1)) dst src (i + 1) bytes"
    using lt rd by (simp add: memcpy_loop.simps [of "copied m dst src i"])
  also have "\<dots> = copied m dst src bytes"
    using Suc.prems Suc.hyps(2) lt by (intro Suc.hyps(1)) auto
  finally show ?case .
qed

lemma memcpy_eq_copied:
  assumes "dst \<le> src \<or> src + bytes \<le> dst"
  shows "memcpy m dst src bytes = (dst, copied m dst src bytes)"
proof (cases "0 \<le> bytes")
  case True
  with memcpy_loop_copied [OF assms, of 0 m] show ?thesis by (auto simp: memcpy_def)
next
  case False
  then show ?thesis by (simp add: memcpy_def memcpy_loop.simps)
qed

text \<open>The backward copy of \<^verbatim>\<open>memmove\<close>: the cells above \<open>i\<close> are done.\<close>

definition copied_above :: "mem \<Rightarrow> int \<Rightarrow> int \<Rightarrow> int \<Rightarrow> int \<Rightarrow> mem" where
  "copied_above m dst src i bytes = patch m (dst + i + 1) (bytes - i - 1) (\<lambda>a. m (src + (a - dst)))"

lemma memmove_loop_copied:
  assumes "src < dst" and "- 1 \<le> i" and "i < bytes"
  shows "memmove_loop (copied_above m dst src i bytes) dst src i = copied m dst src bytes"
  using assms
proof (induction "nat (i + 1)" arbitrary: i)
  case 0
  then have "i = - 1" by simp
  then show ?case by (simp add: memmove_loop.simps copied_above_def copied_def)
next
  case (Suc k)
  let ?m = "copied_above m dst src i bytes"
  from Suc.hyps(2) have "0 \<le> i" by simp
  have "?m (src + i) = m (src + i)"
    using Suc.prems by (auto simp: copied_above_def patch_def)
  moreover have "?m(dst + i := m (src + i)) = copied_above m dst src (i - 1) bytes"
    using Suc.prems by (auto simp: copied_above_def patch_def fun_eq_iff)
  ultimately have "memmove_loop ?m dst src i
      = memmove_loop (copied_above m dst src (i - 1) bytes) dst src (i - 1)"
    using \<open>0 \<le> i\<close> by (simp add: memmove_loop.simps [of ?m])
  also have "\<dots> = copied m dst src bytes"
    using Suc.prems Suc.hyps(2) by (intro Suc.hyps(1)) auto
  finally show ?case .
qed

lemma memmove_eq_copied:
  assumes "- 2147483648 < bytes" and "bytes < 2147483648"
  shows "memmove m dst src bytes = (dst, copied m dst src bytes)"
proof (cases "src < dst \<and> 0 < bytes")
  case True
  then have "copied_above m dst src (bytes - 1) bytes = m"
    by (simp add: copied_above_def)
  with memmove_loop_copied [of src dst "bytes - 1" bytes m] True assms show ?thesis
    by (simp add: memmove_def)
next
  case False
  with assms show ?thesis
    by (auto simp: memmove_def memcpy_eq_copied memmove_loop.simps)
qed

lemma memset_loop_patch:
  "0 \<le> i \<Longrightarrow> i \<le> bytes \<Longrightarrow>
    memset_loop (patch m dst i (\<lambda>_. v)) dst v i bytes = patch m dst bytes (\<lambda>_. v)"
proof (induction "nat (bytes - i)" arbitrary: i)
  case 0
  then show ?case by (simp add: memset_loop.simps)
next
  case (Suc k)
  from Suc.hyps(2) have "i < bytes" by simp
  have "(patch m dst i (\<lambda>_. v))(dst + i := v) = patch m dst (i + 1) (\<lambda>_. v)"
    using patch_snoc [OF Suc.prems(1), of m dst "\<lambda>_. v"] by simp
  then have "memset_loop (patch m dst i (\<lambda>_. v)) dst v i bytes
      = memset_loop (patch m dst (i + 1) (\<lambda>_. v)) dst v (i + 1) bytes"
    using \<open>i < bytes\<close> by (simp add: memset_loop.simps [of "patch m dst i (\<lambda>_. v)"])
  also have "\<dots> = patch m dst bytes (\<lambda>_. v)"
    using Suc.prems Suc.hyps(2) by (intro Suc.hyps(1)) auto
  finally show ?case .
qed

lemma memset_eq: "memset m dst v bytes = (dst, patch m dst bytes (\<lambda>_. v))"
proof (cases "0 \<le> bytes")
  case True
  with memset_loop_patch [of 0 bytes m dst v] show ?thesis by (simp add: memset_def)
next
  case False
  then show ?thesis by (simp add: memset_def memset_loop.simps)
qed

text \<open>What another component delivers into a buffer, as a list of bytes.\<close>

definition store_bytes :: "int \<Rightarrow> u8 list \<Rightarrow> mem \<Rightarrow> mem" where
  "store_bytes a bs m = patch m a (int (length bs)) (\<lambda>x. bs ! nat (x - a))"

lemma store_bytes_other: "x < a \<or> a + int (length bs) \<le> x \<Longrightarrow> store_bytes a bs m x = m x"
  by (simp add: store_bytes_def)

subsection \<open>Strings: scans against the list of their bytes\<close>

definition cstring_at :: "mem \<Rightarrow> int \<Rightarrow> u8 list \<Rightarrow> bool" where
  "cstring_at m p bs \<longleftrightarrow>
     0 \<notin> set bs \<and> (\<forall>i < length bs. m (p + int i) = bs ! i) \<and> m (p + int (length bs)) = 0"

lemma cstring_at_Nil [simp]: "cstring_at m p [] \<longleftrightarrow> m p = 0"
  by (simp add: cstring_at_def)

lemma cstring_at_Cons [simp]:
  "cstring_at m p (b # bs) \<longleftrightarrow> b \<noteq> 0 \<and> m p = b \<and> cstring_at m (p + 1) bs"
  by (auto simp: cstring_at_def nth_Cons' All_less_Suc2 add.assoc)

lemma strlen_loop_cstring:
  "cstring_at m (p + n) bs \<Longrightarrow> 0 \<le> n \<Longrightarrow> n + int (length bs) < 2147483648 \<Longrightarrow>
    strlen_loop m p n = Some (n + int (length bs))"
proof (induction bs arbitrary: n)
  case Nil
  then show ?case by (simp add: strlen_loop.simps)
next
  case (Cons b bs)
  then have "cstring_at m (p + (n + 1)) bs" by (simp add: add.assoc)
  with Cons have "strlen_loop m p (n + 1) = Some (n + 1 + int (length bs))"
    by (intro Cons.IH) auto
  with Cons.prems show ?case by (simp add: strlen_loop.simps [of m p n])
qed

lemma strlen_cstring:
  "cstring_at m p bs \<Longrightarrow> int (length bs) < 2147483648 \<Longrightarrow> strlen m p = Some (int (length bs))"
  using strlen_loop_cstring [of m p 0 bs] by (simp add: strlen_def)

lemma streq_loop_cstring:
  "cstring_at m (p + n) as \<Longrightarrow> cstring_at m (q + n) bs \<Longrightarrow> 0 \<le> n \<Longrightarrow>
    n + int (length as) < 2147483648 \<Longrightarrow> streq_loop m p q n = Some (as = bs)"
proof (induction as arbitrary: n bs)
  case Nil
  then show ?case by (cases bs) (auto simp: streq_loop.simps)
next
  case (Cons a as)
  show ?case
  proof (cases bs)
    case Nil
    with Cons.prems show ?thesis by (auto simp: streq_loop.simps)
  next
    case (Cons b bs')
    then have tails: "cstring_at m (p + (n + 1)) as" "cstring_at m (q + (n + 1)) bs'"
      using Cons.prems by (simp_all add: add.assoc)
    have "streq_loop m p q (n + 1) = Some (as = bs')"
      using tails Cons.prems by (intro Cons.IH) auto
    with Cons Cons.prems show ?thesis by (auto simp: streq_loop.simps [of m p q n])
  qed
qed

lemma streq_cstring:
  "cstring_at m p as \<Longrightarrow> cstring_at m q bs \<Longrightarrow> int (length as) < 2147483648 \<Longrightarrow>
    streq m p q = Some (as = bs)"
  using streq_loop_cstring [of m p 0 as q bs] by (simp add: streq_def)

end
