(* ===== verification/Console.thy ===== *)
theory Console
  imports CMemory
begin

section \<open>The text console (console.c, ansi.h)\<close>

text \<open>
  The VGA text console: a four-state lexer over the output bytes, an interpreter for the ANSI
  control sequences it recognises, and the cursor, attribute and scrolling operations on the
  video memory at \<^verbatim>\<open>0xB8000\<close>.  The record holds the static variables of \<^verbatim>\<open>console.c\<close>, the
  memory the code writes through \<^verbatim>\<open>con_at\<close>, and in \<open>c_vga\<close> the last index given to
  \<^verbatim>\<open>cur_goto\<close>, the hardware cursor.  The buffer \<^verbatim>\<open>sequence\<close> is a function on indices, so that
  a write past its 64 bytes would be visible.  A \<^verbatim>\<open>char\<close> is a byte; every comparison of the
  code gives the same answer for the signed and the unsigned reading.
\<close>

subsection \<open>Constants of ansi.h and config.h\<close>

abbreviation (input) CONSOLE_MAX_ANSI_SEQUENCE :: int where "CONSOLE_MAX_ANSI_SEQUENCE \<equiv> 64"
abbreviation (input) CONSOLE_DEFAULT_ATTRIBUTE :: u8 where "CONSOLE_DEFAULT_ATTRIBUTE \<equiv> 7"
abbreviation (input) CONSOLE_TAB_DISTANCE :: int where "CONSOLE_TAB_DISTANCE \<equiv> 4"

abbreviation (input) ANSI_BACKSPACE :: u8 where "ANSI_BACKSPACE \<equiv> 0x08"
abbreviation (input) ANSI_TAB :: u8 where "ANSI_TAB \<equiv> 0x09"
abbreviation (input) ANSI_LINE_FEED :: u8 where "ANSI_LINE_FEED \<equiv> 0x0A"
abbreviation (input) ANSI_CARRIAGE_RETURN :: u8 where "ANSI_CARRIAGE_RETURN \<equiv> 0x0D"
abbreviation (input) ANSI_ESCAPE :: u8 where "ANSI_ESCAPE \<equiv> 0x1B"
abbreviation (input) ANSI_ESC_DCS :: u8 where "ANSI_ESC_DCS \<equiv> 0x90"
abbreviation (input) ANSI_ESC_CSI :: u8 where "ANSI_ESC_CSI \<equiv> 0x9B"
abbreviation (input) ANSI_ESC_OSC :: u8 where "ANSI_ESC_OSC \<equiv> 0x9D"

abbreviation (input) ANSI_ST :: u8 where "ANSI_ST \<equiv> 0x5C" \<comment> \<open>backslash\<close>
abbreviation (input) ANSI_CSI :: u8 where "ANSI_CSI \<equiv> 0x5B" \<comment> \<open>[\<close>
abbreviation (input) ANSI_OSC :: u8 where "ANSI_OSC \<equiv> 0x5D" \<comment> \<open>]\<close>
abbreviation (input) ANSI_SOS :: u8 where "ANSI_SOS \<equiv> 0x58" \<comment> \<open>X\<close>
abbreviation (input) ANSI_PM :: u8 where "ANSI_PM \<equiv> 0x5E" \<comment> \<open>^\<close>
abbreviation (input) ANSI_APC :: u8 where "ANSI_APC \<equiv> 0x5F" \<comment> \<open>_\<close>
abbreviation (input) ANSI_DCS :: u8 where "ANSI_DCS \<equiv> 0x50" \<comment> \<open>P\<close>
abbreviation (input) ANSI_DECSC :: u8 where "ANSI_DECSC \<equiv> 0x37" \<comment> \<open>7\<close>
abbreviation (input) ANSI_DECRC :: u8 where "ANSI_DECRC \<equiv> 0x38" \<comment> \<open>8\<close>
abbreviation (input) ANSI_NEOEM :: u8 where "ANSI_NEOEM \<equiv> 0x3C" \<comment> \<open>less-than sign\<close>
abbreviation (input) ANSI_NEOAM :: u8 where "ANSI_NEOAM \<equiv> 0x3E" \<comment> \<open>greater-than sign\<close>

abbreviation (input) ANSI_CSI_CUU :: u8 where "ANSI_CSI_CUU \<equiv> 0x41" \<comment> \<open>A\<close>
abbreviation (input) ANSI_CSI_CUD :: u8 where "ANSI_CSI_CUD \<equiv> 0x42" \<comment> \<open>B\<close>
abbreviation (input) ANSI_CSI_CUF :: u8 where "ANSI_CSI_CUF \<equiv> 0x43" \<comment> \<open>C\<close>
abbreviation (input) ANSI_CSI_CUB :: u8 where "ANSI_CSI_CUB \<equiv> 0x44" \<comment> \<open>D\<close>
abbreviation (input) ANSI_CSI_CNL :: u8 where "ANSI_CSI_CNL \<equiv> 0x45" \<comment> \<open>E\<close>
abbreviation (input) ANSI_CSI_CUP :: u8 where "ANSI_CSI_CUP \<equiv> 0x48" \<comment> \<open>H\<close>
abbreviation (input) ANSI_CSI_ED :: u8 where "ANSI_CSI_ED \<equiv> 0x4A" \<comment> \<open>J\<close>
abbreviation (input) ANSI_CSI_EL :: u8 where "ANSI_CSI_EL \<equiv> 0x4B" \<comment> \<open>K\<close>
abbreviation (input) ANSI_CSI_SU :: u8 where "ANSI_CSI_SU \<equiv> 0x53" \<comment> \<open>S\<close>
abbreviation (input) ANSI_CSI_SD :: u8 where "ANSI_CSI_SD \<equiv> 0x54" \<comment> \<open>T\<close>
abbreviation (input) ANSI_CSI_HVP :: u8 where "ANSI_CSI_HVP \<equiv> 0x66" \<comment> \<open>f\<close>
abbreviation (input) ANSI_CSI_SGR :: u8 where "ANSI_CSI_SGR \<equiv> 0x6D" \<comment> \<open>m\<close>
abbreviation (input) ANSI_CSI_SCP :: u8 where "ANSI_CSI_SCP \<equiv> 0x73" \<comment> \<open>s\<close>
abbreviation (input) ANSI_CSI_RCP :: u8 where "ANSI_CSI_RCP \<equiv> 0x75" \<comment> \<open>u\<close>

abbreviation (input) ANSI_SGR_RESET :: int where "ANSI_SGR_RESET \<equiv> 0"
abbreviation (input) ANSI_SGR_BOLD :: int where "ANSI_SGR_BOLD \<equiv> 1"
abbreviation (input) ANSI_SGR_BOLD_RESET :: int where "ANSI_SGR_BOLD_RESET \<equiv> 22"
abbreviation (input) ANSI_SGR_INVERT :: int where "ANSI_SGR_INVERT \<equiv> 7"
abbreviation (input) ANSI_SGR_INVERT_RESET :: int where "ANSI_SGR_INVERT_RESET \<equiv> 27"
abbreviation (input) ANSI_SGR_FG_COLOR_BEGIN :: int where "ANSI_SGR_FG_COLOR_BEGIN \<equiv> 30"
abbreviation (input) ANSI_SGR_FG_COLOR_END :: int where "ANSI_SGR_FG_COLOR_END \<equiv> 37"
abbreviation (input) ANSI_SGR_FG_COLOR_RESET :: int where "ANSI_SGR_FG_COLOR_RESET \<equiv> 39"
abbreviation (input) ANSI_SGR_FG_BOLD_BEGIN :: int where "ANSI_SGR_FG_BOLD_BEGIN \<equiv> 90"
abbreviation (input) ANSI_SGR_FG_BOLD_END :: int where "ANSI_SGR_FG_BOLD_END \<equiv> 97"
abbreviation (input) ANSI_SGR_BG_COLOR_BEGIN :: int where "ANSI_SGR_BG_COLOR_BEGIN \<equiv> 40"
abbreviation (input) ANSI_SGR_BG_COLOR_END :: int where "ANSI_SGR_BG_COLOR_END \<equiv> 47"
abbreviation (input) ANSI_SGR_BG_COLOR_RESET :: int where "ANSI_SGR_BG_COLOR_RESET \<equiv> 49"
abbreviation (input) ANSI_SGR_BG_BOLD_BEGIN :: int where "ANSI_SGR_BG_BOLD_BEGIN \<equiv> 100"
abbreviation (input) ANSI_SGR_BG_BOLD_END :: int where "ANSI_SGR_BG_BOLD_END \<equiv> 107"

abbreviation (input) ANSI_ERASE_AFTER :: int where "ANSI_ERASE_AFTER \<equiv> 0"
abbreviation (input) ANSI_ERASE_BEFORE :: int where "ANSI_ERASE_BEFORE \<equiv> 1"
abbreviation (input) ANSI_ERASE_WHOLE :: int where "ANSI_ERASE_WHOLE \<equiv> 2"
abbreviation (input) ANSI_ERASE_RESET :: int where "ANSI_ERASE_RESET \<equiv> 3"

definition ANSI_CSI_FINAL :: "u8 \<Rightarrow> bool" where
  "ANSI_CSI_FINAL b \<longleftrightarrow> b \<ge> 0x40 \<and> b \<le> 0x7E"

abbreviation (input) AB :: u8 where "AB \<equiv> 0b11110000"
abbreviation (input) AB_I :: u8 where "AB_I \<equiv> 0b10000000"
abbreviation (input) AB_C :: u8 where "AB_C \<equiv> 0b01110000"
abbreviation (input) AF :: u8 where "AF \<equiv> 0b00001111"
abbreviation (input) AF_I :: u8 where "AF_I \<equiv> 0b00001000"
abbreviation (input) AF_C :: u8 where "AF_C \<equiv> 0b00000111"

subsection \<open>State\<close>

text \<open>The function pointer \<^verbatim>\<open>output_lexer\<close> only ever holds one of four functions.\<close>

datatype lexer = Lexer_initial | Lexer_escape | Lexer_csi | Lexer_until_st

record console =
  c_mem :: mem
  output_lexer :: lexer
  c_sequence :: "int \<Rightarrow> u8"
  c_length :: int
  c_invert :: bool
  c_attribute :: u8
  c_width :: int
  c_height :: int
  c_x :: int
  c_y :: int
  c_shortcuts :: bool
  c_sa :: u8
  c_sx :: int
  c_sy :: int
  c_vga :: int

subsection \<open>Cursor, attributes, cells\<close>

definition con_cursor :: "console \<Rightarrow> int \<Rightarrow> int \<Rightarrow> console" where
  "con_cursor c nx ny =
     (if nx \<noteq> c_x c \<or> ny \<noteq> c_y c
      then c\<lparr>c_x := nx, c_y := ny, c_vga := i32 (nx + i32 (ny * c_width c))\<rparr>
      else c)"

definition con_next_tab_stop :: "console \<Rightarrow> int" where
  "con_next_tab_stop c =
     i32 ((c_x c sdiv CONSOLE_TAB_DISTANCE) * CONSOLE_TAB_DISTANCE
          + (if c_x c smod CONSOLE_TAB_DISTANCE \<noteq> 0 then CONSOLE_TAB_DISTANCE else 0))"

definition con_ansi_to_vga :: "int \<Rightarrow> u8" where
  "con_ansi_to_vga index =
     (let color = (word_of_int index :: u8) AND 7 in
      (color AND 0b010) OR push_bit 2 (color AND 0b001) OR drop_bit 2 (color AND 0b100))"

definition con_attr :: "console \<Rightarrow> u8" where
  "con_attr c =
     (if \<not> c_invert c then c_attribute c
      else (let top = push_bit 4 (0x0F AND c_attribute c) in
            (top OR drop_bit 4 (c_attribute c)) AND 0xFF))"

definition con_at :: "console \<Rightarrow> int \<Rightarrow> int \<Rightarrow> int" where
  "con_at c x y = 0xB8000 + 2 * i32 (x + i32 (y * c_width c))"

subsection \<open>Parameters of a control sequence\<close>

definition con_next_char :: "(int \<Rightarrow> u8) \<Rightarrow> int \<Rightarrow> int \<Rightarrow> u8 \<times> int" where
  "con_next_char sequence head lst =
     (if head > lst then (0, head) else (sequence head, head + 1))"

definition is_digit :: "u8 \<Rightarrow> bool" where
  "is_digit b \<longleftrightarrow> b \<ge> 0x30 \<and> b \<le> 0x39"

lemma zero_not_digit [simp]: "\<not> is_digit 0"
  by (simp add: is_digit_def)

function con_next_int_loop ::
  "(int \<Rightarrow> u8) \<Rightarrow> int \<Rightarrow> int \<Rightarrow> int \<Rightarrow> bool \<Rightarrow> int \<Rightarrow> int \<times> int" where
  "con_next_int_loop sequence head lst fallback first accumulator =
     (case con_next_char sequence head lst of (c, head') \<Rightarrow>
        if is_digit c
        then con_next_int_loop sequence head' lst fallback False
               (i32 (i32 (accumulator * 10) + (uint c - 48)))
        else (if first then fallback else accumulator, head' - 1))"
  by pat_completeness auto
termination
  by (relation "measure (\<lambda>(sequence, head, lst, fallback, first, accumulator). nat (lst + 1 - head))")
     (auto simp: con_next_char_def split: if_splits)

declare con_next_int_loop.simps [simp del]

definition con_next_int :: "(int \<Rightarrow> u8) \<Rightarrow> int \<Rightarrow> int \<Rightarrow> int \<Rightarrow> int \<times> int" where
  "con_next_int sequence head lst fallback =
     con_next_int_loop sequence head lst fallback True 0"

text \<open>The scan never moves back, and stops on the first byte that is not a digit.\<close>

lemma con_next_int_loop_head:
  "head \<le> lst \<Longrightarrow> con_next_int_loop sequence head lst fallback first acc = (v, head') \<Longrightarrow>
    head \<le> head' \<and> head' \<le> lst"
proof (induction sequence head lst fallback first acc rule: con_next_int_loop.induct)
  case (1 sequence head lst fallback first acc)
  show ?case
  proof (cases "is_digit (sequence head)")
    case False
    with "1.prems" show ?thesis
      by (auto simp: con_next_int_loop.simps [of sequence head] con_next_char_def)
  next
    case True
    let ?acc = "i32 (i32 (acc * 10) + (uint (sequence head) - 48))"
    from True "1.prems" have rec:
      "con_next_int_loop sequence (head + 1) lst fallback False ?acc = (v, head')"
      by (simp add: con_next_int_loop.simps [of sequence head] con_next_char_def)
    show ?thesis
    proof (cases "head + 1 \<le> lst")
      case next_in: True
      have "con_next_char sequence head lst = (sequence head, head + 1)"
        using "1.prems"(1) by (simp add: con_next_char_def)
      from "1.IH" [OF this [symmetric] True next_in rec] show ?thesis by simp
    next
      case False
      with rec "1.prems"(1) show ?thesis
        by (auto simp: con_next_int_loop.simps [of sequence "head + 1"] con_next_char_def)
    qed
  qed
qed

lemma con_next_int_head:
  "(v, head') = con_next_int sequence head lst fallback \<Longrightarrow> head \<le> lst \<Longrightarrow>
    head \<le> head' \<and> head' \<le> lst"
  using con_next_int_loop_head [of head lst sequence fallback True 0 v head']
  by (simp add: con_next_int_def)

subsection \<open>Select Graphic Rendition\<close>

definition con_srg_apply :: "console \<Rightarrow> int \<Rightarrow> console" where
  "con_srg_apply c code =
     (if code = ANSI_SGR_RESET then c\<lparr>c_attribute := CONSOLE_DEFAULT_ATTRIBUTE\<rparr>
      else if code = ANSI_SGR_BOLD then c\<lparr>c_attribute := c_attribute c OR AF_I\<rparr>
      else if code = ANSI_SGR_BOLD_RESET then c\<lparr>c_attribute := c_attribute c AND NOT AF_I\<rparr>
      else if code = ANSI_SGR_INVERT then c\<lparr>c_invert := True\<rparr>
      else if code = ANSI_SGR_INVERT_RESET then c\<lparr>c_invert := False\<rparr>
      else
        let c = (if code \<ge> ANSI_SGR_FG_COLOR_BEGIN \<and> code \<le> ANSI_SGR_FG_COLOR_END
                 then c\<lparr>c_attribute := (c_attribute c AND NOT AF_C)
                          OR con_ansi_to_vga (code - ANSI_SGR_FG_COLOR_BEGIN)\<rparr> else c);
            c = (if code = ANSI_SGR_FG_COLOR_RESET
                 then c\<lparr>c_attribute := (c_attribute c AND NOT AF_C)
                          OR (CONSOLE_DEFAULT_ATTRIBUTE AND AF_C)\<rparr> else c);
            c = (if code \<ge> ANSI_SGR_BG_COLOR_BEGIN \<and> code \<le> ANSI_SGR_BG_COLOR_END
                 then c\<lparr>c_attribute := (c_attribute c AND NOT AB_C)
                          OR push_bit 4 (con_ansi_to_vga (code - ANSI_SGR_BG_COLOR_BEGIN))\<rparr> else c);
            c = (if code = ANSI_SGR_BG_COLOR_RESET
                 then c\<lparr>c_attribute := c_attribute c AND NOT AB_C\<rparr> else c);
            c = (if code \<ge> ANSI_SGR_FG_BOLD_BEGIN \<and> code \<le> ANSI_SGR_FG_BOLD_END
                 then c\<lparr>c_attribute := (c_attribute c AND NOT AF)
                          OR con_ansi_to_vga (code - ANSI_SGR_FG_BOLD_BEGIN) OR AF_I\<rparr> else c);
            c = (if code \<ge> ANSI_SGR_BG_BOLD_BEGIN \<and> code \<le> ANSI_SGR_BG_BOLD_END
                 then c\<lparr>c_attribute := (c_attribute c AND NOT AB)
                          OR push_bit 4 (con_ansi_to_vga (code - ANSI_SGR_BG_BOLD_BEGIN)) OR AB_I\<rparr> else c)
        in c)"

text \<open>
  The argument loop of \<^verbatim>\<open>con_sgr_execute\<close>.  Each round consumes at least the separator, so
  the distance to \<open>lst\<close> shrinks.
\<close>

function con_sgr_loop :: "console \<Rightarrow> int \<Rightarrow> int \<Rightarrow> bool \<Rightarrow> console \<times> bool" where
  "con_sgr_loop c head lst first =
     (if head < lst then
        (case con_next_int (c_sequence c) head lst (-1) of (arg, head1) \<Rightarrow>
         case con_next_char (c_sequence c) head1 lst of (_, head2) \<Rightarrow>
           if arg = -1 then (c, first)
           else con_sgr_loop (con_srg_apply c arg) head2 lst False)
      else (c, first))"
  by pat_completeness auto
termination
  by (relation "measure (\<lambda>(c, head, lst, first). nat (lst - head))")
     (auto simp: con_next_char_def dest: con_next_int_head)

declare con_sgr_loop.simps [simp del]

definition con_sgr_execute :: "console \<Rightarrow> int \<Rightarrow> int \<Rightarrow> console" where
  "con_sgr_execute c head lst =
     (case con_sgr_loop c head lst True of (c', first) \<Rightarrow>
        if first then con_srg_apply c' 0 else c')"

subsection \<open>Erasing and scrolling\<close>

function con_erase_loop :: "mem \<Rightarrow> int \<Rightarrow> int \<Rightarrow> mem" where
  "con_erase_loop m glyph stop =
     (if glyph < stop
      then con_erase_loop (m(glyph := 0, glyph + 1 := CONSOLE_DEFAULT_ATTRIBUTE)) (glyph + 2) stop
      else m)"
  by pat_completeness auto
termination
  by (relation "measure (\<lambda>(m, glyph, stop). nat (stop - glyph))") auto

declare con_erase_loop.simps [simp del]

definition con_erase :: "console \<Rightarrow> int \<Rightarrow> int \<Rightarrow> int \<Rightarrow> int \<Rightarrow> console" where
  "con_erase c x1 y1 x2 y2 =
     c\<lparr>c_mem := con_erase_loop (c_mem c) (con_at c x1 y1) (con_at c x2 y2)\<rparr>"

definition con_scroll :: "console \<Rightarrow> int \<Rightarrow> console" where
  "con_scroll c offset =
     (let sign = sgn_c offset;
          lines = min_c (abs_c offset) (c_height c);
          lst = i32 (c_height c - 1);
          row = i32 (c_width c * 2);
          moves = i32 (c_height c - lines);
          clears = i32 (c_height c - moves) in
      if sign = -1 then
        (let c = c\<lparr>c_mem := snd (memmove (c_mem c) (con_at c 0 lines) (con_at c 0 0) (i32 (moves * row)))\<rparr>;
             c = con_erase c 0 0 0 clears;
             ny = i32 (c_y c + lines);
             ny = (if ny > lst then lst else ny)
         in con_cursor c (c_x c) ny)
      else if sign = 1 then
        (let c = c\<lparr>c_mem := snd (memmove (c_mem c) (con_at c 0 0) (con_at c 0 lines) (i32 (moves * row)))\<rparr>;
             c = con_erase c 0 moves 0 (i32 (moves + clears));
             ny = i32 (c_y c - lines);
             ny = (if ny < 0 then 0 else ny)
         in con_cursor c (c_x c) ny)
      else c)"

subsection \<open>Control sequences\<close>

text \<open>
  \<^verbatim>\<open>con_csi_execute\<close>, one branch per final byte in the order of the code.  The second
  branch for \<^verbatim>\<open>CNL\<close> is the code's: it repeats the test of the branch above it, so it is
  never taken.
\<close>

definition con_csi_execute :: "console \<Rightarrow> int \<Rightarrow> int \<Rightarrow> console" where
  "con_csi_execute c head lst =
     (let sequence = c_sequence c; code = sequence lst;
          x = c_x c; y = c_y c; width = c_width c; height = c_height c in
      if code = ANSI_CSI_CUU then
        (let arg = fst (con_next_int sequence head lst 1)
         in con_cursor c x (max_c (i32 (y - arg)) 0))
      else if code = ANSI_CSI_CUD then
        (let arg = fst (con_next_int sequence head lst 1)
         in con_cursor c x (min_c (i32 (y + arg)) (i32 (height - 1))))
      else if code = ANSI_CSI_CUF then
        (let arg = fst (con_next_int sequence head lst 1)
         in con_cursor c (min_c (i32 (x + arg)) (i32 (width - 1))) y)
      else if code = ANSI_CSI_CUB then
        (let arg = fst (con_next_int sequence head lst 1)
         in con_cursor c (max_c (i32 (x - arg)) 0) y)
      else if code = ANSI_CSI_CNL then
        (let arg = fst (con_next_int sequence head lst 1)
         in con_cursor c 0 (min_c (i32 (y + arg)) (i32 (height - 1))))
      else if code = ANSI_CSI_CNL then
        (let arg = fst (con_next_int sequence head lst 1)
         in con_cursor c x (min_c (i32 (y + arg)) (i32 (height - 1))))
      else if code = ANSI_CSI_CUP \<or> code = ANSI_CSI_HVP then
        (case con_next_int sequence head lst 1 of (n1, head1) \<Rightarrow>
         case con_next_char sequence head1 lst of (_, head2) \<Rightarrow>
         case con_next_int sequence head2 lst 1 of (m1, _) \<Rightarrow>
           con_cursor c (clamp (i32 (n1 - 1)) 0 (i32 (width - 1)))
                        (clamp (i32 (m1 - 1)) 0 (i32 (height - 1))))
      else if code = ANSI_CSI_ED then
        (let n = fst (con_next_int sequence head lst 0) in
         if n = ANSI_ERASE_AFTER then con_erase c x y (i32 (width - 1)) (i32 (height - 1))
         else if n = ANSI_ERASE_BEFORE then con_erase c 0 0 x y
         else if n = ANSI_ERASE_WHOLE \<or> n = ANSI_ERASE_RESET
           then con_erase c 0 0 (i32 (width - 1)) (i32 (height - 1))
         else c)
      else if code = ANSI_CSI_EL then
        (let n = fst (con_next_int sequence head lst 0) in
         if n = ANSI_ERASE_AFTER then con_erase c x y (i32 (width - 1)) y
         else if n = ANSI_ERASE_BEFORE then con_erase c 0 y x y
         else if n = ANSI_ERASE_WHOLE \<or> n = ANSI_ERASE_RESET
           then con_erase c 0 y (i32 (width - 1)) y
         else c)
      else if code = ANSI_CSI_SU then
        (let n = fst (con_next_int sequence head lst 1) in con_scroll c n)
      else if code = ANSI_CSI_SD then
        (let n = fst (con_next_int sequence head lst 1) in con_scroll c (i32 (- n)))
      else if code = ANSI_CSI_SCP then c\<lparr>c_sx := x, c_sy := y\<rparr>
      else if code = ANSI_CSI_RCP then con_cursor c (c_sx c) (c_sy c)
      else if code = ANSI_CSI_SGR then con_sgr_execute c head lst
      else c)"

definition con_execute :: "console \<Rightarrow> console" where
  "con_execute c =
     (let lst = i32 (c_length c - 1); head = 1 in
      if c_sequence c 0 = ANSI_CSI then con_csi_execute c head lst else c)"

subsection \<open>Lexers\<close>

definition con_reset_sequence :: "console \<Rightarrow> u8 \<Rightarrow> console" where
  "con_reset_sequence c code =
     c\<lparr>c_sequence := (snd (memset (c_sequence c) 0 0 CONSOLE_MAX_ANSI_SEQUENCE))(0 := code),
       c_length := 1\<rparr>"

text \<open>The tail of \<^verbatim>\<open>con_lexer_initial\<close> behind the label \<^verbatim>\<open>adjust\<close>.\<close>

definition con_adjust :: "console \<Rightarrow> console" where
  "con_adjust c =
     (let nx = i32 (c_x c + 1);
          ny = c_y c;
          (nx, ny) = (if nx \<ge> c_width c then (0, i32 (ny + 1)) else (nx, ny));
          c = con_cursor c nx ny
      in if c_y c \<ge> c_height c then con_scroll c 1 else c)"

definition con_lexer_initial :: "console \<Rightarrow> u8 \<Rightarrow> console" where
  "con_lexer_initial c code =
     (if code = ANSI_BACKSPACE then
        (if c_x c > 0 then con_cursor c (i32 (c_x c - 1)) (c_y c) else c)
      else if code = ANSI_CARRIAGE_RETURN then con_cursor c 0 (c_y c)
      else if code = ANSI_LINE_FEED then
        (let c = con_cursor c 0 (i32 (c_y c + 1))
         in if c_y c \<ge> c_height c then con_scroll c 1 else c)
      else if code = ANSI_ESCAPE then c\<lparr>output_lexer := Lexer_escape\<rparr>
      else if c_shortcuts c \<and> code = ANSI_ESC_CSI then
        (con_reset_sequence c ANSI_CSI)\<lparr>output_lexer := Lexer_csi\<rparr>
      else if c_shortcuts c \<and> (code = ANSI_ESC_DCS \<or> code = ANSI_ESC_OSC) then
        (con_reset_sequence c ANSI_CSI)\<lparr>output_lexer := Lexer_until_st\<rparr>
      else if code = ANSI_TAB then
        con_adjust (con_cursor c (con_next_tab_stop c) (c_y c))
      else
        (let glyph = con_at c (c_x c) (c_y c)
         in con_adjust (c\<lparr>c_mem := (c_mem c)(glyph := code, glyph + 1 := con_attr c)\<rparr>)))"

definition con_lexer_escape :: "console \<Rightarrow> u8 \<Rightarrow> console" where
  "con_lexer_escape c code =
     (let c = con_reset_sequence c code in
      if code = ANSI_CSI then c\<lparr>output_lexer := Lexer_csi\<rparr>
      else if code = ANSI_OSC \<or> code = ANSI_SOS \<or> code = ANSI_PM \<or> code = ANSI_APC \<or> code = ANSI_DCS
        then c\<lparr>output_lexer := Lexer_until_st\<rparr>
      else if code = ANSI_NEOEM then c\<lparr>c_shortcuts := False, output_lexer := Lexer_initial\<rparr>
      else if code = ANSI_NEOAM then c\<lparr>c_shortcuts := True, output_lexer := Lexer_initial\<rparr>
      else if code = ANSI_DECSC then
        c\<lparr>c_sx := c_x c, c_sy := c_y c, c_sa := c_attribute c, output_lexer := Lexer_initial\<rparr>
      else if code = ANSI_DECRC then
        (con_cursor c (c_sx c) (c_sy c))\<lparr>c_attribute := c_sa c, output_lexer := Lexer_initial\<rparr>
      else c\<lparr>output_lexer := Lexer_initial\<rparr>)"

definition con_push :: "console \<Rightarrow> u8 \<Rightarrow> console" where
  "con_push c code =
     c\<lparr>c_sequence := (c_sequence c)(c_length c := code), c_length := i32 (c_length c + 1)\<rparr>"

definition con_lexer_csi :: "console \<Rightarrow> u8 \<Rightarrow> console" where
  "con_lexer_csi c code =
     (let c = con_push c code in
      if ANSI_CSI_FINAL code then (con_execute c)\<lparr>output_lexer := Lexer_initial\<rparr>
      else if c_length c \<ge> CONSOLE_MAX_ANSI_SEQUENCE then c\<lparr>output_lexer := Lexer_initial\<rparr>
      else c)"

definition con_lexer_until_st :: "console \<Rightarrow> u8 \<Rightarrow> console" where
  "con_lexer_until_st c code =
     (let c = con_push c code in
      if code = ANSI_ST \<and> c_length c > 1 \<and> c_sequence c (i32 (c_length c - 2)) = ANSI_ESCAPE
        then (con_execute c)\<lparr>output_lexer := Lexer_initial\<rparr>
      else if c_length c \<ge> CONSOLE_MAX_ANSI_SEQUENCE then c\<lparr>output_lexer := Lexer_initial\<rparr>
      else c)"

definition con_write :: "console \<Rightarrow> u8 \<Rightarrow> console" where
  "con_write c code =
     (case output_lexer c of
        Lexer_initial \<Rightarrow> con_lexer_initial c code
      | Lexer_escape \<Rightarrow> con_lexer_escape c code
      | Lexer_csi \<Rightarrow> con_lexer_csi c code
      | Lexer_until_st \<Rightarrow> con_lexer_until_st c code)"

definition con_init :: "console \<Rightarrow> int \<Rightarrow> int \<Rightarrow> console" where
  "con_init c max_width max_height =
     (let c = c\<lparr>c_width := max_width, c_height := max_height,
               c_attribute := CONSOLE_DEFAULT_ATTRIBUTE, output_lexer := Lexer_initial,
               c_length := 0, c_invert := False, c_shortcuts := True, c_x := 1\<rparr>;
          c = con_cursor c 0 0;
          c = c\<lparr>c_sa := c_attribute c, c_sx := 0, c_sy := 0\<rparr>
      in con_erase c 0 0 (i32 (max_width - 1)) (i32 (max_height - 1)))"

text \<open>A whole output stream, byte by byte.\<close>

definition con_puts :: "console \<Rightarrow> u8 list \<Rightarrow> console" where
  "con_puts c bs = fold (\<lambda>b c. con_write c b) bs c"

lemma con_puts_Nil [simp]: "con_puts c [] = c"
  by (simp add: con_puts_def)

lemma con_puts_Cons [simp]: "con_puts c (b # bs) = con_puts (con_write c b) bs"
  by (simp add: con_puts_def)

lemma con_puts_append: "con_puts c (as @ bs) = con_puts (con_puts c as) bs"
  by (simp add: con_puts_def)

end
