(* ===== verification/ConsoleSafety.thy ===== *)
theory ConsoleSafety
  imports Console
begin

section \<open>The console stays on the screen\<close>

text \<open>
  The invariant of the console (cursor and saved cursor on the screen, the sequence buffer
  within its 64 bytes while a lexer fills it), the exact memory effect of erasing and
  scrolling, and the preservation of the invariant by every operation.  Numbers of a control
  sequence are not bounded by the code and wrap at 32 bits, so preservation for whole byte
  streams assumes that no control sequence holds ten digits in a row.
\<close>

subsection \<open>Geometry\<close>

definition con_geom :: "console \<Rightarrow> bool" where
  "con_geom c \<longleftrightarrow> 0 < c_width c \<and> c_width c \<le> 32767 \<and> 0 < c_height c \<and> c_height c \<le> 32767"

definition con_on_screen :: "console \<Rightarrow> int \<Rightarrow> int \<Rightarrow> bool" where
  "con_on_screen c x y \<longleftrightarrow> 0 \<le> x \<and> x < c_width c \<and> 0 \<le> y \<and> y < c_height c"

definition screen_base :: int where
  "screen_base = 0xB8000"

definition screen_bytes :: "console \<Rightarrow> int" where
  "screen_bytes c = 2 * (c_width c * c_height c)"

text \<open>Everything outside the video memory of the screen is as before.\<close>

definition con_frame :: "console \<Rightarrow> console \<Rightarrow> bool" where
  "con_frame c c' \<longleftrightarrow>
     c_width c' = c_width c \<and> c_height c' = c_height c \<and>
     (\<forall>a. a < screen_base \<or> screen_base + screen_bytes c \<le> a \<longrightarrow> c_mem c' a = c_mem c a)"

lemma con_frame_refl [simp]: "con_frame c c"
  by (simp add: con_frame_def)

lemma con_frame_trans: "con_frame a b \<Longrightarrow> con_frame b c \<Longrightarrow> con_frame a c"
  by (simp add: con_frame_def screen_bytes_def)

lemma cell_below:
  fixes x y w h :: int
  assumes "0 \<le> x" "x < w" "0 \<le> y" "y < h"
  shows "x + y * w < w * h"
proof -
  have "y * w \<le> (h - 1) * w" using assms by (intro mult_right_mono) auto
  with assms show ?thesis by (simp add: algebra_simps)
qed

lemma area_bound:
  fixes w h :: int
  assumes "0 \<le> w" "w \<le> 32767" "0 \<le> h" "h \<le> 32767"
  shows "w * h \<le> 1073676289"
proof -
  have "w * h \<le> 32767 * 32767" using assms by (intro mult_mono) auto
  then show ?thesis by simp
qed

lemma row_bound:
  fixes w y :: int
  assumes "0 < w" "w \<le> 32767" "0 \<le> y" "y \<le> 32767"
  shows "0 \<le> y * w" and "y * w \<le> 1073676289"
  using assms area_bound [of y w] by auto

text \<open>On and just below the screen the address computation does not wrap.\<close>

lemma con_at_eq:
  assumes "con_geom c" "0 \<le> x" "x \<le> c_width c" "0 \<le> y" "y \<le> c_height c"
  shows "con_at c x y = screen_base + 2 * (x + y * c_width c)"
proof -
  let ?r = "y * c_width c"
  have r: "0 \<le> ?r" "?r \<le> 1073676289" and x: "0 \<le> x" "x \<le> 32767"
    using assms row_bound [of "c_width c" y] by (auto simp: con_geom_def)
  have "i32 ?r = ?r" using r by (intro i32_id) linarith+
  moreover have "i32 (x + ?r) = x + ?r" using r x by (intro i32_id) linarith+
  ultimately show ?thesis by (simp add: con_at_def screen_base_def)
qed

subsection \<open>Fields that operations leave alone\<close>

lemma con_cursor_x [simp]: "c_x (con_cursor c nx ny) = nx"
  by (simp add: con_cursor_def)

lemma con_cursor_y [simp]: "c_y (con_cursor c nx ny) = ny"
  by (simp add: con_cursor_def)

lemma con_cursor_frame [simp]:
  "c_mem (con_cursor c nx ny) = c_mem c" "c_width (con_cursor c nx ny) = c_width c"
  "c_height (con_cursor c nx ny) = c_height c" "c_sx (con_cursor c nx ny) = c_sx c"
  "c_sy (con_cursor c nx ny) = c_sy c" "c_length (con_cursor c nx ny) = c_length c"
  "output_lexer (con_cursor c nx ny) = output_lexer c"
  "c_sequence (con_cursor c nx ny) = c_sequence c" "c_invert (con_cursor c nx ny) = c_invert c"
  "c_attribute (con_cursor c nx ny) = c_attribute c"
  "c_shortcuts (con_cursor c nx ny) = c_shortcuts c" "c_sa (con_cursor c nx ny) = c_sa c"
  by (simp_all add: con_cursor_def)

lemma con_at_cursor [simp]: "con_at (con_cursor c nx ny) = con_at c"
  by (simp add: con_at_def fun_eq_iff)

lemma con_erase_frame [simp]:
  "c_width (con_erase c x1 y1 x2 y2) = c_width c" "c_height (con_erase c x1 y1 x2 y2) = c_height c"
  "c_x (con_erase c x1 y1 x2 y2) = c_x c" "c_y (con_erase c x1 y1 x2 y2) = c_y c"
  "c_sx (con_erase c x1 y1 x2 y2) = c_sx c" "c_sy (con_erase c x1 y1 x2 y2) = c_sy c"
  "c_length (con_erase c x1 y1 x2 y2) = c_length c"
  "output_lexer (con_erase c x1 y1 x2 y2) = output_lexer c"
  "c_sequence (con_erase c x1 y1 x2 y2) = c_sequence c"
  by (simp_all add: con_erase_def)

lemma con_srg_apply_frame [simp]:
  "c_mem (con_srg_apply c code) = c_mem c" "c_width (con_srg_apply c code) = c_width c"
  "c_height (con_srg_apply c code) = c_height c" "c_x (con_srg_apply c code) = c_x c"
  "c_y (con_srg_apply c code) = c_y c" "c_sx (con_srg_apply c code) = c_sx c"
  "c_sy (con_srg_apply c code) = c_sy c" "c_length (con_srg_apply c code) = c_length c"
  "output_lexer (con_srg_apply c code) = output_lexer c"
  "c_sequence (con_srg_apply c code) = c_sequence c"
  by (simp_all add: con_srg_apply_def Let_def)

text \<open>Only the attribute and the inversion flag differ between two consoles.\<close>

definition same_but_attr :: "console \<Rightarrow> console \<Rightarrow> bool" where
  "same_but_attr c c' \<longleftrightarrow>
     c_mem c' = c_mem c \<and> c_width c' = c_width c \<and> c_height c' = c_height c \<and> c_x c' = c_x c \<and>
     c_y c' = c_y c \<and> c_sx c' = c_sx c \<and> c_sy c' = c_sy c \<and> c_length c' = c_length c \<and>
     output_lexer c' = output_lexer c \<and> c_sequence c' = c_sequence c"

lemma same_but_attr_apply [simp]: "same_but_attr c (con_srg_apply c code)"
  by (simp add: same_but_attr_def)

lemma con_sgr_loop_frame: "same_but_attr c (fst (con_sgr_loop c head lst first))"
proof (induction c head lst first rule: con_sgr_loop.induct)
  case (1 c head lst first)
  show ?case
  proof (cases "con_next_int (c_sequence c) head lst (-1)")
    case (Pair arg head1)
    obtain ch head2 where nc: "con_next_char (c_sequence c) head1 lst = (ch, head2)"
      by (cases "con_next_char (c_sequence c) head1 lst")
    show ?thesis
    proof (cases "head < lst \<and> arg \<noteq> -1")
      case True
      then have "same_but_attr (con_srg_apply c arg) (fst (con_sgr_loop (con_srg_apply c arg) head2 lst False))"
        using "1.IH" [OF _ Pair [symmetric] nc [symmetric]] by auto
      with True Pair nc show ?thesis
        by (simp add: con_sgr_loop.simps [of c head] same_but_attr_def)
    next
      case False
      with Pair nc show ?thesis
        by (auto simp: con_sgr_loop.simps [of c head] same_but_attr_def)
    qed
  qed
qed

lemma con_sgr_execute_frame: "same_but_attr c (con_sgr_execute c head lst)"
proof -
  obtain c' f where "con_sgr_loop c head lst True = (c', f)"
    by (cases "con_sgr_loop c head lst True")
  with con_sgr_loop_frame [of c head lst True] show ?thesis
    by (simp add: con_sgr_execute_def same_but_attr_def)
qed

subsection \<open>The effect of erasing\<close>

definition blank_cell :: "int \<Rightarrow> int \<Rightarrow> u8" where
  "blank_cell lo a = (if even (a - lo) then 0 else CONSOLE_DEFAULT_ATTRIBUTE)"

lemma con_erase_loop_patch_aux:
  "even (stop - lo) \<Longrightarrow> even (g - lo) \<Longrightarrow> lo \<le> g \<Longrightarrow> g \<le> stop \<Longrightarrow>
    con_erase_loop (patch m lo (g - lo) (blank_cell lo)) g stop = patch m lo (stop - lo) (blank_cell lo)"
proof (induction "nat (stop - g)" arbitrary: g rule: less_induct)
  case less
  show ?case
  proof (cases "g < stop")
    case False
    with less.prems show ?thesis by (simp add: con_erase_loop.simps)
  next
    case True
    with less.prems have ge: "g + 2 \<le> stop" by presburger
    have "(patch m lo (g - lo) (blank_cell lo))(g := 0, g + 1 := CONSOLE_DEFAULT_ATTRIBUTE)
        = patch m lo (g + 2 - lo) (blank_cell lo)"
      using less.prems True by (auto simp: patch_def blank_cell_def fun_eq_iff)
    then have "con_erase_loop (patch m lo (g - lo) (blank_cell lo)) g stop
        = con_erase_loop (patch m lo (g + 2 - lo) (blank_cell lo)) (g + 2) stop"
      using True by (simp add: con_erase_loop.simps [of _ g])
    also have "\<dots> = patch m lo (stop - lo) (blank_cell lo)"
      using less.prems True ge by (intro less.hyps) auto
    finally show ?thesis .
  qed
qed

lemma con_erase_loop_patch:
  "even (stop - g) \<Longrightarrow> con_erase_loop m g stop = patch m g (stop - g) (blank_cell g)"
proof (cases "g \<le> stop")
  case True
  moreover assume "even (stop - g)"
  ultimately show ?thesis using con_erase_loop_patch_aux [of stop g g m] by simp
next
  case False
  then show ?thesis by (simp add: con_erase_loop.simps)
qed

text \<open>Cell \<open>i\<close> of the screen, counted row by row: the character and its attribute.\<close>

definition con_cell :: "console \<Rightarrow> int \<Rightarrow> u8 \<times> u8" where
  "con_cell c i = (c_mem c (screen_base + 2 * i), c_mem c (screen_base + 2 * i + 1))"

definition blank :: "u8 \<times> u8" where
  "blank = (0, CONSOLE_DEFAULT_ATTRIBUTE)"

lemma con_erase_mem:
  assumes "con_geom c" "0 \<le> x1" "x1 \<le> c_width c" "0 \<le> y1" "y1 \<le> c_height c"
    and "0 \<le> x2" "x2 \<le> c_width c" "0 \<le> y2" "y2 \<le> c_height c"
  shows "c_mem (con_erase c x1 y1 x2 y2) =
    patch (c_mem c) (screen_base + 2 * (x1 + y1 * c_width c))
      (2 * (x2 + y2 * c_width c) - 2 * (x1 + y1 * c_width c))
      (blank_cell (screen_base + 2 * (x1 + y1 * c_width c)))"
  using assms by (simp add: con_erase_def con_at_eq con_erase_loop_patch)

lemma con_erase_cell:
  assumes "con_geom c" "0 \<le> x1" "x1 \<le> c_width c" "0 \<le> y1" "y1 \<le> c_height c"
    and "0 \<le> x2" "x2 \<le> c_width c" "0 \<le> y2" "y2 \<le> c_height c"
  shows "con_cell (con_erase c x1 y1 x2 y2) i =
    (if x1 + y1 * c_width c \<le> i \<and> i < x2 + y2 * c_width c then blank else con_cell c i)"
proof -
  let ?lo = "x1 + y1 * c_width c" and ?hi = "x2 + y2 * c_width c"
  note m = con_erase_mem [OF assms]
  show ?thesis
  proof (cases "?lo \<le> i \<and> i < ?hi")
    case True
    then show ?thesis unfolding con_cell_def m by (simp add: blank_cell_def blank_def)
  next
    case False
    then show ?thesis unfolding con_cell_def m by (auto simp: patch_def)
  qed
qed

lemma con_frame_cellsI:
  assumes "c_width c' = c_width c" "c_height c' = c_height c"
    and cells: "\<And>i. i < 0 \<or> c_width c * c_height c \<le> i \<Longrightarrow> con_cell c' i = con_cell c i"
  shows "con_frame c c'"
  unfolding con_frame_def
proof (intro conjI allI impI)
  fix a
  assume out: "a < screen_base \<or> screen_base + screen_bytes c \<le> a"
  define i where "i = (a - screen_base) div 2"
  have "i < 0 \<or> c_width c * c_height c \<le> i"
    using out by (auto simp: i_def screen_bytes_def)
  from cells [OF this] have eq: "con_cell c' i = con_cell c i" .
  have "a = screen_base + 2 * i \<or> a = screen_base + 2 * i + 1"
    unfolding i_def by presburger
  with eq show "c_mem c' a = c_mem c a" by (auto simp: con_cell_def)
qed (use assms in auto)

lemma con_erase_con_frame:
  assumes g: "con_geom c" and "0 \<le> x1" "x1 \<le> c_width c" "0 \<le> y1" "y1 \<le> c_height c"
    and "0 \<le> x2" "x2 \<le> c_width c" "0 \<le> y2" "y2 \<le> c_height c"
    and "x2 + y2 * c_width c \<le> c_width c * c_height c"
  shows "con_frame c (con_erase c x1 y1 x2 y2)"
proof (rule con_frame_cellsI)
  fix i
  assume out: "i < 0 \<or> c_width c * c_height c \<le> i"
  have "0 \<le> x1 + y1 * c_width c" using assms by (simp add: con_geom_def)
  with out assms(10) have "\<not> (x1 + y1 * c_width c \<le> i \<and> i < x2 + y2 * c_width c)" by linarith
  then show "con_cell (con_erase c x1 y1 x2 y2) i = con_cell c i"
    using con_erase_cell [OF assms(1-9), of i] by auto
qed simp_all

subsection \<open>The effect of scrolling\<close>

lemma copied_cells:
  assumes "a = screen_base + 2 * d" "b = screen_base + 2 * s"
  shows "(copied m a b (2 * n) (screen_base + 2 * i), copied m a b (2 * n) (screen_base + 2 * i + 1)) =
    (if d \<le> i \<and> i < d + n
     then (m (screen_base + 2 * (i - d + s)), m (screen_base + 2 * (i - d + s) + 1))
     else (m (screen_base + 2 * i), m (screen_base + 2 * i + 1)))"
proof (cases "d \<le> i \<and> i < d + n")
  case True
  then show ?thesis using assms by (simp add: copied_def algebra_simps)
next
  case False
  then have "2 * i < 2 * d \<or> 2 * d + 2 * n \<le> 2 * i" "2 * i + 1 < 2 * d \<or> 2 * d + 2 * n \<le> 2 * i + 1"
    by linarith+
  with assms False show ?thesis by (auto simp: copied_def patch_def)
qed

text \<open>A block of cells moved by \<^verbatim>\<open>memmove\<close>, from cell \<open>s\<close> to cell \<open>d\<close>.\<close>

lemma con_move_cell:
  assumes "c' = c\<lparr>c_mem := snd (memmove (c_mem c) (screen_base + 2 * d) (screen_base + 2 * s) (2 * n))\<rparr>"
    and "0 \<le> n" "n \<le> 1073676289"
  shows "con_cell c' i = (if d \<le> i \<and> i < d + n then con_cell c (i - d + s) else con_cell c i)"
proof -
  have "memmove (c_mem c) (screen_base + 2 * d) (screen_base + 2 * s) (2 * n)
      = (screen_base + 2 * d, copied (c_mem c) (screen_base + 2 * d) (screen_base + 2 * s) (2 * n))"
    using assms by (intro memmove_eq_copied) auto
  with assms(1) copied_cells [OF refl refl, of "c_mem c" d s n i] show ?thesis
    by (simp add: con_cell_def)
qed

definition scrolled_up :: "console \<Rightarrow> int \<Rightarrow> int \<Rightarrow> u8 \<times> u8" where
  "scrolled_up c lines i =
     (if 0 \<le> i \<and> i < (c_height c - lines) * c_width c then con_cell c (i + lines * c_width c)
      else if 0 \<le> i \<and> i < c_height c * c_width c then blank
      else con_cell c i)"

definition scrolled_down :: "console \<Rightarrow> int \<Rightarrow> int \<Rightarrow> u8 \<times> u8" where
  "scrolled_down c lines i =
     (if 0 \<le> i \<and> i < lines * c_width c then blank
      else if 0 \<le> i \<and> i < c_height c * c_width c then con_cell c (i - lines * c_width c)
      else con_cell c i)"

lemma con_scroll_up:
  assumes g: "con_geom c" and n: "0 < n" "n < 2147483648" and y: "0 \<le> c_y c" "c_y c \<le> c_height c"
  defines "l \<equiv> min n (c_height c)"
  shows "con_cell (con_scroll c n) i = scrolled_up c l i"
    and "c_x (con_scroll c n) = c_x c" and "c_y (con_scroll c n) = max 0 (c_y c - l)"
proof -
  let ?w = "c_width c" and ?h = "c_height c"
  define k where "k = ?h - l"
  have w: "0 < ?w" "?w \<le> 32767" and h: "0 < ?h" "?h \<le> 32767" using g by (auto simp: con_geom_def)
  have l: "0 < l" "l \<le> ?h" using n h by (auto simp: l_def)
  have k: "0 \<le> k" "k \<le> ?h" using l by (auto simp: k_def)
  have kw: "0 \<le> k * ?w" "k * ?w \<le> 1073676289" using row_bound [OF w k(1)] k h by auto
  have pre: "sgn_c n = 1" "min_c (abs_c n) ?h = l" using n by (auto simp: sgn_c_def abs_c_def l_def)
  have sizes: "i32 (?h - l) = k" "i32 (?h - k) = l" "i32 (k + l) = ?h" "i32 (c_y c - l) = c_y c - l"
    using l k h y by (auto simp: k_def l_def)
  have bytes: "i32 (k * (2 * ?w)) = 2 * (k * ?w)"
    using kw by (subst i32_id) (auto simp: algebra_simps)
  have row: "i32 (?w * 2) = 2 * ?w" using w by simp
  have at: "con_at c 0 l = screen_base + 2 * (l * ?w)" "con_at c 0 0 = screen_base + 2 * 0"
    using con_at_eq [OF g, of 0 l] con_at_eq [OF g, of 0 0] w l h by auto
  define c1 where "c1 = c\<lparr>c_mem := snd (memmove (c_mem c) (screen_base + 2 * 0) (screen_base + 2 * (l * ?w)) (2 * (k * ?w)))\<rparr>"
  define c2 where "c2 = con_erase c1 0 k 0 ?h"
  have step: "con_scroll c n = con_cursor c2 (c_x c) (max 0 (c_y c - l))"
    by (simp add: con_scroll_def Let_def pre sizes bytes row at c2_def c1_def max_def not_less del: min_c_min)
  have "con_geom c1" using g by (simp add: con_geom_def c1_def)
  then have c2: "con_cell c2 j = (if k * ?w \<le> j \<and> j < ?h * ?w then blank else con_cell c1 j)" for j
    using con_erase_cell [of c1 0 k 0 ?h j] k h w by (simp add: c2_def c1_def)
  have c1: "con_cell c1 j = (if 0 \<le> j \<and> j < k * ?w then con_cell c (j + l * ?w) else con_cell c j)" for j
    using con_move_cell [OF c1_def kw, of j] by simp
  show "con_cell (con_scroll c n) i = scrolled_up c l i"
    unfolding step using c1 [of i] c2 [of i] kw
    by (auto simp: con_cell_def scrolled_up_def k_def [symmetric])
  show "c_x (con_scroll c n) = c_x c" "c_y (con_scroll c n) = max 0 (c_y c - l)"
    unfolding step by simp_all
qed

lemma moved_down_cases:
  fixes a b h i :: int
  assumes "a + b = h" "0 < a"
  shows "(if 0 \<le> i \<and> i < a then u else if a \<le> i \<and> i < a + b then v else w) =
    (if 0 \<le> i \<and> i < a then u else if 0 \<le> i \<and> i < h then v else w)"
  using assms by auto

lemma con_scroll_down:
  assumes g: "con_geom c" and n: "n < 0" "- 2147483648 < n" and y: "0 \<le> c_y c" "c_y c \<le> c_height c"
  defines "l \<equiv> min (- n) (c_height c)"
  shows "con_cell (con_scroll c n) i = scrolled_down c l i"
    and "c_x (con_scroll c n) = c_x c" and "c_y (con_scroll c n) = min (c_y c + l) (c_height c - 1)"
proof -
  let ?w = "c_width c" and ?h = "c_height c"
  define k where "k = ?h - l"
  have w: "0 < ?w" "?w \<le> 32767" and h: "0 < ?h" "?h \<le> 32767" using g by (auto simp: con_geom_def)
  have l: "0 < l" "l \<le> ?h" using n h by (auto simp: l_def)
  have k: "0 \<le> k" "k \<le> ?h" using l by (auto simp: k_def)
  have kw: "0 \<le> k * ?w" "k * ?w \<le> 1073676289" using row_bound [OF w k(1)] k h by auto
  have pre: "sgn_c n = -1" "min_c (abs_c n) ?h = l" using n by (auto simp: sgn_c_def abs_c_def l_def)
  have sizes: "i32 (?h - l) = k" "i32 (?h - k) = l" "i32 (?h - 1) = ?h - 1" "i32 (c_y c + l) = c_y c + l"
    using l k h y by (auto simp: k_def l_def)
  have bytes: "i32 (k * (2 * ?w)) = 2 * (k * ?w)"
    using kw by (subst i32_id) (auto simp: algebra_simps)
  have row: "i32 (?w * 2) = 2 * ?w" using w by simp
  have at: "con_at c 0 l = screen_base + 2 * (l * ?w)" "con_at c 0 0 = screen_base + 2 * 0"
    using con_at_eq [OF g, of 0 l] con_at_eq [OF g, of 0 0] w l h by auto
  define c1 where "c1 = c\<lparr>c_mem := snd (memmove (c_mem c) (screen_base + 2 * (l * ?w)) (screen_base + 2 * 0) (2 * (k * ?w)))\<rparr>"
  define c2 where "c2 = con_erase c1 0 0 0 l"
  have step: "con_scroll c n = con_cursor c2 (c_x c) (min (c_y c + l) (?h - 1))"
    by (simp add: con_scroll_def Let_def pre sizes bytes row at c2_def c1_def min_def not_less del: min_c_min)
  have "con_geom c1" using g by (simp add: con_geom_def c1_def)
  then have c2: "con_cell c2 j = (if 0 \<le> j \<and> j < l * ?w then blank else con_cell c1 j)" for j
    using con_erase_cell [of c1 0 0 0 l j] l h w by (simp add: c2_def c1_def)
  have c1: "con_cell c1 j = (if l * ?w \<le> j \<and> j < l * ?w + k * ?w then con_cell c (j - l * ?w) else con_cell c j)" for j
    using con_move_cell [OF c1_def kw, of j] by simp
  have sum: "l * ?w + k * ?w = ?h * ?w" by (simp add: k_def algebra_simps)
  have pos: "0 < l * ?w" using l w by simp
  have "con_cell (con_scroll c n) i = con_cell c2 i" unfolding step by (simp add: con_cell_def)
  then show "con_cell (con_scroll c n) i = scrolled_down c l i"
    unfolding c2 c1 scrolled_down_def by (simp only: moved_down_cases [OF sum pos])
  show "c_x (con_scroll c n) = c_x c" "c_y (con_scroll c n) = min (c_y c + l) (?h - 1)"
    unfolding step by simp_all
qed

subsection \<open>Numbers of at most nine digits\<close>

fun digit_runs_ok :: "nat \<Rightarrow> u8 list \<Rightarrow> bool" where
  "digit_runs_ok k [] = True"
| "digit_runs_ok k (b # bs) =
     (if is_digit b then k < 9 \<and> digit_runs_ok (Suc k) bs else digit_runs_ok 0 bs)"

definition numbers_ok :: "u8 list \<Rightarrow> bool" where
  "numbers_ok bs = digit_runs_ok 0 bs"

lemma digit_runs_ok_mono: "digit_runs_ok k bs \<Longrightarrow> j \<le> k \<Longrightarrow> digit_runs_ok j bs"
  by (induction bs arbitrary: j k) (auto split: if_splits)

lemma digit_runs_ok_append: "digit_runs_ok k (as @ bs) \<Longrightarrow> digit_runs_ok 0 bs"
proof (induction as arbitrary: k)
  case Nil
  then show ?case by (auto intro: digit_runs_ok_mono)
qed (auto split: if_splits)

lemma digit_runs_ok_prefix: "digit_runs_ok k (as @ bs) \<Longrightarrow> digit_runs_ok k as"
  by (induction as arbitrary: k) (auto split: if_splits)

lemma digit_runs_ok_all_digits: "digit_runs_ok k ds \<Longrightarrow> \<forall>d \<in> set ds. is_digit d \<Longrightarrow> k + length ds \<le> max k 9"
  by (induction ds arbitrary: k) fastforce+

lemma numbers_ok_no_run:
  assumes "numbers_ok bs" "h + 10 \<le> length bs"
  shows "\<exists>j < 10. \<not> is_digit (bs ! (h + j))"
proof (rule ccontr)
  assume all: "\<not> ?thesis"
  let ?ds = "take 10 (drop h bs)"
  have "bs = take h bs @ ?ds @ drop 10 (drop h bs)" by (simp del: drop_drop)
  with assms(1) have "digit_runs_ok 0 (?ds @ drop 10 (drop h bs))"
    unfolding numbers_ok_def by (metis digit_runs_ok_append)
  then have "digit_runs_ok 0 ?ds" by (rule digit_runs_ok_prefix)
  moreover have "\<forall>d \<in> set ?ds. is_digit d"
    using all assms(2) by (auto simp: in_set_conv_nth)
  ultimately show False using digit_runs_ok_all_digits [of 0 ?ds] assms(2) by simp
qed

definition no_long_number :: "(int \<Rightarrow> u8) \<Rightarrow> int \<Rightarrow> bool" where
  "no_long_number sequence lst \<longleftrightarrow>
     (\<forall>h \<ge> 0. \<exists>j < 10. h + int j > lst \<or> \<not> is_digit (sequence (h + int j)))"

lemma digit_value: "is_digit b \<Longrightarrow> 0 \<le> uint b - 48 \<and> uint b - 48 \<le> 9"
  by (simp add: is_digit_def word_le_def)

lemma con_next_int_loop_bound:
  assumes "con_next_int_loop sequence head lst fallback first acc = (v, head')"
    and "\<exists>j \<le> m. head + int j > lst \<or> \<not> is_digit (sequence (head + int j))"
    and "0 \<le> acc" "acc < 10 ^ k" "k + m \<le> 9"
  shows "v = fallback \<or> 0 \<le> v \<and> v < 1000000000"
  using assms
proof (induction m arbitrary: head first acc k)
  case 0
  then have "v = fallback \<or> v = acc"
    by (auto simp: con_next_int_loop.simps [of sequence head] con_next_char_def split: if_splits)
  moreover have "acc < 10 ^ 9"
    using 0 power_increasing [of k 9 "10 :: int"] by auto
  ultimately show ?case using 0 by auto
next
  case (Suc m)
  have small: "acc < 10 ^ 9" "acc * 10 < 10 ^ 9"
    using Suc.prems(4,5) power_increasing [of k 9 "10 :: int"] power_increasing [of "Suc k" 9 "10 :: int"]
    by auto
  show ?case
  proof (cases "head \<le> lst \<and> is_digit (sequence head)")
    case False
    then have "v = fallback \<or> v = acc" using Suc.prems(1)
      by (auto simp: con_next_int_loop.simps [of sequence head] con_next_char_def split: if_splits)
    then show ?thesis using small Suc.prems(3) by auto
  next
    case True
    define d where "d = uint (sequence head) - 48"
    have d: "0 \<le> d" "d \<le> 9" using digit_value True by (auto simp: d_def)
    have next_acc: "i32 (i32 (acc * 10) + d) = acc * 10 + d"
      using small Suc.prems(3) d by simp
    have rec: "con_next_int_loop sequence (head + 1) lst fallback False (acc * 10 + d) = (v, head')"
      using Suc.prems(1) True next_acc
      by (simp add: con_next_int_loop.simps [of sequence head] con_next_char_def d_def)
    obtain j where j: "j \<le> Suc m" "head + int j > lst \<or> \<not> is_digit (sequence (head + int j))"
      using Suc.prems(2) by blast
    with True obtain i where "j = Suc i" by (cases j) auto
    with j have stop: "\<exists>j \<le> m. head + 1 + int j > lst \<or> \<not> is_digit (sequence (head + 1 + int j))"
      by (intro exI [of _ i]) (auto simp: add.assoc)
    show ?thesis
      by (rule Suc.IH [OF rec stop, of "Suc k"]) (use Suc.prems d in auto)
  qed
qed

lemma con_next_int_bound:
  assumes "no_long_number sequence lst" "0 \<le> head"
  shows "fst (con_next_int sequence head lst fallback) = fallback \<or>
    0 \<le> fst (con_next_int sequence head lst fallback) \<and>
    fst (con_next_int sequence head lst fallback) < 1000000000"
proof -
  obtain v h where vh: "con_next_int sequence head lst fallback = (v, h)"
    by (cases "con_next_int sequence head lst fallback")
  from assms obtain j where "j < 10" "head + int j > lst \<or> \<not> is_digit (sequence (head + int j))"
    unfolding no_long_number_def by blast
  then have "\<exists>j \<le> 9. head + int j > lst \<or> \<not> is_digit (sequence (head + int j))"
    by (intro exI [of _ j]) auto
  with vh show ?thesis
    using con_next_int_loop_bound [of sequence head lst fallback True 0 v h 9 0]
    by (simp add: con_next_int_def)
qed

end
