(* ===== verification/ConsoleInvariant.thy ===== *)
theory ConsoleInvariant
  imports ConsoleSafety
begin

section \<open>The console invariant and its preservation\<close>

text \<open>
  \<open>con_ok\<close> is the invariant of the console; one lemma per operation shows that it is kept and
  that no byte outside the screen's video memory changes, and \<open>con_write_step\<close> gathers them
  for one output byte.  Streams follow by induction, tracking in \<open>con_pending\<close> the part of
  the stream that sits in the sequence buffer.
\<close>

definition con_core :: "console \<Rightarrow> bool" where
  "con_core c \<longleftrightarrow> con_geom c \<and> con_on_screen c (c_x c) (c_y c) \<and> con_on_screen c (c_sx c) (c_sy c)"

definition con_collecting :: "console \<Rightarrow> bool" where
  "con_collecting c \<longleftrightarrow> output_lexer c = Lexer_csi \<or> output_lexer c = Lexer_until_st"

definition con_ok :: "console \<Rightarrow> bool" where
  "con_ok c \<longleftrightarrow> con_core c \<and>
     (con_collecting c \<longrightarrow> 1 \<le> c_length c \<and> c_length c < CONSOLE_MAX_ANSI_SEQUENCE)"

lemmas con_core_simps = con_core_def con_geom_def con_on_screen_def

lemma if_both: "P s \<Longrightarrow> P t \<Longrightarrow> P (if b then s else t)"
  by simp

subsection \<open>Cursor, erase, scroll\<close>

lemma con_geom_frame [simp]:
  "con_geom (con_cursor c nx ny) = con_geom c" "con_geom (con_erase c x1 y1 x2 y2) = con_geom c"
  "con_on_screen (con_cursor c nx ny) = con_on_screen c"
  "con_on_screen (con_erase c x1 y1 x2 y2) = con_on_screen c"
  by (simp_all add: con_geom_def con_on_screen_def fun_eq_iff)

lemma con_cursor_core:
  "con_core c \<Longrightarrow> con_on_screen c nx ny \<Longrightarrow> con_core (con_cursor c nx ny)"
  by (simp add: con_core_simps)

lemma con_cursor_con_frame [simp]: "con_frame c (con_cursor c nx ny)"
  by (simp add: con_frame_def)

lemma con_erase_core: "con_core (con_erase c x1 y1 x2 y2) = con_core c"
  by (simp add: con_core_simps)

lemma con_scroll_frame [simp]:
  "c_width (con_scroll c n) = c_width c" "c_height (con_scroll c n) = c_height c"
  "c_sx (con_scroll c n) = c_sx c" "c_sy (con_scroll c n) = c_sy c"
  "output_lexer (con_scroll c n) = output_lexer c" "c_length (con_scroll c n) = c_length c"
  "c_sequence (con_scroll c n) = c_sequence c"
  by (simp_all add: con_scroll_def Let_def)

lemma scrolled_outside:
  "i < 0 \<or> c_width c * c_height c \<le> i \<Longrightarrow> 0 < c_width c \<Longrightarrow> 0 \<le> l \<Longrightarrow> l \<le> c_height c \<Longrightarrow>
    scrolled_up c l i = con_cell c i \<and> scrolled_down c l i = con_cell c i"
proof -
  assume out: "i < 0 \<or> c_width c * c_height c \<le> i" and "0 < c_width c" "0 \<le> l" "l \<le> c_height c"
  then have "(c_height c - l) * c_width c \<le> c_height c * c_width c" "l * c_width c \<le> c_height c * c_width c"
    by (auto intro: mult_right_mono)
  with out show ?thesis by (auto simp: scrolled_up_def scrolled_down_def mult.commute)
qed

lemma con_scroll_ok:
  assumes g: "con_geom c" and x: "0 \<le> c_x c" "c_x c < c_width c" and y: "0 \<le> c_y c" "c_y c \<le> c_height c"
    and s: "con_on_screen c (c_sx c) (c_sy c)"
    and n: "- 2147483648 < n" "n < 2147483648" and up: "c_y c = c_height c \<Longrightarrow> 0 < n"
  shows "con_core (con_scroll c n) \<and> con_frame c (con_scroll c n)"
proof -
  have wh: "0 < c_width c" "0 < c_height c" using g by (auto simp: con_geom_def)
  consider "n = 0" | "0 < n" | "n < 0" by linarith
  then show ?thesis
  proof cases
    case 1
    then have "con_scroll c n = c" by (simp add: con_scroll_def Let_def sgn_c_def)
    moreover have "c_y c < c_height c" using up 1 y by force
    ultimately show ?thesis using g x y s by (auto simp: con_core_def con_on_screen_def)
  next
    case 2
    note up = con_scroll_up [OF g 2 n(2) y]
    have "con_frame c (con_scroll c n)"
      by (rule con_frame_cellsI) (use up(1) scrolled_outside wh 2 in auto)
    with up(2,3) wh x y s g 2 show ?thesis by (auto simp: con_core_simps)
  next
    case 3
    note down = con_scroll_down [OF g 3 n(1) y]
    have "con_frame c (con_scroll c n)"
      by (rule con_frame_cellsI) (use down(1) scrolled_outside wh 3 in auto)
    with down(2,3) wh x y s g 3 show ?thesis by (auto simp: con_core_simps)
  qed
qed

lemma same_but_attr_ok: "same_but_attr c c' \<Longrightarrow> con_core c \<Longrightarrow> con_core c' \<and> con_frame c c'"
  by (simp add: same_but_attr_def con_core_simps con_frame_def)

lemma con_erase_ok:
  assumes "con_core c" "0 \<le> x1" "x1 < c_width c" "0 \<le> y1" "y1 < c_height c"
    and "0 \<le> x2" "x2 < c_width c" "0 \<le> y2" "y2 < c_height c"
  shows "con_core (con_erase c x1 y1 x2 y2) \<and> con_frame c (con_erase c x1 y1 x2 y2)"
  using assms con_erase_con_frame [of c x1 y1 x2 y2] cell_below [of x2 "c_width c" y2 "c_height c"]
  by (auto simp: con_core_def)

subsection \<open>Control sequences\<close>

lemma con_csi_execute_ok:
  assumes core: "con_core c" and nums: "no_long_number (c_sequence c) lst" and head: "0 \<le> head" "head \<le> lst"
  shows "con_core (con_csi_execute c head lst) \<and> con_frame c (con_csi_execute c head lst)"
proof -
  let ?good = "\<lambda>d. con_core d \<and> con_frame c d"
  let ?arg = "\<lambda>fallback. fst (con_next_int (c_sequence c) head lst fallback)"
  have arg: "?arg f = f \<or> 0 \<le> ?arg f \<and> ?arg f < 1000000000" for f
    using con_next_int_bound [OF nums head(1)] .
  have arg0: "0 \<le> ?arg 0" "?arg 0 < 1000000000" and arg1: "0 \<le> ?arg 1" "?arg 1 < 1000000000"
    using arg [of 0] arg [of 1] by auto
  have geo: "0 < c_width c" "c_width c \<le> 32767" "0 < c_height c" "c_height c \<le> 32767"
    "0 \<le> c_x c" "c_x c < c_width c" "0 \<le> c_y c" "c_y c < c_height c"
    using core by (auto simp: con_core_simps)
  have cur: "con_core (con_cursor c nx ny) \<and> con_frame c (con_cursor c nx ny)"
    if "0 \<le> nx" "nx < c_width c" "0 \<le> ny" "ny < c_height c" for nx ny
    using core that by (simp add: con_cursor_core con_on_screen_def)
  have clamp_in: "0 \<le> clamp v 0 (w - 1)" "clamp v 0 (w - 1) < w" if "0 < w" for v w :: int
    using that clamp_bounds [of 0 "w - 1" v] by auto
  have scroll: "con_core (con_scroll c n) \<and> con_frame c (con_scroll c n)"
    if "- 2147483648 < n" "n < 2147483648" for n
    by (rule con_scroll_ok) (use core geo that in \<open>auto simp: con_core_def\<close>)
  have erase: "con_core (con_erase c x1 y1 x2 y2) \<and> con_frame c (con_erase c x1 y1 x2 y2)"
    if "0 \<le> x1" "x1 < c_width c" "0 \<le> y1" "y1 < c_height c"
      "0 \<le> x2" "x2 < c_width c" "0 \<le> y2" "y2 < c_height c" for x1 y1 x2 y2
    by (rule con_erase_ok [OF core that])
  have sgr: "con_core (con_sgr_execute c head lst) \<and> con_frame c (con_sgr_execute c head lst)"
    by (rule same_but_attr_ok [OF con_sgr_execute_frame core])
  have save: "con_core (c\<lparr>c_sx := c_x c, c_sy := c_y c\<rparr>) \<and> con_frame c (c\<lparr>c_sx := c_x c, c_sy := c_y c\<rparr>)"
    using core by (simp add: con_core_simps con_frame_def)
  have restore: "con_core (con_cursor c (c_sx c) (c_sy c)) \<and> con_frame c (con_cursor c (c_sx c) (c_sy c))"
    using core by (auto simp: con_core_def intro: con_cursor_core)
  have noop: "con_core c \<and> con_frame c c" using core by simp
  have last: "i32 (c_width c - 1) = c_width c - 1" "i32 (c_height c - 1) = c_height c - 1"
    using geo by auto
  have up: "?good (con_cursor c (c_x c) (max_c (i32 (c_y c - ?arg 1)) 0))"
    and down: "?good (con_cursor c nx (min_c (i32 (c_y c + ?arg 1)) (c_height c - 1)))"
    and right: "?good (con_cursor c (min_c (i32 (c_x c + ?arg 1)) (c_width c - 1)) (c_y c))"
    and left: "?good (con_cursor c (max_c (i32 (c_x c - ?arg 1)) 0) (c_y c))"
    if "0 \<le> nx" "nx < c_width c" for nx
    by (rule cur; use geo arg1 that in \<open>simp add: max_c_def min_c_def\<close>)+
  note moves = up [of 0] right [of 0] left [of 0] down [of 0] down [of "c_x c"]
  have goto: "?good (con_cursor c (clamp v 0 (c_width c - 1)) (clamp w 0 (c_height c - 1)))" for v w
    by (rule cur) (use geo clamp_in in auto)
  have erases: "?good (con_erase c (c_x c) (c_y c) (c_width c - 1) (c_height c - 1))"
    "?good (con_erase c 0 0 (c_x c) (c_y c))" "?good (con_erase c 0 0 (c_width c - 1) (c_height c - 1))"
    "?good (con_erase c (c_x c) (c_y c) (c_width c - 1) (c_y c))"
    "?good (con_erase c 0 (c_y c) (c_x c) (c_y c))" "?good (con_erase c 0 (c_y c) (c_width c - 1) (c_y c))"
    by (rule erase; use geo in simp)+
  have scrolls: "?good (con_scroll c (?arg 1))" "?good (con_scroll c (i32 (- ?arg 1)))"
    by (rule scroll; use arg1 in simp)+
  show ?thesis
    unfolding con_csi_execute_def Let_def last
    by (split prod.split | intro allI impI
        | rule if_both [where P = "\<lambda>d. con_core d \<and> con_frame c d"] moves goto erases scrolls sgr save restore noop
        | simp add: geo)+
qed

subsection \<open>Lexers\<close>

lemma con_core_lexer [simp]: "con_core (c\<lparr>output_lexer := l\<rparr>) = con_core c"
  by (simp add: con_core_simps)

lemma con_frame_lexer [simp]: "con_frame c (d\<lparr>output_lexer := l\<rparr>) = con_frame c d"
  by (simp add: con_frame_def)

lemma con_reset_sequence_frame [simp]:
  "con_core (con_reset_sequence c b) = con_core c" "con_frame c (con_reset_sequence c b)"
  "c_length (con_reset_sequence c b) = 1" "c_sequence (con_reset_sequence c b) 0 = b"
  by (simp_all add: con_reset_sequence_def con_core_simps con_frame_def)

lemma con_push_frame [simp]:
  "con_core (con_push c b) = con_core c" "con_frame c (con_push c b)"
  "c_sequence (con_push c b) = (c_sequence c)(c_length c := b)"
  "output_lexer (con_push c b) = output_lexer c"
  by (simp_all add: con_push_def con_core_simps con_frame_def)

lemma con_push_length: "0 \<le> c_length c \<Longrightarrow> c_length c < 64 \<Longrightarrow> c_length (con_push c b) = c_length c + 1"
  by (simp add: con_push_def)

lemma con_csi_execute_lexer [simp]: "output_lexer (con_csi_execute c head lst) = output_lexer c"
  using con_sgr_execute_frame [of c head lst]
  by (simp add: con_csi_execute_def Let_def same_but_attr_def split: prod.split)

lemma con_adjust_ok:
  assumes core: "con_geom c" "con_on_screen c (c_sx c) (c_sy c)"
    and x: "0 \<le> c_x c" "c_x c \<le> 40000" and y: "0 \<le> c_y c" "c_y c < c_height c"
  shows "con_core (con_adjust c) \<and> con_frame c (con_adjust c)"
proof -
  define nx where "nx = (if c_x c + 1 \<ge> c_width c then 0 else c_x c + 1)"
  define ny where "ny = (if c_x c + 1 \<ge> c_width c then c_y c + 1 else c_y c)"
  let ?d = "con_cursor c nx ny"
  have g: "0 < c_width c" "c_width c \<le> 32767" "0 < c_height c" "c_height c \<le> 32767"
    using core(1) by (auto simp: con_geom_def)
  have adj: "con_adjust c = (if ny \<ge> c_height c then con_scroll ?d 1 else ?d)"
    using x y g by (simp add: con_adjust_def nx_def ny_def Let_def)
  have nx: "0 \<le> nx" "nx < c_width c" and ny: "0 \<le> ny" "ny \<le> c_height c"
    using g x y by (auto simp: nx_def ny_def)
  show ?thesis
  proof (cases "ny \<ge> c_height c")
    case True
    have "con_core (con_scroll ?d 1) \<and> con_frame ?d (con_scroll ?d 1)"
      by (rule con_scroll_ok) (use core nx ny in auto)
    with True adj show ?thesis by (auto intro: con_frame_trans [of c ?d])
  next
    case False
    with nx ny core adj show ?thesis by (simp add: con_core_def con_on_screen_def)
  qed
qed

lemma con_adjust_lexer [simp]: "output_lexer (con_adjust c) = output_lexer c"
  by (simp add: con_adjust_def Let_def split: prod.split)

lemma tab_stop_bounds:
  assumes "0 \<le> c_x c" "c_x c < 32767"
  shows "0 \<le> con_next_tab_stop c" "con_next_tab_stop c \<le> 40000"
proof -
  have "c_x c sdiv 4 = c_x c div 4" "c_x c smod 4 = c_x c mod 4"
    using assms by (cases "c_x c = 0"; simp add: signed_divide_int_def signed_modulo_int_def sgn_if)+
  then have "con_next_tab_stop c = i32 (c_x c div 4 * 4 + (if c_x c mod 4 \<noteq> 0 then 4 else 0))"
    by (simp add: con_next_tab_stop_def)
  also have "\<dots> = c_x c div 4 * 4 + (if c_x c mod 4 \<noteq> 0 then 4 else 0)"
    using assms by (intro i32_id) auto
  finally show "0 \<le> con_next_tab_stop c" "con_next_tab_stop c \<le> 40000"
    using assms by auto
qed

lemma con_put_glyph_frame:
  assumes "con_core c"
  shows "con_frame c (c\<lparr>c_mem := (c_mem c)(con_at c (c_x c) (c_y c) := b1, con_at c (c_x c) (c_y c) + 1 := b2)\<rparr>)"
proof -
  have at: "con_at c (c_x c) (c_y c) = screen_base + 2 * (c_x c + c_y c * c_width c)"
    using assms by (intro con_at_eq) (auto simp: con_core_simps)
  have "0 \<le> c_x c + c_y c * c_width c" "c_x c + c_y c * c_width c < c_width c * c_height c"
    using assms cell_below [of "c_x c" "c_width c" "c_y c" "c_height c"]
    by (auto simp: con_core_simps)
  then show ?thesis unfolding at by (auto simp: con_frame_def screen_bytes_def)
qed

lemma con_lexer_initial_ok:
  assumes ok: "con_ok c" and lex: "output_lexer c = Lexer_initial"
  shows "con_ok (con_lexer_initial c b) \<and> con_frame c (con_lexer_initial c b)"
proof -
  have core: "con_core c" using ok by (simp add: con_ok_def)
  have geo: "con_geom c" "0 < c_width c" "c_width c \<le> 32767" "0 < c_height c" "c_height c \<le> 32767"
    "0 \<le> c_x c" "c_x c < c_width c" "0 \<le> c_y c" "c_y c < c_height c"
    "con_on_screen c (c_sx c) (c_sy c)"
    using core by (auto simp: con_core_simps)
  have okI: "con_ok d" if "con_core d" "output_lexer d = Lexer_initial" for d
    using that by (simp add: con_ok_def con_collecting_def)
  have cur: "con_ok (con_cursor c nx ny)" if "con_on_screen c nx ny" for nx ny
    using that lex core by (intro okI) (auto intro: con_cursor_core)
  define nl where "nl = con_cursor c 0 (c_y c + 1)"
  have line: "con_core (con_scroll nl 1) \<and> con_frame nl (con_scroll nl 1)"
    by (rule con_scroll_ok) (use geo in \<open>auto simp: nl_def\<close>)
  have line_feed: "con_ok (if c_y nl \<ge> c_height nl then con_scroll nl 1 else nl) \<and>
      con_frame c (if c_y nl \<ge> c_height nl then con_scroll nl 1 else nl)"
    using line lex geo cur [of 0 "c_y c + 1"]
    by (auto simp: nl_def con_on_screen_def intro: okI con_frame_trans [of c "con_cursor c 0 (c_y c + 1)"])
  define tab where "tab = con_cursor c (con_next_tab_stop c) (c_y c)"
  have tab: "con_core (con_adjust tab) \<and> con_frame tab (con_adjust tab)"
    by (rule con_adjust_ok) (use geo tab_stop_bounds [of c] in \<open>auto simp: tab_def\<close>)
  then have tab_ok: "con_ok (con_adjust tab) \<and> con_frame c (con_adjust tab)"
    using lex by (auto simp: tab_def intro: okI con_frame_trans [of c "con_cursor c (con_next_tab_stop c) (c_y c)"])
  define put where "put = c\<lparr>c_mem := (c_mem c)(con_at c (c_x c) (c_y c) := b, con_at c (c_x c) (c_y c) + 1 := con_attr c)\<rparr>"
  have "con_core (con_adjust put) \<and> con_frame put (con_adjust put)"
    by (rule con_adjust_ok) (use geo in \<open>auto simp: put_def con_geom_def con_on_screen_def\<close>)
  moreover have "con_frame c put" unfolding put_def by (rule con_put_glyph_frame [OF core])
  moreover have "output_lexer put = Lexer_initial" using lex by (simp add: put_def)
  ultimately have put_ok: "con_ok (con_adjust put) \<and> con_frame c (con_adjust put)"
    by (auto intro: okI con_frame_trans)
  have collect: "con_ok (con_reset_sequence c s\<lparr>output_lexer := l\<rparr>) \<and>
      con_frame c (con_reset_sequence c s\<lparr>output_lexer := l\<rparr>)" for s l
    using core by (simp add: con_ok_def con_collecting_def con_reset_sequence_def con_core_simps con_frame_def)
  have esc: "con_ok (c\<lparr>output_lexer := Lexer_escape\<rparr>) \<and> con_frame c (c\<lparr>output_lexer := Lexer_escape\<rparr>)"
    using core by (simp add: con_ok_def con_collecting_def)
  have bsp: "con_ok (if c_x c > 0 then con_cursor c (i32 (c_x c - 1)) (c_y c) else c) \<and>
      con_frame c (if c_x c > 0 then con_cursor c (i32 (c_x c - 1)) (c_y c) else c)"
    using ok geo by (auto intro!: cur simp: con_on_screen_def)
  have home: "con_ok (con_cursor c 0 (c_y c)) \<and> con_frame c (con_cursor c 0 (c_y c))"
    using geo by (auto intro!: cur simp: con_on_screen_def)
  have y1: "i32 (c_y c + 1) = c_y c + 1" using geo by auto
  note branches = bsp home line_feed [unfolded nl_def] esc collect tab_ok [unfolded tab_def] put_ok [unfolded put_def]
  show ?thesis
    unfolding con_lexer_initial_def Let_def y1
    by (rule if_both [where P = "\<lambda>d. con_ok d \<and> con_frame c d"], rule branches)+ (rule branches)
qed

lemma con_lexer_escape_ok:
  assumes ok: "con_ok c"
  shows "con_ok (con_lexer_escape c b) \<and> con_frame c (con_lexer_escape c b)"
proof -
  let ?r = "con_reset_sequence c b"
  have core: "con_core c" using ok by (simp add: con_ok_def)
  have restore: "con_core (con_cursor ?r (c_sx ?r) (c_sy ?r))"
  proof (rule con_cursor_core)
    show "con_core ?r" using core by simp
    then show "con_on_screen ?r (c_sx ?r) (c_sy ?r)" by (simp add: con_core_def)
  qed
  have fr: "con_frame c (con_cursor ?r (c_sx ?r) (c_sy ?r))"
    by (rule con_frame_trans [of c ?r]) simp_all
  have scheme: "con_core (d\<lparr>c_shortcuts := f\<rparr>) = con_core d" "con_core (d\<lparr>c_attribute := a\<rparr>) = con_core d"
    "con_frame e (d\<lparr>c_shortcuts := f\<rparr>) = con_frame e d" "con_frame e (d\<lparr>c_attribute := a\<rparr>) = con_frame e d"
    for d e f a
    by (simp_all add: con_core_simps con_frame_def)
  have save: "con_core (?r\<lparr>c_sx := c_x ?r, c_sy := c_y ?r, c_sa := c_attribute ?r, output_lexer := Lexer_initial\<rparr>)"
    "con_frame c (?r\<lparr>c_sx := c_x ?r, c_sy := c_y ?r, c_sa := c_attribute ?r, output_lexer := Lexer_initial\<rparr>)"
    using core by (simp_all add: con_reset_sequence_def con_core_simps con_frame_def)
  show ?thesis
    unfolding con_lexer_escape_def Let_def using core restore fr save
    by (auto simp: con_ok_def con_collecting_def scheme)
qed

lemma con_execute_ok:
  assumes "con_core c" "no_long_number (c_sequence c) (c_length c - 1)" "2 \<le> c_length c" "c_length c \<le> 64"
  shows "con_core (con_execute c) \<and> con_frame c (con_execute c)"
  using con_csi_execute_ok [OF assms(1,2), of 1] assms
  by (simp add: con_execute_def Let_def)

lemma con_push_step_ok:
  assumes ok: "con_ok c" and col: "con_collecting c"
    and nums: "no_long_number ((c_sequence c)(c_length c := b)) (c_length c)"
  shows "con_core (con_execute (con_push c b)) \<and> con_frame c (con_execute (con_push c b))"
    and "1 \<le> c_length (con_push c b)" "c_length (con_push c b) \<le> 64"
proof -
  have len: "1 \<le> c_length c" "c_length c < 64" using ok col by (auto simp: con_ok_def)
  have "c_length (con_push c b) = c_length c + 1" using len by (simp add: con_push_length)
  with len nums ok have "con_core (con_execute (con_push c b)) \<and> con_frame (con_push c b) (con_execute (con_push c b))"
    by (intro con_execute_ok) (auto simp: con_ok_def)
  then show "con_core (con_execute (con_push c b)) \<and> con_frame c (con_execute (con_push c b))"
    by (auto intro: con_frame_trans [of c "con_push c b"])
  show "1 \<le> c_length (con_push c b)" "c_length (con_push c b) \<le> 64"
    using len by (auto simp: con_push_length)
qed

lemma con_lexer_collect_ok:
  assumes ok: "con_ok c" and col: "con_collecting c"
    and nums: "no_long_number ((c_sequence c)(c_length c := b)) (c_length c)"
  shows "con_ok (con_lexer_csi c b) \<and> con_frame c (con_lexer_csi c b)"
    and "con_ok (con_lexer_until_st c b) \<and> con_frame c (con_lexer_until_st c b)"
  using con_push_step_ok [OF assms] ok
  by (auto simp: con_lexer_csi_def con_lexer_until_st_def Let_def con_ok_def con_collecting_def)

end
