(* ===== verification/ConsoleStream.thy ===== *)
theory ConsoleStream
  imports ConsoleInvariant
begin

section \<open>Output streams on the console\<close>

text \<open>
  From single bytes to streams: the invariant along a stream, the text a stream of glyphs
  leaves on the screen, and the execution of one complete control sequence.
\<close>

subsection \<open>The invariant along a stream\<close>

text \<open>The bytes of the stream that sit in the sequence buffer.\<close>

definition con_pending :: "console \<Rightarrow> u8 list" where
  "con_pending c =
     (if con_collecting c then map (\<lambda>i. c_sequence c (int i)) [0..<nat (c_length c)] else [])"

lemma con_pending_idle [simp]: "\<not> con_collecting c \<Longrightarrow> con_pending c = []"
  by (simp add: con_pending_def)

lemma con_collecting_lexer [simp]:
  "con_collecting (c\<lparr>output_lexer := l\<rparr>) \<longleftrightarrow> l = Lexer_csi \<or> l = Lexer_until_st"
  by (auto simp: con_collecting_def)

lemma con_pending_reset:
  "con_pending (con_reset_sequence c b\<lparr>output_lexer := l\<rparr>) =
    (if l = Lexer_csi \<or> l = Lexer_until_st then [b] else [])"
  by (auto simp: con_pending_def con_collecting_def con_reset_sequence_def)

lemma con_pending_push:
  assumes "con_ok c" "con_collecting c"
  shows "con_pending (con_push c b) = con_pending c @ [b]"
proof -
  have len: "1 \<le> c_length c" "c_length c < 64" using assms by (auto simp: con_ok_def)
  then have "nat (c_length c + 1) = Suc (nat (c_length c))" by simp
  moreover have "con_collecting (con_push c b)" using assms(2) by (simp add: con_collecting_def)
  ultimately show ?thesis
    using len assms(2) by (auto simp: con_pending_def con_push_length)
qed

lemma con_pending_no_long_number:
  assumes "con_ok c" "con_collecting c" "numbers_ok (con_pending c @ [b])"
  shows "no_long_number ((c_sequence c)(c_length c := b)) (c_length c)"
  unfolding no_long_number_def
proof (intro allI impI)
  fix h :: int
  assume h: "0 \<le> h"
  let ?bs = "con_pending c @ [b]" and ?s = "(c_sequence c)(c_length c := b)"
  have len: "1 \<le> c_length c" using assms by (auto simp: con_ok_def)
  have bs: "length ?bs = Suc (nat (c_length c))"
    using assms(2) by (simp add: con_pending_def)
  have nth: "?bs ! i = ?s (int i)" if "i < length ?bs" for i
    using that len assms(2) bs by (auto simp: con_pending_def nth_append)
  show "\<exists>j<10. h + int j > c_length c \<or> \<not> is_digit (?s (h + int j))"
  proof (cases "nat h + 10 \<le> length ?bs")
    case True
    then obtain j where j: "j < 10" "\<not> is_digit (?bs ! (nat h + j))"
      using numbers_ok_no_run [OF assms(3)] by blast
    with True h nth [of "nat h + j"] show ?thesis by (intro exI [of _ j]) simp
  next
    case False
    with bs len h have "h + int 9 > c_length c" by linarith
    then show ?thesis by (intro exI [of _ 9]) simp
  qed
qed

lemma numbers_ok_tail: "numbers_ok (as @ bs) \<Longrightarrow> numbers_ok bs"
  by (auto simp: numbers_ok_def dest: digit_runs_ok_append)

lemma numbers_ok_Cons: "\<not> is_digit b \<Longrightarrow> numbers_ok (b # bs) = numbers_ok bs"
  by (simp add: numbers_ok_def)

lemma con_lexer_initial_pending:
  assumes "output_lexer c = Lexer_initial"
  shows "con_pending (con_lexer_initial c b) \<in> {[], [ANSI_CSI]}"
  using assms
  by (auto simp: con_lexer_initial_def Let_def con_pending_reset con_collecting_def)

lemma con_lexer_escape_pending: "con_pending (con_lexer_escape c b) \<in> {[], [b]}"
  by (simp add: con_lexer_escape_def Let_def con_pending_reset)

lemma con_lexer_collect_pending:
  assumes "con_ok c" "con_collecting c"
  shows "con_pending (con_lexer_csi c b) \<in> {[], con_pending c @ [b]}"
    "con_pending (con_lexer_until_st c b) \<in> {[], con_pending c @ [b]}"
  using con_pending_push [OF assms] 
  by (auto simp: con_lexer_csi_def con_lexer_until_st_def Let_def)

lemma con_write_step:
  assumes ok: "con_ok c" and nums: "numbers_ok (con_pending c @ b # bs)"
  shows "con_ok (con_write c b)" "con_frame c (con_write c b)"
    "numbers_ok (con_pending (con_write c b) @ bs)"
proof -
  have tail: "numbers_ok bs" and b_bs: "numbers_ok (b # bs)"
    using nums numbers_ok_tail [of "con_pending c @ [b]" bs] numbers_ok_tail [of "con_pending c"] by auto
  have "(con_ok (con_write c b) \<and> con_frame c (con_write c b)) \<and>
      numbers_ok (con_pending (con_write c b) @ bs)"
  proof (cases "con_collecting c")
    case True
    have "numbers_ok (con_pending c @ [b])"
      using nums digit_runs_ok_prefix [of 0 "con_pending c @ [b]" bs] by (simp add: numbers_ok_def)
    note num = con_pending_no_long_number [OF ok True this]
    from True show ?thesis
      using con_lexer_collect_ok [OF ok True num] con_lexer_collect_pending [OF ok True, of b] nums tail
      by (auto simp: con_write_def con_collecting_def)
  next
    case False
    then consider "output_lexer c = Lexer_initial" | "output_lexer c = Lexer_escape"
      by (cases "output_lexer c") (auto simp: con_collecting_def)
    then show ?thesis
    proof cases
      case 1
      have csi: "numbers_ok (ANSI_CSI # bs)" using tail by (simp add: numbers_ok_Cons is_digit_def)
      from 1 show ?thesis
        using con_lexer_initial_ok [OF ok 1] con_lexer_initial_pending [OF 1, of b] tail csi
        by (auto simp: con_write_def)
    next
      case 2
      then show ?thesis
        using con_lexer_escape_ok [OF ok] con_lexer_escape_pending [of c b] tail b_bs
        by (auto simp: con_write_def)
    qed
  qed
  then show "con_ok (con_write c b)" "con_frame c (con_write c b)"
    "numbers_ok (con_pending (con_write c b) @ bs)" by simp_all
qed

lemma con_puts_ok:
  "con_ok c \<Longrightarrow> numbers_ok (con_pending c @ bs) \<Longrightarrow>
    con_ok (con_puts c bs) \<and> con_frame c (con_puts c bs)"
proof (induction bs arbitrary: c)
  case (Cons b bs)
  note step = con_write_step [OF Cons.prems]
  from Cons.IH [OF step(1,3)] step(2) show ?case by (auto intro: con_frame_trans)
qed simp

lemma con_init_ok:
  assumes "1 \<le> w" "w \<le> 32767" "1 \<le> h" "h \<le> 32767"
  shows "con_ok (con_init c w h)" "output_lexer (con_init c w h) = Lexer_initial"
    "c_width (con_init c w h) = w" "c_height (con_init c w h) = h"
    "c_x (con_init c w h) = 0" "c_y (con_init c w h) = 0"
  using assms
  by (simp_all add: con_init_def Let_def con_ok_def con_core_simps con_collecting_def)

lemma con_init_frame:
  assumes "1 \<le> w" "w \<le> 32767" "1 \<le> h" "h \<le> 32767"
  shows "con_frame (c\<lparr>c_width := w, c_height := h\<rparr>) (con_init c w h)"
proof -
  let ?c = "con_cursor (c\<lparr>c_width := w, c_height := h, c_x := 1\<rparr>) 0 0"
  have "con_frame ?c (con_erase ?c 0 0 (w - 1) (h - 1))"
    using assms cell_below [of "w - 1" w "h - 1" h]
    by (intro con_erase_con_frame) (simp_all add: con_geom_def)
  then show ?thesis
    using assms by (simp add: con_init_def Let_def con_frame_def screen_bytes_def con_erase_def con_at_def)
qed

subsection \<open>Text\<close>

definition con_glyph :: "console \<Rightarrow> u8 \<Rightarrow> bool" where
  "con_glyph c b \<longleftrightarrow>
     b \<notin> {ANSI_BACKSPACE, ANSI_TAB, ANSI_LINE_FEED, ANSI_CARRIAGE_RETURN, ANSI_ESCAPE} \<and>
     (c_shortcuts c \<longrightarrow> b \<notin> {ANSI_ESC_CSI, ANSI_ESC_DCS, ANSI_ESC_OSC})"

text \<open>The cursor as one index, counted row by row.\<close>

definition con_index :: "console \<Rightarrow> int" where
  "con_index c = c_x c + c_y c * c_width c"

lemma con_put_glyph_cell:
  assumes "con_core c"
  shows "con_cell (c\<lparr>c_mem := (c_mem c)(con_at c (c_x c) (c_y c) := b1, con_at c (c_x c) (c_y c) + 1 := b2)\<rparr>) i
    = (if i = con_index c then (b1, b2) else con_cell c i)"
proof -
  have at: "con_at c (c_x c) (c_y c) = screen_base + 2 * con_index c"
    unfolding con_index_def using assms by (intro con_at_eq) (auto simp: con_core_simps)
  show ?thesis unfolding at by (simp add: con_cell_def)
qed

lemma con_adjust_advance:
  assumes core: "con_core c" and room: "con_index c + 1 < c_width c * c_height c"
  shows "con_index (con_adjust c) = con_index c + 1" "con_core (con_adjust c)"
    "con_cell (con_adjust c) = con_cell c" "c_width (con_adjust c) = c_width c"
    "c_height (con_adjust c) = c_height c" "c_attribute (con_adjust c) = c_attribute c"
    "c_invert (con_adjust c) = c_invert c" "c_shortcuts (con_adjust c) = c_shortcuts c"
proof -
  have g: "0 < c_width c" "c_width c \<le> 32767" "0 < c_height c" "c_height c \<le> 32767"
    "0 \<le> c_x c" "c_x c < c_width c" "0 \<le> c_y c" "c_y c < c_height c"
    using core by (auto simp: con_core_simps)
  define nx where "nx = (if c_x c + 1 \<ge> c_width c then 0 else c_x c + 1)"
  define ny where "ny = (if c_x c + 1 \<ge> c_width c then c_y c + 1 else c_y c)"
  have ny: "ny < c_height c"
  proof (cases "c_x c + 1 \<ge> c_width c")
    case True
    with g have "c_x c = c_width c - 1" by simp
    then have "con_index c + 1 = (c_y c + 1) * c_width c"
      by (simp add: con_index_def algebra_simps)
    with room have "(c_y c + 1) * c_width c < c_height c * c_width c" by (simp add: mult.commute)
    then have "c_y c + 1 < c_height c" using g(1) by (simp add: mult_less_cancel_right)
    with True show ?thesis by (simp add: ny_def)
  qed (use g in \<open>simp add: ny_def\<close>)
  have adj: "con_adjust c = con_cursor c nx ny"
    using g ny by (cases "c_x c + 1 \<ge> c_width c") (simp_all add: con_adjust_def nx_def ny_def Let_def)
  show "con_index (con_adjust c) = con_index c + 1"
    using g unfolding adj by (auto simp: con_index_def nx_def ny_def algebra_simps)
  show "con_core (con_adjust c)"
    unfolding adj using g ny by (intro con_cursor_core core) (auto simp: con_on_screen_def nx_def ny_def)
  show "con_cell (con_adjust c) = con_cell c" "c_width (con_adjust c) = c_width c"
    "c_height (con_adjust c) = c_height c" "c_attribute (con_adjust c) = c_attribute c"
    "c_invert (con_adjust c) = c_invert c" "c_shortcuts (con_adjust c) = c_shortcuts c"
    by (simp_all add: adj con_cell_def fun_eq_iff)
qed

lemma con_write_glyph:
  assumes core: "con_core c" and lex: "output_lexer c = Lexer_initial" and glyph: "con_glyph c b"
    and room: "con_index c + 1 < c_width c * c_height c"
  defines "d \<equiv> con_write c b"
  shows "con_core d" "output_lexer d = Lexer_initial" "con_index d = con_index c + 1"
    "con_cell d = (con_cell c)(con_index c := (b, con_attr c))"
    "c_width d = c_width c" "c_height d = c_height c" "con_attr d = con_attr c" "con_glyph d = con_glyph c"
proof -
  define put where "put = c\<lparr>c_mem := (c_mem c)(con_at c (c_x c) (c_y c) := b, con_at c (c_x c) (c_y c) + 1 := con_attr c)\<rparr>"
  have same: "con_core put" "con_index put = con_index c" "c_width put = c_width c" "c_height put = c_height c"
    "output_lexer put = Lexer_initial" "c_attribute put = c_attribute c" "c_invert put = c_invert c"
    "c_shortcuts put = c_shortcuts c"
    using core lex by (simp_all add: put_def con_core_simps con_index_def)
  have d: "d = con_adjust put"
    using lex glyph by (auto simp: d_def con_write_def con_lexer_initial_def con_glyph_def put_def Let_def)
  have "con_cell put = (con_cell c)(con_index c := (b, con_attr c))"
    unfolding put_def using con_put_glyph_cell [OF core] by (auto simp: fun_eq_iff)
  with con_adjust_advance [of put] same room
  show "con_core d" "output_lexer d = Lexer_initial" "con_index d = con_index c + 1"
    "con_cell d = (con_cell c)(con_index c := (b, con_attr c))"
    "c_width d = c_width c" "c_height d = c_height c" "con_attr d = con_attr c" "con_glyph d = con_glyph c"
    by (simp_all add: d con_attr_def con_glyph_def fun_eq_iff)
qed

lemma con_puts_glyphs:
  assumes "con_core c" "output_lexer c = Lexer_initial" "\<forall>b \<in> set bs. con_glyph c b"
    and "con_index c + int (length bs) < c_width c * c_height c"
  shows "con_core (con_puts c bs) \<and> output_lexer (con_puts c bs) = Lexer_initial \<and>
    con_index (con_puts c bs) = con_index c + int (length bs) \<and>
    (\<forall>i. con_cell (con_puts c bs) i =
       (if con_index c \<le> i \<and> i < con_index c + int (length bs)
        then (bs ! nat (i - con_index c), con_attr c) else con_cell c i))"
  using assms
proof (induction bs arbitrary: c)
  case (Cons b bs)
  have "con_index c + 1 < c_width c * c_height c" "con_glyph c b" using Cons.prems by auto
  note w = con_write_glyph [OF Cons.prems(1,2) this(2,1)]
  have "con_core (con_puts c (b # bs)) \<and> output_lexer (con_puts c (b # bs)) = Lexer_initial \<and>
    con_index (con_puts c (b # bs)) = con_index c + 1 + int (length bs) \<and>
    (\<forall>i. con_cell (con_puts c (b # bs)) i =
       (if con_index c + 1 \<le> i \<and> i < con_index c + 1 + int (length bs)
        then (bs ! nat (i - (con_index c + 1)), con_attr c)
        else if i = con_index c then (b, con_attr c) else con_cell c i))"
    using Cons.IH [OF w(1,2)] Cons.prems(3,4) by (simp add: w add.assoc)
  moreover have "(b # bs) ! nat (i - con_index c) = bs ! nat (i - (con_index c + 1))"
    if "con_index c + 1 \<le> i" for i
  proof -
    have "nat (i - con_index c) = Suc (nat (i - (con_index c + 1)))" using that by simp
    then show ?thesis by simp
  qed
  ultimately show ?case by auto
qed auto

subsection \<open>One complete control sequence\<close>

text \<open>The sequence buffer after \<open>bs\<close> was collected.\<close>

definition con_buffer :: "console \<Rightarrow> u8 list \<Rightarrow> (int \<Rightarrow> u8)" where
  "con_buffer c bs =
     (\<lambda>i. if 0 \<le> i \<and> i < 64 then (if i < int (length bs) then bs ! nat i else 0) else c_sequence c i)"

definition con_collected :: "console \<Rightarrow> u8 list \<Rightarrow> console" where
  "con_collected c bs = c\<lparr>c_sequence := con_buffer c bs, c_length := int (length bs), output_lexer := Lexer_csi\<rparr>"

lemma con_collected_simps [simp]:
  "output_lexer (con_collected c bs) = Lexer_csi" "c_length (con_collected c bs) = int (length bs)"
  "c_sequence (con_collected c bs) = con_buffer c bs"
  "c_width (con_collected c bs) = c_width c" "c_height (con_collected c bs) = c_height c"
  "c_x (con_collected c bs) = c_x c" "c_y (con_collected c bs) = c_y c"
  "c_mem (con_collected c bs) = c_mem c" "con_core (con_collected c bs) = con_core c"
  by (simp_all add: con_collected_def con_core_simps)

lemma con_collected_start:
  "con_reset_sequence c b\<lparr>output_lexer := Lexer_csi\<rparr> = con_collected c [b]"
  by (auto simp: con_reset_sequence_def con_collected_def con_buffer_def memset_eq patch_def fun_eq_iff)

lemma con_collected_push:
  assumes "length bs < 64"
  shows "con_push (con_collected c bs) b = con_collected c (bs @ [b])"
proof -
  have "(con_buffer c bs)(int (length bs) := b) = con_buffer c (bs @ [b])"
    using assms by (auto simp: con_buffer_def nth_append fun_eq_iff)
  with assms show ?thesis by (simp add: con_push_def con_collected_def)
qed

lemma con_puts_collect:
  "\<forall>b \<in> set bs. \<not> ANSI_CSI_FINAL b \<Longrightarrow> length as + length bs < 64 \<Longrightarrow>
    con_puts (con_collected c as) bs = con_collected c (as @ bs)"
proof (induction bs arbitrary: as)
  case (Cons b bs)
  have "con_write (con_collected c as) b = con_collected c (as @ [b])"
    using Cons.prems
    by (simp add: con_write_def con_lexer_csi_def con_collected_push Let_def)
  with Cons.IH [of "as @ [b]"] Cons.prems show ?case by simp
qed simp

lemma con_puts_csi:
  assumes "output_lexer c = Lexer_initial" "\<forall>b \<in> set bs. \<not> ANSI_CSI_FINAL b" "ANSI_CSI_FINAL f" "length bs \<le> 62"
  shows "con_puts c (ANSI_ESCAPE # ANSI_CSI # bs @ [f]) =
    (con_csi_execute (con_collected c (ANSI_CSI # bs @ [f])) 1 (int (length bs) + 1))\<lparr>output_lexer := Lexer_initial\<rparr>"
proof -
  have "con_write c ANSI_ESCAPE = c\<lparr>output_lexer := Lexer_escape\<rparr>"
    using assms(1) by (simp add: con_write_def con_lexer_initial_def)
  moreover have "con_write (c\<lparr>output_lexer := Lexer_escape\<rparr>) ANSI_CSI = con_collected c [ANSI_CSI]"
    using con_collected_start [of c ANSI_CSI]
    by (simp add: con_write_def con_lexer_escape_def Let_def con_reset_sequence_def)
  ultimately have "con_puts c (ANSI_ESCAPE # ANSI_CSI # bs @ [f]) = con_write (con_collected c (ANSI_CSI # bs)) f"
    using con_puts_collect [OF assms(2), of "[ANSI_CSI]" c] assms(4) by (simp add: con_puts_append)
  also have "\<dots> = (con_execute (con_collected c (ANSI_CSI # bs @ [f])))\<lparr>output_lexer := Lexer_initial\<rparr>"
  proof -
    have push: "con_push (con_collected c (ANSI_CSI # bs)) f = con_collected c (ANSI_CSI # bs @ [f])"
      using con_collected_push [of "ANSI_CSI # bs" c f] assms(4) by simp
    show ?thesis using assms(3) by (simp add: con_write_def con_lexer_csi_def push Let_def)
  qed
  also have "con_execute (con_collected c (ANSI_CSI # bs @ [f])) =
      con_csi_execute (con_collected c (ANSI_CSI # bs @ [f])) 1 (int (length bs) + 1)"
    using assms(4) by (simp add: con_execute_def Let_def con_buffer_def add.commute)
  finally show ?thesis .
qed

subsection \<open>Decimal parameters\<close>

definition dec_value :: "u8 list \<Rightarrow> int" where
  "dec_value ds = foldl (\<lambda>acc d. i32 (i32 (acc * 10) + (uint d - 48))) 0 ds"

lemma con_next_int_loop_digits:
  assumes "\<forall>j < length ds. sequence (head + int j) = ds ! j" "\<forall>d \<in> set ds. is_digit d"
    and "head + int (length ds) \<le> lst" "\<not> is_digit (sequence (head + int (length ds)))"
  shows "con_next_int_loop sequence head lst fallback first acc =
    (if ds = [] \<and> first then fallback
     else foldl (\<lambda>acc d. i32 (i32 (acc * 10) + (uint d - 48))) acc ds, head + int (length ds))"
  using assms
proof (induction ds arbitrary: head first acc)
  case Nil
  then show ?case by (simp add: con_next_int_loop.simps [of sequence head] con_next_char_def)
next
  case (Cons d ds)
  have "sequence head = d" using Cons.prems(1) by force
  moreover have "sequence (head + 1 + int j) = ds ! j" if "j < length ds" for j
    using Cons.prems(1) [rule_format, of "Suc j"] that by (simp add: add.assoc)
  ultimately show ?case
    using Cons.IH [of "head + 1" False "i32 (i32 (acc * 10) + (uint d - 48))"] Cons.prems(2-)
    by (simp add: con_next_int_loop.simps [of sequence head] con_next_char_def add.assoc)
qed

lemma con_next_int_digits:
  assumes "\<forall>j < length ds. sequence (head + int j) = ds ! j" "\<forall>d \<in> set ds. is_digit d"
    and "head + int (length ds) \<le> lst" "\<not> is_digit (sequence (head + int (length ds)))"
  shows "con_next_int sequence head lst fallback =
    (if ds = [] then fallback else dec_value ds, head + int (length ds))"
  using con_next_int_loop_digits [OF assms, of fallback True 0]
  by (simp add: con_next_int_def dec_value_def)

lemma digit_not_final: "is_digit b \<Longrightarrow> \<not> ANSI_CSI_FINAL b"
  by (simp add: is_digit_def ANSI_CSI_FINAL_def word_le_nat_alt)

text \<open>A sequence with one decimal parameter hands its value to the interpreter.\<close>

lemma con_collected_arg:
  assumes "\<forall>d \<in> set ds. is_digit d" "length ds \<le> 62" "\<not> is_digit f"
  shows "con_next_int (c_sequence (con_collected c (ANSI_CSI # ds @ [f]))) 1 (int (length ds) + 1) fallback =
    (if ds = [] then fallback else dec_value ds, int (length ds) + 1)"
proof -
  let ?s = "con_buffer c (ANSI_CSI # ds @ [f])"
  have "\<forall>j < length ds. ?s (1 + int j) = ds ! j" and "?s (1 + int (length ds)) = f"
    using assms(2) by (auto simp: con_buffer_def nth_append nat_add_distrib)
  then show ?thesis
    using con_next_int_digits [of ds ?s 1 "int (length ds) + 1" fallback] assms by (simp add: add.commute)
qed

lemma con_collected_two_args:
  fixes c :: console
  assumes "\<forall>d \<in> set ns. is_digit d" "\<forall>d \<in> set ms. is_digit d" "ns \<noteq> []" "ms \<noteq> []"
    and "length ns + length ms \<le> 60" "\<not> is_digit sep" "\<not> is_digit f"
  defines "s \<equiv> con_buffer c (ANSI_CSI # ns @ sep # ms @ [f])"
    and "lst \<equiv> int (length (ns @ sep # ms)) + 1"
  shows "con_next_int s 1 lst fallback = (dec_value ns, int (length ns) + 1)"
    "con_next_char s (int (length ns) + 1) lst = (sep, int (length ns) + 2)"
    "con_next_int s (int (length ns) + 2) lst fallback = (dec_value ms, lst)"
proof -
  have nth: "s (int i) = (ANSI_CSI # ns @ sep # ms @ [f]) ! i" if "i < length ns + length ms + 3" for i
    using that assms(5) by (simp add: s_def con_buffer_def)
  have n: "s (1 + int j) = ns ! j" if "j < length ns" for j
    using that nth [of "Suc j"] by (simp add: nth_append)
  have sep: "s (1 + int (length ns)) = sep"
    using nth [of "Suc (length ns)"] by (simp add: nth_append)
  have m: "s (int (length ns) + 2 + int j) = ms ! j" if "j < length ms" for j
    using that nth [of "length ns + 2 + j"] by (simp add: nth_append algebra_simps)
  have f: "s (int (length ns) + 2 + int (length ms)) = f"
    using nth [of "length ns + 2 + length ms"] by (simp add: nth_append algebra_simps)
  show "con_next_int s 1 lst fallback = (dec_value ns, int (length ns) + 1)"
    using con_next_int_digits [of ns s 1 lst fallback] n sep assms(1,3,6) by (simp add: lst_def add.commute)
  show "con_next_char s (int (length ns) + 1) lst = (sep, int (length ns) + 2)"
    using sep by (simp add: con_next_char_def lst_def add.commute)
  show "con_next_int s (int (length ns) + 2) lst fallback = (dec_value ms, lst)"
    using con_next_int_digits [of ms s "int (length ns) + 2" lst fallback] m f assms(2,4,7)
    by (simp add: lst_def add.commute)
qed

subsection \<open>Ends of sequences\<close>

lemma con_write_ends:
  assumes "con_ok c" "con_collecting c" "output_lexer (con_write c b) \<noteq> Lexer_initial"
  shows "con_collecting (con_write c b)" "c_length (con_write c b) = c_length c + 1" "c_length c < 63"
proof -
  have "1 \<le> c_length c" "c_length c < 64" using assms by (auto simp: con_ok_def)
  then have len: "c_length (con_push c b) = c_length c + 1" by (simp add: con_push_length)
  have col: "con_collecting (con_push c b)" using assms(2) by (simp add: con_collecting_def)
  have "con_write c b = con_push c b \<and> c_length c < 63"
    using assms(2,3) len
    by (auto simp: con_collecting_def con_write_def con_lexer_csi_def con_lexer_until_st_def Let_def split: if_splits)
  with col len show "con_collecting (con_write c b)" "c_length (con_write c b) = c_length c + 1" "c_length c < 63"
    by auto
qed

lemma con_puts_ends:
  "con_ok c \<Longrightarrow> con_collecting c \<Longrightarrow> numbers_ok (con_pending c @ bs) \<Longrightarrow> 64 - c_length c \<le> int (length bs) \<Longrightarrow>
    \<exists>n \<le> length bs. output_lexer (con_puts c (take n bs)) = Lexer_initial"
proof (induction bs arbitrary: c)
  case Nil
  then show ?case by (auto simp: con_ok_def)
next
  case (Cons b bs)
  show ?case
  proof (cases "output_lexer (con_write c b) = Lexer_initial")
    case True
    then show ?thesis by (intro exI [of _ 1]) simp
  next
    case False
    note ends = con_write_ends [OF Cons.prems(1,2) False] and step = con_write_step [OF Cons.prems(1,3)]
    obtain n where "n \<le> length bs" "output_lexer (con_puts (con_write c b) (take n bs)) = Lexer_initial"
      using Cons.IH [OF step(1) ends(1) step(3)] Cons.prems(4) ends(2) by auto
    then show ?thesis by (intro exI [of _ "Suc n"]) simp
  qed
qed

text \<open>The static variables before \<^verbatim>\<open>con_init\<close>, and the console of an 80 by 25 screen.\<close>

definition con_zero :: console where
  "con_zero = \<lparr>c_mem = (\<lambda>_. 0), output_lexer = Lexer_initial, c_sequence = (\<lambda>_. 0), c_length = 0,
     c_invert = False, c_attribute = 0, c_width = 0, c_height = 0, c_x = 0, c_y = 0, c_shortcuts = False,
     c_sa = 0, c_sx = 0, c_sy = 0, c_vga = 0\<rparr>"

definition con_80x25 :: console where
  "con_80x25 = con_init con_zero 80 25"

lemma con_80x25_simps [simp]:
  "con_ok con_80x25" "con_core con_80x25" "con_geom con_80x25" "output_lexer con_80x25 = Lexer_initial"
  "c_width con_80x25 = 80" "c_height con_80x25 = 25" "c_x con_80x25 = 0" "c_y con_80x25 = 0"
  "con_index con_80x25 = 0" "c_shortcuts con_80x25 = True" "con_attr con_80x25 = 7" "con_pending con_80x25 = []"
  using con_init_ok [of 80 25 con_zero]
  by (simp_all add: con_80x25_def con_ok_def con_core_def con_index_def con_collecting_def)
     (simp_all add: con_init_def con_attr_def con_erase_def con_cursor_def Let_def)

lemma con_cup_moves:
  assumes "con_core c" "output_lexer c = Lexer_initial"
    and "\<forall>d \<in> set ns. is_digit d" "\<forall>d \<in> set ms. is_digit d" "ns \<noteq> []" "ms \<noteq> []" "length ns + length ms \<le> 60"
  defines "d \<equiv> con_puts c ([ANSI_ESCAPE, ANSI_CSI] @ ns @ [0x3B] @ ms @ [ANSI_CSI_CUP])"
  shows "c_x d = clamp (i32 (dec_value ns - 1)) 0 (c_width c - 1) \<and>
    c_y d = clamp (i32 (dec_value ms - 1)) 0 (c_height c - 1) \<and>
    con_cell d = con_cell c \<and> output_lexer d = Lexer_initial"
proof -
  let ?body = "ns @ 0x3B # ms"
  let ?c = "con_collected c (ANSI_CSI # ns @ 0x3B # ms @ [ANSI_CSI_CUP])"
  let ?lst = "int (length ?body) + 1"
  have sep: "\<not> is_digit 0x3B" "\<not> is_digit ANSI_CSI_CUP" by (simp_all add: is_digit_def)
  note args = con_collected_two_args [OF assms(3-7) sep, where c = c]
  have "\<not> ANSI_CSI_FINAL 0x3B" "ANSI_CSI_FINAL ANSI_CSI_CUP" by (simp_all add: ANSI_CSI_FINAL_def)
  moreover from this have "\<forall>b \<in> set ?body. \<not> ANSI_CSI_FINAL b"
    using assms(3,4) digit_not_final by auto
  ultimately have "d = con_csi_execute ?c 1 ?lst\<lparr>output_lexer := Lexer_initial\<rparr>"
    unfolding d_def using assms(2,7) con_puts_csi [of c ?body ANSI_CSI_CUP] by simp
  moreover have "con_csi_execute ?c 1 ?lst = con_cursor ?c (clamp (i32 (dec_value ns - 1)) 0 (c_width c - 1))
      (clamp (i32 (dec_value ms - 1)) 0 (c_height c - 1))"
  proof -
    have "con_buffer c (ANSI_CSI # ns @ 0x3B # ms @ [ANSI_CSI_CUP]) ?lst = ANSI_CSI_CUP"
      using assms(7) by (simp add: con_buffer_def nth_append nat_add_distrib)
    moreover have "i32 (c_width c - 1) = c_width c - 1" "i32 (c_height c - 1) = c_height c - 1"
      using assms(1) by (auto simp: con_core_simps)
    ultimately show ?thesis unfolding con_csi_execute_def Let_def using args by simp
  qed
  ultimately show ?thesis by (simp add: con_cell_def fun_eq_iff)
qed

subsection \<open>Properties\<close>

text \<open>
  C15. Memory safety of the console over whole output streams: from any state of the
  invariant, a stream in which no number has ten or more digits leaves the cursor and the
  saved cursor on the screen and the sequence buffer within its 64 bytes, and no byte of
  memory outside the screen's video memory changes.
\<close>

theorem con_stream_safe:
  assumes "con_ok c" "numbers_ok (con_pending c @ bs)"
  shows "con_ok (con_puts c bs) \<and> con_frame c (con_puts c bs)"
  using con_puts_ok [OF assms] by auto

text \<open>
  C9. After \<^verbatim>\<open>con_init\<close> with a screen of up to 32767 by 32767 cells, every stream without a
  number of ten digits keeps the cursor on the screen, keeps the geometry, and writes only
  the screen's video memory.
\<close>

theorem con_boot_stream:
  assumes "1 \<le> w" "w \<le> 32767" "1 \<le> h" "h \<le> 32767" "numbers_ok bs"
  shows "let d = con_puts (con_init c w h) bs in
    0 \<le> c_x d \<and> c_x d < w \<and> 0 \<le> c_y d \<and> c_y d < h \<and> c_width d = w \<and> c_height d = h \<and>
    (\<forall>a. a < 0xB8000 \<or> 0xB8000 + 2 * (w * h) \<le> a \<longrightarrow> c_mem d a = c_mem c a)"
proof -
  let ?i = "con_init c w h"
  note init = con_init_ok [OF assms(1-4), of c]
  have "con_pending ?i = []" using init(2) by (simp add: con_collecting_def)
  with con_puts_ok [OF init(1), of bs] assms(5)
  have d: "con_ok (con_puts ?i bs)" "con_frame ?i (con_puts ?i bs)" by auto
  have "con_frame (c\<lparr>c_width := w, c_height := h\<rparr>) ?i"
    using con_init_frame [OF assms(1-4)] .
  with d init(3,4) show ?thesis
    by (auto simp: Let_def con_ok_def con_core_simps con_frame_def screen_base_def screen_bytes_def)
qed

text \<open>
  The same screen geometry and memory frame at work: a stream that clears the screen, moves
  the cursor and scrolls.
\<close>

theorem con_boot_stream_witness:
  "let d = con_puts (con_init con_zero 80 25) [0x1B, 0x5B, 0x32, 0x4A, 0x1B, 0x5B, 0x39, 0x39, 0x42, 0x0A] in
    0 \<le> c_x d \<and> c_x d < 80 \<and> 0 \<le> c_y d \<and> c_y d < 25 \<and> c_width d = 80 \<and> c_height d = 25 \<and>
    (\<forall>a. a < 0xB8000 \<or> 0xB8000 + 2 * (80 * 25) \<le> a \<longrightarrow> c_mem d a = c_mem con_zero a)"
  by (rule con_boot_stream) (simp_all add: numbers_ok_def is_digit_def)

theorem con_stream_safe_witness:
  "con_frame con_80x25 (con_puts con_80x25 [0x1B, 0x5B, 0x35, 0x42, 0x41])"
  by (rule con_stream_safe [THEN conjunct2]) (simp_all add: numbers_ok_def is_digit_def)

text \<open>
  Functional correctness of text output: glyphs written from the cursor on land in
  consecutive cells in row order with the current attribute, every other cell keeps its
  content, and the cursor advances by their number, as long as the text ends before the last
  cell of the screen.
\<close>

theorem con_text:
  assumes "con_core c" "output_lexer c = Lexer_initial" "\<forall>b \<in> set bs. con_glyph c b"
    and "con_index c + int (length bs) < c_width c * c_height c"
  shows "con_index (con_puts c bs) = con_index c + int (length bs) \<and>
    con_cell (con_puts c bs) i =
       (if con_index c \<le> i \<and> i < con_index c + int (length bs)
        then (bs ! nat (i - con_index c), con_attr c) else con_cell c i)"
  using con_puts_glyphs [OF assms] by auto

theorem con_text_witness:
  "con_cell (con_puts con_80x25 [0x4E, 0x45, 0x4F, 0x53]) 2 = (0x4F, 7)"
  using con_text [of con_80x25 "[0x4E, 0x45, 0x4F, 0x53]" 2] by (simp add: con_glyph_def)

text \<open>
  Scrolling up by \<open>n\<close> lines shows each cell \<open>min n height\<close> rows further down, blanks the rows
  that come free and changes no other cell, and the cursor follows the text.
\<close>

theorem con_scroll_up_cells:
  assumes "con_geom c" "0 < n" "n < 2147483648" "0 \<le> c_y c" "c_y c \<le> c_height c"
  shows "con_cell (con_scroll c n) i = scrolled_up c (min n (c_height c)) i \<and>
    c_x (con_scroll c n) = c_x c \<and> c_y (con_scroll c n) = max 0 (c_y c - min n (c_height c))"
  using con_scroll_up [OF assms] by auto

theorem con_scroll_up_cells_witness: "con_cell (con_scroll con_80x25 1) 1999 = blank"
  using con_scroll_up_cells [of con_80x25 1 1999] by (simp add: scrolled_up_def)

text \<open>
  Scrolling down by \<open>n\<close> lines moves each cell \<open>min n height\<close> rows down, blanks the rows at
  the top and changes no other cell; the two regions overlap in memory and no cell is copied
  after it was overwritten.
\<close>

theorem con_scroll_down_cells:
  assumes "con_geom c" "n < 0" "- 2147483648 < n" "0 \<le> c_y c" "c_y c \<le> c_height c"
  shows "con_cell (con_scroll c n) i = scrolled_down c (min (- n) (c_height c)) i \<and>
    c_x (con_scroll c n) = c_x c \<and>
    c_y (con_scroll c n) = min (c_y c + min (- n) (c_height c)) (c_height c - 1)"
  using con_scroll_down [OF assms] by auto

theorem con_scroll_down_cells_witness: "con_cell (con_scroll con_80x25 (- 2)) 159 = blank"
  using con_scroll_down_cells [of con_80x25 "- 2" 159] by (simp add: scrolled_down_def)

text \<open>
  Cursor positioning, from the first byte to the last: \<^verbatim>\<open>ESC [ n ; m H\<close> with decimal
  parameters moves the cursor to column \<open>n - 1\<close> and row \<open>m - 1\<close>, each clamped to the screen,
  writes no cell, and leaves the lexer ready for the next byte.  (The code takes the first
  parameter as the column.)
\<close>

theorem con_cup:
  assumes "con_core c" "output_lexer c = Lexer_initial"
    and "\<forall>d \<in> set ns. is_digit d" "\<forall>d \<in> set ms. is_digit d" "ns \<noteq> []" "ms \<noteq> []" "length ns + length ms \<le> 60"
  defines "d \<equiv> con_puts c ([ANSI_ESCAPE, ANSI_CSI] @ ns @ [0x3B] @ ms @ [ANSI_CSI_CUP])"
  shows "c_x d = clamp (i32 (dec_value ns - 1)) 0 (c_width c - 1) \<and>
    c_y d = clamp (i32 (dec_value ms - 1)) 0 (c_height c - 1) \<and>
    con_cell d = con_cell c \<and> output_lexer d = Lexer_initial"
  unfolding d_def by (rule con_cup_moves [OF assms(1-7)])

theorem con_cup_witness:
  "c_x (con_puts con_80x25 [0x1B, 0x5B, 0x31, 0x32, 0x3B, 0x39, 0x39, 0x48]) = 11 \<and>
   c_y (con_puts con_80x25 [0x1B, 0x5B, 0x31, 0x32, 0x3B, 0x39, 0x39, 0x48]) = 24"
  using con_cup [of con_80x25 "[0x31, 0x32]" "[0x39, 0x39]"]
  by (simp add: is_digit_def dec_value_def clamp_def del: con_puts_Cons)

text \<open>
  Every control sequence comes to an end: from a state that collects one, at most 64
  further bytes bring the lexer back to its initial state, whatever those bytes are (a number
  of ten digits excepted).
\<close>

theorem con_sequence_ends:
  assumes "con_ok c" "con_collecting c" "numbers_ok (con_pending c @ bs)" "64 \<le> length bs"
  shows "\<exists>n \<le> 64. output_lexer (con_puts c (take n bs)) = Lexer_initial"
proof -
  have "numbers_ok (con_pending c @ take 64 bs)"
    using assms(3) digit_runs_ok_prefix [of 0 "con_pending c @ take 64 bs" "drop 64 bs"]
    by (simp add: numbers_ok_def)
  then obtain n where n: "n \<le> 64" "output_lexer (con_puts c (take n (take 64 bs))) = Lexer_initial"
    using con_puts_ends [of c "take 64 bs"] assms by (auto simp: con_ok_def)
  then show ?thesis by (intro exI [of _ n]) (simp add: min_def)
qed

theorem con_sequence_ends_witness:
  "\<exists>n \<le> 64. output_lexer (con_puts (con_collected con_80x25 [ANSI_CSI]) (take n (replicate 64 0x3B))) = Lexer_initial"
proof (rule con_sequence_ends)
  let ?c = "con_collected con_80x25 [ANSI_CSI]"
  show ok: "con_ok ?c" and col: "con_collecting ?c" by (simp_all add: con_ok_def con_collecting_def)
  have "con_pending ?c = [con_buffer con_80x25 [ANSI_CSI] 0]" using col by (simp add: con_pending_def)
  moreover have "digit_runs_ok 0 (replicate n 0x3B)" for n by (induction n) (simp_all add: is_digit_def)
  ultimately show "numbers_ok (con_pending ?c @ replicate 64 0x3B)"
    by (simp add: numbers_ok_def con_buffer_def is_digit_def del: replicate.simps)
qed simp

text \<open>
  The limit on numbers is needed: \<^verbatim>\<open>ESC [ 2147483647 B\<close>, sent when the cursor is below the
  first line, overflows the addition in the \<^verbatim>\<open>CUD\<close> branch and moves the cursor far above the
  screen.
\<close>

theorem con_cud_overflow:
  assumes "con_core c" "output_lexer c = Lexer_initial" "1 \<le> c_y c"
  shows "c_y (con_puts c [0x1B, 0x5B, 0x32, 0x31, 0x34, 0x37, 0x34, 0x38, 0x33, 0x36, 0x34, 0x37, 0x42])
    = c_y c - 2147483649"
proof -
  let ?ds = "[0x32, 0x31, 0x34, 0x37, 0x34, 0x38, 0x33, 0x36, 0x34, 0x37] :: u8 list"
  let ?c = "con_collected c (ANSI_CSI # ?ds @ [ANSI_CSI_CUD])"
  have digits: "\<forall>d \<in> set ?ds. is_digit d" by (simp add: is_digit_def)
  have val: "dec_value ?ds = 2147483647" by (simp add: dec_value_def)
  have "con_next_int (con_buffer c (ANSI_CSI # ?ds @ [ANSI_CSI_CUD])) 1 11 1 = (2147483647, 11)"
    using con_collected_arg [OF digits, of ANSI_CSI_CUD c 1] val by (simp add: is_digit_def)
  moreover have "con_buffer c (ANSI_CSI # ?ds @ [ANSI_CSI_CUD]) 11 = ANSI_CSI_CUD"
    by (simp add: con_buffer_def)
  moreover have "i32 (c_y c + 2147483647) = c_y c - 2147483649" "c_y c - 2147483649 < c_height c"
    "i32 (c_height c - 1) = c_height c - 1"
    using assms i32_above [of "c_y c + 2147483647"] by (auto simp: con_core_simps)
  ultimately have "c_y (con_csi_execute ?c 1 11) = c_y c - 2147483649"
    unfolding con_csi_execute_def Let_def using assms(3) by (simp add: min_c_def)
  then show ?thesis
    using con_puts_csi [OF assms(2), of ?ds ANSI_CSI_CUD]
    by (simp add: ANSI_CSI_FINAL_def)
qed

theorem con_cud_overflow_witness:
  "c_y (con_puts (con_puts con_80x25 [0x1B, 0x5B, 0x31, 0x3B, 0x32, 0x48])
     [0x1B, 0x5B, 0x32, 0x31, 0x34, 0x37, 0x34, 0x38, 0x33, 0x36, 0x34, 0x37, 0x42]) = - 2147483648"
proof -
  let ?c = "con_puts con_80x25 [0x1B, 0x5B, 0x31, 0x3B, 0x32, 0x48]"
  have "con_core ?c"
    using con_puts_ok [OF con_80x25_simps(1), of "[0x1B, 0x5B, 0x31, 0x3B, 0x32, 0x48]"]
    by (simp add: numbers_ok_def is_digit_def con_ok_def [of "con_puts _ _"] del: con_puts_Cons)
  moreover have "output_lexer ?c = Lexer_initial \<and> c_y ?c = 1"
    using con_cup_moves [of con_80x25 "[0x31]" "[0x32]"]
    by (simp add: is_digit_def dec_value_def clamp_def del: con_puts_Cons)
  ultimately show ?thesis using con_cud_overflow [of ?c] by simp
qed

text \<open>
  Colours: the foreground codes 30 to 37 change only the three foreground colour bits,
  the background codes 40 to 47 only the three background colour bits, and both store the
  ANSI colour with its red and blue bits exchanged.
\<close>

theorem con_sgr_colours:
  assumes "0 \<le> k" "k \<le> 7"
  shows "c_attribute (con_srg_apply c (30 + k)) = (c_attribute c AND 0xF8) OR con_ansi_to_vga k \<and>
    c_attribute (con_srg_apply c (40 + k)) = (c_attribute c AND 0x8F) OR push_bit 4 (con_ansi_to_vga k) \<and>
    con_ansi_to_vga (uint (con_ansi_to_vga k)) = word_of_int k"
proof (intro conjI)
  from assms have "k \<in> {0, 1, 2, 3, 4, 5, 6, 7}" by auto
  then show "con_ansi_to_vga (uint (con_ansi_to_vga k)) = word_of_int k"
    by (auto simp: con_ansi_to_vga_def)
next
  have masks: "- 8 = (0xF8 :: u8)" "- 113 = (0x8F :: u8)" by simp_all
  show "c_attribute (con_srg_apply c (30 + k)) = (c_attribute c AND 0xF8) OR con_ansi_to_vga k"
    "c_attribute (con_srg_apply c (40 + k)) = (c_attribute c AND 0x8F) OR push_bit 4 (con_ansi_to_vga k)"
    using assms by (simp_all add: con_srg_apply_def Let_def masks)
qed

theorem con_sgr_colours_witness: "c_attribute (con_srg_apply con_80x25 (30 + 1)) = 4"
  using con_sgr_colours [of 1 con_80x25]
  by (simp add: con_ansi_to_vga_def con_80x25_def con_init_def con_erase_def con_cursor_def Let_def)

end
