(* ===== verification/Digits.thy ===== *)
theory Digits
  imports Prelude
begin

section \<open>Numbers and their digits\<close>

text \<open>
  The digits of a number in a base, as a reference for the two places of the kernel that print
  numbers.
\<close>

text \<open>The digits of a number, most significant first; none for zero.\<close>

fun to_digits :: "nat \<Rightarrow> nat \<Rightarrow> nat list" where
  "to_digits base n =
     (if n = 0 \<or> base < 2 then [] else to_digits base (n div base) @ [n mod base])"

declare to_digits.simps [simp del]

lemma to_digits_0 [simp]: "to_digits base 0 = []"
  by (simp add: to_digits.simps)

lemma to_digits_value: "2 \<le> base \<Longrightarrow> foldl (\<lambda>a d. a * base + d) 0 (to_digits base n) = n"
proof (induction base n rule: to_digits.induct)
  case (1 base n)
  then show ?case by (simp add: to_digits.simps [of base n])
qed

lemma to_digits_less: "2 \<le> base \<Longrightarrow> d \<in> set (to_digits base n) \<Longrightarrow> d < base"
proof (induction base n rule: to_digits.induct)
  case (1 base n)
  then show ?case by (auto simp: to_digits.simps [of base n] split: if_splits)
qed

lemma to_digits_length: "2 \<le> base \<Longrightarrow> n < base ^ k \<Longrightarrow> length (to_digits base n) \<le> k"
proof (induction base n arbitrary: k rule: to_digits.induct)
  case (1 base n)
  show ?case
  proof (cases "n = 0")
    case False
    with "1.prems" obtain j where k: "k = Suc j" by (cases k) auto
    have "n div base < base ^ j" using "1.prems" k by (simp add: less_mult_imp_div_less mult.commute)
    with "1.IH" False "1.prems"(1) k show ?thesis by (simp add: to_digits.simps [of base n])
  qed simp
qed

end
