(* ===== verification/Print.thy ===== *)
theory Print
  imports ConsoleStream Digits
begin

section \<open>Formatted output (print.c)\<close>

text \<open>
  \<^verbatim>\<open>kprintf\<close> and its helpers, as functions to the bytes they hand to \<^verbatim>\<open>con_write\<close>; \<open>con_puts\<close>
  runs the console on them.  A C string argument is the list of its bytes before the
  terminator, a null pointer is \<open>None\<close>.  The variable arguments are a list, and reading one
  of another type than was passed, undefined in C, gives \<open>None\<close> as the result.
\<close>

subsection \<open>Code page 437\<close>

definition cp437_table :: "(u16 \<times> u8) list" where
  "cp437_table = [
     (0x2302, 0x7F), (0x00C7, 0x80), (0x00FC, 0x81), (0x00E9, 0x82), (0x00E2, 0x83),
     (0x00E4, 0x84), (0x00E0, 0x85), (0x00E5, 0x86), (0x00E7, 0x87), (0x00EA, 0x88),
     (0x00EB, 0x89), (0x00E8, 0x8A), (0x00EF, 0x8B), (0x00EE, 0x8C), (0x00EC, 0x8D),
     (0x00C4, 0x8E), (0x00C5, 0x8F), (0x00C9, 0x90), (0x00E6, 0x91), (0x00C6, 0x92),
     (0x00F4, 0x93), (0x00F6, 0x94), (0x00F2, 0x95), (0x00FB, 0x96), (0x00F9, 0x97),
     (0x00FF, 0x98), (0x00D6, 0x99), (0x00DC, 0x9A), (0x00A2, 0x9B), (0x00A3, 0x9C),
     (0x00A5, 0x9D), (0x20A7, 0x9E), (0x0192, 0x9F), (0x00E1, 0xA0), (0x00ED, 0xA1),
     (0x00F3, 0xA2), (0x00FA, 0xA3), (0x00F1, 0xA4), (0x00D1, 0xA5), (0x00AA, 0xA6),
     (0x00BA, 0xA7), (0x00BF, 0xA8), (0x2310, 0xA9), (0x00AC, 0xAA), (0x00BD, 0xAB),
     (0x00BC, 0xAC), (0x00A1, 0xAD), (0x00AB, 0xAE), (0x00BB, 0xAF), (0x03B1, 0xE0),
     (0x00DF, 0xE1), (0x0393, 0xE2), (0x03C0, 0xE3), (0x03A3, 0xE4), (0x03C3, 0xE5),
     (0x00B5, 0xE6), (0x03C4, 0xE7), (0x03A6, 0xE8), (0x0398, 0xE9), (0x03A9, 0xEA),
     (0x03B4, 0xEB), (0x221E, 0xEC), (0x03C6, 0xED), (0x03B5, 0xEE), (0x2229, 0xEF),
     (0x2261, 0xF0), (0x00B1, 0xF1), (0x2265, 0xF2), (0x2264, 0xF3), (0x2320, 0xF4),
     (0x2321, 0xF5), (0x00F7, 0xF6), (0x2248, 0xF7), (0x00B0, 0xF8), (0x2219, 0xF9),
     (0x00B7, 0xFA), (0x221A, 0xFB), (0x207F, 0xFC), (0x00B2, 0xFD), (0x25A0, 0xFE),
     (0x00A0, 0xFF), (0x212B, 0x8F)]"

definition u16_to_cp437 :: "u16 \<Rightarrow> u8" where
  "u16_to_cp437 chr =
     (if chr \<ge> 0x20 \<and> chr \<le> 0x7E then ucast chr
      else (case map_of cp437_table chr of Some b \<Rightarrow> b | None \<Rightarrow> 0x3F))"

subsection \<open>State and arguments\<close>

datatype print_mode = PRINT_DEFAULT | PRINT_ESCAPE | PRINT_PADDING

record pr_state =
  p_mode :: print_mode
  p_prefix :: bool
  p_sign :: bool
  p_space :: bool
  p_usign :: bool
  p_padding :: u8
  p_width :: int

datatype print_arg = Arg_int int | Arg_string "u8 list option" | Arg_wstring "u16 list option"

abbreviation (input) KPRINTF_MAX_DIGITS :: int where "KPRINTF_MAX_DIGITS \<equiv> 64"

definition ascii :: "string \<Rightarrow> u8 list" where
  "ascii s = List.map of_char s"

subsection \<open>Strings\<close>

definition kprint_padding :: "pr_state \<Rightarrow> int \<Rightarrow> u8 list" where
  "kprint_padding st n =
     (let padding = (if p_width st \<noteq> -1 then max_c 0 (i32 (p_width st - n)) else 0)
      in replicate (nat padding) (p_padding st))"

definition kprint_wstring :: "pr_state \<Rightarrow> u16 list option \<Rightarrow> u8 list" where
  "kprint_wstring st string =
     (let s = (case string of Some s \<Rightarrow> s | None \<Rightarrow> List.map of_char ''(null)'')
      in kprint_padding st (int (length s))
         @ [ANSI_ESCAPE, ANSI_NEOEM] @ List.map u16_to_cp437 s @ [ANSI_ESCAPE, ANSI_NEOAM])"

definition kprint_string :: "pr_state \<Rightarrow> u8 list option \<Rightarrow> u8 list" where
  "kprint_string st string =
     (let s = (case string of Some s \<Rightarrow> s | None \<Rightarrow> ascii ''(null)'')
      in kprint_padding st (int (length s)) @ s)"

subsection \<open>Integers\<close>

definition kprint_digits :: "u8 list" where
  "kprint_digits = ascii ''0123456789ABCDEFGHIJKLMNOPQRSTUVWXYZ''"

text \<open>
  The digit loop: \<open>acc\<close> is what the buffer holds behind index \<open>i\<close>.  The loop stops at index 0 even when
  digits are left.
\<close>

function kprint_digit_loop :: "u32 \<Rightarrow> int \<Rightarrow> u32 \<Rightarrow> u8 list \<Rightarrow> u8 list" where
  "kprint_digit_loop base i n acc =
     (if n \<noteq> 0 \<and> i > 0
      then kprint_digit_loop base (i - 1) (n div base) (kprint_digits ! unat (n mod base) # acc)
      else acc)"
  by pat_completeness auto
termination
  by (relation "measure (\<lambda>(base, i, n, acc). nat i)") auto

declare kprint_digit_loop.simps [simp del]

definition kprint_integer :: "pr_state \<Rightarrow> int \<Rightarrow> int \<Rightarrow> pr_state \<times> u8 list" where
  "kprint_integer st integer base =
     (if p_width st = 0 \<and> integer = 0 then (st, [])
      else
        let negative = integer < 0 \<and> \<not> p_usign st;
            n = (if negative then word_of_int (i32 (- integer)) else word_of_int integer) :: u32;
            sign = (if negative then [0x2D] else if p_sign st then [0x2B]
                    else if p_space st then [0x20] else []);
            st = (if p_prefix st then st\<lparr>p_padding := 0x30\<rparr> else st);
            prefix = (if p_prefix st
                      then (if base = 16 then [0x30, 0x78] else [])
                         @ (if base = 8 then [0x30, 0x6F] else [])
                         @ (if base = 2 then [0x30, 0x62] else [])
                      else []);
            buffer = (if n = 0 then [0x30]
                      else kprint_digit_loop (word_of_int base) (KPRINTF_MAX_DIGITS - 2) n [])
        in (st, sign @ prefix @ kprint_string st (Some buffer)))"

subsection \<open>The pattern interpreter\<close>

text \<open>\<^verbatim>\<open>va_arg\<close> for an argument of each type.\<close>

fun va_int :: "print_arg list \<Rightarrow> (int \<times> print_arg list) option" where
  "va_int (Arg_int v # args) = Some (v, args)"
| "va_int _ = None"

fun va_string :: "print_arg list \<Rightarrow> (u8 list option \<times> print_arg list) option" where
  "va_string (Arg_string s # args) = Some (s, args)"
| "va_string _ = None"

fun va_wstring :: "print_arg list \<Rightarrow> (u16 list option \<times> print_arg list) option" where
  "va_wstring (Arg_wstring s # args) = Some (s, args)"
| "va_wstring _ = None"

text \<open>
  One character of the pattern: the new state, the bytes written and the arguments left.
  A character that ends the digits of \<^verbatim>\<open>%.\<close> falls through to the specifiers.
\<close>

type_synonym print_step = "(pr_state \<times> print_arg list \<times> u8 list) option"

definition kprint_int_step :: "pr_state \<Rightarrow> print_arg list \<Rightarrow> int \<Rightarrow> print_step" where
  "kprint_int_step st args base =
     map_option (\<lambda>(v, args). case kprint_integer st v base of (st, out) \<Rightarrow> (st, args, out)) (va_int args)"

definition kprintf_specifier :: "pr_state \<Rightarrow> print_arg list \<Rightarrow> u8 \<Rightarrow> print_step" where
  "kprintf_specifier st args chr =
     (let st = st\<lparr>p_mode := PRINT_DEFAULT\<rparr> in
      if chr = 0x30 then Some (st\<lparr>p_mode := PRINT_ESCAPE, p_padding := 0x30\<rparr>, args, [])
      else if chr = 0x23 then Some (st\<lparr>p_mode := PRINT_ESCAPE, p_prefix := True\<rparr>, args, [])
      else if chr = 0x2B then Some (st\<lparr>p_mode := PRINT_ESCAPE, p_sign := True\<rparr>, args, [])
      else if chr = 0x20 then Some (st\<lparr>p_mode := PRINT_ESCAPE, p_space := True\<rparr>, args, [])
      else if chr = 0x75 then Some (st\<lparr>p_mode := PRINT_ESCAPE, p_usign := True\<rparr>, args, [])
      else if chr = 0x2E then Some (st\<lparr>p_mode := PRINT_PADDING, p_width := 0\<rparr>, args, [])
      else if chr = 0x25 then Some (st, args, [chr])
      else if chr = 0x73 then map_option (\<lambda>(s, args). (st, args, kprint_string st s)) (va_string args)
      else if chr = 0x53 then map_option (\<lambda>(s, args). (st, args, kprint_wstring st s)) (va_wstring args)
      else if chr = 0x62 then kprint_int_step st args 2
      else if chr = 0x6F then kprint_int_step st args 8
      else if chr = 0x64 \<or> chr = 0x69 then kprint_int_step st args 10
      else if chr = 0x78 then kprint_int_step st args 16
      else if chr = 0x63 then map_option (\<lambda>(v, args). (st, args, [word_of_int v AND 0xFF])) (va_int args)
      else Some (st, args, []))"

definition kprintf_char :: "pr_state \<Rightarrow> print_arg list \<Rightarrow> u8 \<Rightarrow> print_step" where
  "kprintf_char st args chr =
     (if p_mode st = PRINT_PADDING \<and> chr \<ge> 0x30 \<and> chr \<le> 0x39
      then Some (st\<lparr>p_width := i32 (i32 (p_width st * 10) + (uint chr - 0x30))\<rparr>, args, [])
      else if p_mode st = PRINT_PADDING \<or> p_mode st = PRINT_ESCAPE
      then kprintf_specifier st args chr
      else if chr = 0x25
      then Some (st\<lparr>p_mode := PRINT_ESCAPE, p_padding := 0x20, p_width := -1, p_sign := False,
                   p_prefix := False, p_space := False, p_usign := False\<rparr>, args, [])
      else Some (st, args, [chr]))"

fun kprintf_loop :: "pr_state \<Rightarrow> u8 list \<Rightarrow> print_arg list \<Rightarrow> u8 list option" where
  "kprintf_loop st [] args = Some []"
| "kprintf_loop st (chr # pattern) args =
     (if chr = 0 then Some []
      else case kprintf_char st args chr of
             None \<Rightarrow> None
           | Some (st, args, out) \<Rightarrow> map_option (\<lambda>rest. out @ rest) (kprintf_loop st pattern args))"

text \<open>
  Only the mode of the state is initialised; \<open>garbage\<close> holds the rest, which the code reads
  only after a percent sign has set it.
\<close>

definition kprintf_on :: "pr_state \<Rightarrow> u8 list \<Rightarrow> print_arg list \<Rightarrow> u8 list option" where
  "kprintf_on garbage pattern args = kprintf_loop (garbage\<lparr>p_mode := PRINT_DEFAULT\<rparr>) pattern args"

subsection \<open>Digits\<close>

lemma kprint_digit_loop_digits:
  assumes "2 \<le> unat base" "unat n < unat base ^ i"
  shows "kprint_digit_loop base (int i) n acc =
    List.map (\<lambda>d. kprint_digits ! d) (to_digits (unat base) (unat n)) @ acc"
  using assms
proof (induction i arbitrary: n acc)
  case 0
  then have "n = 0" by (simp add: unat_eq_0)
  then show ?case by (simp add: kprint_digit_loop.simps [of base])
next
  case (Suc i)
  show ?case
  proof (cases "n = 0")
    case False
    have "unat (n div base) < unat base ^ i"
      using Suc.prems by (simp add: unat_div less_mult_imp_div_less mult.commute)
    from Suc.IH [OF Suc.prems(1) this] False Suc.prems(1) show ?thesis
      by (simp add: kprint_digit_loop.simps [of base "1 + int i"] to_digits.simps [of "unat base" "unat n"]
        unat_div unat_mod unat_eq_0)
  qed (simp add: kprint_digit_loop.simps [of base])
qed

text \<open>The digit string of a 32-bit value in one of the four bases fits the buffer.\<close>

lemma kprint_buffer:
  assumes "2 \<le> base" "base \<le> 36"
  shows "kprint_digit_loop (word_of_int base) (KPRINTF_MAX_DIGITS - 2) n [] =
    List.map (\<lambda>d. kprint_digits ! d) (to_digits (nat base) (unat n))"
proof -
  have b: "unat (word_of_int base :: u32) = nat base"
    using assms by (simp add: unat_eq_nat_uint uint_word_of_int take_bit_int_eq_self)
  have "unat n < 2 ^ 32" by (rule order_less_le_trans [OF unsigned_less]) simp
  also have "\<dots> \<le> (2 :: nat) ^ 62" by simp
  also have "\<dots> \<le> nat base ^ 62" using assms by (intro power_mono) auto
  finally show ?thesis
    using kprint_digit_loop_digits [of "word_of_int base" n 62 "[]"] assms b by simp
qed

text \<open>Reading a digit character back.\<close>

definition digit_of :: "u8 \<Rightarrow> nat" where
  "digit_of b = (if b \<le> 0x39 then unat b - 48 else unat b - 55)"

lemma digit_of_kprint_digits: "d < 36 \<Longrightarrow> digit_of (kprint_digits ! d) = d"
proof -
  assume "d < 36"
  then have "d \<in> set [0..<36]" by simp
  moreover have "\<forall>d \<in> set [0..<36]. digit_of (kprint_digits ! d) = d"
    by code_simp
  ultimately show ?thesis by blast
qed

lemma foldl_map_digits:
  "\<forall>d \<in> set ds. d < 36 \<Longrightarrow>
    foldl (\<lambda>a b. a * base + digit_of b) v (List.map (\<lambda>d. kprint_digits ! d) ds) = foldl (\<lambda>a d. a * base + d) v ds"
  by (induction ds arbitrary: v) (auto simp: digit_of_kprint_digits)

lemma decimal_digit: "d < 10 \<Longrightarrow> is_digit (kprint_digits ! d) \<and> uint (kprint_digits ! d) - 48 = int d"
proof -
  assume "d < 10"
  then have "d \<in> set [0..<10]" by simp
  moreover have "\<forall>d \<in> set [0..<10]. is_digit (kprint_digits ! d) \<and> uint (kprint_digits ! d) - 48 = int d"
    by code_simp
  ultimately show ?thesis by blast
qed

text \<open>The decimal digits of a number below \<open>10 ^ 9\<close>, as the console's parser reads them.\<close>

definition dec_bytes :: "int \<Rightarrow> u8 list" where
  "dec_bytes v = (if v = 0 then [0x30] else List.map (\<lambda>d. kprint_digits ! d) (to_digits 10 (nat v)))"

lemma dec_fold_bound:
  assumes "\<forall>d \<in> set ds. d < 10" "0 \<le> a" "foldl (\<lambda>a d. a * 10 + d) (nat a) ds < 2147483648"
  shows "foldl (\<lambda>acc d. i32 (i32 (acc * 10) + (uint d - 48))) a (List.map (\<lambda>d. kprint_digits ! d) ds)
    = int (foldl (\<lambda>a d. a * 10 + d) (nat a) ds)"
  using assms
proof (induction ds arbitrary: a)
  case (Cons d ds)
  have grow: "v \<le> foldl (\<lambda>a d. a * 10 + d) v ds" for v :: nat
  proof (induction ds arbitrary: v)
    case (Cons e ds)
    from Cons.IH [of "v * 10 + e"] show ?case by simp
  qed simp
  have d: "uint (kprint_digits ! d) - 48 = int d" using Cons.prems(1) decimal_digit [of d] by simp
  have "nat a * 10 + d < 2147483648" using grow [of "nat a * 10 + d"] Cons.prems(3) by simp
  then have "a * 10 + int d < 2147483648" using Cons.prems(2) by (simp add: nat_less_iff zless_nat_eq_int_zless)
  then have step: "i32 (i32 (a * 10) + (uint (kprint_digits ! d) - 48)) = a * 10 + int d"
    using Cons.prems(2) unfolding d by simp
  have "nat (a * 10 + int d) = nat a * 10 + d" using Cons.prems(2) by (simp add: nat_add_distrib nat_mult_distrib)
  then show ?case
    using Cons.IH [of "a * 10 + int d"] Cons.prems unfolding list.map foldl_Cons step by simp
qed simp

lemma dec_bytes_ok:
  assumes "0 \<le> v" "v < 2147483648"
  shows "dec_value (dec_bytes v) = v" "\<forall>d \<in> set (dec_bytes v). is_digit d" "dec_bytes v \<noteq> []"
    "length (dec_bytes v) \<le> 10"
proof -
  have less: "\<forall>d \<in> set (to_digits 10 (nat v)). d < 10" using to_digits_less [of 10] by auto
  show "dec_value (dec_bytes v) = v"
    using dec_fold_bound [OF less, of 0] to_digits_value [of 10 "nat v"] assms
    by (simp add: dec_bytes_def dec_value_def)
  show "\<forall>d \<in> set (dec_bytes v). is_digit d"
    using less decimal_digit by (auto simp: dec_bytes_def is_digit_def)
  show "dec_bytes v \<noteq> []" using assms by (simp add: dec_bytes_def to_digits.simps [of 10 "nat v"])
  have "nat v < 10 ^ 10" using assms by simp
  then show "length (dec_bytes v) \<le> 10"
    using to_digits_length [of 10 "nat v" 10] by (simp add: dec_bytes_def)
qed

subsection \<open>Literal text and single specifiers\<close>

lemma kprintf_loop_text:
  "p_mode st = PRINT_DEFAULT \<Longrightarrow> \<forall>b \<in> set bs. b \<noteq> 0 \<and> b \<noteq> 0x25 \<Longrightarrow>
    kprintf_loop st (bs @ pattern) args = map_option (\<lambda>rest. bs @ rest) (kprintf_loop st pattern args)"
proof (induction bs)
  case Nil
  then show ?case by (cases "kprintf_loop st pattern args") simp_all
next
  case (Cons b bs)
  then show ?case by (cases "kprintf_loop st pattern args") (simp_all add: kprintf_char_def)
qed

lemma unat_u32: "0 \<le> v \<Longrightarrow> v < 4294967296 \<Longrightarrow> unat (word_of_int v :: u32) = nat v"
  by (simp add: unat_eq_nat_uint uint_word_of_int take_bit_int_eq_self)

lemma kprint_integer_decimal:
  assumes "p_width st = -1" "\<not> p_sign st" "\<not> p_space st" "\<not> p_prefix st" "0 \<le> v" "v < 2147483648"
  shows "kprint_integer st v 10 = (st, dec_bytes v)"
proof -
  have n: "unat (word_of_int v :: u32) = nat v"
    using assms by (intro unat_u32) auto
  have "word_of_int v = (0 :: u32) \<longleftrightarrow> v = 0"
    using n assms(5) by (auto simp: unat_eq_0 [symmetric])
  then show ?thesis
    using assms kprint_buffer [of 10 "word_of_int v"] n
    by (simp add: kprint_integer_def Let_def kprint_string_def kprint_padding_def dec_bytes_def)
qed

text \<open>\<^verbatim>\<open>%d\<close> prints the decimal digits and leaves a state that starts over.\<close>

lemma kprintf_loop_decimal:
  assumes "p_mode st = PRINT_DEFAULT" "0 \<le> v" "v < 2147483648"
  obtains st' where "p_mode st' = PRINT_DEFAULT"
    "kprintf_loop st (0x25 # 0x64 # pattern) (Arg_int v # args) =
      map_option (\<lambda>rest. dec_bytes v @ rest) (kprintf_loop st' pattern args)"
proof -
  let ?st = "st\<lparr>p_padding := 0x20, p_width := -1, p_sign := False, p_prefix := False, p_space := False,
    p_usign := False, p_mode := PRINT_DEFAULT\<rparr>"
  have int: "kprint_integer ?st v 10 = (?st, dec_bytes v)"
    using assms(2,3) by (intro kprint_integer_decimal) simp_all
  have pct: "kprintf_char st args' 0x25 = Some (?st\<lparr>p_mode := PRINT_ESCAPE\<rparr>, args', [])" for args'
    using assms(1) by (simp add: kprintf_char_def)
  have spec: "kprintf_char (?st\<lparr>p_mode := PRINT_ESCAPE\<rparr>) (Arg_int v # args) 0x64 = Some (?st, args, dec_bytes v)"
    using int by (simp add: kprintf_char_def kprintf_specifier_def kprint_int_step_def Let_def)
  have "kprintf_loop st (0x25 # 0x64 # pattern) (Arg_int v # args) =
      map_option (\<lambda>rest. dec_bytes v @ rest) (kprintf_loop ?st pattern args)"
    using pct spec by (cases "kprintf_loop ?st pattern args") simp_all
  then show ?thesis by (rule that [rotated]) simp
qed

subsection \<open>Wide strings\<close>

lemma map_of_all: "\<forall>(k, v) \<in> set ps. P v \<Longrightarrow> map_of ps x = Some y \<Longrightarrow> P y"
  by (auto dest: map_of_SomeD)

lemma cp437_printable: "u16_to_cp437 u \<ge> 0x20"
proof (cases "map_of cp437_table u")
  case None
  then show ?thesis
    by (auto simp: u16_to_cp437_def word_le_nat_alt unsigned_ucast_eq take_bit_nat_eq_self)
next
  case (Some b)
  have "\<forall>(k, v) \<in> set cp437_table. v \<ge> (0x20 :: u8)" by code_simp
  from map_of_all [OF this Some] Some show ?thesis
    by (auto simp: u16_to_cp437_def word_le_nat_alt unsigned_ucast_eq take_bit_nat_eq_self)
qed

lemma printable_glyph: "b \<ge> 0x20 \<Longrightarrow> \<not> c_shortcuts c \<Longrightarrow> con_glyph c b"
  by (auto simp: con_glyph_def)

lemma kprint_wstring_on_console:
  assumes "con_core c" "output_lexer c = Lexer_initial" "p_width st = -1"
    and "con_index c + int (length s) < c_width c * c_height c"
  defines "d \<equiv> con_puts c (kprint_wstring st (Some s))"
  shows "con_index d = con_index c + int (length s) \<and> output_lexer d = Lexer_initial \<and> c_shortcuts d \<and>
    (\<forall>i. con_cell d i =
      (if con_index c \<le> i \<and> i < con_index c + int (length s)
       then (u16_to_cp437 (s ! nat (i - con_index c)), con_attr c) else con_cell c i))"
proof -
  define e where "e = con_puts c [ANSI_ESCAPE, ANSI_NEOEM]"
  define f where "f = con_puts e (List.map u16_to_cp437 s)"
  have e: "con_core e" "output_lexer e = Lexer_initial" "\<not> c_shortcuts e" "con_index e = con_index c"
    "c_width e = c_width c" "c_height e = c_height c" "con_cell e = con_cell c" "con_attr e = con_attr c"
    using assms(1,2)
    by (simp_all add: e_def con_write_def con_lexer_initial_def con_lexer_escape_def Let_def
      con_reset_sequence_def con_core_simps con_index_def con_cell_def con_attr_def fun_eq_iff)
  have "\<forall>b \<in> set (List.map u16_to_cp437 s). con_glyph e b"
    using e(3) cp437_printable by (auto intro: printable_glyph)
  then have f: "con_core f" "output_lexer f = Lexer_initial" "con_index f = con_index c + int (length s)"
    "\<And>i. con_cell f i = (if con_index c \<le> i \<and> i < con_index c + int (length s)
       then (u16_to_cp437 (s ! nat (i - con_index c)), con_attr c) else con_cell c i)"
    using con_puts_glyphs [OF e(1,2), of "List.map u16_to_cp437 s"] e assms(4)
    by (auto simp: f_def nat_less_iff)
  have "d = con_puts f [ANSI_ESCAPE, ANSI_NEOAM]"
    by (simp add: d_def f_def e_def kprint_wstring_def kprint_padding_def assms(3) con_puts_append Let_def)
  with f show ?thesis
    by (auto simp: con_write_def con_lexer_initial_def con_lexer_escape_def Let_def
      con_reset_sequence_def con_index_def con_cell_def)
qed

subsection \<open>Properties\<close>

lemma kprint_buffer_value:
  assumes "2 \<le> base" "base \<le> 36" "n \<noteq> 0"
  shows "foldl (\<lambda>a b. a * nat base + digit_of b) 0
    (kprint_digit_loop (word_of_int base) (KPRINTF_MAX_DIGITS - 2) n []) = unat n"
proof -
  have "\<forall>d \<in> set (to_digits (nat base) (unat n)). d < 36"
    using to_digits_less [of "nat base"] assms(1,2) by fastforce
  then show ?thesis
    using kprint_buffer [OF assms(1,2), of n] foldl_map_digits to_digits_value [of "nat base" "unat n"] assms(1)
    by simp
qed

text \<open>
  C33. Integers print in every base from 2 to 36 without loss: after a minus sign, written
  exactly for a negative value printed as signed, the digits read back in that base give the
  magnitude of the value, or its two's complement when it prints as unsigned.  The most
  negative value and the 32 binary digits of the largest ones are included.
\<close>

theorem kprint_integer_roundtrip:
  assumes "p_width st = -1" "\<not> p_sign st" "\<not> p_space st" "\<not> p_prefix st"
    and "2 \<le> base" "base \<le> 36" "- 2147483648 \<le> v" "v < 2147483648"
  shows "\<exists>ds. snd (kprint_integer st v base) = (if v < 0 \<and> \<not> p_usign st then [0x2D] else []) @ ds \<and>
    ds \<noteq> [] \<and>
    foldl (\<lambda>a b. a * nat base + digit_of b) 0 ds =
      (if v \<ge> 0 then nat v else if p_usign st then nat (v + 4294967296) else nat (- v))"
proof -
  define n :: u32 where "n = (if v < 0 \<and> \<not> p_usign st then word_of_int (i32 (- v)) else word_of_int v)"
  have n: "unat n = (if v \<ge> 0 then nat v else if p_usign st then nat (v + 4294967296) else nat (- v))"
  proof (cases "v = - 2147483648 \<and> \<not> p_usign st")
    case True
    then show ?thesis by (simp add: n_def i32_def)
  next
    case False
    have wrap: "v mod 4294967296 = v + 4294967296" if "v < 0"
    proof -
      have "v mod 4294967296 = (v + 4294967296) mod 4294967296" by simp
      also have "\<dots> = v + 4294967296" using that assms(7) by (intro mod_pos_pos_trivial) auto
      finally show ?thesis .
    qed
    show ?thesis
    proof (cases "0 \<le> v")
      case True
      then show ?thesis using assms by (simp add: n_def unat_eq_nat_uint uint_word_of_int)
    next
      case neg: False
      show ?thesis
      proof (cases "p_usign st")
        case True
        then show ?thesis using neg wrap by (simp add: n_def unat_eq_nat_uint uint_word_of_int)
      next
        case signed: False
        with neg False assms(7) have "i32 (- v) = - v" "- v < 4294967296" "0 \<le> - v" by auto
        then have "unat n = nat (- v)" using neg signed unat_u32 [of "- v"] by (simp only: n_def) simp
        then show ?thesis using neg signed by simp
      qed
    qed
  qed
  let ?ds = "if n = 0 then [0x30] else kprint_digit_loop (word_of_int base) (KPRINTF_MAX_DIGITS - 2) n []"
  have out: "snd (kprint_integer st v base) = (if v < 0 \<and> \<not> p_usign st then [0x2D] else []) @ ?ds"
    using assms(1-4) by (simp add: kprint_integer_def Let_def n_def kprint_string_def kprint_padding_def)
  have val: "foldl (\<lambda>a b. a * nat base + digit_of b) 0 ?ds = unat n"
    using kprint_buffer_value [OF assms(5,6), of n] by (simp add: digit_of_def)
  then have "?ds \<noteq> []" using unat_eq_0 [of n] by auto
  with out val n show ?thesis by (intro exI [of _ ?ds]) simp
qed

lemma kprintf_cup_bytes:
  assumes "0 \<le> n" "n < 2147483648" "0 \<le> m" "m < 2147483648"
  shows "kprintf_on g ([ANSI_ESCAPE, ANSI_CSI, 0x25, 0x64, 0x3B, 0x25, 0x64, ANSI_CSI_CUP]) [Arg_int n, Arg_int m]
    = Some ([ANSI_ESCAPE, ANSI_CSI] @ dec_bytes n @ [0x3B] @ dec_bytes m @ [ANSI_CSI_CUP])"
proof -
  let ?g = "g\<lparr>p_mode := PRINT_DEFAULT\<rparr>"
  obtain g1 where g1: "p_mode g1 = PRINT_DEFAULT"
    "kprintf_loop ?g (0x25 # 0x64 # [0x3B, 0x25, 0x64, ANSI_CSI_CUP]) (Arg_int n # [Arg_int m]) =
      map_option (\<lambda>rest. dec_bytes n @ rest) (kprintf_loop g1 [0x3B, 0x25, 0x64, ANSI_CSI_CUP] [Arg_int m])"
    using kprintf_loop_decimal [of ?g n "[0x3B, 0x25, 0x64, ANSI_CSI_CUP]" "[Arg_int m]"] assms by auto
  obtain g2 where g2: "p_mode g2 = PRINT_DEFAULT"
    "kprintf_loop g1 (0x25 # 0x64 # [ANSI_CSI_CUP]) (Arg_int m # []) =
      map_option (\<lambda>rest. dec_bytes m @ rest) (kprintf_loop g2 [ANSI_CSI_CUP] [])"
    using kprintf_loop_decimal [of g1 m "[ANSI_CSI_CUP]" "[]"] g1(1) assms by auto
  show ?thesis
    unfolding kprintf_on_def
    using g1 g2 kprintf_loop_text [of ?g "[ANSI_ESCAPE, ANSI_CSI]" "[0x25, 0x64, 0x3B, 0x25, 0x64, ANSI_CSI_CUP]"]
      kprintf_loop_text [of g1 "[0x3B]" "[0x25, 0x64, ANSI_CSI_CUP]"] kprintf_loop_text [of g2 "[ANSI_CSI_CUP]" "[]"]
    by simp
qed

text \<open>
  Print and console agree on decimal numbers: the bytes \<^verbatim>\<open>kprintf\<close> produces for
  \<^verbatim>\<open>ESC [ %d ; %d H\<close> move the cursor to the position given by its arguments.
\<close>

theorem kprintf_moves_cursor:
  assumes "con_core c" "output_lexer c = Lexer_initial"
    and "0 \<le> x" "x < c_width c" "0 \<le> y" "y < c_height c"
  shows "\<exists>out. kprintf_on g [ANSI_ESCAPE, ANSI_CSI, 0x25, 0x64, 0x3B, 0x25, 0x64, ANSI_CSI_CUP]
      [Arg_int (x + 1), Arg_int (y + 1)] = Some out \<and>
    c_x (con_puts c out) = x \<and> c_y (con_puts c out) = y \<and> con_cell (con_puts c out) = con_cell c"
proof -
  have small: "x + 1 < 2147483648" "y + 1 < 2147483648" using assms by (auto simp: con_core_simps)
  note out = kprintf_cup_bytes [of "x + 1" "y + 1" g]
  note X = dec_bytes_ok [of "x + 1"] and Y = dec_bytes_ok [of "y + 1"]
  show ?thesis
    using out con_cup_moves [OF assms(1,2), of "dec_bytes (x + 1)" "dec_bytes (y + 1)"] X Y small assms(3-6)
    by (simp add: clamp_def)
qed

text \<open>
  \<^verbatim>\<open>%S\<close> shows exactly one cell per character and never starts a control sequence: no code
  unit, whatever its value, moves the lexer out of its initial state, and the shortcut
  controls are on again afterwards.
\<close>

theorem kprint_wstring_cells:
  assumes "con_core c" "output_lexer c = Lexer_initial" "p_width st = -1"
    and "con_index c + int (length s) < c_width c * c_height c"
  defines "d \<equiv> con_puts c (kprint_wstring st (Some s))"
  shows "con_index d = con_index c + int (length s) \<and> output_lexer d = Lexer_initial \<and> c_shortcuts d \<and>
    (\<forall>i. con_cell d i =
      (if con_index c \<le> i \<and> i < con_index c + int (length s)
       then (u16_to_cp437 (s ! nat (i - con_index c)), con_attr c) else con_cell c i))"
  unfolding d_def by (rule kprint_wstring_on_console [OF assms(1-4)])

subsection \<open>Witnesses\<close>

definition print_garbage :: pr_state where
  "print_garbage = \<lparr>p_mode = PRINT_PADDING, p_prefix = False, p_sign = False, p_space = False, p_usign = False,
     p_padding = 0x20, p_width = -1\<rparr>"

theorem kprint_integer_roundtrip_witness:
  "\<exists>ds. snd (kprint_integer print_garbage (- 2147483648) 16) = [0x2D] @ ds \<and> ds \<noteq> [] \<and>
     foldl (\<lambda>a b. a * 16 + digit_of b) 0 ds = 2147483648"
  using kprint_integer_roundtrip [of print_garbage 16 "- 2147483648"] by (simp add: print_garbage_def)

theorem kprintf_moves_cursor_witness:
  "\<exists>out. kprintf_on print_garbage [0x1B, 0x5B, 0x25, 0x64, 0x3B, 0x25, 0x64, 0x48] [Arg_int 13, Arg_int 8] = Some out \<and>
     c_x (con_puts con_80x25 out) = 12 \<and> c_y (con_puts con_80x25 out) = 7"
  using kprintf_moves_cursor [of con_80x25 12 7 print_garbage] by auto

theorem kprint_wstring_cells_witness:
  "con_cell (con_puts con_80x25 (kprint_wstring print_garbage (Some [0x1B, 0x5B, 0x41, 0x2302]))) 3 = (0x7F, 7)"
proof -
  have "u16_to_cp437 0x2302 = 0x7F" by code_simp
  then show ?thesis
    using kprint_wstring_cells [of con_80x25 print_garbage "[0x1B, 0x5B, 0x41, 0x2302]"]
    by (simp add: print_garbage_def)
qed

end
