(* ===== verification/Bytes.thy ===== *)
theory Bytes
  imports Prelude
begin

section \<open>Bytes of packed structures\<close>

text \<open>
  The little-endian bytes of the 16, 32 and 64 bit fields of packed structures, and byte buffers
  that are read and written at an offset.  An access outside a buffer is \<open>None\<close>.
\<close>

subsection \<open>Fields\<close>

definition le16 :: "u8 list \<Rightarrow> nat \<Rightarrow> u16" where
  "le16 bs i = ucast (bs ! i) + 0x100 * ucast (bs ! (i + 1))"

definition le32 :: "u8 list \<Rightarrow> nat \<Rightarrow> u32" where
  "le32 bs i = ucast (bs ! i) + 0x100 * ucast (bs ! (i + 1)) + 0x10000 * ucast (bs ! (i + 2))
     + 0x1000000 * ucast (bs ! (i + 3))"

definition bytes16 :: "u16 \<Rightarrow> u8 list" where
  "bytes16 v = [ucast v, ucast (v div 0x100)]"

definition bytes32 :: "u32 \<Rightarrow> u8 list" where
  "bytes32 v = [ucast v, ucast (v div 0x100), ucast (v div 0x10000), ucast (v div 0x1000000)]"

named_theorems byte_simps \<open>reading fields out of the bytes of a structure\<close>

lemma length_bytes [simp]: "length (bytes16 v) = 2" "length (bytes32 v') = 4"
  by (simp_all add: bytes16_def bytes32_def)

lemma unat_bound: "unat (w :: 'a::len word) < 2 ^ LENGTH('a)"
  by (rule unsigned_less)

lemma unat_byte: "unat (b :: u8) < 256"
  using unat_bound [of b] by simp

lemma unat_ucast8 [simp]:
  "unat (ucast (b :: u8) :: u32) = unat b" "unat (ucast (b :: u8) :: u16) = unat b"
  using unat_byte [of b] by (simp_all add: unsigned_ucast_eq take_bit_eq_mod)

lemma unat_le16: "unat (le16 bs i) = unat (bs ! i) + 256 * unat (bs ! (i + 1))"
  using unat_byte [of "bs ! i"] unat_byte [of "bs ! (i + 1)"]
  by (simp add: le16_def unat_word_ariths)

lemma unat_le32: "unat (le32 bs i) =
    unat (bs ! i) + 256 * unat (bs ! (i + 1)) + 65536 * unat (bs ! (i + 2)) + 16777216 * unat (bs ! (i + 3))"
  using unat_byte [of "bs ! i"] unat_byte [of "bs ! (i + 1)"] unat_byte [of "bs ! (i + 2)"] unat_byte [of "bs ! (i + 3)"]
  by (simp add: le32_def unat_word_ariths)

lemma le16_bytes16: "le16 (bytes16 v) 0 = v"
proof -
  have "unat (ucast v :: u8) = unat v mod 256" "unat (ucast (v div 0x100) :: u8) = unat v div 256 mod 256"
    by (simp_all add: unsigned_ucast_eq take_bit_eq_mod unat_div)
  moreover have "unat v div 256 < 256" using unat_bound [of v] by simp
  ultimately have "unat (le16 (bytes16 v) 0) = unat v"
    unfolding unat_le16 by (simp add: bytes16_def)
  then show ?thesis by (simp add: word_unat_eq_iff)
qed

lemma le32_bytes32: "le32 (bytes32 v) 0 = v"
proof -
  have b: "unat (ucast v :: u8) = unat v mod 256" "unat (ucast (v div 0x100) :: u8) = unat v div 256 mod 256"
    "unat (ucast (v div 0x10000) :: u8) = unat v div 65536 mod 256"
    "unat (ucast (v div 0x1000000) :: u8) = unat v div 16777216 mod 256"
    by (simp_all add: unsigned_ucast_eq take_bit_eq_mod unat_div)
  have "unat v < 4294967296" using unat_bound [of v] by simp
  then have "unat v div 16777216 mod 256 = unat v div 16777216" by simp
  moreover have "n mod 256 + 256 * (n div 256 mod 256) + 65536 * (n div 65536 mod 256) + 16777216 * (n div 16777216) = n" for n :: nat
  proof -
    define a b c where "a = n div 256" and "b = a div 256" and "c = b div 256"
    define r s t where "r = n mod 256" and "s = a mod 256" and "t = b mod 256"
    have "n = r + 256 * a" "a = s + 256 * b" "b = t + 256 * c"
      by (simp_all only: a_def b_def c_def r_def s_def t_def mod_mult_div_eq)
    moreover have "n div 65536 = b" "n div 16777216 = c" by (simp_all add: a_def b_def c_def div_mult2_eq [symmetric])
    moreover have "n div 256 mod 256 = s" "n mod 256 = r" "b mod 256 = t" by (simp_all add: a_def r_def s_def t_def)
    ultimately show ?thesis by (simp only:) (simp add: algebra_simps)
  qed
  ultimately have "unat (le32 (bytes32 v) 0) = unat v"
    unfolding unat_le32 using b by (simp add: bytes32_def)
  then show ?thesis by (simp add: word_unat_eq_iff)
qed

lemma le16_shift: "le16 (as @ bs) (length as + i) = le16 bs i"
  by (simp add: le16_def nth_append add.assoc)

lemma le32_shift: "le32 (as @ bs) (length as + i) = le32 bs i"
  by (simp add: le32_def nth_append add.assoc)

lemma le16_prefix: "i + 1 < length as \<Longrightarrow> le16 (as @ bs) i = le16 as i"
  by (simp add: le16_def nth_append)

lemma le32_prefix: "i + 3 < length as \<Longrightarrow> le32 (as @ bs) i = le32 as i"
  by (simp add: le32_def nth_append)

lemma le16_field [byte_simps]: "length as = i \<Longrightarrow> le16 (as @ bytes16 v @ bs) i = v"
  using le16_shift [of as "bytes16 v @ bs" 0] le16_prefix [of 0 "bytes16 v" bs] by (simp add: le16_bytes16)

lemma le32_field [byte_simps]: "length as = i \<Longrightarrow> le32 (as @ bytes32 v @ bs) i = v"
  using le32_shift [of as "bytes32 v @ bs" 0] le32_prefix [of 0 "bytes32 v" bs] by (simp add: le32_bytes32)

subsection \<open>Buffers\<close>

definition slice :: "'a list \<Rightarrow> nat \<Rightarrow> nat \<Rightarrow> 'a list option" where
  "slice xs i n = (if i + n \<le> length xs then Some (take n (drop i xs)) else None)"

definition store_at :: "'a list \<Rightarrow> nat \<Rightarrow> 'a list \<Rightarrow> 'a list option" where
  "store_at xs i ys = (if i + length ys \<le> length xs then Some (take i xs @ ys @ drop (i + length ys) xs) else None)"

definition load32 :: "u8 list \<Rightarrow> nat \<Rightarrow> u32 option" where
  "load32 bs i = (if i + 4 \<le> length bs then Some (le32 bs i) else None)"

lemma length_store_at: "store_at xs i ys = Some zs \<Longrightarrow> length zs = length xs"
  by (auto simp: store_at_def split: if_splits)

lemma store_at_nth:
  "store_at xs i ys = Some zs \<Longrightarrow> j < length xs \<Longrightarrow>
    zs ! j = (if i \<le> j \<and> j < i + length ys then ys ! (j - i) else xs ! j)"
  by (auto simp: store_at_def nth_append split: if_splits)

lemma store_at_all: "length ys = length xs \<Longrightarrow> store_at xs 0 ys = Some ys"
  by (simp add: store_at_def)

end
