(* ===== verification/Fat.thy ===== *)
theory Fat
  imports Bytes "HOL-Library.Monad_Syntax" "HOL-Library.State_Monad"
begin

section \<open>The FAT file system: data and file access (fat.c, fat.h)\<close>

text \<open>
  The packed structures of \<^verbatim>\<open>fat.h\<close> are records, with the bytes they are read from and written as.
  The disk is reached through the two functions of \<^verbatim>\<open>fat_DISK\<close> only: programs of the state monad
  over the state \<open>'p\<close> of a device; a read that delivers fewer bytes than asked for leaves the rest of
  the buffer as it was.  The world of an operation is the device with the static cache of the table.

  An operation takes the world and returns an option of its results and the new world.  \<open>None\<close> stands
  for what C leaves undefined (an access outside a buffer, a value never read, a division by zero)
  and for a loop that does not end: a cluster chain may be cyclic, so the walks along chains are
  \<open>partial_function\<close>s.
\<close>

subsection \<open>Structures\<close>

abbreviation (input) fat_NOT_FOUND :: int where "fat_NOT_FOUND \<equiv> 0"
abbreviation (input) fat_FOUND_DIR :: int where "fat_FOUND_DIR \<equiv> 1"
abbreviation (input) fat_FOUND_FILE :: int where "fat_FOUND_FILE \<equiv> 2"

abbreviation (input) fat_SEEK_SET :: int where "fat_SEEK_SET \<equiv> 0"
abbreviation (input) fat_SEEK_CUR :: int where "fat_SEEK_CUR \<equiv> 1"
abbreviation (input) fat_SEEK_END :: int where "fat_SEEK_END \<equiv> 2"

abbreviation (input) fat_ATTR_READ_ONLY :: u8 where "fat_ATTR_READ_ONLY \<equiv> 0x01"
abbreviation (input) fat_ATTR_DIRECTORY :: u8 where "fat_ATTR_DIRECTORY \<equiv> 0x10"
abbreviation (input) fat_ATTR_ARCHIVE :: u8 where "fat_ATTR_ARCHIVE \<equiv> 0x20"

record fat_bpb =
  BS_jmpBoot :: "u8 list"
  BS_OEMName :: "u8 list"
  BPB_BytsPerSec :: u16
  BPB_SecPerClus :: u8
  BPB_RsvdSecCnt :: u16
  BPB_NumFATs :: u8
  BPB_RootEntCnt :: u16
  BPB_TotSec16 :: u16
  BPB_Media :: u8
  BPB_FATSz16 :: u16
  BPB_SecPerTrk :: u16
  BPB_NumHeads :: u16
  BPB_HiddSec :: u32
  BPB_TotSec32 :: u32
  BPB_FATSz32 :: u32
  BPB_ExtFlags :: u16
  BPB_FSVer :: u16
  BPB_RootClus :: u32
  BPB_FSInfo :: u16
  BPB_BkBootSec :: u16
  BPB_Reserved :: "u8 list"
  BS_DrvNum :: u8
  BS_Reserved1 :: u8
  BS_BootSig :: u8
  BS_VolID :: u32
  BS_VolLab :: "u8 list"
  BS_FilSysType :: "u8 list"

definition bpb_of_bytes :: "u8 list \<Rightarrow> fat_bpb" where
  "bpb_of_bytes bs =
     \<lparr>BS_jmpBoot = take 3 bs, BS_OEMName = take 8 (drop 3 bs), BPB_BytsPerSec = le16 bs 11,
      BPB_SecPerClus = bs ! 13, BPB_RsvdSecCnt = le16 bs 14, BPB_NumFATs = bs ! 16,
      BPB_RootEntCnt = le16 bs 17, BPB_TotSec16 = le16 bs 19, BPB_Media = bs ! 21,
      BPB_FATSz16 = le16 bs 22, BPB_SecPerTrk = le16 bs 24, BPB_NumHeads = le16 bs 26,
      BPB_HiddSec = le32 bs 28, BPB_TotSec32 = le32 bs 32, BPB_FATSz32 = le32 bs 36,
      BPB_ExtFlags = le16 bs 40, BPB_FSVer = le16 bs 42, BPB_RootClus = le32 bs 44,
      BPB_FSInfo = le16 bs 48, BPB_BkBootSec = le16 bs 50, BPB_Reserved = take 12 (drop 52 bs),
      BS_DrvNum = bs ! 64, BS_Reserved1 = bs ! 65, BS_BootSig = bs ! 66, BS_VolID = le32 bs 67,
      BS_VolLab = take 11 (drop 71 bs), BS_FilSysType = take 8 (drop 82 bs)\<rparr>"

record fat_dir_entry =
  DIR_Name :: "u8 list"
  DIR_Attr :: u8
  DIR_NTRes :: u8
  DIR_CrtTimeTenth :: u8
  DIR_CrtTime :: u16
  DIR_CrtDate :: u16
  DIR_LstAccDate :: u16
  DIR_FstClusHI :: u16
  DIR_WrtTime :: u16
  DIR_WrtDate :: u16
  DIR_FstClusLO :: u16
  DIR_FileSize :: u32

definition dir_of_bytes :: "u8 list \<Rightarrow> fat_dir_entry" where
  "dir_of_bytes bs =
     \<lparr>DIR_Name = take 11 bs, DIR_Attr = bs ! 11, DIR_NTRes = bs ! 12, DIR_CrtTimeTenth = bs ! 13,
      DIR_CrtTime = le16 bs 14, DIR_CrtDate = le16 bs 16, DIR_LstAccDate = le16 bs 18,
      DIR_FstClusHI = le16 bs 20, DIR_WrtTime = le16 bs 22, DIR_WrtDate = le16 bs 24,
      DIR_FstClusLO = le16 bs 26, DIR_FileSize = le32 bs 28\<rparr>"

definition bytes_of_dir :: "fat_dir_entry \<Rightarrow> u8 list" where
  "bytes_of_dir d =
     DIR_Name d @ [DIR_Attr d] @ [DIR_NTRes d] @ [DIR_CrtTimeTenth d] @ bytes16 (DIR_CrtTime d) @ bytes16 (DIR_CrtDate d) @
     bytes16 (DIR_LstAccDate d) @ bytes16 (DIR_FstClusHI d) @ bytes16 (DIR_WrtTime d) @ bytes16 (DIR_WrtDate d) @
     bytes16 (DIR_FstClusLO d) @ bytes32 (DIR_FileSize d)"

text \<open>The other member of the union in \<^verbatim>\<open>fat_FILE\<close>.\<close>

record fat_lfn_entry =
  LDIR_Ord :: u8
  LDIR_Name1 :: "u16 list"
  LDIR_Attr :: u8
  LDIR_Type :: u8
  LDIR_Chksum :: u8
  LDIR_Name2 :: "u16 list"
  LDIR_FstClusLO :: u16
  LDIR_Name3 :: "u16 list"

definition lfn_of_bytes :: "u8 list \<Rightarrow> fat_lfn_entry" where
  "lfn_of_bytes bs =
     \<lparr>LDIR_Ord = bs ! 0, LDIR_Name1 = List.map (\<lambda>i. le16 bs (1 + 2 * i)) [0..<5], LDIR_Attr = bs ! 11,
      LDIR_Type = bs ! 12, LDIR_Chksum = bs ! 13, LDIR_Name2 = List.map (\<lambda>i. le16 bs (14 + 2 * i)) [0..<6],
      LDIR_FstClusLO = le16 bs 26, LDIR_Name3 = List.map (\<lambda>i. le16 bs (28 + 2 * i)) [0..<2]\<rparr>"

definition bytes_of_lfn :: "fat_lfn_entry \<Rightarrow> u8 list" where
  "bytes_of_lfn l =
     [LDIR_Ord l] @ concat (List.map bytes16 (LDIR_Name1 l)) @ [LDIR_Attr l] @ [LDIR_Type l] @ [LDIR_Chksum l] @
     concat (List.map bytes16 (LDIR_Name2 l)) @ bytes16 (LDIR_FstClusLO l) @ concat (List.map bytes16 (LDIR_Name3 l))"

text \<open>\<^verbatim>\<open>fat_DIR\<close> is a structure of one \<^verbatim>\<open>fat_FILE\<close>; the pointer to the disk is an argument of the operations.\<close>

record fat_file =
  f_dir :: fat_dir_entry
  f_entry_position :: u32
  f_first_parent_cluster :: u32
  f_lfn_present :: u32
  f_cursor :: u32
  f_long_filename :: "u16 list"

record 'p fat_disk =
  d_read_func :: "u32 \<Rightarrow> u32 \<Rightarrow> ('p, u8 list) state"
  d_write_func :: "u32 \<Rightarrow> u8 list \<Rightarrow> ('p, unit) state"
  d_bpb :: fat_bpb
  d_root_directory :: fat_file

text \<open>The world: the device and the static variables \<^verbatim>\<open>fat_cache\<close> and \<^verbatim>\<open>fat_cache_sector\<close>.\<close>

record 'p fat_world =
  w_dev :: 'p
  w_cache :: "u8 list"
  w_cache_sector :: u32

definition dev_read :: "'p fat_disk \<Rightarrow> u32 \<Rightarrow> u32 \<Rightarrow> 'p fat_world \<Rightarrow> u8 list \<times> 'p fat_world" where
  "dev_read disk offset n w =
     (case run_state (d_read_func disk offset n) (w_dev w) of (bytes, p) \<Rightarrow> (bytes, w\<lparr>w_dev := p\<rparr>))"

definition dev_write :: "'p fat_disk \<Rightarrow> u32 \<Rightarrow> u8 list \<Rightarrow> 'p fat_world \<Rightarrow> 'p fat_world" where
  "dev_write disk offset bytes w = (case run_state (d_write_func disk offset bytes) (w_dev w) of (_, p) \<Rightarrow> w\<lparr>w_dev := p\<rparr>)"

definition fat_dir_empty :: fat_dir_entry where
  "fat_dir_empty = \<lparr>DIR_Name = replicate 11 0, DIR_Attr = 0, DIR_NTRes = 0, DIR_CrtTimeTenth = 0, DIR_CrtTime = 0,
     DIR_CrtDate = 0, DIR_LstAccDate = 0, DIR_FstClusHI = 0, DIR_WrtTime = 0, DIR_WrtDate = 0, DIR_FstClusLO = 0,
     DIR_FileSize = 0\<rparr>"

definition fat_file_default :: fat_file where
  "fat_file_default = \<lparr>f_dir = fat_dir_empty, f_entry_position = 0, f_first_parent_cluster = 0, f_lfn_present = 0,
     f_cursor = 0, f_long_filename = 0 # replicate 259 0xffff\<rparr>"

text \<open>Sizes and positions, as the operations compute them from the parameter block.\<close>

definition bytes_per_sector :: "'p fat_disk \<Rightarrow> u32" where
  "bytes_per_sector disk = ucast (BPB_BytsPerSec (d_bpb disk))"

definition fat_offset :: "'p fat_disk \<Rightarrow> u32" where
  "fat_offset disk = ucast (BPB_RsvdSecCnt (d_bpb disk)) * bytes_per_sector disk"

definition first_data_sector :: "'p fat_disk \<Rightarrow> u32" where
  "first_data_sector disk = ucast (BPB_RsvdSecCnt (d_bpb disk)) + ucast (BPB_NumFATs (d_bpb disk)) * BPB_FATSz32 (d_bpb disk)"

definition cluster_size :: "'p fat_disk \<Rightarrow> u32" where
  "cluster_size disk = ucast (BPB_SecPerClus (d_bpb disk)) * bytes_per_sector disk"

definition cluster_offset :: "'p fat_disk \<Rightarrow> u32 \<Rightarrow> u32" where
  "cluster_offset disk cluster = first_data_sector disk + (cluster - 2) * ucast (BPB_SecPerClus (d_bpb disk))"

definition fat_disk_size :: "'p fat_disk \<Rightarrow> u32" where
  "fat_disk_size disk =
     (if BPB_TotSec32 (d_bpb disk) = 0 then ucast (BPB_TotSec16 (d_bpb disk)) else BPB_TotSec32 (d_bpb disk))"

subsection \<open>The table\<close>

definition fat_invalidate_cache :: "'p fat_world \<Rightarrow> 'p fat_world" where
  "fat_invalidate_cache w = w\<lparr>w_cache_sector := 0xFFFFFFFF\<rparr>"

definition fat_fill_cache :: "'p fat_disk \<Rightarrow> u32 \<Rightarrow> 'p fat_world \<Rightarrow> 'p fat_world option" where
  "fat_fill_cache disk sector w =
     (if sector \<noteq> w_cache_sector w then
        (case dev_read disk (sector * bytes_per_sector disk) (bytes_per_sector disk) w of
           (bytes, w) \<Rightarrow> do {
             cache \<leftarrow> store_at (w_cache w) 0 bytes;
             Some (w\<lparr>w_cache := cache, w_cache_sector := sector\<rparr>)
           })
      else Some w)"

definition fat_read_fat_entry :: "'p fat_disk \<Rightarrow> u32 \<Rightarrow> bool \<Rightarrow> 'p fat_world \<Rightarrow> (u32 \<times> 'p fat_world) option" where
  "fat_read_fat_entry disk cluster cache w =
     (let fat_entry = fat_offset disk + cluster * 4 in
      if cache then
        (if bytes_per_sector disk = 0 then None
         else do {
           w \<leftarrow> fat_fill_cache disk (fat_entry div bytes_per_sector disk) w;
           v \<leftarrow> load32 (w_cache w) (unat (fat_entry mod bytes_per_sector disk));
           Some (v, w)
         })
      else
        (case dev_read disk fat_entry 4 w of
           (bytes, w) \<Rightarrow> if length bytes \<noteq> 4 then None else Some (le32 bytes 0, w)))"

definition fat_write_fat_entry :: "'p fat_disk \<Rightarrow> u32 \<Rightarrow> u32 \<Rightarrow> 'p fat_world \<Rightarrow> 'p fat_world" where
  "fat_write_fat_entry disk cluster value w =
     (let fat_entry = fat_offset disk + cluster * 4;
          w = dev_write disk fat_entry (bytes32 value) w;
          fat_size = BPB_FATSz32 (d_bpb disk) * bytes_per_sector disk
      in dev_write disk (fat_entry + fat_size) (bytes32 value) w)"

text \<open>The two tests that end every walk: not a cluster of the file, and the last one.\<close>

definition fat_no_cluster :: "u32 \<Rightarrow> bool" where
  "fat_no_cluster next_cluster \<longleftrightarrow> next_cluster = 0 \<or> next_cluster = 0x0FFFFFF7"

definition fat_last_cluster :: "u32 \<Rightarrow> bool" where
  "fat_last_cluster next_cluster \<longleftrightarrow>
     next_cluster \<ge> 0x0FFFFFF8 \<and> next_cluster \<le> 0x0FFFFFFF \<or> next_cluster = 0xFFFFFFFF"

subsection \<open>Reading\<close>

text \<open>
  The bytes that one cluster takes part in, and how many bytes of it lie before the cursor, as both
  loops compute them; \<open>passed\<close> is \<^verbatim>\<open>cluster_read_data_offset\<close>, the bytes of the file up to the end of
  this cluster, \<open>moved\<close> counts the bytes transferred before.
\<close>

definition fat_part_bytes :: "u32 \<Rightarrow> u32 \<Rightarrow> u32 \<Rightarrow> u32 \<Rightarrow> u32 \<Rightarrow> u32 \<Rightarrow> u32 \<times> u32" where
  "fat_part_bytes csize cursor part_size data_size passed moved =
     (let bytes = (if data_size > part_size + moved then part_size else data_size - moved);
          skip_bytes = csize - (passed - cursor)
      in if passed - cursor \<le> csize
         then (if bytes + skip_bytes > part_size then bytes - ((bytes + skip_bytes) - part_size) else bytes, skip_bytes)
         else (bytes, 0))"

text \<open>What one cluster contributes to a read: the bytes go to \<open>out\<close> at \<open>moved\<close>.\<close>

definition fat_read_part ::
  "'p fat_disk \<Rightarrow> fat_file \<Rightarrow> u32 \<Rightarrow> u32 \<Rightarrow> u32 \<Rightarrow> u32 \<Rightarrow> u8 list \<Rightarrow> 'p fat_world \<Rightarrow> (u32 \<times> u8 list \<times> 'p fat_world) option" where
  "fat_read_part disk file data_size cluster passed moved out w =
     (let file_size = DIR_FileSize (f_dir file);
          part_size = (if passed > file_size then cluster_size disk - (passed - file_size) else cluster_size disk);
          (bytes_to_read, skip_bytes) = fat_part_bytes (cluster_size disk) (f_cursor file) part_size data_size passed moved;
          src_read_offset = cluster_offset disk cluster * bytes_per_sector disk + skip_bytes
      in if bytes_to_read > 0
         then (case dev_read disk src_read_offset bytes_to_read w of
                 (bytes, w) \<Rightarrow> do {
                   out \<leftarrow> store_at out (unat moved) bytes;
                   Some (moved + bytes_to_read, out, w)
                 })
         else Some (moved + bytes_to_read, out, w))"

partial_function (option) fat_fread_loop ::
  "'p fat_disk \<Rightarrow> fat_file \<Rightarrow> u32 \<Rightarrow> u32 \<Rightarrow> u32 \<Rightarrow> u32 \<Rightarrow> u8 list \<Rightarrow> 'p fat_world \<Rightarrow> (u32 \<times> u8 list \<times> 'p fat_world) option" where
  "fat_fread_loop disk file data_size cluster passed moved out w =
     (if cluster < 2 then Some (moved, out, w)
      else do {
        (next_cluster, w) \<leftarrow> fat_read_fat_entry disk cluster True w;
        if fat_no_cluster next_cluster then Some (moved, out, w)
        else do {
          (moved, out, w) \<leftarrow>
            (if passed + cluster_size disk > f_cursor file
             then fat_read_part disk file data_size cluster (passed + cluster_size disk) moved out w
             else Some (moved, out, w));
          if fat_last_cluster next_cluster then Some (moved, out, w)
          else fat_fread_loop disk file data_size (next_cluster AND 0x0FFFFFFF) (passed + cluster_size disk) moved out w
        }
      })"

text \<open>\<open>out\<close> is the content of the caller's buffer; the result is the buffer and the file with its cursor moved.\<close>

definition fat_fread ::
  "'p fat_disk \<Rightarrow> u8 list \<Rightarrow> u32 \<Rightarrow> u32 \<Rightarrow> fat_file \<Rightarrow> 'p fat_world \<Rightarrow> (u8 list \<times> fat_file \<times> 'p fat_world) option" where
  "fat_fread disk out element_size element_count file w =
     do {
       (moved, out, w) \<leftarrow> fat_fread_loop disk file (element_size * element_count) (ucast (DIR_FstClusLO (f_dir file))) 0 0 out
                              (fat_invalidate_cache w);
       Some (out, file\<lparr>f_cursor := f_cursor file + moved\<rparr>, w)
     }"

partial_function (option) fat_count_loop :: "'p fat_disk \<Rightarrow> u32 \<Rightarrow> u32 \<Rightarrow> 'p fat_world \<Rightarrow> (u32 \<times> 'p fat_world) option" where
  "fat_count_loop disk cluster cluster_count w =
     (if cluster < 2 then Some (cluster_count, w)
      else do {
        (next_cluster, w) \<leftarrow> fat_read_fat_entry disk cluster True w;
        if fat_no_cluster next_cluster then Some (cluster_count, w)
        else if fat_last_cluster next_cluster then Some (cluster_count + 1, w)
        else fat_count_loop disk (next_cluster AND 0x0FFFFFFF) (cluster_count + 1) w
      })"

definition fat_file_cluster_count :: "'p fat_disk \<Rightarrow> fat_file \<Rightarrow> 'p fat_world \<Rightarrow> (u32 \<times> 'p fat_world) option" where
  "fat_file_cluster_count disk file w = fat_count_loop disk (ucast (DIR_FstClusLO (f_dir file))) 0 (fat_invalidate_cache w)"

definition fat_fseek :: "fat_file \<Rightarrow> int \<Rightarrow> int \<Rightarrow> fat_file" where
  "fat_fseek file offset origin =
     (if origin = fat_SEEK_SET then file\<lparr>f_cursor := word_of_int offset\<rparr>
      else if origin = fat_SEEK_CUR then file\<lparr>f_cursor := f_cursor file + word_of_int offset\<rparr>
      else if origin = fat_SEEK_END then file\<lparr>f_cursor := DIR_FileSize (f_dir file) + word_of_int offset\<rparr>
      else file)"

definition fat_dirseek :: "fat_file \<Rightarrow> int \<Rightarrow> int \<Rightarrow> int \<times> fat_file" where
  "fat_dirseek dir offset origin =
     (if origin = fat_SEEK_SET then (1, dir\<lparr>f_cursor := word_of_int offset\<rparr>)
      else if origin = fat_SEEK_CUR then (1, dir\<lparr>f_cursor := f_cursor dir + word_of_int offset\<rparr>)
      else if origin = fat_SEEK_END then (0, dir)
      else (1, dir))"

definition fat_ftell :: "fat_file \<Rightarrow> int" where
  "fat_ftell file = sint (f_cursor file)"

text \<open>
  A directory as a file: the entry of a cluster with the size of its chain, as \<^verbatim>\<open>fat_update_entry\<close> and
  its like set it up.
\<close>

definition fat_chain_size :: "'p fat_disk \<Rightarrow> fat_file \<Rightarrow> 'p fat_world \<Rightarrow> (fat_file \<times> 'p fat_world) option" where
  "fat_chain_size disk file w =
     do {
       (count, w) \<leftarrow> fat_file_cluster_count disk file w;
       Some (file\<lparr>f_dir := (f_dir file)\<lparr>DIR_FileSize := count * ucast (BPB_SecPerClus (d_bpb disk)) * bytes_per_sector disk\<rparr>\<rparr>, w)
     }"

definition fat_parent :: "u32 \<Rightarrow> fat_file" where
  "fat_parent first_parent_cluster =
     fat_file_default\<lparr>f_dir := fat_dir_empty\<lparr>DIR_FstClusLO := ucast first_parent_cluster\<rparr>\<rparr>"

definition fat_read_entry :: "'p fat_disk \<Rightarrow> fat_file \<Rightarrow> 'p fat_world \<Rightarrow> (fat_file \<times> 'p fat_world) option" where
  "fat_read_entry disk dir w =
     do {
       (parent, w) \<leftarrow> fat_chain_size disk (fat_parent (f_first_parent_cluster dir)) w;
       let parent = fat_fseek parent (uint (f_entry_position dir)) fat_SEEK_SET;
       (bytes, parent, w) \<leftarrow> fat_fread disk (bytes_of_dir (f_dir dir)) 32 1 parent w;
       Some (dir\<lparr>f_dir := dir_of_bytes bytes\<rparr>, w)
     }"

subsection \<open>Writing\<close>

definition fat_clear_cluster :: "'p fat_disk \<Rightarrow> u32 \<Rightarrow> 'p fat_world \<Rightarrow> 'p fat_world" where
  "fat_clear_cluster disk cluster w =
     dev_write disk (cluster_offset disk cluster * bytes_per_sector disk) (replicate (unat (cluster_size disk)) 0) w"

text \<open>The search for a free cluster that both \<^verbatim>\<open>fat_fwrite\<close> and \<^verbatim>\<open>fat_create\<close> hold: \<open>None\<close> inside when there is none.\<close>

partial_function (option) fat_find_free :: "'p fat_disk \<Rightarrow> u32 \<Rightarrow> 'p fat_world \<Rightarrow> (u32 option \<times> 'p fat_world) option" where
  "fat_find_free disk free_cluster w =
     do {
       (v, w) \<leftarrow> fat_read_fat_entry disk free_cluster True w;
       if v = 0 then Some (Some free_cluster, w)
       else if (free_cluster + 1) * ucast (BPB_SecPerClus (d_bpb disk)) \<ge> fat_disk_size disk then Some (None, w)
       else fat_find_free disk (free_cluster + 1) w
     }"

text \<open>
  The cluster that follows \<open>cluster\<close> in a write: the one in the table, or a new one, or the end mark.
  \<open>None\<close> inside when the disk is full.
\<close>

definition fat_extend ::
  "'p fat_disk \<Rightarrow> fat_file \<Rightarrow> u32 \<Rightarrow> u32 \<Rightarrow> u32 \<Rightarrow> u32 \<Rightarrow> 'p fat_world \<Rightarrow> (u32 option \<times> 'p fat_world) option" where
  "fat_extend disk file data_size cluster next_cluster passed w =
     (if next_cluster = 0 \<or> next_cluster \<ge> 0x0FFFFFF8 \<and> next_cluster \<le> 0x0FFFFFFF then do {
        (new_next, w) \<leftarrow>
          (if f_cursor file + data_size \<le> passed + cluster_size disk then Some (Some 0x0FFFFFFF, w)
           else fat_find_free disk (cluster + 1) (fat_invalidate_cache w));
        (case new_next of
           None \<Rightarrow> Some (None, w)
         | Some new_cluster \<Rightarrow>
             if f_cursor file + data_size \<le> passed + cluster_size disk \<and> next_cluster = 0x0FFFFFFF
             then Some (Some new_cluster, w)
             else Some (Some new_cluster,
                        fat_clear_cluster disk new_cluster (fat_write_fat_entry disk cluster new_cluster w)))
      }
      else Some (Some next_cluster, w))"

text \<open>What one cluster takes of the data.\<close>

definition fat_write_part ::
  "'p fat_disk \<Rightarrow> fat_file \<Rightarrow> u8 list \<Rightarrow> u32 \<Rightarrow> u32 \<Rightarrow> u32 \<Rightarrow> u32 \<Rightarrow> 'p fat_world \<Rightarrow> (u32 \<times> 'p fat_world) option" where
  "fat_write_part disk file data data_size cluster passed moved w =
     (let (bytes_to_write, skip_bytes) =
            fat_part_bytes (cluster_size disk) (f_cursor file) (cluster_size disk) data_size passed moved;
          dst_write_offset = cluster_offset disk cluster * bytes_per_sector disk + skip_bytes
      in do {
           bytes \<leftarrow> slice data (unat moved) (unat bytes_to_write);
           Some (moved + bytes_to_write, dev_write disk dst_write_offset bytes w)
         })"

text \<open>The result is \<open>None\<close> inside when no free cluster was found, else the number of bytes written.\<close>

partial_function (option) fat_fwrite_loop ::
  "'p fat_disk \<Rightarrow> fat_file \<Rightarrow> u8 list \<Rightarrow> u32 \<Rightarrow> u32 \<Rightarrow> u32 \<Rightarrow> u32 \<Rightarrow> 'p fat_world \<Rightarrow> (u32 option \<times> 'p fat_world) option" where
  "fat_fwrite_loop disk file data data_size cluster passed moved w =
     (if cluster < 2 then Some (Some moved, w)
      else do {
        (next_cluster, w) \<leftarrow> fat_read_fat_entry disk cluster False w;
        if next_cluster = 0x0FFFFFF7 then Some (Some moved, w)
        else do {
          (new_next, w) \<leftarrow> fat_extend disk file data_size cluster next_cluster passed w;
          (case new_next of
             None \<Rightarrow> Some (None, w)
           | Some next_cluster \<Rightarrow> do {
               (moved, w) \<leftarrow>
                 (if passed + cluster_size disk > f_cursor file
                  then fat_write_part disk file data data_size cluster (passed + cluster_size disk) moved w
                  else Some (moved, w));
               if fat_last_cluster next_cluster then Some (Some moved, w)
               else fat_fwrite_loop disk file data data_size (next_cluster AND 0x0FFFFFFF) (passed + cluster_size disk) moved w
             })
        }
      })"

text \<open>
  \<^verbatim>\<open>fat_fwrite\<close> and \<^verbatim>\<open>fat_update_entry\<close> call each other; the parent that \<^verbatim>\<open>fat_update_entry\<close> writes to has
  no parent of its own, where it returns at once, so that the recursion ends after one round:
  \<open>update\<close> is the call at the end of the write.
\<close>

definition fat_fwrite_with ::
  "(fat_file \<Rightarrow> 'p fat_world \<Rightarrow> 'p fat_world option) \<Rightarrow>
   'p fat_disk \<Rightarrow> u8 list \<Rightarrow> u32 \<Rightarrow> u32 \<Rightarrow> fat_file \<Rightarrow> 'p fat_world \<Rightarrow> (int \<times> fat_file \<times> 'p fat_world) option" where
  "fat_fwrite_with update disk data element_size element_count file w =
     do {
       (written, w) \<leftarrow> fat_fwrite_loop disk file data (element_size * element_count) (ucast (DIR_FstClusLO (f_dir file))) 0 0 w;
       (case written of
          None \<Rightarrow> Some (0, file, w)
        | Some moved \<Rightarrow>
            let file = file\<lparr>f_cursor := f_cursor file + moved\<rparr> in
            if f_cursor file > DIR_FileSize (f_dir file) then do {
              let file = file\<lparr>f_dir := (f_dir file)\<lparr>DIR_FileSize := f_cursor file\<rparr>\<rparr>;
              w \<leftarrow> update file w;
              Some (1, file, w)
            }
            else Some (1, file, w))
     }"

definition fat_update_entry :: "'p fat_disk \<Rightarrow> fat_file \<Rightarrow> 'p fat_world \<Rightarrow> 'p fat_world option" where
  "fat_update_entry disk dir w =
     (if f_first_parent_cluster dir < 2 then Some w
      else do {
        (parent, w) \<leftarrow> fat_chain_size disk (fat_parent (f_first_parent_cluster dir)) w;
        let parent = fat_fseek parent (uint (f_entry_position dir)) fat_SEEK_SET;
        (res, parent, w) \<leftarrow> fat_fwrite_with (\<lambda>file w. Some w) disk (bytes_of_dir (f_dir dir)) 32 1 parent w;
        Some w
      })"

definition fat_fwrite ::
  "'p fat_disk \<Rightarrow> u8 list \<Rightarrow> u32 \<Rightarrow> u32 \<Rightarrow> fat_file \<Rightarrow> 'p fat_world \<Rightarrow> (int \<times> fat_file \<times> 'p fat_world) option" where
  "fat_fwrite disk = fat_fwrite_with (fat_update_entry disk) disk"

subsection \<open>Releasing\<close>

partial_function (option) fat_remove_loop :: "'p fat_disk \<Rightarrow> u32 \<Rightarrow> 'p fat_world \<Rightarrow> 'p fat_world option" where
  "fat_remove_loop disk cluster w =
     (if cluster < 2 then Some w
      else do {
        (next_cluster, w) \<leftarrow> fat_read_fat_entry disk cluster False w;
        if fat_no_cluster next_cluster then Some w
        else do {
          let w = fat_write_fat_entry disk cluster 0 w;
          if fat_last_cluster next_cluster then Some w
          else fat_remove_loop disk (next_cluster AND 0x0FFFFFFF) w
        }
      })"

definition fat_remove_fat_chain :: "'p fat_disk \<Rightarrow> fat_file \<Rightarrow> 'p fat_world \<Rightarrow> 'p fat_world option" where
  "fat_remove_fat_chain disk file w = fat_remove_loop disk (ucast (DIR_FstClusLO (f_dir file))) w"

end
