(* ===== verification/FatDevice.thy ===== *)
theory FatDevice
  imports Fat
begin

section \<open>Volumes: the device, the table and its cache\<close>

text \<open>
  The contract of the two functions of \<^verbatim>\<open>fat_DISK\<close> is the locale \<open>byte_device\<close>: a range of bytes is
  read, or written, and nothing else changes.  A volume adds a parameter block whose tables and
  clusters lie on the device.  On a volume the positions that the code computes with wrapping
  arithmetic are the intended ones, and reading the table through the static cache gives what
  reading it from the device gives.
\<close>

definition range_of :: "(nat \<Rightarrow> u8) \<Rightarrow> nat \<Rightarrow> nat \<Rightarrow> u8 list" where
  "range_of m a n = List.map m [a..<a + n]"

definition overwrite :: "(nat \<Rightarrow> u8) \<Rightarrow> nat \<Rightarrow> u8 list \<Rightarrow> nat \<Rightarrow> u8" where
  "overwrite m a bytes = (\<lambda>i. if a \<le> i \<and> i < a + length bytes then bytes ! (i - a) else m i)"

lemma length_range_of [simp]: "length (range_of m a n) = n"
  by (simp add: range_of_def)

lemma range_of_nth [simp]: "i < n \<Longrightarrow> range_of m a n ! i = m (a + i)"
  by (simp add: range_of_def)

lemma range_of_overwrite: "range_of (overwrite m a bytes) a (length bytes) = bytes"
  by (rule nth_equalityI) (simp_all add: overwrite_def)

lemma range_of_cong: "(\<And>i. a \<le> i \<Longrightarrow> i < a + n \<Longrightarrow> m i = m' i) \<Longrightarrow> range_of m a n = range_of m' a n"
  by (simp add: range_of_def)

lemma range_of_elsewhere:
  "a + n \<le> b \<or> b + length bytes \<le> a \<Longrightarrow> range_of (overwrite m b bytes) a n = range_of m a n"
  by (rule range_of_cong) (auto simp: overwrite_def)

lemma range_of_append: "range_of m a (n + k) = range_of m a n @ range_of m (a + n) k"
  unfolding range_of_def add.assoc [symmetric] by (simp only: upt_add_eq_append [of a "a + n" k] le_add1 map_append)

lemma take_range_of [simp]: "take k (range_of m a n) = range_of m a (min k n)"
  by (simp add: range_of_def take_map min_def)

lemma drop_range_of [simp]: "drop k (range_of m a n) = range_of m (a + k) (n - k)"
  by (cases "k \<le> n") (simp_all add: range_of_def drop_map)

lemma le32_drop: "le32 (drop i xs) 0 = le32 xs i" if "i + 4 \<le> length xs"
  using that by (simp add: le32_def)

lemma le32_take: "le32 (take n xs) i = le32 xs i" if "i + 4 \<le> n"
  using that by (simp add: le32_def)

lemma le32_range_of: "i + 4 \<le> n \<Longrightarrow> le32 (range_of m a n) i = le32 (range_of m (a + i) 4) 0"
  by (simp add: le32_def add.assoc)

subsection \<open>The device\<close>

locale byte_device =
  fixes rd :: "u32 \<Rightarrow> u32 \<Rightarrow> ('p, u8 list) state"
    and wr :: "u32 \<Rightarrow> u8 list \<Rightarrow> ('p, unit) state"
    and ready :: "'p \<Rightarrow> bool"
    and content :: "'p \<Rightarrow> nat \<Rightarrow> u8"
    and limit :: nat
  assumes rd_range: "ready p \<Longrightarrow> unat offset + unat n < limit \<Longrightarrow>
      \<exists>p'. run_state (rd offset n) p = (range_of (content p) (unat offset) (unat n), p') \<and> ready p' \<and> content p' = content p"
    and wr_range: "ready p \<Longrightarrow> unat offset + length bytes < limit \<Longrightarrow>
      \<exists>p'. run_state (wr offset bytes) p = ((), p') \<and> ready p' \<and> content p' = overwrite (content p) (unat offset) bytes"
begin

lemma write_read:
  assumes "ready p" "unat offset + unat n < limit" "length bytes = unat n"
  shows "\<exists>p' p''. run_state (wr offset bytes) p = ((), p') \<and> run_state (rd offset n) p' = (bytes, p'')"
proof -
  have "unat offset + length bytes < limit" using assms(2,3) by simp
  from wr_range [OF assms(1) this] obtain p' where p': "run_state (wr offset bytes) p = ((), p')" "ready p'"
    "content p' = overwrite (content p) (unat offset) bytes" by blast
  with rd_range [OF p'(2) assms(2)] show ?thesis using range_of_overwrite [of "content p" "unat offset" bytes] assms(3) by auto
qed

end

subsection \<open>Geometry\<close>

definition sector_bytes :: "'p fat_disk \<Rightarrow> nat" where
  "sector_bytes disk = unat (BPB_BytsPerSec (d_bpb disk))"

definition cluster_bytes :: "'p fat_disk \<Rightarrow> nat" where
  "cluster_bytes disk = unat (BPB_SecPerClus (d_bpb disk)) * sector_bytes disk"

definition table_start :: "'p fat_disk \<Rightarrow> nat" where
  "table_start disk = unat (BPB_RsvdSecCnt (d_bpb disk)) * sector_bytes disk"

definition table_bytes :: "'p fat_disk \<Rightarrow> nat" where
  "table_bytes disk = unat (BPB_FATSz32 (d_bpb disk)) * sector_bytes disk"

definition data_start :: "'p fat_disk \<Rightarrow> nat" where
  "data_start disk = table_start disk + unat (BPB_NumFATs (d_bpb disk)) * table_bytes disk"

definition cluster_start :: "'p fat_disk \<Rightarrow> u32 \<Rightarrow> nat" where
  "cluster_start disk c = data_start disk + (unat c - 2) * cluster_bytes disk"

definition fat_geometry :: "'p fat_disk \<Rightarrow> nat \<Rightarrow> nat \<Rightarrow> bool" where
  "fat_geometry disk limit clusters \<longleftrightarrow>
     0 < sector_bytes disk \<and> sector_bytes disk \<le> 512 \<and> 4 dvd sector_bytes disk \<and> 0 < cluster_bytes disk \<and>
     2 \<le> BPB_NumFATs (d_bpb disk) \<and> 4 * (clusters + 2) \<le> table_bytes disk \<and>
     data_start disk + clusters * cluster_bytes disk < limit \<and> limit \<le> 2 ^ 32 \<and> clusters + 2 < 0x0FFFFFF7"

definition table_entry :: "'p fat_disk \<Rightarrow> (nat \<Rightarrow> u8) \<Rightarrow> u32 \<Rightarrow> u32" where
  "table_entry disk m c = le32 (range_of m (table_start disk + 4 * unat c) 4) 0"

definition valid_cluster :: "nat \<Rightarrow> u32 \<Rightarrow> bool" where
  "valid_cluster clusters c \<longleftrightarrow> 2 \<le> c \<and> unat c < clusters + 2"

locale fat_volume = byte_device "d_read_func disk" "d_write_func disk" ready content limit
  for disk :: "'p fat_disk" and ready content limit +
  fixes clusters :: nat
  assumes geometry: "fat_geometry disk limit clusters"
begin

lemma geometry_parts:
  "0 < sector_bytes disk" "sector_bytes disk \<le> 512" "4 dvd sector_bytes disk" "0 < cluster_bytes disk"
  "2 \<le> unat (BPB_NumFATs (d_bpb disk))" "4 * (clusters + 2) \<le> table_bytes disk"
  "data_start disk + clusters * cluster_bytes disk < limit" "limit \<le> 2 ^ 32" "clusters + 2 < 0x0FFFFFF7"
  using geometry by (simp_all add: fat_geometry_def word_le_nat_alt)

lemma tables_before_data: "table_start disk + 2 * table_bytes disk \<le> data_start disk"
  using geometry_parts(5) by (simp add: data_start_def)

lemma data_limit: "data_start disk < 2 ^ 32"
  using geometry_parts(7,8) by simp

lemma unat_bytes_per_sector: "unat (bytes_per_sector disk) = sector_bytes disk"
  by (simp add: bytes_per_sector_def sector_bytes_def unsigned_ucast_eq take_bit_eq_mod)
     (use unat_bound [of "BPB_BytsPerSec (d_bpb disk)"] in simp)

lemma unat_fat_offset: "unat (fat_offset disk) = table_start disk"
proof -
  have "unat (BPB_RsvdSecCnt (d_bpb disk)) * sector_bytes disk < 2 ^ 32"
    using tables_before_data data_limit by (simp add: table_start_def)
  then show ?thesis
    using unat_bound [of "BPB_RsvdSecCnt (d_bpb disk)"]
    by (simp add: fat_offset_def table_start_def unat_word_ariths unat_bytes_per_sector unsigned_ucast_eq take_bit_eq_mod)
qed

lemma entry_inside: "unat c < clusters + 2 \<Longrightarrow> table_start disk + 4 * unat c + 4 \<le> table_start disk + table_bytes disk"
  using geometry_parts(6) by simp

lemma entry_limit:
  assumes "unat c < clusters + 2"
  shows "table_start disk + 4 * unat c + 4 + table_bytes disk \<le> data_start disk"
  using entry_inside [OF assms] tables_before_data by simp

lemma unat_entry:
  assumes "unat c < clusters + 2"
  shows "unat (fat_offset disk + c * 4) = table_start disk + 4 * unat c"
  using entry_limit [OF assms] data_limit by (simp add: unat_word_ariths unat_fat_offset mult.commute)

subsection \<open>Access\<close>

text \<open>The device holds \<open>m\<close>; the cache holds what the device does.\<close>

definition on :: "'p fat_world \<Rightarrow> (nat \<Rightarrow> u8) \<Rightarrow> bool" where
  "on w m \<longleftrightarrow> ready (w_dev w) \<and> content (w_dev w) = m \<and> length (w_cache w) = 512"

definition coherent :: "'p fat_world \<Rightarrow> (nat \<Rightarrow> u8) \<Rightarrow> bool" where
  "coherent w m \<longleftrightarrow> w_cache_sector w = 0xFFFFFFFF \<or>
     take (sector_bytes disk) (w_cache w) = range_of m (unat (w_cache_sector w) * sector_bytes disk) (sector_bytes disk)"

lemma run_dev_read:
  assumes "on w m" "unat offset + unat n < limit"
  shows "\<exists>w'. dev_read disk offset n w = (range_of m (unat offset) (unat n), w') \<and> on w' m \<and>
    w_cache w' = w_cache w \<and> w_cache_sector w' = w_cache_sector w"
proof -
  obtain p where "run_state (d_read_func disk offset n) (w_dev w) = (range_of m (unat offset) (unat n), p)" "ready p" "content p = m"
    using rd_range [of "w_dev w" offset n] assms by (auto simp: on_def)
  then show ?thesis using assms(1) by (auto simp: dev_read_def on_def)
qed

lemma run_dev_write:
  assumes "on w m" "unat offset + length bytes < limit"
  shows "on (dev_write disk offset bytes w) (overwrite m (unat offset) bytes)"
    "w_cache (dev_write disk offset bytes w) = w_cache w"
    "w_cache_sector (dev_write disk offset bytes w) = w_cache_sector w"
proof -
  obtain p where p: "run_state (d_write_func disk offset bytes) (w_dev w) = ((), p)" "ready p"
    "content p = overwrite m (unat offset) bytes"
    using wr_range [of "w_dev w" offset bytes] assms by (auto simp: on_def)
  show "on (dev_write disk offset bytes w) (overwrite m (unat offset) bytes)" using p assms(1) by (simp add: dev_write_def on_def)
  show "w_cache (dev_write disk offset bytes w) = w_cache w" using p by (simp add: dev_write_def)
  show "w_cache_sector (dev_write disk offset bytes w) = w_cache_sector w" using p by (simp add: dev_write_def)
qed

lemma on_invalidate [simp]: "on (fat_invalidate_cache w) m = on w m"
  by (simp add: on_def fat_invalidate_cache_def)

lemma coherent_invalidate [simp]: "coherent (fat_invalidate_cache w) m"
  by (simp add: coherent_def fat_invalidate_cache_def)

lemma read_uncached:
  assumes "on w m" "unat c < clusters + 2"
  shows "\<exists>w'. fat_read_fat_entry disk c False w = Some (table_entry disk m c, w') \<and> on w' m"
proof -
  have e: "unat (fat_offset disk + c * 4) = table_start disk + 4 * unat c" using assms(2) by (rule unat_entry)
  have "unat (fat_offset disk + c * 4) + unat (4 :: u32) < limit"
    using e entry_limit [OF assms(2)] geometry_parts(6,7) by simp
  from run_dev_read [OF assms(1) this] show ?thesis
    by (auto simp: fat_read_fat_entry_def Let_def e table_entry_def)
qed

text \<open>The sector of an entry, and the place of the entry in it.\<close>

lemma entry_sector:
  assumes "unat c < clusters + 2"
  defines "a \<equiv> table_start disk + 4 * unat c"
  shows "unat ((fat_offset disk + c * 4) div bytes_per_sector disk) * sector_bytes disk + sector_bytes disk \<le> table_start disk + table_bytes disk"
    "unat ((fat_offset disk + c * 4) mod bytes_per_sector disk) + 4 \<le> sector_bytes disk"
    "unat ((fat_offset disk + c * 4) div bytes_per_sector disk) * sector_bytes disk +
       unat ((fat_offset disk + c * 4) mod bytes_per_sector disk) = a"
proof -
  let ?b = "sector_bytes disk"
  have b: "0 < ?b" "4 dvd ?b" by (rule geometry_parts)+
  have e: "unat (fat_offset disk + c * 4) = a" using unat_entry [OF assms(1)] by (simp add: a_def)
  have d: "unat ((fat_offset disk + c * 4) div bytes_per_sector disk) = a div ?b"
    "unat ((fat_offset disk + c * 4) mod bytes_per_sector disk) = a mod ?b"
    by (simp_all add: unat_div unat_mod e unat_bytes_per_sector)
  obtain t where t: "table_start disk + table_bytes disk = t * ?b"
    by (metis distrib_right table_bytes_def table_start_def)
  have "a < t * ?b" using entry_inside [OF assms(1)] t by (simp add: a_def)
  then have "a div ?b < t" using b(1) by (simp add: div_less_iff_less_mult)
  then have "(a div ?b + 1) * ?b \<le> t * ?b" by (intro mult_le_mono1) simp
  then show "unat ((fat_offset disk + c * 4) div bytes_per_sector disk) * ?b + ?b \<le> table_start disk + table_bytes disk"
    unfolding d t by (simp add: algebra_simps)
  have "4 dvd a" using b(2) by (simp add: a_def table_start_def)
  then have "4 dvd ?b - a mod ?b" using b(2) by (simp add: dvd_mod_iff)
  moreover have "0 < ?b - a mod ?b" using b(1) by simp
  ultimately have "4 \<le> ?b - a mod ?b" by (rule dvd_imp_le)
  then show "unat ((fat_offset disk + c * 4) mod bytes_per_sector disk) + 4 \<le> ?b" unfolding d by simp
  show "unat ((fat_offset disk + c * 4) div bytes_per_sector disk) * ?b +
       unat ((fat_offset disk + c * 4) mod bytes_per_sector disk) = a"
    unfolding d by simp
qed

lemma read_cached:
  assumes "on w m" "coherent w m" "unat c < clusters + 2"
  shows "\<exists>w'. fat_read_fat_entry disk c True w = Some (table_entry disk m c, w') \<and> on w' m \<and> coherent w' m"
proof -
  let ?b = "sector_bytes disk" and ?s = "(fat_offset disk + c * 4) div bytes_per_sector disk"
    and ?i = "unat ((fat_offset disk + c * 4) mod bytes_per_sector disk)"
  note es = entry_sector [OF assms(3)]
  have b: "0 < ?b" "?b \<le> 512" by (rule geometry_parts)+
  have below: "unat ?s * ?b + ?b < limit" using es(1) tables_before_data geometry_parts(6,7) by simp
  then have "unat ?s * ?b < 2 ^ 32" using geometry_parts(8) by simp
  then have so: "unat (?s * bytes_per_sector disk) = unat ?s * ?b" by (simp add: unat_word_ariths unat_bytes_per_sector)
  have "unat ?s \<noteq> unat (0xFFFFFFFF :: u32)"
  proof
    assume *: "unat ?s = unat (0xFFFFFFFF :: u32)"
    have "4 \<le> ?b" using b(1) geometry_parts(3) by (simp add: dvd_imp_le)
    then have "unat ?s * 4 \<le> unat ?s * ?b" by (rule mult_le_mono2)
    then have "unat ?s * 4 < 2 ^ 32" using \<open>unat ?s * ?b < 2 ^ 32\<close> by (rule le_less_trans)
    then show False unfolding * by simp
  qed
  then have nf: "?s \<noteq> 0xFFFFFFFF" by metis
  have fill: "\<exists>w'. fat_fill_cache disk ?s w = Some w' \<and> on w' m \<and> w_cache_sector w' = ?s \<and>
      take ?b (w_cache w') = range_of m (unat ?s * ?b) ?b"
  proof (cases "?s = w_cache_sector w")
    case True
    then show ?thesis using assms(1,2) nf by (auto simp: fat_fill_cache_def coherent_def)
  next
    case False
    obtain w1 where w1: "dev_read disk (?s * bytes_per_sector disk) (bytes_per_sector disk) w = (range_of m (unat ?s * ?b) ?b, w1)"
      "on w1 m"
      using run_dev_read [OF assms(1), of "?s * bytes_per_sector disk" "bytes_per_sector disk"] below
      by (auto simp: so unat_bytes_per_sector)
    then show ?thesis using False b(2) by (auto simp: fat_fill_cache_def on_def store_at_def)
  qed
  then obtain w' where w': "fat_fill_cache disk ?s w = Some w'" "on w' m" "w_cache_sector w' = ?s"
    "take ?b (w_cache w') = range_of m (unat ?s * ?b) ?b" by blast
  have "le32 (w_cache w') ?i = le32 (take ?b (w_cache w')) ?i" by (rule le32_take [OF es(2), symmetric])
  also have "\<dots> = table_entry disk m c" unfolding w'(4) table_entry_def le32_range_of [OF es(2)] es(3) ..
  finally have e: "le32 (w_cache w') ?i = table_entry disk m c" .
  have "length (w_cache w') = 512" using w'(2) by (simp add: on_def)
  moreover have "?i + 4 \<le> 512" using es(2) b(2) by (rule le_trans)
  ultimately have v: "load32 (w_cache w') ?i = Some (table_entry disk m c)" unfolding load32_def e by (simp only: if_True)
  have nz: "bytes_per_sector disk \<noteq> 0" using unat_bytes_per_sector b(1) by fastforce
  show ?thesis using w' v nz by (auto simp: fat_read_fat_entry_def Let_def coherent_def)
qed

end

end
