(* ===== verification/FatChain.thy ===== *)
theory FatChain
  imports FatDevice
begin

section \<open>Cluster chains\<close>

text \<open>
  A file's clusters as a list: the walk along the table from the first cluster to the end mark.  The
  walks of the code end on every chain, and the list says what they do.
\<close>

fun chain :: "(u32 \<Rightarrow> u32) \<Rightarrow> nat \<Rightarrow> u32 \<Rightarrow> u32 list \<Rightarrow> bool" where
  "chain T clusters c [] \<longleftrightarrow> False"
| "chain T clusters c (x # xs) \<longleftrightarrow>
     x = c \<and> valid_cluster clusters c \<and> \<not> fat_no_cluster (T c) \<and>
     (if fat_last_cluster (T c) then xs = [] else chain T clusters (T c AND 0x0FFFFFFF) xs)"

lemma chain_det: "chain T k c xs \<Longrightarrow> chain T k c ys \<Longrightarrow> xs = ys"
proof (induction xs arbitrary: c ys)
  case (Cons x xs)
  then show ?case by (cases ys) (auto split: if_splits)
qed simp

lemma chain_suffix: "chain T k c (xs @ y # ys) \<Longrightarrow> chain T k y (y # ys)"
proof (induction xs arbitrary: c)
  case (Cons x xs)
  then show ?case by (cases "fat_last_cluster (T c)") auto
qed simp

lemma chain_distinct: "chain T k c xs \<Longrightarrow> distinct xs"
proof (induction xs arbitrary: c)
  case (Cons x xs)
  have "x \<notin> set xs"
  proof
    assume "x \<in> set xs"
    then obtain as bs where xs: "xs = as @ x # bs" by (auto simp: in_set_conv_decomp)
    have "chain T k x (x # bs)" using chain_suffix [of T k c "x # as" x bs] Cons.prems unfolding xs by (simp only: append_Cons)
    moreover have "x = c" using Cons.prems by simp
    then have "chain T k x (x # as @ x # bs)" using Cons.prems unfolding xs by (simp only:)
    ultimately have "bs = as @ x # bs" using chain_det by fastforce
    then have "length bs = length as + 1 + length bs" using arg_cong [of bs _ length] by fastforce
    then show False by simp
  qed
  then show ?case using Cons by (auto split: if_splits)
qed simp

lemma chain_valid: "chain T k c xs \<Longrightarrow> x \<in> set xs \<Longrightarrow> valid_cluster k x"
  by (induction xs arbitrary: c) (auto split: if_splits)

lemma chain_entry: "chain T k c xs \<Longrightarrow> x \<in> set xs \<Longrightarrow> \<not> fat_no_cluster (T x)"
  by (induction xs arbitrary: c) (auto split: if_splits)

lemma chain_cong: "(\<And>x. x \<in> set xs \<Longrightarrow> T x = T' x) \<Longrightarrow> chain T k c xs = chain T' k c xs"
proof (induction xs arbitrary: c)
  case (Cons x xs)
  then show ?case by (cases "x = c") auto
qed simp

lemma chain_length: assumes "chain T k c xs" shows "length xs \<le> k"
proof -
  have "unat ` set xs \<subseteq> {2..<k + 2}"
    using chain_valid [OF assms] by (auto simp: valid_cluster_def word_le_nat_alt)
  then have "card (unat ` set xs) \<le> card {2..<k + 2}" by (rule card_mono [rotated]) simp
  moreover have "card (unat ` set xs) = length xs"
    proof -
    have "inj_on unat (set xs)" by (intro inj_onI) (simp only: word_unat_eq_iff)
    then show ?thesis using distinct_card [OF chain_distinct [OF assms]] by (simp add: card_image)
  qed
  ultimately show ?thesis by simp
qed

lemma valid_cluster_nz: "valid_cluster k c \<Longrightarrow> \<not> c < 2"
  by (simp add: valid_cluster_def word_le_nat_alt word_less_nat_alt)

text \<open>What a table entry is set to.\<close>

definition set_entry :: "'p fat_disk \<Rightarrow> (nat \<Rightarrow> u8) \<Rightarrow> u32 \<Rightarrow> u32 \<Rightarrow> nat \<Rightarrow> u8" where
  "set_entry disk m c v =
     overwrite (overwrite m (table_start disk + 4 * unat c) (bytes32 v)) (table_start disk + 4 * unat c + table_bytes disk) (bytes32 v)"

definition free_entries :: "'p fat_disk \<Rightarrow> (nat \<Rightarrow> u8) \<Rightarrow> u32 list \<Rightarrow> nat \<Rightarrow> u8" where
  "free_entries disk = foldl (\<lambda>m c. set_entry disk m c 0)"

context fat_volume
begin

lemma read_valid:
  assumes "on w m" "coherent w m" "valid_cluster clusters c"
  shows "\<exists>w'. fat_read_fat_entry disk c True w = Some (table_entry disk m c, w') \<and> on w' m \<and> coherent w' m"
  using read_cached [OF assms(1,2)] assms(3) by (simp add: valid_cluster_def)

lemma count_loop:
  assumes "on w m" "coherent w m" "chain (table_entry disk m) clusters c cs"
  shows "\<exists>w'. fat_count_loop disk c k w = Some (k + word_of_nat (length cs), w') \<and> on w' m \<and> coherent w' m"
  using assms
proof (induction cs arbitrary: c k w)
  case (Cons x cs)
  from Cons.prems have c: "valid_cluster clusters c" "\<not> fat_no_cluster (table_entry disk m c)" by auto
  obtain w1 where w1: "fat_read_fat_entry disk c True w = Some (table_entry disk m c, w1)" "on w1 m" "coherent w1 m"
    using read_valid [OF Cons.prems(1,2) c(1)] by blast
  show ?case
  proof (cases "fat_last_cluster (table_entry disk m c)")
    case True
    then show ?thesis using Cons.prems(3) w1 c valid_cluster_nz [OF c(1)] by (auto simp: fat_count_loop.simps [of _ c])
  next
    case False
    then have "chain (table_entry disk m) clusters (table_entry disk m c AND 0x0FFFFFFF) cs" using Cons.prems(3) by simp
    from Cons.IH [OF w1(2,3) this, of "k + 1"] False show ?thesis
      using w1 c valid_cluster_nz [OF c(1)] by (auto simp: fat_count_loop.simps [of _ c] algebra_simps)
  qed
qed simp

lemma cluster_count:
  assumes "on w m" "chain (table_entry disk m) clusters (ucast (DIR_FstClusLO (f_dir file))) cs"
  shows "\<exists>w'. fat_file_cluster_count disk file w = Some (word_of_nat (length cs), w') \<and> on w' m \<and> coherent w' m"
  using count_loop [of "fat_invalidate_cache w" m _ cs 0] assms by (simp add: fat_file_cluster_count_def)

lemma chain_size:
  assumes "on w m" "chain (table_entry disk m) clusters (ucast (DIR_FstClusLO (f_dir file))) cs"
  shows "\<exists>w'. fat_chain_size disk file w =
      Some (file\<lparr>f_dir := (f_dir file)\<lparr>DIR_FileSize := word_of_nat (length cs * cluster_bytes disk)\<rparr>\<rparr>, w') \<and> on w' m \<and> coherent w' m"
proof -
  have "(word_of_nat (length cs * cluster_bytes disk) :: u32) =
      word_of_nat (length cs) * ucast (BPB_SecPerClus (d_bpb disk)) * bytes_per_sector disk"
    by (simp add: cluster_bytes_def sector_bytes_def bytes_per_sector_def algebra_simps)
  then show ?thesis using cluster_count [OF assms] by (auto simp: fat_chain_size_def algebra_simps)
qed

lemma run_write_entry:
  assumes "on w m" "unat c < clusters + 2"
  shows "on (fat_write_fat_entry disk c v w) (set_entry disk m c v)"
proof -
  have e: "unat (fat_offset disk + c * 4) = table_start disk + 4 * unat c" by (rule unat_entry [OF assms(2)])
  note l = entry_limit [OF assms(2)] geometry_parts(7,8)
  have "table_bytes disk < 2 ^ 32" using l by simp
  then have fs: "unat (BPB_FATSz32 (d_bpb disk) * bytes_per_sector disk) = table_bytes disk"
    by (simp add: unat_word_ariths unat_bytes_per_sector table_bytes_def)
  have e2: "unat (fat_offset disk + c * 4 + BPB_FATSz32 (d_bpb disk) * bytes_per_sector disk) = table_start disk + 4 * unat c + table_bytes disk"
    using l unfolding unat_word_ariths(1) [of "fat_offset disk + c * 4"] e fs by simp
  show ?thesis
    using run_dev_write(1) [OF run_dev_write(1) [OF assms(1), of "fat_offset disk + c * 4" "bytes32 v"],
        of "fat_offset disk + c * 4 + BPB_FATSz32 (d_bpb disk) * bytes_per_sector disk" "bytes32 v"] l
    by (simp add: fat_write_fat_entry_def Let_def e e2 set_entry_def)
qed

lemma le32_word: "le32 (bytes32 v) 0 = v"
  by (rule le32_bytes32)

lemma table_set_entry:
  assumes "unat c < clusters + 2" "unat c' < clusters + 2"
  shows "table_entry disk (set_entry disk m c v) c' = (if c' = c then v else table_entry disk m c')"
proof -
  let ?a = "\<lambda>c. table_start disk + 4 * unat c"
  have far: "range_of (overwrite m' (?a c + table_bytes disk) (bytes32 v)) (?a c') 4 = range_of m' (?a c') 4" for m'
    by (rule range_of_elsewhere) (use entry_inside [OF assms(2)] in simp)
  show ?thesis
  proof (cases "c' = c")
    case True
    then show ?thesis
      using range_of_overwrite [of m "?a c" "bytes32 v"] far [of "overwrite m (?a c) (bytes32 v)"]
      by (simp add: table_entry_def set_entry_def le32_bytes32)
  next
    case False
    then have "unat c \<noteq> unat c'" unfolding word_unat_eq_iff by simp
    then have "range_of (overwrite m (?a c) (bytes32 v)) (?a c') 4 = range_of m (?a c') 4"
      by (intro range_of_elsewhere) auto
    then show ?thesis using False far [of "overwrite m (?a c) (bytes32 v)"] by (simp add: table_entry_def set_entry_def)
  qed
qed

lemma set_entry_outside:
  assumes "unat c < clusters + 2" "a < table_start disk \<or> table_start disk + 2 * table_bytes disk \<le> a"
  shows "set_entry disk m c v a = m a"
  using entry_inside [OF assms(1)] assms(2) by (auto simp: set_entry_def overwrite_def)

lemma remove_loop:
  assumes "on w m" "chain (table_entry disk m) clusters c cs"
  shows "\<exists>w'. fat_remove_loop disk c w = Some w' \<and> on w' (free_entries disk m cs)"
  using assms
proof (induction cs arbitrary: c w m)
  case (Cons x cs)
  from Cons.prems have c: "x = c" "valid_cluster clusters c" "\<not> fat_no_cluster (table_entry disk m c)" by auto
  then have b: "unat c < clusters + 2" by (simp add: valid_cluster_def)
  obtain w1 where w1: "fat_read_fat_entry disk c False w = Some (table_entry disk m c, w1)" "on w1 m"
    using read_uncached [OF Cons.prems(1) b] by blast
  let ?m = "set_entry disk m c 0" and ?w = "fat_write_fat_entry disk c 0 w1"
  have w2: "on ?w ?m" by (rule run_write_entry [OF w1(2) b])
  show ?case
  proof (cases "fat_last_cluster (table_entry disk m c)")
    case True
    then show ?thesis using Cons.prems(2) w1 w2 c valid_cluster_nz [OF c(2)]
      by (auto simp: fat_remove_loop.simps [of _ c] free_entries_def)
  next
    case False
    then have ch: "chain (table_entry disk m) clusters (table_entry disk m c AND 0x0FFFFFFF) cs" using Cons.prems(2) by simp
    have "c \<notin> set cs" using chain_distinct [OF Cons.prems(2)] c(1) by simp
    then have "table_entry disk ?m y = table_entry disk m y" if "y \<in> set cs" for y
      using that chain_valid [OF ch that] table_set_entry [OF b, of y m 0] by (auto simp: valid_cluster_def)
    then have "chain (table_entry disk ?m) clusters (table_entry disk m c AND 0x0FFFFFFF) cs"
      using ch chain_cong [of cs "table_entry disk ?m" "table_entry disk m"] by simp
    from Cons.IH [OF w2 this] False show ?thesis
      using w1 c valid_cluster_nz [OF c(2)] by (auto simp: fat_remove_loop.simps [of _ c] free_entries_def)
  qed
qed simp

lemma table_free_entries:
  assumes "\<And>x. x \<in> set cs \<Longrightarrow> unat x < clusters + 2" "unat c < clusters + 2"
  shows "table_entry disk (free_entries disk m cs) c = (if c \<in> set cs then 0 else table_entry disk m c)"
  using assms(1)
proof (induction cs arbitrary: m)
  case (Cons x cs)
  then show ?case using table_set_entry [of x c m 0] assms(2) by (cases "c = x") (simp_all add: free_entries_def)
qed (simp add: free_entries_def)

lemma free_entries_outside:
  assumes "\<And>x. x \<in> set cs \<Longrightarrow> unat x < clusters + 2" "a < table_start disk \<or> table_start disk + 2 * table_bytes disk \<le> a"
  shows "free_entries disk m cs a = m a"
  using assms(1)
proof (induction cs arbitrary: m)
  case (Cons x cs)
  then show ?case using set_entry_outside [of x a m 0] assms(2) by (simp add: free_entries_def)
qed (simp add: free_entries_def)

end

end
