(* ===== verification/FatRead.thy ===== *)
theory FatRead
  imports FatChain
begin

section \<open>Reading and writing along a chain\<close>

text \<open>
  The bytes of a file are those of its clusters in the order of the chain.  A read delivers the bytes
  from the cursor on, up to the size of the file; a write inside the file replaces exactly the bytes
  it covers.
\<close>

definition file_bytes :: "'p fat_disk \<Rightarrow> (nat \<Rightarrow> u8) \<Rightarrow> u32 list \<Rightarrow> u8 list" where
  "file_bytes disk m cs = concat (List.map (\<lambda>c. range_of m (cluster_start disk c) (cluster_bytes disk)) cs)"

lemma length_file_bytes [simp]: "length (file_bytes disk m cs) = length cs * cluster_bytes disk"
  by (induction cs) (simp_all add: file_bytes_def)

text \<open>
  How much one cluster takes: \<open>K\<close> bytes of the file come before it, \<open>C\<close> is the cursor and \<open>p\<close> the part of
  the cluster that belongs to the file.
\<close>

lemma part_bytes:
  fixes csize cursor part_size data_size passed moved :: u32
  assumes w: "unat passed = K + unat csize" "unat cursor = C" "unat part_size = p" "unat data_size = L" "unat moved = min L (K - C)"
    and b: "C < K + unat csize" "p \<le> unat csize" "C \<le> K + p" "unat csize < 2 ^ 31"
  defines "r \<equiv> fat_part_bytes csize cursor part_size data_size passed moved"
  shows "unat (fst r) = min L (K + p - C) - min L (K - C)" "unat (snd r) = C - K"
proof -
  let ?B = "unat csize" and ?M = "min L (K - C)"
  have fit: "K + ?B < 2 ^ 32" using unat_bound [of passed] w(1) by simp
  have pm: "unat (part_size + moved) = p + ?M" using w b(2) fit by (simp add: unat_word_ariths)
  have "moved \<le> data_size" using w by (simp add: word_le_nat_alt)
  then have dm: "unat (data_size - moved) = L - ?M" using w by (simp add: unat_sub)
  define bytes where "bytes = (if data_size > part_size + moved then part_size else data_size - moved)"
  have cut: "(if p + a < L then p else L - a) = min p (L - a)" for a by (simp add: min_def) linarith
  have by': "unat bytes = min p (L - ?M)"
    using pm dm w cut [of ?M] unfolding bytes_def word_less_nat_alt by (auto simp only: split: if_splits)
  have "cursor \<le> passed" using w b(1) by (simp add: word_le_nat_alt)
  then have pc: "unat (passed - cursor) = K + ?B - C" using w by (simp add: unat_sub)
  have r: "r = (if passed - cursor \<le> csize
      then (if bytes + (csize - (passed - cursor)) > part_size
            then bytes - ((bytes + (csize - (passed - cursor))) - part_size) else bytes, csize - (passed - cursor))
      else (bytes, 0))"
    unfolding r_def fat_part_bytes_def Let_def bytes_def ..
  have "unat (fst r) = min L (K + p - C) - ?M \<and> unat (snd r) = C - K"
  proof (cases "K \<le> C")
    case True
    then have le: "passed - cursor \<le> csize" by (simp add: word_le_nat_alt pc)
    then have skip: "unat (csize - (passed - cursor)) = C - K" using True b(1) by (simp add: unat_sub pc)
    have M: "?M = 0" using True by simp
    have sum: "unat (bytes + (csize - (passed - cursor))) = min p L + (C - K)"
      unfolding unat_word_ariths(1) by' skip M using b True by simp
    show ?thesis
    proof (cases "part_size < bytes + (csize - (passed - cursor))")
      case over: True
      then have o: "p < min p L + (C - K)" using sum w(3) by (simp add: word_less_nat_alt)
      from over have "part_size \<le> bytes + (csize - (passed - cursor))" by simp
      then have d: "unat (bytes + (csize - (passed - cursor)) - part_size) = min p L + (C - K) - p" using sum w(3) by (simp add: unat_sub)
      moreover have "C - K \<le> p" using b(3) by simp
      then have "min p L + (C - K) - p \<le> min p L" by (metis add_left_mono le_diff_conv)
      ultimately have le2: "bytes + (csize - (passed - cursor)) - part_size \<le> bytes" using by' M by (simp add: word_le_nat_alt)
      have "unat (bytes - (bytes + (csize - (passed - cursor)) - part_size)) = min p L - (min p L + (C - K) - p)"
        unfolding unat_sub [OF le2] d by' M by simp
      then show ?thesis using le over skip o M True b(3) by (simp add: r)
    next
      case False
      then have "min p L + (C - K) \<le> p" using sum w(3) by (simp add: word_less_nat_alt)
      then show ?thesis using le False skip by' M True b(3) by (simp add: r)
    qed
  next
    case False
    then have "\<not> passed - cursor \<le> csize" using b(1) by (simp add: word_le_nat_alt pc)
    moreover have "min p (L - min L q) = min L (q + p) - min L q" for q by (cases "L \<le> q") (auto simp: min_def)
    from this [of "K - C"] False have "min p (L - ?M) = min L (K + p - C) - ?M" by simp
    ultimately show ?thesis using False by' by (simp add: r)
  qed
  then show "unat (fst r) = min L (K + p - C) - min L (K - C)" "unat (snd r) = C - K" by simp_all
qed

lemma range_of_window: "i + n \<le> B \<Longrightarrow> take n (drop i (range_of m a B)) = range_of m (a + i) n"
  by (simp add: min_absorb1)

text \<open>The bytes delivered so far, and those of the next cluster behind them.\<close>

lemma window_step:
  assumes F: "F = D @ X @ Y" "length D = K" and M: "M = min L (K - C)" "M \<le> M'" "M' \<le> L"
    and X: "(C - K) + (M' - M) \<le> length X" and out: "out = take M (drop C F) @ drop M out0" "L \<le> length out0"
  shows "take M out @ take (M' - M) (drop (C - K) X) @ drop M' out = take M' (drop C F) @ drop M' out0"
proof -
  have "M \<le> K - C" "K \<le> length F" using M(1) F by simp_all
  then have len: "length (take M (drop C F)) = M" by simp
  show ?thesis
  proof (cases "M' = M")
  case True
  then have "take M out @ take (M' - M) (drop (C - K) X) @ drop M' out = out" by simp
  then show ?thesis using out(1) True by simp
next
  case False
  then have lt: "M < M'" using M(2) by simp
  then have MK: "M = K - C" using M(1,3) by auto
  have parts: "take M out = take M (drop C F)" "drop M' out = drop M' out0" using out(1) lt len by simp_all
  have "drop (M + C) F = drop (C - K) X @ Y" using F MK X by (cases "C \<le> K") simp_all
  moreover have "M' - M \<le> length (drop (C - K) X)" using X by simp
  ultimately have "take (M' - M) (drop (M + C) F) = take (M' - M) (drop (C - K) X)" by simp
  moreover have "take M' (drop C F) = take M (drop C F) @ take (M' - M) (drop (M + C) F)"
    using take_add [of M "M' - M" "drop C F"] lt by simp
  ultimately show ?thesis using parts by simp
  qed
qed

context fat_volume
begin

lemma cluster_inside:
  assumes "valid_cluster clusters c"
  shows "cluster_start disk c + cluster_bytes disk < limit" "data_start disk \<le> cluster_start disk c"
proof -
  have "unat c - 2 + 1 \<le> clusters" using assms unfolding valid_cluster_def word_le_nat_alt by auto
  then have "(unat c - 2 + 1) * cluster_bytes disk \<le> clusters * cluster_bytes disk" by (rule mult_le_mono1)
  then show "cluster_start disk c + cluster_bytes disk < limit"
    using geometry_parts(7) by (simp add: cluster_start_def)
  show "data_start disk \<le> cluster_start disk c" by (simp add: cluster_start_def)
qed

lemma unat_cluster_size: "unat (cluster_size disk) = cluster_bytes disk"
proof -
  have "cluster_bytes disk \<le> 255 * 512"
    using unat_byte [of "BPB_SecPerClus (d_bpb disk)"] geometry_parts(2) unfolding cluster_bytes_def by (intro mult_le_mono) simp_all
  then show ?thesis by (simp add: cluster_size_def unat_word_ariths unat_bytes_per_sector cluster_bytes_def)
qed

lemma cluster_bytes_small: "cluster_bytes disk < 2 ^ 31"
proof -
  have "cluster_bytes disk \<le> 255 * 512"
    using unat_byte [of "BPB_SecPerClus (d_bpb disk)"] geometry_parts(2) unfolding cluster_bytes_def by (intro mult_le_mono) simp_all
  then show ?thesis by simp
qed

lemma unat_cluster_offset:
  assumes "valid_cluster clusters c"
  shows "unat (cluster_offset disk c * bytes_per_sector disk) = cluster_start disk c"
proof -
  let ?b = "BPB_SecPerClus (d_bpb disk)" and ?s = "sector_bytes disk"
  have c: "2 \<le> c" "unat (c - 2) = unat c - 2" using assms by (simp_all add: valid_cluster_def unat_sub)
  have "cluster_offset disk c * bytes_per_sector disk =
      word_of_nat ((unat (BPB_RsvdSecCnt (d_bpb disk)) + unat (BPB_NumFATs (d_bpb disk)) * unat (BPB_FATSz32 (d_bpb disk)) + (unat c - 2) * unat ?b) * ?s)"
    using c by (simp add: cluster_offset_def first_data_sector_def sector_bytes_def bytes_per_sector_def flip: c(2))
  also have "\<dots> = word_of_nat (cluster_start disk c)"
    by (simp add: cluster_start_def data_start_def table_start_def table_bytes_def cluster_bytes_def algebra_simps)
  finally show ?thesis using cluster_inside(1) [OF assms] geometry_parts(4,8) by (simp add: unat_of_nat)
qed

lemma unat_in_cluster:
  assumes "valid_cluster clusters c" "unat skip \<le> cluster_bytes disk"
  shows "unat (cluster_offset disk c * bytes_per_sector disk + skip) = cluster_start disk c + unat skip"
  using cluster_inside(1) [OF assms(1)] geometry_parts(8) assms(2)
  unfolding unat_word_ariths(1) unat_cluster_offset [OF assms(1)] by simp


lemma run_read_part:
  fixes fl :: fat_file
  assumes S_def: "S = unat (DIR_FileSize (f_dir fl))" and C_def: "C = unat (f_cursor fl)" and B_def: "B = cluster_bytes disk"
    and w: "on w m" "coherent w m" "valid_cluster clusters c"
    and a: "unat passed = K + B" "unat moved = M" "unat data_size = L" "M = min L (K - C)" "M' = min L (min (K + B) S - C)"
    and b: "K \<le> S" "C \<le> S" "C < K + B" "L \<le> length out"
  shows "\<exists>moved' w'. fat_read_part disk fl data_size c passed moved out w =
      Some (moved', take M out @ range_of m (cluster_start disk c + (C - K)) (M' - M) @ drop M' out, w') \<and>
      unat moved' = M' \<and> on w' m \<and> coherent w' m"
    "(C - K) + (M' - M) \<le> B" "M \<le> M'" "M' \<le> L"
proof -
  define part where "part = (if passed > DIR_FileSize (f_dir fl)
    then cluster_size disk - (passed - DIR_FileSize (f_dir fl)) else cluster_size disk)"
  define p where "p = min B (S - K)"
  have B: "unat (cluster_size disk) = B" "B < 2 ^ 31" using unat_cluster_size cluster_bytes_small by (simp_all add: B_def)
  have part: "unat part = p"
  proof (cases "passed > DIR_FileSize (f_dir fl)")
    case True
    then have "DIR_FileSize (f_dir fl) \<le> passed" by simp
    then have d: "unat (passed - DIR_FileSize (f_dir fl)) = K + B - S" using a(1) by (simp add: unat_sub S_def)
    then have "passed - DIR_FileSize (f_dir fl) \<le> cluster_size disk" using B b(1) by (simp add: word_le_nat_alt)
    moreover have "S < K + B" using True a(1) by (simp add: word_less_nat_alt S_def)
    ultimately show ?thesis using True d B b(1) by (simp add: part_def p_def unat_sub)
  next
    case False
    then have "K + B \<le> S" using a(1) by (simp add: word_less_nat_alt S_def)
    then show ?thesis using False B by (simp add: part_def p_def)
  qed
  have Kp: "K + p = min (K + B) S" using b(1) unfolding p_def min_def by auto
  define r where "r = fat_part_bytes (cluster_size disk) (f_cursor fl) part data_size passed moved"
  have pb: "unat passed = K + unat (cluster_size disk)" "unat moved = min L (K - C)" "C < K + unat (cluster_size disk)"
    "p \<le> unat (cluster_size disk)" "C \<le> K + p" "unat (cluster_size disk) < 2 ^ 31"
    using a(1,2,4) b(2,3) B Kp by (simp_all add: p_def)
  have r: "unat (fst r) = M' - M" "unat (snd r) = C - K"
    using part_bytes [OF pb(1) C_def [symmetric] part a(3) pb(2-6)] unfolding r_def [symmetric] Kp a(4,5) .
  show MM: "M \<le> M'" "M' \<le> L" using a(4,5) b(1) by (auto simp: min_def)
  show in_c: "(C - K) + (M' - M) \<le> B" using a(4,5) b(3) by (cases "C \<le> K") (auto simp: min_def)
  have "M' < 2 ^ LENGTH(32)" using MM(2) unat_bound [of data_size] unfolding a(3) by (rule le_less_trans)
  moreover have "M + (M' - M) = M'" using MM(1) by (rule le_add_diff_inverse)
  ultimately have moved: "unat (moved + fst r) = M'"
    unfolding unat_word_ariths(1) r(1) a(2) by (simp only: mod_less)
  have pos: "unat (cluster_offset disk c * bytes_per_sector disk + snd r) = cluster_start disk c + (C - K)"
    using unat_in_cluster [OF w(3), of "snd r"] in_c by (simp add: r(2) B_def)
  have eq: "fat_read_part disk fl data_size c passed moved out w =
      (if fst r > 0 then (case dev_read disk (cluster_offset disk c * bytes_per_sector disk + snd r) (fst r) w of
          (bytes, w) \<Rightarrow> do { out \<leftarrow> store_at out M bytes; Some (moved + fst r, out, w) })
        else Some (moved + fst r, out, w))"
    unfolding fat_read_part_def Let_def part_def [symmetric] r_def [symmetric] a(2) by (simp add: split_beta)
  show "\<exists>moved' w'. fat_read_part disk fl data_size c passed moved out w =
      Some (moved', take M out @ range_of m (cluster_start disk c + (C - K)) (M' - M) @ drop M' out, w') \<and>
      unat moved' = M' \<and> on w' m \<and> coherent w' m"
  proof (cases "fst r > 0")
    case True
    have "cluster_start disk c + (C - K) + (M' - M) < limit"
      using cluster_inside(1) [OF w(3)] in_c by (simp add: B_def)
    then obtain w' where w': "dev_read disk (cluster_offset disk c * bytes_per_sector disk + snd r) (fst r) w =
        (range_of m (cluster_start disk c + (C - K)) (M' - M), w')" "on w' m" "w_cache w' = w_cache w" "w_cache_sector w' = w_cache_sector w"
      using run_dev_read [OF w(1), of "cluster_offset disk c * bytes_per_sector disk + snd r" "fst r"] by (auto simp: pos r(1))
    have "coherent w' m" using w(2) w'(3,4) by (simp add: coherent_def)
    moreover have "store_at out M (range_of m (cluster_start disk c + (C - K)) (M' - M)) =
        Some (take M out @ range_of m (cluster_start disk c + (C - K)) (M' - M) @ drop M' out)"
      using MM b(4) by (simp add: store_at_def)
    ultimately show ?thesis using True w'(1,2) moved by (simp add: eq)
  next
    case False
    then have "unat (fst r) = 0" by (simp add: word_less_nat_alt)
    then have "M' = M" using r(1) MM by simp
    then show ?thesis using False w(1,2) moved by (simp add: eq range_of_def)
  qed
qed

text \<open>
  The read from the cluster behind \<open>done\<close> on: what was delivered before is the beginning of what is
  delivered in the end.
\<close>

definition fits :: "fat_file \<Rightarrow> u32 list \<Rightarrow> bool" where
  "fits fl cs \<longleftrightarrow> length cs \<le> clusters \<and> cs \<noteq> [] \<and>
     (length cs - 1) * cluster_bytes disk \<le> unat (DIR_FileSize (f_dir fl)) \<and>
     unat (DIR_FileSize (f_dir fl)) \<le> length cs * cluster_bytes disk"

lemma fread_loop:
  fixes fl :: fat_file
  assumes S_def: "S = unat (DIR_FileSize (f_dir fl))" and C_def: "C = unat (f_cursor fl)" and B_def: "B = cluster_bytes disk"
    and w: "on w m" "coherent w m" "chain (table_entry disk m) clusters c cs"
    and f: "fits fl (before @ cs)" "C \<le> S"
    and a: "unat passed = length before * B" "unat moved = min L (length before * B - C)" "unat data_size = L" "L \<le> length out0"
    and out: "out = take (unat moved) (drop C (file_bytes disk m (before @ cs))) @ drop (unat moved) out0"
  shows "\<exists>moved' w'. fat_fread_loop disk fl data_size c passed moved out w =
      Some (moved', take (unat moved') (drop C (file_bytes disk m (before @ cs))) @ drop (unat moved') out0, w') \<and>
      unat moved' = min L (S - C) \<and> on w' m \<and> coherent w' m"
  using w f(1) a(1,2) out
proof (induction cs arbitrary: c before passed moved out w)
  case (Cons x cs)
  let ?F = "file_bytes disk m (before @ x # cs)" and ?T = "table_entry disk m" and ?K = "length before * B"
  let ?M' = "min L (min (?K + B) S - C)"
  from Cons.prems(3) have c: "x = c" "valid_cluster clusters c" "\<not> fat_no_cluster (?T c)" by auto
  have nz: "\<not> c < 2" by (rule valid_cluster_nz [OF c(2)])
  obtain w1 where w1: "fat_read_fat_entry disk c True w = Some (?T c, w1)" "on w1 m" "coherent w1 m"
    using read_valid [OF Cons.prems(1,2) c(2)] by blast
  have KS: "?K \<le> S" "length before + 1 \<le> clusters"
    using Cons.prems(4) by (auto simp: fits_def S_def B_def add_mult_distrib)
  then have "(length before + 1) * B \<le> clusters * B" by (intro mult_le_mono1)
  then have fit: "?K + B < 2 ^ 32" using geometry_parts(7,8) by (simp add: B_def)
  then have passed: "unat (passed + cluster_size disk) = ?K + B"
    by (simp add: unat_word_ariths Cons.prems(5) unat_cluster_size B_def)
  have bytes: "?F = file_bytes disk m before @ range_of m (cluster_start disk c) B @ file_bytes disk m cs"
    by (simp add: file_bytes_def c(1) B_def)
  have step: "\<exists>moved' w'. (if passed + cluster_size disk > f_cursor fl
        then fat_read_part disk fl data_size c (passed + cluster_size disk) moved out w1 else Some (moved, out, w1)) =
      Some (moved', take ?M' (drop C ?F) @ drop ?M' out0, w') \<and> unat moved' = ?M' \<and> on w' m \<and> coherent w' m"
  proof (cases "passed + cluster_size disk > f_cursor fl")
    case True
    then have lt: "C < ?K + B" using passed by (simp add: word_less_nat_alt C_def)
    have "?K \<le> length ?F" unfolding bytes by (simp add: B_def)
    then have "?K - C \<le> length (drop C ?F)" unfolding length_drop by (rule diff_le_mono)
    then have "unat moved \<le> length (drop C ?F)" unfolding Cons.prems(6) by (rule min.coboundedI2)
    then have "length out = unat moved + (length out0 - unat moved)" unfolding Cons.prems(7) by simp
    then have lo: "L \<le> length out" using a(4) by linarith
    define M where "M = unat moved"
    have M: "M = min L (?K - C)" using Cons.prems(6) by (simp only: M_def)
    note part = run_read_part [OF S_def C_def B_def w1(2,3) c(2) passed M_def [symmetric] a(3) M refl KS(1) f(2) lt lo]
    have K: "length (file_bytes disk m before) = ?K" by (simp add: B_def)
    have X: "(C - ?K) + (?M' - M) \<le> length (range_of m (cluster_start disk c) B)" using part(2) by (simp only: length_range_of)
    have "take M out @ range_of m (cluster_start disk c + (C - ?K)) (?M' - M) @ drop ?M' out =
        take ?M' (drop C ?F) @ drop ?M' out0"
      using window_step [OF bytes K M part(3,4) X Cons.prems(7) [folded M_def] a(4)]
      unfolding range_of_window [OF part(2)] .
    then show ?thesis using part(1) True by simp
  next
    case False
    then have "?K + B \<le> C" using passed by (simp add: word_less_nat_alt C_def)
    then have "unat moved = 0" "?M' = 0" using Cons.prems(6) by simp_all
    then show ?thesis using False w1(2,3) Cons.prems(7) by auto
  qed
  then obtain moved' w2 where w2: "(if passed + cluster_size disk > f_cursor fl
        then fat_read_part disk fl data_size c (passed + cluster_size disk) moved out w1 else Some (moved, out, w1)) =
      Some (moved', take ?M' (drop C ?F) @ drop ?M' out0, w2)" "unat moved' = ?M'" "on w2 m" "coherent w2 m" by blast
  show ?case
  proof (cases "fat_last_cluster (?T c)")
    case True
    then have "cs = []" using Cons.prems(3) by simp
    then have "min (?K + B) S = S" using Cons.prems(4) by (simp add: fits_def S_def B_def)
    then show ?thesis
      using True w1(1) w2 c nz by (auto simp: fat_fread_loop.simps [of _ _ _ c])
  next
    case False
    then have ch: "chain ?T clusters (?T c AND 0x0FFFFFFF) cs" using Cons.prems(3) by simp
    then have "cs \<noteq> []" by auto
    then have "length (before @ [x]) \<le> length (before @ x # cs) - 1" by (cases cs) simp_all
    then have "length (before @ [x]) * B \<le> (length (before @ x # cs) - 1) * B" by (rule mult_le_mono1)
    also have "\<dots> \<le> S" using Cons.prems(4) by (simp add: fits_def S_def B_def)
    finally have "min (?K + B) S = length (before @ [x]) * B" by (simp add: add.commute)
    then have mv: "unat moved' = min L (length (before @ [x]) * B - C)" using w2(2) by simp
    have pa: "unat (passed + cluster_size disk) = length (before @ [x]) * B" using passed by (simp add: add.commute)
    from Cons.IH [OF w2(3,4) ch, of "before @ [x]" "passed + cluster_size disk" moved'] Cons.prems(4) pa mv w2(2) False
    show ?thesis using w1(1) w2(1) c nz by (auto simp: fat_fread_loop.simps [of _ _ _ c])
  qed
qed simp

end

end
