(* ===== verification/FatWrite.thy ===== *)
theory FatWrite
  imports FatRead
begin

section \<open>Writing inside the clusters of a file\<close>

text \<open>
  A write whose bytes fit into the chain as it is, with the end mark that the code itself writes:
  the bytes of the file change where the data goes, and no byte outside the clusters changes.
\<close>

definition write_at :: "'a list \<Rightarrow> nat \<Rightarrow> 'a list \<Rightarrow> 'a list" where
  "write_at xs i ys = take i xs @ ys @ drop (i + length ys) xs"

lemma length_write_at: "i + length ys \<le> length xs \<Longrightarrow> length (write_at xs i ys) = length xs"
  by (simp add: write_at_def)

lemma write_at_nil [simp]: "write_at xs i [] = xs"
  by (simp add: write_at_def)

lemma write_at_write_at:
  "i + length ys + length zs \<le> length xs \<Longrightarrow> write_at (write_at xs i ys) (i + length ys) zs = write_at xs i (ys @ zs)"
  by (simp add: write_at_def add.assoc add.commute [of "length zs"])

lemma write_at_middle: "j + length ys \<le> length X \<Longrightarrow> write_at (D @ X @ Y) (length D + j) ys = D @ write_at X j ys @ Y"
  for j :: nat
  by (simp add: write_at_def)

lemma write_at_window: "i + length ys \<le> length xs \<Longrightarrow> take (length ys) (drop i (write_at xs i ys)) = ys"
  by (simp add: write_at_def)

text \<open>The bytes of the device that belong to a cluster of the list.\<close>

definition in_clusters :: "'p fat_disk \<Rightarrow> u32 list \<Rightarrow> nat \<Rightarrow> bool" where
  "in_clusters disk cs a \<longleftrightarrow> (\<exists>c \<in> set cs. cluster_start disk c \<le> a \<and> a < cluster_start disk c + cluster_bytes disk)"

text \<open>Writing \<open>ys\<close> into the file: the new bytes in its clusters, the old ones elsewhere.\<close>

definition file_write :: "'p fat_disk \<Rightarrow> u32 list \<Rightarrow> nat \<Rightarrow> u8 list \<Rightarrow> (nat \<Rightarrow> u8) \<Rightarrow> (nat \<Rightarrow> u8) \<Rightarrow> bool" where
  "file_write disk cs i ys m m' \<longleftrightarrow>
     file_bytes disk m' cs = write_at (file_bytes disk m cs) i ys \<and> (\<forall>a. \<not> in_clusters disk cs a \<longrightarrow> m' a = m a)"

lemma overwrite_range:
  "j + length ys \<le> n \<Longrightarrow> range_of (overwrite m (a + j) ys) a n = write_at (range_of m a n) j ys" for j :: nat
  by (rule nth_equalityI) (auto simp: write_at_def overwrite_def nth_append)

context fat_volume
begin

lemma clusters_disjoint:
  assumes "valid_cluster clusters x" "valid_cluster clusters y" "x \<noteq> y"
  shows "cluster_start disk x + cluster_bytes disk \<le> cluster_start disk y \<or> cluster_start disk y + cluster_bytes disk \<le> cluster_start disk x"
proof -
  have "unat x \<noteq> unat y" using assms(3) unfolding word_unat_eq_iff by simp
  moreover have "2 \<le> unat x" "2 \<le> unat y" using assms(1,2) by (simp_all add: valid_cluster_def word_le_nat_alt)
  ultimately have "unat x - 2 + 1 \<le> unat y - 2 \<or> unat y - 2 + 1 \<le> unat x - 2" by linarith
  then have "(unat x - 2 + 1) * cluster_bytes disk \<le> (unat y - 2) * cluster_bytes disk \<or>
      (unat y - 2 + 1) * cluster_bytes disk \<le> (unat x - 2) * cluster_bytes disk"
    using mult_le_mono1 by blast
  then show ?thesis by (auto simp: cluster_start_def)
qed

lemma file_bytes_elsewhere:
  assumes "\<And>y. y \<in> set cs \<Longrightarrow> valid_cluster clusters y" "valid_cluster clusters x" "x \<notin> set cs" "j + length ys \<le> cluster_bytes disk"
  shows "file_bytes disk (overwrite m (cluster_start disk x + j) ys) cs = file_bytes disk m cs"
proof -
  have "range_of (overwrite m (cluster_start disk x + j) ys) (cluster_start disk y) (cluster_bytes disk) =
      range_of m (cluster_start disk y) (cluster_bytes disk)" if "y \<in> set cs" for y
  proof (rule range_of_elsewhere)
    have "x \<noteq> y" using that assms(3) by blast
    from clusters_disjoint [OF assms(2) assms(1) [OF that] this] assms(4)
    show "cluster_start disk y + cluster_bytes disk \<le> cluster_start disk x + j \<or>
        cluster_start disk x + j + length ys \<le> cluster_start disk y" by linarith
  qed
  then show ?thesis by (simp add: file_bytes_def cong: map_cong)
qed

lemma table_data_only:
  assumes "unat c < clusters + 2" "\<And>a. a < data_start disk \<Longrightarrow> m' a = m a"
  shows "table_entry disk m' c = table_entry disk m c"
  unfolding table_entry_def using entry_limit [OF assms(1)] assms(2)
  by (intro arg_cong [where f = "\<lambda>b. le32 b 0"] range_of_cong) simp

lemma in_clusters_data: "(\<And>y. y \<in> set cs \<Longrightarrow> valid_cluster clusters y) \<Longrightarrow> a < data_start disk \<Longrightarrow> \<not> in_clusters disk cs a"
  using cluster_inside(2) by (fastforce simp: in_clusters_def)

lemma chain_data_only:
  assumes "chain (table_entry disk m) clusters c cs" "\<And>a. a < data_start disk \<Longrightarrow> m' a = m a"
  shows "chain (table_entry disk m') clusters c cs"
proof -
  have "table_entry disk m' x = table_entry disk m x" if "x \<in> set cs" for x
    using chain_valid [OF assms(1) that] assms(2) by (intro table_data_only) (simp_all add: valid_cluster_def)
  then show ?thesis using assms(1) chain_cong [of cs "table_entry disk m'" "table_entry disk m"] by simp
qed

lemma run_write_part:
  fixes fl :: fat_file
  assumes C_def: "C = unat (f_cursor fl)" and B_def: "B = cluster_bytes disk"
    and w: "on w m" "valid_cluster clusters c"
    and a: "unat passed = K + B" "unat moved = M" "unat data_size = L" "M = min L (K - C)" "M' = min L (K + B - C)"
    and b: "C < K + B" "length data = L"
  shows "\<exists>moved' w'. fat_write_part disk fl data data_size c passed moved w = Some (moved', w') \<and> unat moved' = M' \<and>
      on w' (overwrite m (cluster_start disk c + (C - K)) (take (M' - M) (drop M data)))"
    "(C - K) + (M' - M) \<le> B" "M \<le> M'" "M' \<le> L"
proof -
  have B: "unat (cluster_size disk) = B" "B < 2 ^ 31" using unat_cluster_size cluster_bytes_small by (simp_all add: B_def)
  define r where "r = fat_part_bytes (cluster_size disk) (f_cursor fl) (cluster_size disk) data_size passed moved"
  have pb: "unat passed = K + unat (cluster_size disk)" "unat moved = min L (K - C)" "C < K + unat (cluster_size disk)"
    "B \<le> unat (cluster_size disk)" "C \<le> K + B" "unat (cluster_size disk) < 2 ^ 31"
    using a(1,2,4) b(1) B by simp_all
  have r: "unat (fst r) = M' - M" "unat (snd r) = C - K"
    using part_bytes [OF pb(1) C_def [symmetric] B(1) a(3) pb(2-6)] unfolding r_def [symmetric] a(4,5) .
  show MM: "M \<le> M'" "M' \<le> L" using a(4,5) by (auto simp: min_def)
  show in_c: "(C - K) + (M' - M) \<le> B" using a(4,5) b(1) by (cases "C \<le> K") (auto simp: min_def)
  have "M' < 2 ^ LENGTH(32)" using MM(2) unat_bound [of data_size] unfolding a(3) by (rule le_less_trans)
  moreover have "M + (M' - M) = M'" using MM(1) by (rule le_add_diff_inverse)
  ultimately have moved: "unat (moved + fst r) = M'"
    unfolding unat_word_ariths(1) r(1) a(2) by (simp only: mod_less)
  have pos: "unat (cluster_offset disk c * bytes_per_sector disk + snd r) = cluster_start disk c + (C - K)"
    using unat_in_cluster [OF w(2), of "snd r"] in_c by (simp add: r(2) B_def)
  have sl: "slice data M (M' - M) = Some (take (M' - M) (drop M data))"
    using MM b(2) by (simp add: slice_def)
  have len: "length (take (M' - M) (drop M data)) = M' - M" using MM b(2) by simp
  have eq: "fat_write_part disk fl data data_size c passed moved w =
      Some (moved + fst r, dev_write disk (cluster_offset disk c * bytes_per_sector disk + snd r) (take (M' - M) (drop M data)) w)"
    unfolding fat_write_part_def Let_def r_def [symmetric] by (simp add: split_beta a(2) r(1) sl)
  have "cluster_start disk c + (C - K) + (M' - M) < limit"
    using cluster_inside(1) [OF w(2)] in_c by (simp add: B_def)
  then have "on (dev_write disk (cluster_offset disk c * bytes_per_sector disk + snd r) (take (M' - M) (drop M data)) w)
      (overwrite m (cluster_start disk c + (C - K)) (take (M' - M) (drop M data)))"
    using run_dev_write(1) [OF w(1), of "cluster_offset disk c * bytes_per_sector disk + snd r" "take (M' - M) (drop M data)"]
    unfolding pos len by blast
  then show "\<exists>moved' w'. fat_write_part disk fl data data_size c passed moved w = Some (moved', w') \<and> unat moved' = M' \<and>
      on w' (overwrite m (cluster_start disk c + (C - K)) (take (M' - M) (drop M data)))"
    unfolding eq using moved by blast
qed

text \<open>One round of the loop, in terms of the file.\<close>

lemma write_round:
  assumes cs: "\<And>y. y \<in> set (before @ x # cs) \<Longrightarrow> valid_cluster clusters y" "distinct (before @ x # cs)"
    and B_def: "B = cluster_bytes disk" and M: "M = min L (length before * B - C)" "M \<le> M'" "M' \<le> L" "length data = L"
    and X: "(C - length before * B) + (M' - M) \<le> B"
    and inv: "file_write disk (before @ x # cs) C (take M data) m0 m" and len: "C + M' \<le> length (before @ x # cs) * B"
  shows "file_write disk (before @ x # cs) C (take M' data) m0
      (overwrite m (cluster_start disk x + (C - length before * B)) (take (M' - M) (drop M data)))"
proof -
  let ?K = "length before * B" and ?ys = "take (M' - M) (drop M data)" and ?all = "before @ x # cs"
  let ?m = "overwrite m (cluster_start disk x + (C - ?K)) ?ys"
  have ys: "length ?ys = M' - M" using M(2-4) by simp
  have in_x: "C - ?K + length ?ys \<le> cluster_bytes disk" using X ys by (simp add: B_def)
  have data: "take M data @ ?ys = take M' data" using take_add [of M "M' - M" data] M(2) by simp
  have "file_bytes disk ?m ?all = file_bytes disk m before @
      write_at (range_of m (cluster_start disk x) B) (C - ?K) ?ys @ file_bytes disk m cs"
    using file_bytes_elsewhere [of before x "C - ?K" ?ys m] file_bytes_elsewhere [of cs x "C - ?K" ?ys m] cs in_x
      overwrite_range [of "C - ?K" ?ys B m "cluster_start disk x"]
    by (simp add: file_bytes_def B_def)
  also have "\<dots> = write_at (file_bytes disk m ?all) (?K + (C - ?K)) ?ys"
    using write_at_middle [of "C - ?K" ?ys "range_of m (cluster_start disk x) B" "file_bytes disk m before" "file_bytes disk m cs"] in_x
    by (simp add: file_bytes_def B_def flip: file_bytes_def) (simp add: file_bytes_def)
  also have "\<dots> = write_at (file_bytes disk m0 ?all) C (take M' data)"
  proof (cases "M' = M")
    case True
    then show ?thesis using inv by (simp add: file_write_def)
  next
    case False
    then have "?K + (C - ?K) = C + length (take M data)" using M by auto
    moreover have "C + length (take M data) + length ?ys \<le> length (file_bytes disk m0 ?all)"
      using len M(2-4) ys by (simp add: B_def)
    ultimately show ?thesis using inv write_at_write_at [of C "take M data" ?ys "file_bytes disk m0 ?all"] M(2-4) data
      by (simp add: file_write_def)
  qed
  finally have "file_bytes disk ?m ?all = write_at (file_bytes disk m0 ?all) C (take M' data)" .
  moreover have "?m a = m0 a" if "\<not> in_clusters disk ?all a" for a
    using inv that in_x by (auto simp: file_write_def in_clusters_def overwrite_def)
  ultimately show ?thesis by (simp add: file_write_def)
qed

lemma extend_inside:
  assumes "\<not> fat_no_cluster next_cluster"
    "fat_last_cluster next_cluster \<Longrightarrow> next_cluster = 0x0FFFFFFF \<and> f_cursor fl + data_size \<le> passed + cluster_size disk"
  shows "fat_extend disk fl data_size c next_cluster passed w = Some (Some next_cluster, w)"
  using assms by (auto simp: fat_extend_def fat_no_cluster_def fat_last_cluster_def)

lemma fwrite_loop:
  fixes fl :: fat_file
  assumes C_def: "C = unat (f_cursor fl)" and B_def: "B = cluster_bytes disk"
    and d: "unat data_size = L" "length data = L"
    and cs: "on w m" "chain (table_entry disk m) clusters c cs" "table_entry disk m (last cs) = 0x0FFFFFFF"
    and all: "\<And>y. y \<in> set (before @ cs) \<Longrightarrow> valid_cluster clusters y" "distinct (before @ cs)" "length (before @ cs) \<le> clusters"
      "C + L \<le> length (before @ cs) * B"
    and a: "unat passed = length before * B" "unat moved = M" "M = min L (length before * B - C)"
      "file_write disk (before @ cs) C (take M data) m0 m"
  shows "\<exists>w' m'. fat_fwrite_loop disk fl data data_size c passed moved w = Some (Some data_size, w') \<and>
      on w' m' \<and> file_write disk (before @ cs) C data m0 m'"
  using cs all a
proof (induction cs arbitrary: c before passed moved M w m)
  case (Cons x cs)
  let ?T = "table_entry disk m" and ?K = "length before * B" and ?M' = "min L (length before * B + B - C)"
  from Cons.prems(2) have c: "x = c" "valid_cluster clusters c" "\<not> fat_no_cluster (?T c)" by auto
  have nz: "\<not> c < 2" by (rule valid_cluster_nz [OF c(2)])
  have b: "unat c < clusters + 2" using c(2) by (simp add: valid_cluster_def)
  obtain w1 where w1: "fat_read_fat_entry disk c False w = Some (?T c, w1)" "on w1 m"
    using read_uncached [OF Cons.prems(1) b] by blast
  have "length (before @ x # cs) * B \<le> clusters * B" using Cons.prems(6) by (rule mult_le_mono1)
  then have below: "length (before @ x # cs) * B < 2 ^ 32" using geometry_parts(7,8) by (simp add: B_def)
  have "(length before + 1) * B \<le> length (before @ x # cs) * B" by (rule mult_le_mono1) simp
  then have "?K + B \<le> length (before @ x # cs) * B" by (simp only: add_mult_distrib mult_1)
  then have fit: "?K + B < 2 ^ 32" using below by (rule le_less_trans)
  then have passed: "unat (passed + cluster_size disk) = ?K + B"
    by (simp add: unat_word_ariths Cons.prems(8) unat_cluster_size B_def)
  have stop: "unat (f_cursor fl + data_size) = C + L"
    using Cons.prems(7) below by (simp add: unat_word_ariths C_def d(1))
  have ext: "fat_extend disk fl data_size c (?T c) passed w1 = Some (Some (?T c), w1)"
  proof (rule extend_inside [OF c(3)])
    assume "fat_last_cluster (?T c)"
    then have "cs = []" using Cons.prems(2) by simp
    then show "?T c = 0x0FFFFFFF \<and> f_cursor fl + data_size \<le> passed + cluster_size disk"
      using Cons.prems(3,7) c(1) passed stop by (simp add: word_le_nat_alt add.commute)
  qed
  have room: "C + ?M' \<le> length (before @ x # cs) * B"
    using Cons.prems(7) by (meson add_left_mono le_trans min.cobounded1)
  have step: "\<exists>moved' w' m'. (if passed + cluster_size disk > f_cursor fl
        then fat_write_part disk fl data data_size c (passed + cluster_size disk) moved w1 else Some (moved, w1)) =
      Some (moved', w') \<and> unat moved' = ?M' \<and> on w' m' \<and> file_write disk (before @ x # cs) C (take ?M' data) m0 m'"
  proof (cases "passed + cluster_size disk > f_cursor fl")
    case True
    then have lt: "C < ?K + B" using passed by (simp add: word_less_nat_alt C_def)
    note part = run_write_part [OF C_def B_def w1(2) c(2) passed Cons.prems(9) d(1) Cons.prems(10) refl lt d(2)]
    have "file_write disk (before @ x # cs) C (take ?M' data) m0
        (overwrite m (cluster_start disk x + (C - ?K)) (take (?M' - M) (drop M data)))"
      by (rule write_round [OF Cons.prems(4,5) B_def Cons.prems(10) part(3,4) d(2) part(2) Cons.prems(11) room])
    then show ?thesis using part(1) True c(1) by auto
  next
    case False
    then have "?K + B \<le> C" using passed by (simp add: word_less_nat_alt C_def)
    then have "M = 0" "?M' = 0" using Cons.prems(10) by simp_all
    then show ?thesis using False w1(2) Cons.prems(9,11) by auto
  qed
  then obtain moved' w2 m2 where w2: "(if passed + cluster_size disk > f_cursor fl
        then fat_write_part disk fl data data_size c (passed + cluster_size disk) moved w1 else Some (moved, w1)) =
      Some (moved', w2)" "unat moved' = ?M'" "on w2 m2" "file_write disk (before @ x # cs) C (take ?M' data) m0 m2" by blast
  have ok: "?T c \<noteq> 0x0FFFFFF7" using c(3) by (simp add: fat_no_cluster_def)
  have same: "m2 a = m a" if "a < data_start disk" for a
  proof -
    have "\<not> in_clusters disk (before @ x # cs) a" by (rule in_clusters_data [OF Cons.prems(4) that])
    then show ?thesis using w2(4) Cons.prems(11) by (simp add: file_write_def)
  qed
  show ?case
  proof (cases "fat_last_cluster (?T c)")
    case True
    then have "cs = []" using Cons.prems(2) by simp
    then have "?M' = L" using Cons.prems(7) by simp
    moreover from this have "moved' = data_size" using w2(2) d(1) unfolding word_unat_eq_iff by simp
    ultimately show ?thesis
      using True w1(1) w2 nz ok ext d by (auto simp: fat_fwrite_loop.simps [of _ _ _ _ c])
  next
    case False
    then have ch: "chain ?T clusters (?T c AND 0x0FFFFFFF) cs" using Cons.prems(2) by simp
    then have ne: "cs \<noteq> []" by auto
    have ch2: "chain (table_entry disk m2) clusters (?T c AND 0x0FFFFFFF) cs" by (rule chain_data_only [OF ch same])
    have "last cs \<in> set cs" using ne by simp
    from chain_valid [OF ch this] have "unat (last cs) < clusters + 2" by (simp add: valid_cluster_def)
    from table_data_only [OF this same] have la: "table_entry disk m2 (last cs) = 0x0FFFFFFF" using Cons.prems(3) ne by simp
    have pa: "unat (passed + cluster_size disk) = length (before @ [x]) * B" using passed by (simp add: add.commute)
    have mv: "?M' = min L (length (before @ [x]) * B - C)" by (simp add: add.commute)
    have valid: "valid_cluster clusters y" if "y \<in> set ((before @ [x]) @ cs)" for y using that Cons.prems(4) by simp
    have eq: "(before @ [x]) @ cs = before @ x # cs" by simp
    have "\<exists>w' m'. fat_fwrite_loop disk fl data data_size (?T c AND 0x0FFFFFFF) (passed + cluster_size disk) moved' w2 =
        Some (Some data_size, w') \<and> on w' m' \<and> file_write disk (before @ x # cs) C data m0 m'"
      using Cons.IH [OF w2(3) ch2 la valid _ _ _ pa w2(2) mv] Cons.prems(5-7) w2(4) unfolding eq by blast
    then show ?thesis using False w1(1) w2(1) nz ok ext by (auto simp: fat_fwrite_loop.simps [of _ _ _ _ c])
  qed
qed simp

end

end
