(* ===== verification/FatDir.thy ===== *)
theory FatDir
  imports Fat
begin

section \<open>The FAT file system: names and directories (fat.c)\<close>

text \<open>
  A path is the list of its bytes without the terminator; \<open>byte_at\<close> is the terminator behind its end.
  A long name is an array of 260 code units.  Where the code passes \<^verbatim>\<open>NULL\<close> for \<^verbatim>\<open>file_out\<close> the
  argument is \<open>None\<close>.  The search returns what it leaves in the two out parameters and in the
  directory it was given, whose cursor it moves.
\<close>

subsection \<open>Names\<close>

definition byte_at :: "u8 list \<Rightarrow> nat \<Rightarrow> u8" where
  "byte_at s i = (if i < length s then s ! i else 0)"

definition to_lowercase :: "u8 \<Rightarrow> u8" where
  "to_lowercase c = (if c \<ge> 0x41 \<and> c \<le> 0x5A then c + 0x20 else c)"

definition to_uppercase :: "u8 \<Rightarrow> u8" where
  "to_uppercase c = (if c \<ge> 0x61 \<and> c \<le> 0x7A then c - 0x20 else c)"

definition to_lowercase_str :: "u8 list \<Rightarrow> u8 list" where
  "to_lowercase_str s = List.map to_lowercase s"

definition fat_digit :: "u32 \<Rightarrow> u8" where
  "fat_digit digit = (if digit < 10 then 0x30 + ucast digit else 0x41 + ucast digit - 10)"

partial_function (option) fat_itoa_loop :: "u32 \<Rightarrow> u32 \<Rightarrow> u8 list \<Rightarrow> u8 list option" where
  "fat_itoa_loop val radix buffer =
     (if val > 0
      then (if radix = 0 then None else fat_itoa_loop (val div radix) radix (buffer @ [fat_digit (val mod radix)]))
      else Some buffer)"

function fat_reverse_loop :: "u8 list \<Rightarrow> nat \<Rightarrow> nat \<Rightarrow> u8 list" where
  "fat_reverse_loop buffer j i =
     (if j < i then fat_reverse_loop (buffer[j := buffer ! i, i := buffer ! j]) (j + 1) (i - 1) else buffer)"
  by pat_completeness auto
termination
  by (relation "measure (\<lambda>(buffer, j, i). i - j)") auto

declare fat_reverse_loop.simps [simp del]

text \<open>The text; the C also returns its length.\<close>

definition fat_itoa :: "u32 \<Rightarrow> u32 \<Rightarrow> u8 list option" where
  "fat_itoa val radix =
     (if val = 0 then Some [0x30]
      else do {
        buffer \<leftarrow> fat_itoa_loop val radix [];
        Some (fat_reverse_loop buffer 0 (length buffer - 1))
      })"

definition shortname_to_longname :: "u8 list \<Rightarrow> u16 list \<Rightarrow> u16 list option" where
  "shortname_to_longname shortname longname =
     (let name = takeWhile (\<lambda>c. c \<noteq> 0x20) (take 8 shortname);
          extension = takeWhile (\<lambda>c. c \<noteq> 0x20) (take 3 (drop 8 shortname))
      in store_at longname 0
           (List.map scast name @ (if extension = [] then [0, 0] else 0x2E # List.map scast extension @ [0])))"

fun path_compare_loop :: "bool \<Rightarrow> u8 list \<Rightarrow> u8 list \<Rightarrow> nat \<Rightarrow> nat" where
  "path_compare_loop case_sensitive path dir_name i =
     (let p = byte_at path 0; d = byte_at dir_name 0 in
      if p \<noteq> 0 \<and> d \<noteq> 0 \<and> p \<noteq> 0x2F then
        (if (if case_sensitive then p \<noteq> d else to_lowercase p \<noteq> to_lowercase d) then 0
         else case path of [] \<Rightarrow> 0 | _ # path \<Rightarrow> path_compare_loop case_sensitive path (drop 1 dir_name) (i + 1))
      else if d = 0 \<and> (p = 0x2F \<or> p = 0) then i
      else 0)"

declare path_compare_loop.simps [simp del]

text \<open>\<open>dir_name\<close> holds the bytes that the code looks at: every one, or the low byte of each code unit.\<close>

definition path_compare :: "u8 list \<Rightarrow> u8 list \<Rightarrow> bool \<Rightarrow> nat" where
  "path_compare path dir_name case_sensitive = path_compare_loop case_sensitive path dir_name 0"

definition fat_longname_to_string :: "u16 list \<Rightarrow> u8 list option" where
  "fat_longname_to_string buffer_long =
     (if 0 \<in> set buffer_long then Some (List.map ucast (takeWhile (\<lambda>c. c \<noteq> 0) buffer_long)) else None)"

definition fat_string_to_longname :: "u8 list \<Rightarrow> u16 list \<Rightarrow> u16 list option" where
  "fat_string_to_longname buffer_string buffer_long = store_at buffer_long 0 (List.map scast buffer_string @ [0])"

definition fat_lfn_checksum :: "u8 list \<Rightarrow> u8" where
  "fat_lfn_checksum shortname =
     foldl (\<lambda>checksum c. (if checksum AND 1 \<noteq> 0 then 0x80 else 0) + drop_bit 1 checksum + c) 0 (take 11 shortname)"

subsection \<open>Searching\<close>

definition fat_lfn_chars :: "fat_lfn_entry \<Rightarrow> u16 list" where
  "fat_lfn_chars l = LDIR_Name1 l @ LDIR_Name2 l @ LDIR_Name3 l"

text \<open>A long name entry: its 13 code units go where its ordinal says; ordinal 0 would write before the array.\<close>

definition fat_find_lfn :: "fat_file \<Rightarrow> fat_file option" where
  "fat_find_lfn sub =
     (let index = unat (DIR_Name (f_dir sub) ! 0 AND 0x0F) in
      if index = 0 then None
      else do {
        name \<leftarrow> store_at (f_long_filename sub) ((index - 1) * 13) (fat_lfn_chars (lfn_of_bytes (bytes_of_dir (f_dir sub))));
        name \<leftarrow> (if DIR_Name (f_dir sub) ! 0 AND 0x40 \<noteq> 0 then store_at name ((index - 1) * 13 + 13) [0] else Some name);
        Some (sub\<lparr>f_long_filename := name\<rparr>)
      })"

text \<open>The directory as a file, with the size of its chain.\<close>

definition fat_find_start :: "'p fat_disk \<Rightarrow> fat_file \<Rightarrow> 'p fat_world \<Rightarrow> (fat_file \<times> fat_file \<times> 'p fat_world) option" where
  "fat_find_start disk root_dir w =
     (let root_dir = (if DIR_FstClusLO (f_dir root_dir) < 2
                      then root_dir\<lparr>f_dir := (f_dir root_dir)\<lparr>DIR_FstClusLO := 2\<rparr>\<rparr> else root_dir);
          directory_file = \<lparr>f_dir = f_dir root_dir, f_entry_position = 0, f_first_parent_cluster = 0, f_lfn_present = 0,
                            f_cursor = 0, f_long_filename = replicate 260 0\<rparr>
      in do {
           (directory_file, w) \<leftarrow> fat_chain_size disk directory_file w;
           Some (directory_file, root_dir, w)
         })"

definition fat_found :: "fat_file \<Rightarrow> u32 \<Rightarrow> bool \<Rightarrow> fat_file \<Rightarrow> fat_file" where
  "fat_found directory_file dir_offset lfn_present file =
     file\<lparr>f_entry_position := dir_offset - 32,
          f_first_parent_cluster := ucast (DIR_FstClusLO (f_dir directory_file)),
          f_lfn_present := (if lfn_present then 1 else 0)\<rparr>"

text \<open>
  The loop: the directory, the rest of the path, the cursor of the directory that was asked for, then
  the variables \<^verbatim>\<open>dir_offset\<close>, \<^verbatim>\<open>entries\<close> and \<^verbatim>\<open>lfn_present\<close> and the two out parameters.  The recursive call of
  the C is in tail position, so it is a round of the loop with a new directory.
\<close>

partial_function (option) fat_find_loop ::
  "'p fat_disk \<Rightarrow> bool \<Rightarrow> bool \<Rightarrow> bool \<Rightarrow> fat_file \<Rightarrow> u8 list \<Rightarrow> u32 \<Rightarrow> u32 \<Rightarrow> u32 \<Rightarrow> bool \<Rightarrow> fat_file \<Rightarrow> fat_file option \<Rightarrow>
     'p fat_world \<Rightarrow> (int \<times> fat_file \<times> fat_file option \<times> u32 \<times> 'p fat_world) option" where
  "fat_find_loop disk is_file read_at_cursor use_shortname directory_file path cursor dir_offset entries lfn_present sub out w =
     (if dir_offset \<ge> DIR_FileSize (f_dir directory_file) then Some (fat_NOT_FOUND, sub, out, cursor, w)
      else do {
        (bytes, directory_file, w) \<leftarrow> fat_fread disk (bytes_of_dir (f_dir sub)) 32 1
                                       (fat_fseek directory_file (uint dir_offset) fat_SEEK_SET) w;
        let sub = sub\<lparr>f_dir := dir_of_bytes bytes\<rparr>;
        let dir_offset = dir_offset + 32;
        if DIR_Name (f_dir sub) ! 0 = 0 then Some (fat_NOT_FOUND, sub, out, cursor, w)
        else if DIR_Name (f_dir sub) ! 0 = 0xE5 then
          fat_find_loop disk is_file read_at_cursor use_shortname directory_file path cursor dir_offset entries lfn_present sub out w
        else if DIR_Attr (f_dir sub) = 0x0F then do {
          sub \<leftarrow> fat_find_lfn sub;
          fat_find_loop disk is_file read_at_cursor use_shortname directory_file path cursor dir_offset entries
            (lfn_present \<or> DIR_Name (f_dir sub) ! 0 AND 0x40 \<noteq> 0) sub out w
        }
        else do {
          name \<leftarrow> (if lfn_present \<and> \<not> use_shortname then Some (f_long_filename sub)
                   else shortname_to_longname (DIR_Name (f_dir sub)) (f_long_filename sub));
          let dir_name_length = path_compare path (List.map ucast name) (lfn_present \<and> \<not> use_shortname);
          let sub = sub\<lparr>f_long_filename := name\<rparr>;
          if read_at_cursor \<and> entries = cursor then
            (if DIR_Attr (f_dir sub) AND fat_ATTR_DIRECTORY \<noteq> 0
             then Some (fat_FOUND_DIR, fat_found directory_file dir_offset lfn_present sub, out, cursor + 1, w)
             else (case out of
                     None \<Rightarrow> None
                   | Some file_out \<Rightarrow>
                       Some (fat_FOUND_FILE, sub,
                             Some (fat_found directory_file dir_offset lfn_present
                                     (file_out\<lparr>f_dir := f_dir sub, f_long_filename := f_long_filename sub\<rparr>)),
                             cursor + 1, w)))
          else if \<not> read_at_cursor \<and> dir_name_length > 0 \<and> DIR_Attr (f_dir sub) AND 0x10 \<noteq> 0 \<and>
                  byte_at path dir_name_length = 0 \<and> \<not> is_file then
            Some (fat_FOUND_DIR, fat_found directory_file dir_offset lfn_present sub, out, cursor, w)
          else if \<not> read_at_cursor \<and> dir_name_length > 0 \<and> DIR_Attr (f_dir sub) AND 0x10 \<noteq> 0 \<and>
                  byte_at path dir_name_length \<noteq> 0 then do {
            (directory_file, new_root_dir, w) \<leftarrow> fat_find_start disk sub w;
            fat_find_loop disk is_file read_at_cursor use_shortname directory_file (drop (dir_name_length + 1) path) cursor 0 0 False
              fat_file_default (map_option (\<lambda>_. fat_file_default) out) w
          }
          else if \<not> read_at_cursor \<and> dir_name_length > 0 \<and> DIR_Attr (f_dir sub) AND 0x10 = 0 \<and>
                  is_file \<and> byte_at path dir_name_length = 0 then
            Some (fat_FOUND_FILE, sub,
                  map_option (\<lambda>file_out. fat_found directory_file dir_offset lfn_present
                    (file_out\<lparr>f_dir := f_dir sub, f_long_filename := f_long_filename sub\<rparr>)) out, cursor, w)
          else
            fat_find_loop disk is_file read_at_cursor use_shortname directory_file path cursor dir_offset (entries + 1) False sub out w
        }
      })"

definition fat_find_full ::
  "'p fat_disk \<Rightarrow> bool \<Rightarrow> fat_file \<Rightarrow> u8 list \<Rightarrow> bool \<Rightarrow> bool \<Rightarrow> bool \<Rightarrow> 'p fat_world \<Rightarrow>
     (int \<times> fat_file \<times> fat_file option \<times> fat_file \<times> 'p fat_world) option" where
  "fat_find_full disk with_file root_dir path is_file read_at_cursor use_shortname w =
     do {
       (directory_file, root_dir, w) \<leftarrow> fat_find_start disk root_dir w;
       (found, sub, out, cursor, w) \<leftarrow>
         fat_find_loop disk is_file read_at_cursor use_shortname directory_file path (f_cursor root_dir) 0 0 False
           fat_file_default (if with_file then Some fat_file_default else None) w;
       Some (found, sub, out, root_dir\<lparr>f_cursor := cursor\<rparr>, w)
     }"

definition fat_find ::
  "'p fat_disk \<Rightarrow> bool \<Rightarrow> fat_file \<Rightarrow> u8 list \<Rightarrow> bool \<Rightarrow> bool \<Rightarrow> 'p fat_world \<Rightarrow>
     (int \<times> fat_file \<times> fat_file option \<times> fat_file \<times> 'p fat_world) option" where
  "fat_find disk with_file root_dir path is_file read_at_cursor w =
     fat_find_full disk with_file root_dir path is_file read_at_cursor False w"

definition fat_rewinddir :: "fat_file \<Rightarrow> fat_file" where
  "fat_rewinddir dir = dir\<lparr>f_cursor := 0\<rparr>"

text \<open>The result, \<^verbatim>\<open>dir_out\<close>, \<^verbatim>\<open>file_out\<close> and \<^verbatim>\<open>parent_dir\<close>.\<close>

definition fat_readdir ::
  "'p fat_disk \<Rightarrow> fat_file \<Rightarrow> 'p fat_world \<Rightarrow> (int \<times> fat_file \<times> fat_file option \<times> fat_file \<times> 'p fat_world) option" where
  "fat_readdir disk parent_dir w = fat_find disk True parent_dir [] False True w"

definition fat_copy_DIR :: "fat_file \<Rightarrow> fat_file" where
  "fat_copy_DIR src = src"

text \<open>The result, \<^verbatim>\<open>subdir_out\<close> and \<^verbatim>\<open>root_dir\<close>.\<close>

definition fat_opendir :: "'p fat_disk \<Rightarrow> fat_file \<Rightarrow> u8 list \<Rightarrow> 'p fat_world \<Rightarrow> (int \<times> fat_file \<times> fat_file \<times> 'p fat_world) option" where
  "fat_opendir disk root_dir path w =
     (if byte_at path 0 = 0 then Some (1, fat_copy_DIR root_dir, root_dir, w)
      else do {
        (success, sub, out, root_dir, w) \<leftarrow> fat_find disk False root_dir path False False w;
        let sub = sub\<lparr>f_cursor := 0\<rparr>;
        let sub = (if DIR_FstClusLO (f_dir sub) < 2 then sub\<lparr>f_dir := (f_dir sub)\<lparr>DIR_FstClusLO := 2\<rparr>\<rparr> else sub);
        Some (success, sub, root_dir, w)
      })"

subsection \<open>Long names in a directory\<close>

text \<open>A whole entry, read into a variable that was not set before.\<close>

definition fat_read_whole :: "'p fat_disk \<Rightarrow> fat_file \<Rightarrow> u32 \<Rightarrow> 'p fat_world \<Rightarrow> (u8 list \<times> fat_file \<times> 'p fat_world) option" where
  "fat_read_whole disk parent_dir position w =
     do {
       (bytes, parent_dir, w) \<leftarrow> fat_fread disk (replicate 32 0) 32 1 (fat_fseek parent_dir (uint position) fat_SEEK_SET) w;
       if f_cursor parent_dir \<noteq> position + 32 then None else Some (bytes, parent_dir, w)
     }"

partial_function (option) fat_remove_lfn_loop :: "'p fat_disk \<Rightarrow> fat_file \<Rightarrow> u32 \<Rightarrow> 'p fat_world \<Rightarrow> 'p fat_world option" where
  "fat_remove_lfn_loop disk parent_dir entry_position w =
     do {
       (bytes, parent_dir, w) \<leftarrow> fat_read_whole disk parent_dir (entry_position - 32) w;
       if DIR_Attr (dir_of_bytes bytes) \<noteq> 0x0F then Some w
       else do {
         (res, parent_dir, w) \<leftarrow> fat_fwrite disk (bytes[0 := 0xE5]) 32 1
                                  (fat_fseek parent_dir (uint (entry_position - 32)) fat_SEEK_SET) w;
         fat_remove_lfn_loop disk parent_dir (entry_position - 32) w
       }
     }"

definition fat_lfn_entry_at :: "u16 list \<Rightarrow> u8 \<Rightarrow> u8 \<Rightarrow> u8 \<Rightarrow> fat_lfn_entry option" where
  "fat_lfn_entry_at long_filename lfn_entry lfn_entries checksum =
     do {
       chars \<leftarrow> slice long_filename ((unat lfn_entry - 1) * 13) 13;
       Some \<lparr>LDIR_Ord = (if lfn_entry = lfn_entries then 0x40 else 0) OR lfn_entry, LDIR_Name1 = take 5 chars,
             LDIR_Attr = 0x0F, LDIR_Type = 0, LDIR_Chksum = checksum, LDIR_Name2 = take 6 (drop 5 chars),
             LDIR_FstClusLO = 0, LDIR_Name3 = drop 11 chars\<rparr>
     }"

partial_function (option) fat_add_lfn_loop ::
  "'p fat_disk \<Rightarrow> u16 list \<Rightarrow> u8 \<Rightarrow> u8 \<Rightarrow> u8 \<Rightarrow> fat_file \<Rightarrow> u32 \<Rightarrow> 'p fat_world \<Rightarrow> 'p fat_world option" where
  "fat_add_lfn_loop disk long_filename lfn_entries checksum lfn_entry parent_dir entry_position w =
     do {
       lfn \<leftarrow> fat_lfn_entry_at long_filename lfn_entry lfn_entries checksum;
       (res, parent_dir, w) \<leftarrow> fat_fwrite disk (bytes_of_lfn lfn) 32 1
                                (fat_fseek parent_dir (uint (entry_position - 32)) fat_SEEK_SET) w;
       if lfn_entry + 1 > lfn_entries then Some w
       else fat_add_lfn_loop disk long_filename lfn_entries checksum (lfn_entry + 1) parent_dir (entry_position - 32) w
     }"

text \<open>The length of the long name, which is taken to have a first character.\<close>

definition fat_lfn_length :: "u16 list \<Rightarrow> nat option" where
  "fat_lfn_length long_filename =
     (if 0 \<in> set (drop 1 long_filename) then Some (1 + length (takeWhile (\<lambda>c. c \<noteq> 0) (drop 1 long_filename))) else None)"

definition fat_update_lfn :: "'p fat_disk \<Rightarrow> fat_file \<Rightarrow> bool \<Rightarrow> 'p fat_world \<Rightarrow> 'p fat_world option" where
  "fat_update_lfn disk file remove w =
     do {
       let parent_dir = fat_parent (f_first_parent_cluster file);
       let parent_dir = parent_dir\<lparr>f_dir := (f_dir parent_dir)\<lparr>DIR_FstClusHI := ucast (drop_bit 16 (f_first_parent_cluster file))\<rparr>\<rparr>;
       (parent_dir, w) \<leftarrow> fat_chain_size disk parent_dir w;
       if f_lfn_present file = 0 then Some w
       else if remove then fat_remove_lfn_loop disk parent_dir (f_entry_position file) w
       else do {
         lfn_length \<leftarrow> fat_lfn_length (f_long_filename file);
         fat_add_lfn_loop disk (f_long_filename file) (word_of_nat ((lfn_length - 1) div 13 + 1))
           (fat_lfn_checksum (DIR_Name (f_dir file))) 1 parent_dir (f_entry_position file) w
       }
     }"

subsection \<open>Removing\<close>

definition fat_mark_free :: "fat_file \<Rightarrow> fat_file" where
  "fat_mark_free file = file\<lparr>f_dir := (f_dir file)\<lparr>DIR_Name := (DIR_Name (f_dir file))[0 := 0xE5]\<rparr>\<rparr>"

definition fat_release :: "'p fat_disk \<Rightarrow> fat_file \<Rightarrow> 'p fat_world \<Rightarrow> (fat_file \<times> 'p fat_world) option" where
  "fat_release disk file w =
     do {
       let file = fat_mark_free file;
       w \<leftarrow> fat_update_entry disk file w;
       w \<leftarrow> fat_remove_fat_chain disk file w;
       Some (file, w)
     }"

definition fat_fremove :: "'p fat_disk \<Rightarrow> fat_file \<Rightarrow> 'p fat_world \<Rightarrow> (int \<times> fat_file \<times> 'p fat_world) option" where
  "fat_fremove disk file w =
     do {
       w \<leftarrow> fat_update_lfn disk file True w;
       (file, w) \<leftarrow> fat_release disk file w;
       Some (1, file, w)
     }"

text \<open>
  \<^verbatim>\<open>fat_dirremove\<close> and \<^verbatim>\<open>fat_remove\<close> call each other; the second is a search followed by one of two
  calls, so that the loop of the first is recursive in itself.
\<close>

partial_function (option) fat_dirremove_loop :: "'p fat_disk \<Rightarrow> fat_file \<Rightarrow> 'p fat_world \<Rightarrow> (fat_file \<times> 'p fat_world) option" where
  "fat_dirremove_loop disk dir w =
     do {
       (dir_entry, helper_dir, helper_file, dir, w) \<leftarrow> fat_readdir disk dir w;
       if dir_entry = fat_NOT_FOUND then Some (dir, w)
       else do {
         file_ptr \<leftarrow> (if dir_entry = fat_FOUND_FILE then helper_file else Some helper_dir);
         if DIR_Name (f_dir file_ptr) ! 0 = 0x2E then fat_dirremove_loop disk dir w
         else do {
           new_path \<leftarrow> fat_longname_to_string (f_long_filename file_ptr);
           (find_success, found_dir, found_file, dir, w) \<leftarrow>
             fat_find disk True dir new_path (DIR_Attr (f_dir file_ptr) AND fat_ATTR_DIRECTORY = 0) False w;
           if find_success = fat_FOUND_FILE then do {
             file \<leftarrow> found_file;
             (res, file, w) \<leftarrow> fat_fremove disk file w;
             fat_dirremove_loop disk dir w
           }
           else if find_success = fat_FOUND_DIR then do {
             (found_dir, w) \<leftarrow> fat_dirremove_loop disk (fat_rewinddir found_dir) w;
             (found_dir, w) \<leftarrow> fat_release disk found_dir w;
             fat_dirremove_loop disk dir w
           }
           else fat_dirremove_loop disk dir w
         }
       }
     }"

definition fat_dirremove :: "'p fat_disk \<Rightarrow> fat_file \<Rightarrow> 'p fat_world \<Rightarrow> (int \<times> fat_file \<times> 'p fat_world) option" where
  "fat_dirremove disk dir w =
     do {
       (dir, w) \<leftarrow> fat_dirremove_loop disk (fat_rewinddir dir) w;
       (dir, w) \<leftarrow> fat_release disk dir w;
       Some (1, dir, w)
     }"

definition fat_remove :: "'p fat_disk \<Rightarrow> fat_file \<Rightarrow> u8 list \<Rightarrow> bool \<Rightarrow> 'p fat_world \<Rightarrow> (int \<times> 'p fat_world) option" where
  "fat_remove disk root_dir path is_file w =
     do {
       (find_success, found_dir, found_file, root_dir, w) \<leftarrow> fat_find disk True root_dir path is_file False w;
       if find_success = fat_FOUND_FILE then do {
         file \<leftarrow> found_file;
         (res, file, w) \<leftarrow> fat_fremove disk file w;
         Some (res, w)
       }
       else if find_success = fat_FOUND_DIR then do {
         (res, dir, w) \<leftarrow> fat_dirremove disk found_dir w;
         Some (res, w)
       }
       else Some (0, w)
     }"

end
