(* ===== verification/FatOps.thy ===== *)
theory FatOps
  imports FatDir
begin

section \<open>The FAT file system: creating, opening, mounting (fat.c)\<close>

text \<open>
  The operations that make new entries, \<^verbatim>\<open>fat_fopen\<close> and \<^verbatim>\<open>fat_init\<close>.  An operation that fills a
  structure of its caller takes the old structure and returns the new one, and so for the directory
  it searches, whose first cluster the search may set to 2.  Bytes that a device does not deliver
  into a new variable count as zero.
\<close>

subsection \<open>Splitting the path\<close>

text \<open>The part before the last slash, and the part behind it; \<open>None\<close> when there is no slash but at the start.\<close>

definition fat_split_path :: "u8 list \<Rightarrow> u8 list option \<times> u8 list" where
  "fat_split_path path =
     (let name = rev (takeWhile (\<lambda>c. c \<noteq> 0x2F) (rev path));
          last_slash = int (length path) - int (length name) - 1
      in (if last_slash > 0 then Some (take (nat last_slash) path) else None, name))"

text \<open>Where the last dot is; the end of the name when there is none.\<close>

definition fat_dot_position :: "u8 list \<Rightarrow> nat" where
  "fat_dot_position name =
     foldl (\<lambda>dot_position i. if name ! i = 0x2E then i else dot_position) (length name) [0..<length name]"

definition fat_pad :: "nat \<Rightarrow> u8 list \<Rightarrow> u8 list" where
  "fat_pad n s = take n (List.map to_uppercase s) @ replicate (n - length s) 0x20"

text \<open>\<^verbatim>\<open>DIR_Name\<close> of a new entry, and whether a part had to be cut.\<close>

definition fat_short_name :: "u8 list \<Rightarrow> u8 list \<times> bool" where
  "fat_short_name name =
     (let dot_position = fat_dot_position name;
          base = take dot_position name;
          extension = drop (dot_position + 1) name
      in (fat_pad 8 base @ fat_pad 3 extension, length base > 8 \<or> length extension > 3))"

definition fat_numbered_name :: "u8 list \<Rightarrow> u8 list \<Rightarrow> u8 list" where
  "fat_numbered_name short_name repeat_str =
     take (7 - length repeat_str) short_name @ [0x7E] @ repeat_str @ drop 8 short_name"

definition fat_helper_path :: "u8 list \<Rightarrow> u8 list" where
  "fat_helper_path short_name = take 8 short_name @ [0x2E] @ takeWhile (\<lambda>c. c \<noteq> 0x20) (drop 8 short_name)"

partial_function (option) fat_unique_loop ::
  "'p fat_disk \<Rightarrow> u8 list \<Rightarrow> u32 \<Rightarrow> fat_file \<Rightarrow> 'p fat_world \<Rightarrow> (u8 list \<times> fat_file \<times> 'p fat_world) option" where
  "fat_unique_loop disk short_name repeat parent_dir w =
     (if repeat < 1000 then do {
        repeat_str \<leftarrow> fat_itoa repeat 10;
        let short_name = fat_numbered_name short_name repeat_str;
        (found, helper_dir, helper_file, parent_dir, w) \<leftarrow>
          fat_find_full disk False parent_dir (fat_helper_path short_name) True False True w;
        if found = fat_NOT_FOUND then Some (short_name, parent_dir, w)
        else fat_unique_loop disk short_name (repeat + 1) parent_dir w
      }
      else Some (short_name, parent_dir, w))"

subsection \<open>Room in the directory\<close>

text \<open>
  The search for \<open>required\<close> free entries in a row, in variables named as in the C; \<open>known\<close> says that
  \<^verbatim>\<open>helper_dir_entry\<close> was set.  The result is \<open>None\<close> inside when the directory cannot grow, else the
  offset of the last of the entries.
\<close>

partial_function (option) fat_slot_loop ::
  "'p fat_disk \<Rightarrow> u32 \<Rightarrow> bool \<Rightarrow> u8 list \<Rightarrow> u32 \<Rightarrow> u32 \<Rightarrow> fat_file \<Rightarrow> 'p fat_world \<Rightarrow>
     (u32 option \<times> fat_file \<times> 'p fat_world) option" where
  "fat_slot_loop disk required known helper dir_offset contiguous parent_dir w =
     do {
       (res, known, helper, parent_dir, w) \<leftarrow>
         (if dir_offset + 32 > DIR_FileSize (f_dir parent_dir) then do {
            (res, parent_dir, w) \<leftarrow> fat_fwrite disk (replicate 32 0) 32 1
                                      (fat_fseek parent_dir (uint (dir_offset + 32)) fat_SEEK_SET) w;
            Some (res, True, replicate 32 0, parent_dir, w)
          }
          else Some (1, known, helper, parent_dir, w));
       if res = 0 then Some (None, parent_dir, w)
       else do {
         (helper, parent_dir, w) \<leftarrow> fat_fread disk helper 32 1 (fat_fseek parent_dir (uint dir_offset) fat_SEEK_SET) w;
         if \<not> known \<and> f_cursor parent_dir = dir_offset then None
         else if helper ! 0 = 0 \<or> helper ! 0 = 0xE5 then
           (if contiguous + 1 \<ge> required then Some (Some dir_offset, parent_dir, w)
            else fat_slot_loop disk required True helper (dir_offset + 32) (contiguous + 1) parent_dir w)
         else fat_slot_loop disk required True helper (dir_offset + 32) 0 parent_dir w
       }
     }"

subsection \<open>New files and directories\<close>

text \<open>The first cluster of a new entry, then the entry itself.\<close>

definition fat_create_at ::
  "'p fat_disk \<Rightarrow> fat_file \<Rightarrow> 'p fat_world \<Rightarrow> (int \<times> fat_file \<times> 'p fat_world) option" where
  "fat_create_at disk new_file w =
     do {
       (free_cluster, w) \<leftarrow> fat_find_free disk 2 (fat_invalidate_cache w);
       (case free_cluster of
          None \<Rightarrow> Some (0, new_file, w)
        | Some free_cluster \<Rightarrow> do {
            let new_file = new_file\<lparr>f_dir := (f_dir new_file)\<lparr>DIR_FstClusLO := ucast free_cluster,
                                                              DIR_FstClusHI := ucast (drop_bit 16 free_cluster)\<rparr>\<rparr>;
            let w = fat_clear_cluster disk free_cluster (fat_write_fat_entry disk free_cluster 0x0FFFFFFF w);
            w \<leftarrow> fat_update_entry disk new_file w;
            w \<leftarrow> fat_update_lfn disk new_file False w;
            Some (1, new_file, w)
          })
     }"

text \<open>The new entry in a directory that is there: its names, its position, its cluster.\<close>

definition fat_create_in ::
  "'p fat_disk \<Rightarrow> fat_file \<Rightarrow> u8 list \<Rightarrow> u8 \<Rightarrow> 'p fat_world \<Rightarrow> (int \<times> fat_file \<times> 'p fat_world) option" where
  "fat_create_in disk parent_dir name attributes w =
     (let new_file = fat_file_default\<lparr>f_dir := fat_dir_empty\<lparr>DIR_Attr := attributes\<rparr>\<rparr> in
      if length name > 255 then Some (0, new_file, w)
      else do {
        let (short_name, lfn_present) = fat_short_name name;
        long_filename \<leftarrow> fat_string_to_longname name (f_long_filename new_file);
        (short_name, parent_dir, w) \<leftarrow>
          (if lfn_present then fat_unique_loop disk short_name 1 parent_dir w else Some (short_name, parent_dir, w));
        let lfn_entries = (if lfn_present then length name div 13 + 1 else 0);
        (parent_dir, w) \<leftarrow> fat_chain_size disk parent_dir w;
        let new_file = new_file\<lparr>f_dir := (f_dir new_file)\<lparr>DIR_Name := short_name\<rparr>,
                                f_lfn_present := (if lfn_present then 1 else 0), f_long_filename := long_filename\<rparr>;
        (position, parent_dir, w) \<leftarrow>
          fat_slot_loop disk (word_of_nat (1 + lfn_entries)) False (replicate 32 0) 0 0 parent_dir w;
        (case position of
           None \<Rightarrow> Some (0, new_file, w)
         | Some dir_offset \<Rightarrow>
             fat_create_at disk (new_file\<lparr>f_entry_position := dir_offset,
               f_first_parent_cluster := ucast (DIR_FstClusLO (f_dir parent_dir)) +
                 push_bit 16 (ucast (DIR_FstClusHI (f_dir parent_dir)))\<rparr>) w)
      })"

text \<open>The results are the return value, the new file, the root directory.\<close>

definition fat_create ::
  "'p fat_disk \<Rightarrow> fat_file \<Rightarrow> fat_file \<Rightarrow> u8 list \<Rightarrow> u8 \<Rightarrow> 'p fat_world \<Rightarrow>
     (int \<times> fat_file \<times> fat_file \<times> 'p fat_world) option" where
  "fat_create disk new_file_out root_dir path attributes w =
     (case fat_split_path path of
        (Some parent_path, name) \<Rightarrow> do {
          (res, parent_dir, root_dir, w) \<leftarrow> fat_opendir disk root_dir parent_path w;
          if res = 0 then Some (0, new_file_out, root_dir, w)
          else do {
            (res, new_file, w) \<leftarrow> fat_create_in disk parent_dir name attributes w;
            Some (res, new_file, root_dir, w)
          }
        }
      | (None, name) \<Rightarrow> do {
          (res, new_file, w) \<leftarrow> fat_create_in disk (fat_copy_DIR root_dir) name attributes w;
          Some (res, new_file, root_dir, w)
        })"

definition fat_create_file ::
  "'p fat_disk \<Rightarrow> fat_file \<Rightarrow> u8 list \<Rightarrow> u8 \<Rightarrow> 'p fat_world \<Rightarrow> (int \<times> fat_file \<times> fat_file \<times> 'p fat_world) option" where
  "fat_create_file disk root_dir path attributes w =
     do {
       (found, dummy_dir, found_file, root_dir, w) \<leftarrow> fat_find disk True root_dir path True False w;
       new_file \<leftarrow> found_file;
       if found \<noteq> fat_NOT_FOUND then Some (0, new_file, root_dir, w)
       else fat_create disk new_file root_dir path (fat_ATTR_ARCHIVE OR attributes) w
     }"

text \<open>The entries \<^verbatim>\<open>.\<close> and \<^verbatim>\<open>..\<close>.\<close>

definition fat_dot_entry :: "u8 list \<Rightarrow> fat_dir_entry \<Rightarrow> fat_dir_entry" where
  "fat_dot_entry dots target =
     fat_dir_empty\<lparr>DIR_Name := dots @ replicate (11 - length dots) 0x20, DIR_Attr := fat_ATTR_DIRECTORY,
                   DIR_FstClusLO := DIR_FstClusLO target, DIR_FstClusHI := DIR_FstClusHI target\<rparr>"

definition fat_create_dir ::
  "'p fat_disk \<Rightarrow> fat_file \<Rightarrow> u8 list \<Rightarrow> u8 \<Rightarrow> 'p fat_world \<Rightarrow> (int \<times> fat_file \<times> fat_file \<times> 'p fat_world) option" where
  "fat_create_dir disk root_dir path attributes w =
     do {
       (found, new_dir, no_file, root_dir, w) \<leftarrow> fat_find disk False root_dir path False False w;
       if found \<noteq> fat_NOT_FOUND then Some (0, new_dir, root_dir, w)
       else do {
         (res, new_dir, root_dir, w) \<leftarrow> fat_create disk new_dir root_dir path (fat_ATTR_DIRECTORY OR attributes) w;
         if res = 0 then Some (0, new_dir, root_dir, w)
         else do {
           let parent_dir = fat_parent (f_first_parent_cluster new_dir);
           let parent_dir = parent_dir\<lparr>f_dir := (f_dir parent_dir)\<lparr>DIR_FstClusHI :=
                              ucast (drop_bit 16 (f_first_parent_cluster new_dir))\<rparr>\<rparr>;
           (parent_dir, w) \<leftarrow> fat_chain_size disk parent_dir w;
           (res, new_dir, w) \<leftarrow> fat_fwrite disk (bytes_of_dir (fat_dot_entry [0x2E] (f_dir new_dir))) 32 1
                                 (fat_fseek new_dir 0 fat_SEEK_SET) w;
           if res = 0 then Some (0, new_dir, root_dir, w)
           else do {
             (res, new_dir, w) \<leftarrow> fat_fwrite disk (bytes_of_dir (fat_dot_entry [0x2E, 0x2E] (f_dir parent_dir))) 32 1
                                   (fat_fseek new_dir 32 fat_SEEK_SET) w;
             if res = 0 then Some (0, new_dir, root_dir, w) else Some (1, new_dir, root_dir, w)
           }
         }
       }
     }"

subsection \<open>Opening a file\<close>

definition fat_fopen ::
  "'p fat_disk \<Rightarrow> fat_file \<Rightarrow> u8 list \<Rightarrow> u8 list \<Rightarrow> 'p fat_world \<Rightarrow> (int \<times> fat_file \<times> fat_file \<times> 'p fat_world) option" where
  "fat_fopen disk root_dir path mode w =
     do {
       (find_success, helper_dir, found_file, root_dir, w) \<leftarrow> fat_find disk True root_dir path True False w;
       file \<leftarrow> found_file;
       if byte_at mode 0 = 0x72 then
         Some (if find_success = fat_FOUND_FILE then 1 else 0, file, root_dir, w)
       else if byte_at mode 0 = 0x77 \<or> byte_at mode 0 = 0x61 then
         (if find_success = fat_FOUND_FILE then
            (if byte_at mode 0 = 0x77 then do {
               let file = file\<lparr>f_dir := (f_dir file)\<lparr>DIR_FileSize := 0\<rparr>\<rparr>;
               w \<leftarrow> fat_update_entry disk file w;
               w \<leftarrow> fat_remove_fat_chain disk file w;
               let w = fat_write_fat_entry disk (ucast (DIR_FstClusLO (f_dir file))) 0x0FFFFFFF w;
               Some (1, file, root_dir, w)
             }
             else Some (1, fat_fseek file 0 fat_SEEK_END, root_dir, w))
          else if find_success = fat_NOT_FOUND then fat_create_file disk root_dir path 0 w
          else Some (0, file, root_dir, w))
       else Some (0, file, root_dir, w)
     }"

subsection \<open>Mounting\<close>

definition bytes_of_bpb :: "fat_bpb \<Rightarrow> u8 list" where
  "bytes_of_bpb b =
     BS_jmpBoot b @ BS_OEMName b @ bytes16 (BPB_BytsPerSec b) @ [BPB_SecPerClus b] @ bytes16 (BPB_RsvdSecCnt b) @
     [BPB_NumFATs b] @ bytes16 (BPB_RootEntCnt b) @ bytes16 (BPB_TotSec16 b) @ [BPB_Media b] @ bytes16 (BPB_FATSz16 b) @
     bytes16 (BPB_SecPerTrk b) @ bytes16 (BPB_NumHeads b) @ bytes32 (BPB_HiddSec b) @ bytes32 (BPB_TotSec32 b) @
     bytes32 (BPB_FATSz32 b) @ bytes16 (BPB_ExtFlags b) @ bytes16 (BPB_FSVer b) @ bytes32 (BPB_RootClus b) @
     bytes16 (BPB_FSInfo b) @ bytes16 (BPB_BkBootSec b) @ BPB_Reserved b @ [BS_DrvNum b] @ [BS_Reserved1 b] @
     [BS_BootSig b] @ bytes32 (BS_VolID b) @ BS_VolLab b @ BS_FilSysType b"

definition fat_root_directory :: "fat_bpb \<Rightarrow> fat_file" where
  "fat_root_directory b =
     fat_file_default\<lparr>
       f_dir := fat_dir_empty\<lparr>DIR_FstClusLO := (if BPB_RootClus b = 0 then 2 else ucast (BPB_RootClus b)),
                              DIR_FileSize := - 1\<rparr>,
       f_entry_position := (ucast (BPB_RsvdSecCnt b) + ucast (BPB_NumFATs b) * BPB_FATSz32 b) * ucast (BPB_BytsPerSec b)\<rparr>"

text \<open>
  The type field has no terminator, so that \<^verbatim>\<open>path_compare\<close> may look at the byte behind it, which the
  model takes as 0; the result is at most 8 whatever that byte is (\<open>path_compare_bound\<close>).
\<close>

definition fat_init ::
  "'p fat_disk \<Rightarrow> (u32 \<Rightarrow> u32 \<Rightarrow> ('p, u8 list) state) \<Rightarrow> (u32 \<Rightarrow> u8 list \<Rightarrow> ('p, unit) state) \<Rightarrow> 'p fat_world \<Rightarrow>
     (int \<times> 'p fat_disk \<times> 'p fat_world) option" where
  "fat_init disk read_func write_func w =
     (let disk = disk\<lparr>d_read_func := read_func, d_write_func := write_func\<rparr> in
      (case dev_read disk 0 90 w of
         (bytes, w) \<Rightarrow> do {
           bpb \<leftarrow> store_at (bytes_of_bpb (d_bpb disk)) 0 bytes;
           let disk = disk\<lparr>d_bpb := bpb_of_bytes bpb\<rparr>;
           if BS_jmpBoot (d_bpb disk) ! 0 \<noteq> 0xEB \<and> BS_jmpBoot (d_bpb disk) ! 0 \<noteq> 0xE9 then Some (0, disk, w)
           else if path_compare (BS_FilSysType (d_bpb disk)) [0x46, 0x41, 0x54, 0x33, 0x32, 0x20, 0x20, 0x20] True = 9
           then Some (0, disk, w)
           else Some (1, disk\<lparr>d_root_directory := fat_root_directory (d_bpb disk)\<rparr>, w)
         }))"

end
