(* ===== verification/FatLaws.thy ===== *)
theory FatLaws
  imports FatWrite FatOps
begin

section \<open>Properties of file access\<close>

text \<open>
  For every volume, whatever its device: what reading, writing, counting and releasing do to the
  bytes of files and to the table.
\<close>

text \<open>A world with the device and the cache as the operations need them.\<close>

definition world_ok :: "('p \<Rightarrow> bool) \<Rightarrow> 'p fat_world \<Rightarrow> bool" where
  "world_ok ready w \<longleftrightarrow> ready (w_dev w) \<and> length (w_cache w) = 512"

abbreviation (input) first_cluster :: "fat_file \<Rightarrow> u32" where
  "first_cluster fl \<equiv> ucast (DIR_FstClusLO (f_dir fl))"

lemma invalidate_world [simp]: "w_dev (fat_invalidate_cache w) = w_dev w" "world_ok ready (fat_invalidate_cache w) = world_ok ready w"
  by (simp_all add: fat_invalidate_cache_def world_ok_def)

context fat_volume
begin

lemma on_world: "on w m \<longleftrightarrow> world_ok ready w \<and> content (w_dev w) = m"
  by (auto simp: on_def world_ok_def)

lemma fread_file:
  assumes w: "world_ok ready w" and ch: "chain (table_entry disk (content (w_dev w))) clusters (first_cluster fl) cs"
    and s: "(length cs - 1) * cluster_bytes disk \<le> unat (DIR_FileSize (f_dir fl))"
      "unat (DIR_FileSize (f_dir fl)) \<le> length cs * cluster_bytes disk"
    and c: "f_cursor fl \<le> DIR_FileSize (f_dir fl)" "unat (n * k) \<le> length out"
  shows "\<exists>moved w'. fat_fread disk out n k fl w =
      Some (take (unat moved) (drop (unat (f_cursor fl)) (file_bytes disk (content (w_dev w)) cs)) @ drop (unat moved) out,
            fl\<lparr>f_cursor := f_cursor fl + moved\<rparr>, w') \<and>
      unat moved = min (unat (n * k)) (unat (DIR_FileSize (f_dir fl)) - unat (f_cursor fl)) \<and>
      world_ok ready w' \<and> content (w_dev w') = content (w_dev w)"
proof -
  let ?m = "content (w_dev w)"
  have ne: "cs \<noteq> []" using ch by auto
  have f: "fits fl ([] @ cs)" using s chain_length [OF ch] ne by (simp add: fits_def)
  have o: "on (fat_invalidate_cache w) ?m" using w by (simp add: on_world)
  have le: "unat (f_cursor fl) \<le> unat (DIR_FileSize (f_dir fl))" using c(1) by (simp add: word_le_nat_alt)
  have z: "unat (0 :: u32) = length ([] :: u32 list) * cluster_bytes disk"
    "unat (0 :: u32) = min (unat (n * k)) (length ([] :: u32 list) * cluster_bytes disk - unat (f_cursor fl))" by simp_all
  have out: "out = take (unat (0 :: u32)) (drop (unat (f_cursor fl)) (file_bytes disk ?m ([] @ cs))) @ drop (unat (0 :: u32)) out" by simp
  let ?goal = "\<lambda>moved r w'. r = Some (moved, take (unat moved) (drop (unat (f_cursor fl)) (file_bytes disk ?m cs)) @ drop (unat moved) out, w') \<and>
      unat moved = min (unat (n * k)) (unat (DIR_FileSize (f_dir fl)) - unat (f_cursor fl)) \<and> on w' ?m"
  from fread_loop [OF refl refl refl o coherent_invalidate ch f le z refl c(2) out]
  obtain moved w' where "?goal moved (fat_fread_loop disk fl (n * k) (first_cluster fl) 0 0 out (fat_invalidate_cache w)) w'" by auto
  then show ?thesis by (intro exI [of _ moved] exI [of _ w']) (simp add: fat_fread_def on_world)
qed

text \<open>The file after the write: its size is extended when the data ends behind it.\<close>

lemma fwrite_file:
  assumes w: "world_ok ready w" and ch: "chain (table_entry disk (content (w_dev w))) clusters (first_cluster fl) cs"
    and mark: "table_entry disk (content (w_dev w)) (last cs) = 0x0FFFFFFF"
    and fit: "unat (f_cursor fl) + length data \<le> unat (DIR_FileSize (f_dir fl))"
      "unat (DIR_FileSize (f_dir fl)) \<le> length cs * cluster_bytes disk" and n: "unat (n * k) = length data"
  shows "\<exists>w'. fat_fwrite_with update disk data n k fl w = Some (1, fl\<lparr>f_cursor := f_cursor fl + n * k\<rparr>, w') \<and> world_ok ready w' \<and>
      file_write disk cs (unat (f_cursor fl)) data (content (w_dev w)) (content (w_dev w'))"
proof -
  let ?m = "content (w_dev w)"
  have o: "on w ?m" using w by (simp add: on_world)
  have all: "y \<in> set ([] @ cs) \<Longrightarrow> valid_cluster clusters y" for y using chain_valid [OF ch] by simp
  have d: "distinct ([] @ cs)" "length ([] @ cs) \<le> clusters" "unat (f_cursor fl) + length data \<le> length ([] @ cs) * cluster_bytes disk"
    using chain_distinct [OF ch] chain_length [OF ch] fit by simp_all
  have z: "unat (0 :: u32) = length ([] :: u32 list) * cluster_bytes disk" "unat (0 :: u32) = 0"
    "0 = min (length data) (length ([] :: u32 list) * cluster_bytes disk - unat (f_cursor fl))" by simp_all
  have i: "file_write disk ([] @ cs) (unat (f_cursor fl)) (take 0 data) ?m ?m" by (simp add: file_write_def)
  obtain w' where w': "fat_fwrite_loop disk fl data (n * k) (first_cluster fl) 0 0 w = Some (Some (n * k), w')" "on w' (content (w_dev w'))"
    "file_write disk cs (unat (f_cursor fl)) data ?m (content (w_dev w'))"
    using fwrite_loop [OF refl refl n refl o ch mark all d z i] by (auto simp: on_world)
  have "unat (f_cursor fl + n * k) = unat (f_cursor fl) + length data"
    using fit(1) unat_bound [of "DIR_FileSize (f_dir fl)"] unfolding unat_word_ariths(1) n by simp
  then have "\<not> f_cursor fl + n * k > DIR_FileSize (f_dir fl)" using fit(1) by (simp add: word_less_nat_alt)
  then show ?thesis using w' by (auto simp: fat_fwrite_with_def on_world)
qed

lemma write_keeps_chain:
  assumes "chain (table_entry disk m) clusters c ds" "file_write disk cs i ys m m'" "\<And>y. y \<in> set cs \<Longrightarrow> valid_cluster clusters y"
  shows "chain (table_entry disk m') clusters c ds"
  using assms(2) in_clusters_data [OF assms(3)] by (intro chain_data_only [OF assms(1)]) (simp add: file_write_def)

lemma write_keeps_entry:
  assumes "unat c < clusters + 2" "file_write disk cs i ys m m'" "\<And>y. y \<in> set cs \<Longrightarrow> valid_cluster clusters y"
  shows "table_entry disk m' c = table_entry disk m c"
  using assms(2) in_clusters_data [OF assms(3)] by (intro table_data_only [OF assms(1)]) (simp add: file_write_def)

lemma write_then_read:
  assumes w: "world_ok ready w" and ch: "chain (table_entry disk (content (w_dev w))) clusters (first_cluster fl) cs"
    and mark: "table_entry disk (content (w_dev w)) (last cs) = 0x0FFFFFFF"
    and s: "(length cs - 1) * cluster_bytes disk \<le> unat (DIR_FileSize (f_dir fl))"
      "unat (DIR_FileSize (f_dir fl)) \<le> length cs * cluster_bytes disk"
    and fit: "unat (f_cursor fl) + length data \<le> unat (DIR_FileSize (f_dir fl))"
    and n: "unat (n * k) = length data" "length out = length data"
  shows "\<exists>w' w''. fat_fwrite_with update disk data n k fl w = Some (1, fl\<lparr>f_cursor := f_cursor fl + n * k\<rparr>, w') \<and>
      fat_fread disk out n k fl w' = Some (data, fl\<lparr>f_cursor := f_cursor fl + n * k\<rparr>, w'')"
proof -
  obtain w' where w': "fat_fwrite_with update disk data n k fl w = Some (1, fl\<lparr>f_cursor := f_cursor fl + n * k\<rparr>, w')" "world_ok ready w'"
    and fw: "file_write disk cs (unat (f_cursor fl)) data (content (w_dev w)) (content (w_dev w'))"
    using fwrite_file [OF w ch mark fit s(2) n(1)] by blast
  have ch': "chain (table_entry disk (content (w_dev w'))) clusters (first_cluster fl) cs"
    by (rule write_keeps_chain [OF ch fw chain_valid [OF ch]])
  have le: "f_cursor fl \<le> DIR_FileSize (f_dir fl)" using fit by (simp add: word_le_nat_alt)
  obtain moved w'' where r: "fat_fread disk out n k fl w' =
      Some (take (unat moved) (drop (unat (f_cursor fl)) (file_bytes disk (content (w_dev w')) cs)) @ drop (unat moved) out,
            fl\<lparr>f_cursor := f_cursor fl + moved\<rparr>, w'')"
    "unat moved = min (unat (n * k)) (unat (DIR_FileSize (f_dir fl)) - unat (f_cursor fl))"
    using fread_file [OF w'(2) ch' s le, of n k out] n by auto
  have um: "unat moved = length data" using r(2) n(1) fit by simp
  then have m: "moved = n * k" using n(1) unfolding word_unat_eq_iff by simp
  have "take (length data) (drop (unat (f_cursor fl)) (file_bytes disk (content (w_dev w')) cs)) = data"
    using fw write_at_window [of "unat (f_cursor fl)" data "file_bytes disk (content (w_dev w)) cs"] fit s(2)
    by (simp add: file_write_def)
  then show ?thesis using w'(1) r(1) um m n(2) by simp
qed

lemma remove_chain:
  assumes w: "world_ok ready w" and ch: "chain (table_entry disk (content (w_dev w))) clusters (first_cluster fl) cs"
  shows "\<exists>w'. fat_remove_fat_chain disk fl w = Some w' \<and> world_ok ready w' \<and>
      (\<forall>c. unat c < clusters + 2 \<longrightarrow> table_entry disk (content (w_dev w')) c =
         (if c \<in> set cs then 0 else table_entry disk (content (w_dev w)) c)) \<and>
      (\<forall>a. a < table_start disk \<or> data_start disk \<le> a \<longrightarrow> content (w_dev w') a = content (w_dev w) a)"
proof -
  have o: "on w (content (w_dev w))" using w by (simp add: on_world)
  obtain w' where w': "fat_remove_loop disk (first_cluster fl) w = Some w'" "on w' (free_entries disk (content (w_dev w)) cs)"
    using remove_loop [OF o ch] by blast
  have v: "unat x < clusters + 2" if "x \<in> set cs" for x using chain_valid [OF ch that] by (simp add: valid_cluster_def)
  have "a < table_start disk \<or> data_start disk \<le> a \<Longrightarrow> free_entries disk (content (w_dev w)) cs a = content (w_dev w) a" for a
    using tables_before_data by (intro free_entries_outside [OF v]) auto
  then show ?thesis using w' table_free_entries [OF v] by (auto simp: fat_remove_fat_chain_def on_world)
qed

lemma count_file:
  assumes w: "world_ok ready w" and ch: "chain (table_entry disk (content (w_dev w))) clusters (first_cluster fl) cs"
  shows "\<exists>count w'. fat_file_cluster_count disk fl w = Some (count, w') \<and> unat count = length cs \<and> length cs \<le> clusters \<and>
      world_ok ready w' \<and> content (w_dev w') = content (w_dev w)"
proof -
  have o: "on w (content (w_dev w))" using w by (simp add: on_world)
  have "length cs < 2 ^ 32" using chain_length [OF ch] geometry_parts(9) by simp
  then have "unat (word_of_nat (length cs) :: u32) = length cs" by (simp add: unat_of_nat)
  then show ?thesis using cluster_count [OF o ch] chain_length [OF ch] by (auto simp: on_world)
qed

text \<open>What the cache delivers is what the device holds, also in a second read.\<close>

lemma cache_transparent:
  assumes w: "world_ok ready w" and c: "unat c < clusters + 2" "unat d < clusters + 2"
  shows "\<exists>w1 w2 w3 w4. fat_read_fat_entry disk c True (fat_invalidate_cache w) = Some (table_entry disk (content (w_dev w)) c, w1) \<and>
      fat_read_fat_entry disk d True w1 = Some (table_entry disk (content (w_dev w)) d, w2) \<and>
      fat_read_fat_entry disk c False w = Some (table_entry disk (content (w_dev w)) c, w3) \<and>
      fat_read_fat_entry disk d False w3 = Some (table_entry disk (content (w_dev w)) d, w4)"
proof -
  have o: "on w (content (w_dev w))" using w by (simp add: on_world)
  then have i: "on (fat_invalidate_cache w) (content (w_dev w))" by simp
  obtain w1 where w1: "fat_read_fat_entry disk c True (fat_invalidate_cache w) = Some (table_entry disk (content (w_dev w)) c, w1)"
    "on w1 (content (w_dev w))" "coherent w1 (content (w_dev w))"
    using read_cached [OF i coherent_invalidate c(1)] by blast
  obtain w3 where w3: "fat_read_fat_entry disk c False w = Some (table_entry disk (content (w_dev w)) c, w3)" "on w3 (content (w_dev w))"
    using read_uncached [OF o c(1)] by blast
  show ?thesis using w1 w3 read_cached [OF w1(2,3) c(2)] read_uncached [OF w3(2) c(2)] by blast
qed

end

end
