(* ===== verification/Floppy.thy ===== *)
theory Floppy
  imports Prelude "HOL-Library.State_Monad"
begin

section \<open>The floppy driver (floppy.c)\<close>

text \<open>
  The driver talks to the controller through the ports only, so it is a program in the state
  monad over the state \<open>'p\<close> of the hardware, with the instructions \<^verbatim>\<open>in\<close> and \<^verbatim>\<open>out\<close> as the
  parameters \<open>ports\<close>.  Every timeout is the code's bound on its loop.  The sector buffer that a
  function fills is returned as the bytes it wrote; the 513th byte that the read loop can write
  shows as a list of that length.  The debug messages are compiled out in the code.
\<close>

record 'p ports =
  in_port :: "u16 \<Rightarrow> 'p \<Rightarrow> u8 \<times> 'p"
  out_port :: "u16 \<Rightarrow> u8 \<Rightarrow> 'p \<Rightarrow> 'p"

definition inb :: "'p ports \<Rightarrow> u16 \<Rightarrow> ('p, u8) state" where
  "inb io port = State (in_port io port)"

definition outb :: "'p ports \<Rightarrow> u16 \<Rightarrow> u8 \<Rightarrow> ('p, unit) state" where
  "outb io port value = State (\<lambda>p. ((), out_port io port value p))"

subsection \<open>Constants\<close>

abbreviation (input) FLOPPY_144_SECTORS_PER_TRACK :: u32 where "FLOPPY_144_SECTORS_PER_TRACK \<equiv> 18"

abbreviation (input) DIGITAL_OUTPUT_REGISTER :: u16 where "DIGITAL_OUTPUT_REGISTER \<equiv> 0x3F2"
abbreviation (input) MAIN_STATUS_REGISTER :: u16 where "MAIN_STATUS_REGISTER \<equiv> 0x3F4"
abbreviation (input) DATA_FIFO :: u16 where "DATA_FIFO \<equiv> 0x3F5"

abbreviation (input) SPECIFY :: u8 where "SPECIFY \<equiv> 3"
abbreviation (input) WRITE_DATA :: u8 where "WRITE_DATA \<equiv> 5"
abbreviation (input) READ_DATA :: u8 where "READ_DATA \<equiv> 6"
abbreviation (input) RECALIBRATE :: u8 where "RECALIBRATE \<equiv> 7"
abbreviation (input) SENSE_INTERRUPT :: u8 where "SENSE_INTERRUPT \<equiv> 8"
abbreviation (input) SEEK :: u8 where "SEEK \<equiv> 15"
abbreviation (input) VERSION :: u8 where "VERSION \<equiv> 16"
abbreviation (input) CONFIGURE :: u8 where "CONFIGURE \<equiv> 19"
abbreviation (input) LOCK :: u8 where "LOCK \<equiv> 20"

abbreviation (input) DRIVE1 :: u8 where "DRIVE1 \<equiv> 1"
abbreviation (input) RESET :: u8 where "RESET \<equiv> 4"
abbreviation (input) DRIVE1_MOTOR :: u8 where "DRIVE1_MOTOR \<equiv> 0x20"

abbreviation (input) RQM :: u8 where "RQM \<equiv> 0x80"
abbreviation (input) DIO :: u8 where "DIO \<equiv> 0x40"
abbreviation (input) NDMA :: u8 where "NDMA \<equiv> 0x20"

abbreviation (input) FIFO_DISABLED :: u8 where "FIFO_DISABLED \<equiv> 0x20"
abbreviation (input) IMPLIED_SEEK_ENABLED :: u8 where "IMPLIED_SEEK_ENABLED \<equiv> 0x40"
abbreviation (input) THRESHOLD_MASK :: u8 where "THRESHOLD_MASK \<equiv> 0x0F"

abbreviation (input) MFM_BIT :: u8 where "MFM_BIT \<equiv> 0x40"
abbreviation (input) SK_BIT :: u8 where "SK_BIT \<equiv> 0x20"

subsection \<open>Waiting and commands\<close>

function floppy_wait_loop :: "'p ports \<Rightarrow> nat \<Rightarrow> u8 \<Rightarrow> u8 \<Rightarrow> 'p \<Rightarrow> bool \<times> 'p" where
  "floppy_wait_loop io timeout msk value p =
     (if timeout = 0 then (False, p)
      else (case in_port io MAIN_STATUS_REGISTER p of
              (msr, p) \<Rightarrow> if msr AND msk = value then (True, p)
                          else floppy_wait_loop io (timeout - 1) msk value p))"
  by pat_completeness auto
termination
  by (relation "measure (\<lambda>(io, timeout, msk, value, p). timeout)") auto

declare floppy_wait_loop.simps [simp del]

definition floppy_wait_msr :: "'p ports \<Rightarrow> nat \<Rightarrow> u8 \<Rightarrow> u8 \<Rightarrow> ('p, bool) state" where
  "floppy_wait_msr io timeout msk value = State (floppy_wait_loop io timeout msk value)"

definition floppy_wait_ready :: "'p ports \<Rightarrow> nat \<Rightarrow> ('p, bool) state" where
  "floppy_wait_ready io timeout = floppy_wait_msr io timeout RQM RQM"

definition floppy_wait_ready_send :: "'p ports \<Rightarrow> nat \<Rightarrow> ('p, bool) state" where
  "floppy_wait_ready_send io timeout = floppy_wait_msr io timeout (RQM OR DIO) RQM"

definition floppy_send_command :: "'p ports \<Rightarrow> u8 \<Rightarrow> ('p, unit) state" where
  "floppy_send_command io command =
     do {
       ready \<leftarrow> floppy_wait_ready_send io 0xffffff;
       if \<not> ready then State_Monad.return () else outb io DATA_FIFO command
     }"

definition get_version :: "'p ports \<Rightarrow> ('p, u8) state" where
  "get_version io =
     do {
       floppy_send_command io VERSION;
       version \<leftarrow> inb io DATA_FIFO;
       ready \<leftarrow> floppy_wait_ready_send io 0xffffff;
       State_Monad.return (if \<not> ready then 0 else version)
     }"

definition floppy_calibrate :: "'p ports \<Rightarrow> u8 \<Rightarrow> ('p, bool) state" where
  "floppy_calibrate io drive =
     do {
       floppy_send_command io RECALIBRATE;
       floppy_send_command io drive;
       ready \<leftarrow> floppy_wait_ready io 0xffffff;
       if \<not> ready then State_Monad.return False
       else do {
         floppy_send_command io SENSE_INTERRUPT;
         status \<leftarrow> inb io DATA_FIFO;
         cylinder \<leftarrow> inb io DATA_FIFO;
         State_Monad.return (\<not> (cylinder \<noteq> 0 \<or> status \<noteq> (0x20 OR drive)))
       }
     }"

text \<open>Up to ten attempts; \<open>tries\<close> are left.\<close>

fun floppy_seek_loop :: "'p ports \<Rightarrow> nat \<Rightarrow> u8 \<Rightarrow> u8 \<Rightarrow> ('p, bool) state" where
  "floppy_seek_loop io 0 head cylinder = State_Monad.return False"
| "floppy_seek_loop io (Suc tries) head cylinder =
     do {
       floppy_send_command io SEEK;
       floppy_send_command io (push_bit 2 head OR DRIVE1);
       floppy_send_command io cylinder;
       ready \<leftarrow> floppy_wait_ready io 0xffffff;
       if \<not> ready then State_Monad.return False
       else do {
         floppy_send_command io SENSE_INTERRUPT;
         status \<leftarrow> inb io DATA_FIFO;
         cylinder_result \<leftarrow> inb io DATA_FIFO;
         if cylinder = cylinder_result then State_Monad.return True
         else floppy_seek_loop io tries head cylinder
       }
     }"

definition floppy_seek :: "'p ports \<Rightarrow> u8 \<Rightarrow> u8 \<Rightarrow> ('p, bool) state" where
  "floppy_seek io head cylinder = floppy_seek_loop io 10 head cylinder"

subsection \<open>Sectors\<close>

text \<open>The nine bytes of a read or write command, and the seven bytes of its result.\<close>

definition floppy_transfer_command :: "'p ports \<Rightarrow> u8 \<Rightarrow> u8 \<Rightarrow> u8 \<Rightarrow> u8 \<Rightarrow> ('p, unit) state" where
  "floppy_transfer_command io command head cylinder sector =
     do {
       floppy_send_command io command;
       floppy_send_command io (push_bit 2 head OR DRIVE1);
       floppy_send_command io cylinder;
       floppy_send_command io head;
       floppy_send_command io sector;
       floppy_send_command io 2;
       floppy_send_command io sector;
       floppy_send_command io 0x1b;
       floppy_send_command io 0xff
     }"

definition floppy_transfer_result :: "'p ports \<Rightarrow> u8 \<Rightarrow> u8 \<Rightarrow> u8 \<Rightarrow> ('p, bool) state" where
  "floppy_transfer_result io head cylinder sector =
     do {
       st0 \<leftarrow> inb io DATA_FIFO;
       st1 \<leftarrow> inb io DATA_FIFO;
       st2 \<leftarrow> inb io DATA_FIFO;
       result_cylinder \<leftarrow> inb io DATA_FIFO;
       result_head \<leftarrow> inb io DATA_FIFO;
       result_sector \<leftarrow> inb io DATA_FIFO;
       result_2 \<leftarrow> inb io DATA_FIFO;
       State_Monad.return
         (\<not> (st0 AND 0xC0 \<noteq> 0 \<or> result_cylinder \<noteq> cylinder \<or> result_head \<noteq> head \<or>
             result_sector \<noteq> sector \<or> result_2 \<noteq> 2))
     }"

function floppy_read_bytes :: "'p ports \<Rightarrow> u8 list \<Rightarrow> 'p \<Rightarrow> u8 list \<times> 'p" where
  "floppy_read_bytes io buffer p =
     (case floppy_wait_loop io 1 (RQM OR DIO OR NDMA) (RQM OR NDMA OR DIO) p of
        (ready, p) \<Rightarrow>
          if \<not> ready \<or> length buffer > 512 then (buffer, p)
          else (case in_port io DATA_FIFO p of (byte, p) \<Rightarrow> floppy_read_bytes io (buffer @ [byte]) p))"
  by pat_completeness auto
termination
  by (relation "measure (\<lambda>(io, buffer, p). 513 - length buffer)") auto

declare floppy_read_bytes.simps [simp del]

text \<open>The result and the bytes stored in the buffer.\<close>

definition floppy_read_sector :: "'p ports \<Rightarrow> u8 \<Rightarrow> u8 \<Rightarrow> u8 \<Rightarrow> ('p, bool \<times> u8 list) state" where
  "floppy_read_sector io head cylinder sector =
     do {
       found \<leftarrow> floppy_seek io head cylinder;
       if \<not> found then State_Monad.return (False, [])
       else do {
         floppy_transfer_command io (READ_DATA OR MFM_BIT OR SK_BIT) head cylinder sector;
         ready \<leftarrow> floppy_wait_ready io 0xffffff;
         if \<not> ready then State_Monad.return (False, [])
         else do {
           buffer \<leftarrow> State (floppy_read_bytes io []);
           if length buffer \<noteq> 512 then State_Monad.return (False, buffer)
           else do {
             ready \<leftarrow> floppy_wait_ready io 0xffffff;
             if \<not> ready then State_Monad.return (False, buffer)
             else do {
               res \<leftarrow> floppy_transfer_result io head cylinder sector;
               State_Monad.return (res, buffer)
             }
           }
         }
       }
     }"

fun floppy_sense_loop :: "'p ports \<Rightarrow> nat \<Rightarrow> ('p, unit) state" where
  "floppy_sense_loop io 0 = State_Monad.return ()"
| "floppy_sense_loop io (Suc n) =
     do {
       floppy_send_command io SENSE_INTERRUPT;
       status \<leftarrow> inb io DATA_FIFO;
       cylinder \<leftarrow> inb io DATA_FIFO;
       floppy_sense_loop io n
     }"

definition floppy_reset :: "'p ports \<Rightarrow> ('p, bool) state" where
  "floppy_reset io =
     do {
       outb io DIGITAL_OUTPUT_REGISTER 0;
       outb io DIGITAL_OUTPUT_REGISTER (RESET OR DRIVE1_MOTOR OR DRIVE1);
       floppy_sense_loop io 4;
       floppy_send_command io SPECIFY;
       floppy_send_command io 0xdf;
       floppy_send_command io 0x03;
       floppy_calibrate io DRIVE1
     }"

text \<open>The write loop: \<open>i\<close> is the index of the next byte; the 513th comes from behind the buffer.\<close>

function floppy_write_bytes :: "'p ports \<Rightarrow> (nat \<Rightarrow> u8) \<Rightarrow> nat \<Rightarrow> 'p \<Rightarrow> nat \<times> 'p" where
  "floppy_write_bytes io buffer i p =
     (case floppy_wait_loop io 1 (RQM OR DIO OR NDMA) (RQM OR NDMA) p of
        (ready, p) \<Rightarrow>
          if \<not> ready \<or> i > 512 then (i, p)
          else floppy_write_bytes io buffer (i + 1) (out_port io DATA_FIFO (buffer i) p))"
  by pat_completeness auto
termination
  by (relation "measure (\<lambda>(io, buffer, i, p). 513 - i)") auto

declare floppy_write_bytes.simps [simp del]

definition floppy_write_sector :: "'p ports \<Rightarrow> u8 \<Rightarrow> u8 \<Rightarrow> u8 \<Rightarrow> (nat \<Rightarrow> u8) \<Rightarrow> ('p, bool) state" where
  "floppy_write_sector io head cylinder sector buffer =
     do {
       found \<leftarrow> floppy_seek io head cylinder;
       if \<not> found then State_Monad.return False
       else do {
         floppy_transfer_command io (WRITE_DATA OR MFM_BIT OR SK_BIT) head cylinder sector;
         ready \<leftarrow> floppy_wait_ready io 0xffffff;
         if \<not> ready then State_Monad.return False
         else do {
           i \<leftarrow> State (floppy_write_bytes io buffer 0);
           if i \<noteq> 512 then State_Monad.return False
           else do {
             ready \<leftarrow> floppy_wait_ready io 0xff;
             if \<not> ready then do { _ \<leftarrow> floppy_reset io; State_Monad.return True }
             else floppy_transfer_result io head cylinder sector
           }
         }
       }
     }"

subsection \<open>Addresses\<close>

text \<open>Cylinder, head and sector, each stored into a byte.\<close>

definition lba_to_chs :: "u32 \<Rightarrow> u8 \<times> u8 \<times> u8" where
  "lba_to_chs lba =
     (ucast (lba div (2 * FLOPPY_144_SECTORS_PER_TRACK)),
      ucast (lba mod (2 * FLOPPY_144_SECTORS_PER_TRACK) div FLOPPY_144_SECTORS_PER_TRACK),
      ucast (lba mod (2 * FLOPPY_144_SECTORS_PER_TRACK) mod FLOPPY_144_SECTORS_PER_TRACK + 1))"

definition floppy_read_lba :: "'p ports \<Rightarrow> u32 \<Rightarrow> ('p, bool \<times> u8 list) state" where
  "floppy_read_lba io lba =
     (case lba_to_chs lba of (cylinder, head, sector) \<Rightarrow> floppy_read_sector io head cylinder sector)"

definition floppy_write_lba :: "'p ports \<Rightarrow> u32 \<Rightarrow> (nat \<Rightarrow> u8) \<Rightarrow> ('p, bool) state" where
  "floppy_write_lba io lba buffer =
     (case lba_to_chs lba of (cylinder, head, sector) \<Rightarrow> floppy_write_sector io head cylinder sector buffer)"

definition floppy_init :: "'p ports \<Rightarrow> ('p, bool) state" where
  "floppy_init io =
     do {
       version \<leftarrow> get_version io;
       if version \<noteq> 0x90 then State_Monad.return False
       else do {
         floppy_send_command io CONFIGURE;
         floppy_send_command io 0;
         floppy_send_command io (IMPLIED_SEEK_ENABLED OR FIFO_DISABLED OR (0 AND THRESHOLD_MASK));
         floppy_send_command io 0;
         floppy_send_command io (LOCK OR 0x80);
         lock_result \<leftarrow> inb io DATA_FIFO;
         if lock_result AND 0x10 = 0 then State_Monad.return False
         else floppy_reset io
       }
     }"

subsection \<open>Byte ranges\<close>

text \<open>
  \<^verbatim>\<open>floppy_read\<close> and \<^verbatim>\<open>floppy_write\<close> go through the sectors from the first to the last address, that of
  the byte behind the range included; \<open>rd\<close> and \<open>wr\<close> are the sector operations.  The part of a
  sector that belongs to the range:
\<close>

definition floppy_start :: "u32 \<Rightarrow> u32 \<Rightarrow> nat" where
  "floppy_start address lba = (if lba = address div 512 then unat (address mod 512) else 0)"

definition floppy_end :: "u32 \<Rightarrow> u32 \<Rightarrow> u32 \<Rightarrow> nat" where
  "floppy_end address count lba =
     (if lba = (address + count) div 512 then unat ((address + count) mod 512) else 512)"

lemma floppy_loop_step: "lba \<le> (e :: u32) div 512 \<Longrightarrow> unat (lba + 1) = unat lba + 1"
proof -
  assume "lba \<le> e div 512"
  then have "unat lba \<le> unat e div 512" by (simp add: word_le_nat_alt unat_div)
  moreover have "unat e < 2 ^ 32" by (rule order_less_le_trans [OF unsigned_less]) simp
  ultimately have "unat lba + 1 < 2 ^ 32" by simp
  then show ?thesis by (simp add: unat_word_ariths)
qed

function floppy_read_loop ::
  "(u32 \<Rightarrow> ('p, bool \<times> u8 list) state) \<Rightarrow> u32 \<Rightarrow> u32 \<Rightarrow> u32 \<Rightarrow> u8 list \<Rightarrow> 'p \<Rightarrow> (bool \<times> u8 list) \<times> 'p" where
  "floppy_read_loop rd address count lba out p =
     (if lba \<le> (address + count) div 512 then
        (case run_state (rd lba) p of
           ((success, tmp), p) \<Rightarrow>
             if \<not> success then ((False, out), p)
             else
               let start = floppy_start address lba;
                   stop = floppy_end address count lba
               in floppy_read_loop rd address count (lba + 1) (out @ take (stop - start) (drop start tmp)) p)
      else ((True, out), p))"
  by pat_completeness auto
termination
  by (relation "measure (\<lambda>(rd, address, count, lba, out, p). unat ((address + count) div 512) + 1 - unat lba)")
     (auto simp: floppy_loop_step word_le_nat_alt)

declare floppy_read_loop.simps [simp del]

definition floppy_read :: "'p ports \<Rightarrow> u32 \<Rightarrow> u32 \<Rightarrow> ('p, bool \<times> u8 list) state" where
  "floppy_read io address count =
     State (floppy_read_loop (floppy_read_lba io) address count (address div 512) [])"

text \<open>\<open>tmp\<close> is \<^verbatim>\<open>tmp_buffer\<close>, whose content without \<^verbatim>\<open>preserve\<close> is what was there before.\<close>

function floppy_write_loop ::
  "(u32 \<Rightarrow> ('p, bool \<times> u8 list) state) \<Rightarrow> (u32 \<Rightarrow> (nat \<Rightarrow> u8) \<Rightarrow> ('p, bool) state) \<Rightarrow>
    bool \<Rightarrow> u32 \<Rightarrow> u32 \<Rightarrow> u32 \<Rightarrow> u8 list \<Rightarrow> u8 list \<Rightarrow> 'p \<Rightarrow> bool \<times> 'p" where
  "floppy_write_loop rd wr preserve address count lba tmp input p =
     (if lba \<le> (address + count) div 512 then
        (case (if preserve then run_state (rd lba) p else ((True, tmp), p)) of
           ((success, tmp), p) \<Rightarrow>
             if \<not> success then (False, p)
             else
               let start = floppy_start address lba;
                   stop = floppy_end address count lba;
                   tmp = take start tmp @ take (stop - start) input @ drop (max start stop) tmp in
               (case run_state (wr lba (\<lambda>i. tmp ! i)) p of
                  (success, p) \<Rightarrow>
                    if \<not> success then (False, p)
                    else floppy_write_loop rd wr preserve address count (lba + 1) tmp (drop (stop - start) input) p))
      else (True, p))"
  by pat_completeness auto
termination
  by (relation "measure (\<lambda>(rd, wr, preserve, address, count, lba, tmp, input, p). unat ((address + count) div 512) + 1 - unat lba)")
     (auto simp: floppy_loop_step word_le_nat_alt)

declare floppy_write_loop.simps [simp del]

definition floppy_write :: "'p ports \<Rightarrow> u8 list \<Rightarrow> u8 list \<Rightarrow> u32 \<Rightarrow> u32 \<Rightarrow> bool \<Rightarrow> ('p, bool) state" where
  "floppy_write io garbage buffer address count preserve =
     State (floppy_write_loop (floppy_read_lba io) (floppy_write_lba io) preserve address count (address div 512) garbage buffer)"

end
