(* ===== verification/Vfs.thy ===== *)
theory Vfs
  imports Prelude "HOL-Library.Monad_Syntax"
begin

section \<open>The virtual file system (vfs.c, vfs.h)\<close>

text \<open>
  The mount tree, path resolution, and the operations that walk a path across mounted drivers.
  The nodes that \<^verbatim>\<open>vfs_mknode\<close> allocates are the entries of a list, in the order of their
  allocation, and a \<^verbatim>\<open>vNode*\<close> is an index into it; index 0 is \<^verbatim>\<open>vfs_root_node\<close>.  A driver is
  a number, and a table of records of functions stands for what the pointers in
  \<^verbatim>\<open>FilesystemDriver\<close> lead to.  Driver functions act on a world \<open>'w\<close> that holds whatever the
  drivers keep (their state objects, the disk); a \<^verbatim>\<open>vRef\<close> carries a pointer into it.

  Every operation returns an option: \<open>None\<close> stands for what C leaves undefined (a null pointer
  dereference, an access past an array) and for \<^verbatim>\<open>panic\<close>; a C error code is a value.
  Strings are without their terminator.  The \<^verbatim>\<open>kprintf\<close> traces are left out.
\<close>

abbreviation (input) FILE_MAX_NAME :: nat where "FILE_MAX_NAME \<equiv> 256"
abbreviation (input) PATH_MAX_RESOLVES :: int where "PATH_MAX_RESOLVES \<equiv> 64"

abbreviation (input) SEEK_SET :: int where "SEEK_SET \<equiv> 0"
abbreviation (input) SEEK_CUR :: int where "SEEK_CUR \<equiv> 1"
abbreviation (input) SEEK_END :: int where "SEEK_END \<equiv> 2"

abbreviation (input) OPEN_WRONLY :: u32 where "OPEN_WRONLY \<equiv> 0x00001"
abbreviation (input) OPEN_RDWR :: u32 where "OPEN_RDWR \<equiv> 0x00002"
abbreviation (input) OPEN_CREAT :: u32 where "OPEN_CREAT \<equiv> 0x00040"
abbreviation (input) OPEN_APPEND :: u32 where "OPEN_APPEND \<equiv> 0x00400"
abbreviation (input) OPEN_DIRECTORY :: u32 where "OPEN_DIRECTORY \<equiv> 0x10000"
abbreviation (input) OPEN_NOFOLLOW :: u32 where "OPEN_NOFOLLOW \<equiv> 0x20000"

abbreviation (input) LINUX_ENOENT :: int where "LINUX_ENOENT \<equiv> 2"
abbreviation (input) LINUX_EIO :: int where "LINUX_EIO \<equiv> 5"
abbreviation (input) LINUX_EBADF :: int where "LINUX_EBADF \<equiv> 9"
abbreviation (input) LINUX_EINVAL :: int where "LINUX_EINVAL \<equiv> 22"
abbreviation (input) LINUX_EMFILE :: int where "LINUX_EMFILE \<equiv> 24"
abbreviation (input) LINUX_EROFS :: int where "LINUX_EROFS \<equiv> 30"
abbreviation (input) LINUX_ENAMETOOLONG :: int where "LINUX_ENAMETOOLONG \<equiv> 36"
abbreviation (input) LINUX_ELOOP :: int where "LINUX_ELOOP \<equiv> 40"

definition vfs_iswriteable :: "u32 \<Rightarrow> bool" where
  "vfs_iswriteable open_flags \<longleftrightarrow> open_flags AND OPEN_RDWR \<noteq> 0 \<or> open_flags AND OPEN_WRONLY \<noteq> 0"

definition vfs_isreadable :: "u32 \<Rightarrow> bool" where
  "vfs_isreadable open_flags \<longleftrightarrow> open_flags AND OPEN_RDWR \<noteq> 0 \<or> \<not> (open_flags AND OPEN_WRONLY \<noteq> 0)"

subsection \<open>Data\<close>

record vnode =
  n_sibling :: "nat option"
  n_child :: "nat option"
  n_parent :: nat
  n_driver :: "nat option"
  n_name :: string

record vref =
  r_node :: nat
  r_offset :: int
  r_driver :: "nat option"
  r_state :: "nat option"

datatype ventry_type = DT_UNKNOWN | DT_FIFO | DT_CHR | DT_DIR | DT_BLK | DT_REG | DT_LNK | DT_SOCK | DT_WHT

record ventry =
  ve_seek_offset :: u32
  ve_name_length :: u32
  ve_name :: string
  ve_type :: ventry_type

record vstat =
  vs_size :: u32
  vs_atime :: u32
  vs_mtime :: u32
  vs_blocks :: u32
  vs_writtable :: bool
  vs_type :: ventry_type

record vpath =
  p_string :: string
  p_offset :: nat
  p_resolves :: int
  p_errno :: int

text \<open>
  The function pointers of \<^verbatim>\<open>FilesystemDriver\<close>, in two records: the ones the path walk uses, and
  the rest.  Each returns its result code, the \<^verbatim>\<open>vRef\<close> as it left it, its output and the world.
\<close>

record 'w nav_driver =
  d_identifier :: string
  d_root :: "vref \<Rightarrow> 'w \<Rightarrow> (int \<times> vref \<times> 'w) option"
  d_clone :: "vref \<Rightarrow> vref \<Rightarrow> 'w \<Rightarrow> (int \<times> vref \<times> 'w) option"
  d_open :: "vref \<Rightarrow> string \<Rightarrow> u32 \<Rightarrow> 'w \<Rightarrow> (int \<times> vref \<times> 'w) option"
  d_close :: "vref \<Rightarrow> 'w \<Rightarrow> (int \<times> vref \<times> 'w) option"
  d_lookup :: "vref \<Rightarrow> 'w \<Rightarrow> (int \<times> string \<times> 'w) option"

record 'w driver = "'w nav_driver" +
  d_read :: "vref \<Rightarrow> u32 \<Rightarrow> 'w \<Rightarrow> (int \<times> u8 list \<times> 'w) option"
  d_write :: "vref \<Rightarrow> u8 list \<Rightarrow> 'w \<Rightarrow> (int \<times> 'w) option"
  d_seek :: "vref \<Rightarrow> int \<Rightarrow> int \<Rightarrow> 'w \<Rightarrow> (int \<times> 'w) option"
  d_list :: "vref \<Rightarrow> int \<Rightarrow> 'w \<Rightarrow> (int \<times> ventry list \<times> 'w) option"
  d_mkdir :: "vref \<Rightarrow> string \<Rightarrow> 'w \<Rightarrow> (int \<times> 'w) option"
  d_remove :: "vref \<Rightarrow> bool \<Rightarrow> 'w \<Rightarrow> (int \<times> 'w) option"
  d_stat :: "vref \<Rightarrow> 'w \<Rightarrow> (int \<times> vstat option \<times> 'w) option"
  d_readlink :: "vref \<Rightarrow> string \<Rightarrow> int \<Rightarrow> 'w \<Rightarrow> (int \<times> string \<times> 'w) option"

subsection \<open>Path resolution\<close>

definition string_at :: "string \<Rightarrow> nat \<Rightarrow> char" where
  "string_at s i = (if i < length s then s ! i else CHR 0x00)"

text \<open>
  The name loop: the buffer filled so far (its length is the index \<^verbatim>\<open>i\<close>), the offset and the
  error code.
\<close>

function vfs_resolve_loop :: "string \<Rightarrow> nat \<Rightarrow> string \<Rightarrow> int \<Rightarrow> string \<times> nat \<times> int" where
  "vfs_resolve_loop s off buffer errno =
     (if length buffer \<ge> FILE_MAX_NAME - 1 then (buffer, off, LINUX_ENAMETOOLONG)
      else
        let chr = string_at s off in
        if chr = CHR ''/'' \<or> chr = CHR 0x00 then (buffer, off, errno)
        else vfs_resolve_loop s (off + 1) (buffer @ [chr]) errno)"
  by pat_completeness auto
termination
  by (relation "measure (\<lambda>(s, off, buffer, errno). FILE_MAX_NAME - length buffer)") auto

declare vfs_resolve_loop.simps [simp del]

text \<open>The result is the returned flag, the buffer and the updated path.\<close>

definition vfs_resolve :: "vpath \<Rightarrow> bool \<times> string \<times> vpath" where
  "vfs_resolve path =
     (let off = (if string_at (p_string path) (p_offset path) = CHR ''/''
                 then p_offset path + 1 else p_offset path);
          path = path\<lparr>p_offset := off\<rparr> in
      if string_at (p_string path) off = CHR 0x00 then (False, [], path)
      else (case vfs_resolve_loop (p_string path) off [] (p_errno path) of
              (buffer, off', errno) \<Rightarrow>
                (True, buffer, path\<lparr>p_offset := off', p_errno := errno, p_resolves := p_resolves path + 1\<rparr>)))"

lemma vfs_resolve_loop_progress:
  "vfs_resolve_loop s off buffer errno = (b, off', e) \<Longrightarrow> off \<le> length s \<Longrightarrow> off \<le> off' \<and> off' \<le> length s"
proof (induction s off buffer errno rule: vfs_resolve_loop.induct)
  case (1 s off buffer errno)
  show ?case
  proof (cases "length buffer \<ge> FILE_MAX_NAME - 1 \<or> string_at s off = CHR ''/'' \<or> string_at s off = CHR 0x00")
    case True
    with "1.prems" show ?thesis by (auto simp: vfs_resolve_loop.simps [of s off] Let_def split: if_splits)
  next
    case False
    then have "off < length s" by (auto simp: string_at_def split: if_splits)
    with "1.IH" "1.prems" False show ?thesis
      by (auto simp: vfs_resolve_loop.simps [of s off] Let_def split: if_splits)
  qed
qed

text \<open>Each successful step moves on, so the loops over a path end.\<close>

lemma vfs_resolve_progress:
  assumes "vfs_resolve p = (True, buffer, p')"
  shows "p_string p' = p_string p" "p_offset p < p_offset p'" "p_offset p' \<le> length (p_string p)"
    "p_resolves p' = p_resolves p + 1"
proof -
  let ?s = "p_string p"
  define off where "off = (if string_at ?s (p_offset p) = CHR ''/'' then p_offset p + 1 else p_offset p)"
  obtain b off' e where l: "vfs_resolve_loop ?s off [] (p_errno p) = (b, off', e)"
    by (cases "vfs_resolve_loop ?s off [] (p_errno p)")
  have n0: "string_at ?s off \<noteq> CHR 0x00" and p': "p' = p\<lparr>p_offset := off', p_errno := e, p_resolves := p_resolves p + 1\<rparr>"
    using assms l by (auto simp: vfs_resolve_def Let_def off_def split: if_splits prod.splits)
  then have in_s: "off < length ?s" by (auto simp: string_at_def split: if_splits)
  note prog = vfs_resolve_loop_progress [OF l less_imp_le [OF in_s]]
  have "p_offset p < off'"
  proof (cases "string_at ?s (p_offset p) = CHR ''/''")
    case True
    with prog show ?thesis by (simp add: off_def)
  next
    case False
    then have "off = p_offset p" by (simp add: off_def)
    with False n0 have "vfs_resolve_loop ?s off [] (p_errno p) = vfs_resolve_loop ?s (off + 1) [string_at ?s off] (p_errno p)"
      by (simp add: vfs_resolve_loop.simps [of ?s "p_offset p" "[]"] Let_def)
    with l vfs_resolve_loop_progress [of ?s "off + 1" "[string_at ?s off]" "p_errno p" b off' e] in_s
    have "off + 1 \<le> off'" by simp
    then show ?thesis using False by (simp add: off_def)
  qed
  with prog p' show "p_string p' = p_string p" "p_offset p < p_offset p'" "p_offset p' \<le> length (p_string p)"
    "p_resolves p' = p_resolves p + 1" by auto
qed

lemma vfs_resolve_measure:
  "(True, buffer, p') = vfs_resolve p \<Longrightarrow>
    length (p_string p') - p_offset p' < length (p_string p) - p_offset p"
  using vfs_resolve_progress [of p buffer p'] by simp

subsection \<open>The mount tree\<close>

text \<open>The static variables, as \<^verbatim>\<open>vfs_init\<close> sets them (static storage starts as zero).\<close>

definition vfs_init :: "vnode list" where
  "vfs_init = [\<lparr>n_sibling = None, n_child = None, n_parent = 0, n_driver = None, n_name = ''root''\<rparr>]"

definition vfs_root :: vref where
  "vfs_root = \<lparr>r_node = 0, r_offset = 0, r_driver = None, r_state = None\<rparr>"

definition vfs_mknode :: "vnode list \<Rightarrow> nat \<Rightarrow> string \<Rightarrow> vnode list \<times> nat" where
  "vfs_mknode nodes parent name =
     (nodes @ [\<lparr>n_sibling = None, n_child = None, n_parent = parent, n_driver = None, n_name = name\<rparr>],
      length nodes)"

text \<open>
  \<^verbatim>\<open>vfs_findchld\<close>: 1 and the child of that name, or 0 and the last child.  The fuel bounds
  the walk along the siblings; a walk of more steps than there are nodes would not end.
\<close>

fun vfs_findchld_loop :: "vnode list \<Rightarrow> nat \<Rightarrow> nat \<Rightarrow> string \<Rightarrow> (int \<times> nat) option" where
  "vfs_findchld_loop nodes 0 child name = None"
| "vfs_findchld_loop nodes (Suc fuel) child name =
     (if n_name (nodes ! child) = name then Some (1, child)
      else (case n_sibling (nodes ! child) of
              Some s \<Rightarrow> vfs_findchld_loop nodes fuel s name
            | None \<Rightarrow> Some (0, child)))"

definition vfs_findchld :: "vnode list \<Rightarrow> nat \<Rightarrow> string \<Rightarrow> (int \<times> nat) option" where
  "vfs_findchld nodes node name =
     (case n_child (nodes ! node) of
        None \<Rightarrow> None
      | Some child \<Rightarrow> vfs_findchld_loop nodes (length nodes) child name)"

function vfs_mount_loop :: "vnode list \<Rightarrow> nat \<Rightarrow> vpath \<Rightarrow> (vnode list \<times> nat) option" where
  "vfs_mount_loop nodes node vpth =
     (case vfs_resolve vpth of
        (False, _, _) \<Rightarrow> Some (nodes, node)
      | (True, buffer, vpth) \<Rightarrow>
          if n_child (nodes ! node) = None then
            (case vfs_mknode nodes node buffer of (nodes, vn) \<Rightarrow>
               vfs_mount_loop (nodes[node := (nodes ! node)\<lparr>n_child := Some vn\<rparr>]) vn vpth)
          else
            (case vfs_findchld nodes node buffer of
               None \<Rightarrow> None
             | Some (found, node) \<Rightarrow>
                 if found = 0 then
                   (case vfs_mknode nodes (n_parent (nodes ! node)) buffer of (nodes, vn) \<Rightarrow>
                      vfs_mount_loop (nodes[node := (nodes ! node)\<lparr>n_sibling := Some vn\<rparr>]) vn vpth)
                 else vfs_mount_loop nodes node vpth))"
  by pat_completeness auto
termination
  by (relation "measure (\<lambda>(nodes, node, vpth). length (p_string vpth) - p_offset vpth)")
     (auto simp: vfs_mknode_def dest: vfs_resolve_measure)

declare vfs_mount_loop.simps [simp del]

definition vfs_path :: "string \<Rightarrow> vpath" where
  "vfs_path path = \<lparr>p_string = path, p_offset = 0, p_resolves = 0, p_errno = 0\<rparr>"

definition vfs_mount :: "vnode list \<Rightarrow> string \<Rightarrow> nat \<Rightarrow> vnode list option" where
  "vfs_mount nodes path driver =
     (if string_at path 0 \<noteq> CHR ''/'' then None
      else do {
        (nodes, node) \<leftarrow> vfs_mount_loop nodes 0 (vfs_path path);
        Some (nodes[node := (nodes ! node)\<lparr>n_driver := Some driver\<rparr>])
      })"

subsection \<open>References\<close>

type_synonym ('w, 'z) drivers = "nat \<Rightarrow> ('w, 'z) nav_driver_scheme"

text \<open>
  \<^verbatim>\<open>vfs_update\<close>: the driver of the reference is made that of its node.  A node without a
  driver is a null pointer dereference.
\<close>

definition vfs_enable :: "vnode list \<Rightarrow> ('w, 'z) drivers \<Rightarrow> vref \<Rightarrow> 'w \<Rightarrow> (int \<times> vref \<times> 'w) option" where
  "vfs_enable nodes drv vref w =
     (case n_driver (nodes ! r_node vref) of
        None \<Rightarrow> None
      | Some d \<Rightarrow> d_root (drv d) (vref\<lparr>r_driver := Some d\<rparr>) w)"

definition vfs_update :: "vnode list \<Rightarrow> ('w, 'z) drivers \<Rightarrow> vref \<Rightarrow> 'w \<Rightarrow> (int \<times> vref \<times> 'w) option" where
  "vfs_update nodes drv vref w =
     (case r_driver vref of
        Some d \<Rightarrow>
          if r_driver vref \<noteq> n_driver (nodes ! r_node vref) then do {
            (res, vref, w) \<leftarrow> d_close (drv d) vref w;
            if res \<noteq> 0 then Some (res, vref, w) else vfs_enable nodes drv vref w
          }
          else Some (0, vref, w)
      | None \<Rightarrow> vfs_enable nodes drv vref w)"

definition vfs_refcpy :: "('w, 'z) drivers \<Rightarrow> vref \<Rightarrow> 'w \<Rightarrow> (vref \<times> 'w) option" where
  "vfs_refcpy drv src w =
     (let vref = \<lparr>r_node = r_node src, r_offset = r_offset src, r_driver = None, r_state = None\<rparr> in
      case r_driver src of
        None \<Rightarrow> Some (vref, w)
      | Some d \<Rightarrow> do {
          (_, vref, w) \<leftarrow> d_clone (drv d) (vref\<lparr>r_driver := Some d\<rparr>) src w;
          Some (vref, w)
        })"

text \<open>A call through the reference's own driver pointer.\<close>

definition vfs_driver_open :: "('w, 'z) drivers \<Rightarrow> vref \<Rightarrow> string \<Rightarrow> u32 \<Rightarrow> 'w \<Rightarrow> (int \<times> vref \<times> 'w) option" where
  "vfs_driver_open drv vref part flags w =
     (case r_driver vref of None \<Rightarrow> None | Some d \<Rightarrow> d_open (drv d) vref part flags w)"

definition vfs_update_open ::
  "vnode list \<Rightarrow> ('w, 'z) drivers \<Rightarrow> vref \<Rightarrow> string \<Rightarrow> u32 \<Rightarrow> 'w \<Rightarrow> (int \<times> vref \<times> 'w) option" where
  "vfs_update_open nodes drv vref part flags w =
     do {
       (res, vref, w) \<leftarrow> vfs_update nodes drv vref w;
       if res \<noteq> 0 then Some (res, vref, w) else vfs_driver_open drv vref part flags w
     }"

definition vfs_enter ::
  "vnode list \<Rightarrow> ('w, 'z) drivers \<Rightarrow> vref \<Rightarrow> string \<Rightarrow> u32 \<Rightarrow> 'w \<Rightarrow> (int \<times> vref \<times> 'w) option" where
  "vfs_enter nodes drv vref part flags w =
     (if part = ''.'' then Some (0, vref, w)
      else if part = ''..'' then
        (if r_offset vref > 0
         then vfs_update_open nodes drv (vref\<lparr>r_offset := i32 (r_offset vref - 1)\<rparr>) part flags w
         else vfs_update nodes drv (vref\<lparr>r_node := n_parent (nodes ! r_node vref)\<rparr>) w)
      else do {
        (found, node) \<leftarrow> (if r_offset vref = 0 then vfs_findchld nodes (r_node vref) part else Some (0, r_node vref));
        if found \<noteq> 0 then vfs_update nodes drv (vref\<lparr>r_node := node\<rparr>) w
        else vfs_update_open nodes drv (vref\<lparr>r_offset := i32 (r_offset vref + 1)\<rparr>) part flags w
      })"

subsection \<open>Opening a path\<close>

text \<open>
  The loop of \<^verbatim>\<open>vfs_open\<close>; \<open>back\<close> is \<open>None\<close> until the first round has set \<^verbatim>\<open>enter\<close>.  The two
  limits return their error code without the sign the other errors have.
\<close>

function vfs_open_loop ::
  "vnode list \<Rightarrow> ('w, 'z) drivers \<Rightarrow> vpath \<Rightarrow> string option \<Rightarrow> u32 \<Rightarrow> vref \<Rightarrow> 'w \<Rightarrow> (int \<times> vref \<times> 'w) option" where
  "vfs_open_loop nodes drv vpth back flags vref w =
     (case vfs_resolve vpth of
        (False, _, _) \<Rightarrow>
          (case back of None \<Rightarrow> Some (0, vref, w) | Some b \<Rightarrow> vfs_enter nodes drv vref b flags w)
      | (True, front, vpth) \<Rightarrow>
          if p_errno vpth \<noteq> 0 then Some (p_errno vpth, vref, w)
          else do {
            (res, vref, w) \<leftarrow>
              (case back of
                 None \<Rightarrow> Some (0, vref, w)
               | Some b \<Rightarrow> vfs_enter nodes drv vref b (OPEN_DIRECTORY OR (flags AND OPEN_NOFOLLOW)) w);
            if res \<noteq> 0 then Some (res, vref, w)
            else if p_resolves vpth > PATH_MAX_RESOLVES then Some (LINUX_ELOOP, vref, w)
            else vfs_open_loop nodes drv vpth (Some front) flags vref w
          })"
  by pat_completeness auto
termination
  by (relation "measure (\<lambda>(nodes, drv, vpth, back, flags, vref, w). length (p_string vpth) - p_offset vpth)")
     (auto dest: vfs_resolve_measure)

declare vfs_open_loop.simps [simp del]

definition vfs_open ::
  "vnode list \<Rightarrow> ('w, 'z) drivers \<Rightarrow> vref \<Rightarrow> string \<Rightarrow> u32 \<Rightarrow> 'w \<Rightarrow> (int \<times> vref \<times> 'w) option" where
  "vfs_open nodes drv relation path flags w =
     do {
       (vref, w) \<leftarrow> vfs_refcpy drv (if string_at path 0 = CHR ''/'' then vfs_root else relation) w;
       (_, vref, w) \<leftarrow> vfs_update nodes drv vref w;
       vfs_open_loop nodes drv (vfs_path path) None flags vref w
     }"

subsection \<open>Operations on an open reference\<close>

definition vfs_close :: "('w, 'z) drivers \<Rightarrow> vref \<Rightarrow> 'w \<Rightarrow> (int \<times> vref \<times> 'w) option" where
  "vfs_close drv vref w =
     (case r_driver vref of Some d \<Rightarrow> d_close (drv d) vref w | None \<Rightarrow> Some (0, vref, w))"

definition vfs_read :: "(nat \<Rightarrow> 'w driver) \<Rightarrow> vref \<Rightarrow> u32 \<Rightarrow> 'w \<Rightarrow> (int \<times> u8 list \<times> 'w) option" where
  "vfs_read drv vref count w =
     (case r_driver vref of Some d \<Rightarrow> d_read (drv d) vref count w | None \<Rightarrow> Some (0, [], w))"

definition vfs_write :: "(nat \<Rightarrow> 'w driver) \<Rightarrow> vref \<Rightarrow> u8 list \<Rightarrow> 'w \<Rightarrow> (int \<times> 'w) option" where
  "vfs_write drv vref buffer w =
     (case r_driver vref of Some d \<Rightarrow> d_write (drv d) vref buffer w | None \<Rightarrow> Some (0, w))"

definition vfs_seek :: "(nat \<Rightarrow> 'w driver) \<Rightarrow> vref \<Rightarrow> int \<Rightarrow> int \<Rightarrow> 'w \<Rightarrow> (int \<times> 'w) option" where
  "vfs_seek drv vref offset whence w =
     (if whence \<noteq> SEEK_CUR \<and> whence \<noteq> SEEK_END \<and> whence \<noteq> SEEK_SET then Some (- LINUX_EINVAL, w)
      else (case r_driver vref of Some d \<Rightarrow> d_seek (drv d) vref offset whence w | None \<Rightarrow> Some (0, w)))"

definition vfs_list :: "(nat \<Rightarrow> 'w driver) \<Rightarrow> vref \<Rightarrow> int \<Rightarrow> 'w \<Rightarrow> (int \<times> ventry list \<times> 'w) option" where
  "vfs_list drv vref max_entries w =
     (case r_driver vref of Some d \<Rightarrow> d_list (drv d) vref max_entries w | None \<Rightarrow> Some (0, [], w))"

definition vfs_mkdir :: "(nat \<Rightarrow> 'w driver) \<Rightarrow> vref \<Rightarrow> string \<Rightarrow> 'w \<Rightarrow> (int \<times> 'w) option" where
  "vfs_mkdir drv vref name w =
     (case r_driver vref of Some d \<Rightarrow> d_mkdir (drv d) vref name w | None \<Rightarrow> Some (0, w))"

definition vfs_remove :: "(nat \<Rightarrow> 'w driver) \<Rightarrow> vref \<Rightarrow> bool \<Rightarrow> 'w \<Rightarrow> (int \<times> 'w) option" where
  "vfs_remove drv vref rmdir w =
     (case r_driver vref of Some d \<Rightarrow> d_remove (drv d) vref rmdir w | None \<Rightarrow> Some (0, w))"

definition vfs_stat :: "(nat \<Rightarrow> 'w driver) \<Rightarrow> vref \<Rightarrow> 'w \<Rightarrow> (int \<times> vstat option \<times> 'w) option" where
  "vfs_stat drv vref w =
     (case r_driver vref of Some d \<Rightarrow> d_stat (drv d) vref w | None \<Rightarrow> Some (0, None, w))"

definition vfs_readlink :: "(nat \<Rightarrow> 'w driver) \<Rightarrow> vref \<Rightarrow> string \<Rightarrow> int \<Rightarrow> 'w \<Rightarrow> (int \<times> string \<times> 'w) option" where
  "vfs_readlink drv vref name count w =
     (case r_driver vref of Some d \<Rightarrow> d_readlink (drv d) vref name count w | None \<Rightarrow> Some (0, [], w))"

subsection \<open>Tracing a reference back to its path\<close>

text \<open>
  The first loop of \<^verbatim>\<open>vfs_trace\<close> runs from \<^verbatim>\<open>j = last\<close> down; \<open>slots\<close> is \<^verbatim>\<open>j + 1\<close> and \<open>names\<close>
  holds \<^verbatim>\<open>path[j + 1], ..., path[last]\<close>.
\<close>

fun vfs_trace_loop ::
  "vnode list \<Rightarrow> ('w, 'z) drivers \<Rightarrow> nat \<Rightarrow> string list \<Rightarrow> vref \<Rightarrow> 'w \<Rightarrow> (string list \<times> vref \<times> 'w) option" where
  "vfs_trace_loop nodes drv 0 names copy w = Some (names, copy, w)"
| "vfs_trace_loop nodes drv (Suc slots) names copy w =
     (if r_node copy = 0 \<and> r_offset copy = 0 then Some (names, copy, w)
      else do {
        (name, w) \<leftarrow>
          (case r_driver copy of
             None \<Rightarrow> Some (n_name (nodes ! r_node copy), w)
           | Some d \<Rightarrow> do {
               (res, buffer, w) \<leftarrow> d_lookup (drv d) copy w;
               Some (if res \<noteq> 0 then n_name (nodes ! r_node copy) else buffer, w)
             });
        (_, copy, w) \<leftarrow> vfs_enter nodes drv copy ''..'' 0 w;
        vfs_trace_loop nodes drv slots (name # names) copy w
      })"

text \<open>
  The second loop writes the names into \<^verbatim>\<open>output\<close>; the result is what stands there, from the
  first slash on, and the terminator follows it at the index that is its length.
\<close>

fun vfs_trace_output :: "int \<Rightarrow> string \<Rightarrow> string list \<Rightarrow> string" where
  "vfs_trace_output limit out [] = out"
| "vfs_trace_output limit out (name # names) =
     (if int (length out) + int (length name) \<ge> limit then out
      else vfs_trace_output limit (out @ name @ ''/'') names)"

definition vfs_trace ::
  "vnode list \<Rightarrow> ('w, 'z) drivers \<Rightarrow> vref \<Rightarrow> int \<Rightarrow> 'w \<Rightarrow> (string \<times> 'w) option" where
  "vfs_trace nodes drv vref limit w =
     do {
       (copy, w) \<leftarrow> vfs_refcpy drv vref w;
       (_, copy, w) \<leftarrow> vfs_update nodes drv copy w;
       (names, copy, w) \<leftarrow> vfs_trace_loop nodes drv (nat PATH_MAX_RESOLVES) [] copy w;
       (_, copy, w) \<leftarrow> vfs_close drv copy w;
       Some (vfs_trace_output limit ''/'' names, w)
     }"

end
