(* ===== verification/Fatfs.thy ===== *)
theory Fatfs
  imports FatOps Floppy Vfs
begin

section \<open>The FAT driver (fatfs.c)\<close>

text \<open>
  The driver joins three parts: the floppy driver below, the FAT operations, and the table of
  functions for the virtual file system above.  Its world holds what the code keeps: the device and
  the cache of the table, the static \<^verbatim>\<open>disk\<close>, and the allocated \<^verbatim>\<open>state_data\<close> blocks, which a \<^verbatim>\<open>vRef\<close>
  points to.  The two members of the union in \<^verbatim>\<open>state_data\<close> have one representation.
\<close>

abbreviation (input) LINUX_ENOTDIR :: int where "LINUX_ENOTDIR \<equiv> 20"
abbreviation (input) LINUX_EISDIR :: int where "LINUX_EISDIR \<equiv> 21"

record fatfs_state =
  st_is_dir :: bool
  st_file :: fat_file

record 'p fatfs_world =
  fw_fat :: "'p fat_world"
  fw_disk :: "'p fat_disk"
  fw_states :: "nat \<rightharpoonup> fatfs_state"
  fw_next :: nat

text \<open>The bytes of a name, and back.\<close>

definition name_bytes :: "string \<Rightarrow> u8 list" where
  "name_bytes s = List.map of_char s"

definition bytes_name :: "u8 list \<Rightarrow> string" where
  "bytes_name bs = List.map (\<lambda>b. char_of (unat b)) bs"

subsection \<open>The disk\<close>

text \<open>The two functions of the disk ignore the result of the floppy driver.\<close>

definition read_func :: "'p ports \<Rightarrow> u32 \<Rightarrow> u32 \<Rightarrow> ('p, u8 list) state" where
  "read_func io offset n = do { (ok, bytes) \<leftarrow> floppy_read io offset n; State_Monad.return bytes }"

definition write_func :: "'p ports \<Rightarrow> u8 list \<Rightarrow> u32 \<Rightarrow> u8 list \<Rightarrow> ('p, unit) state" where
  "write_func io garbage offset data =
     do { ok \<leftarrow> floppy_write io garbage data offset (word_of_nat (length data)) True; State_Monad.return () }"

subsection \<open>States\<close>

definition fatfs_alloc :: "fatfs_state \<Rightarrow> 'p fatfs_world \<Rightarrow> nat \<times> 'p fatfs_world" where
  "fatfs_alloc st w = (fw_next w, w\<lparr>fw_states := (fw_states w)(fw_next w \<mapsto> st), fw_next := fw_next w + 1\<rparr>)"

definition fatfs_deref :: "vref \<Rightarrow> 'p fatfs_world \<Rightarrow> (nat \<times> fatfs_state) option" where
  "fatfs_deref vref w = do { a \<leftarrow> r_state vref; st \<leftarrow> fw_states w a; Some (a, st) }"

definition fatfs_store :: "nat \<Rightarrow> fatfs_state \<Rightarrow> 'p fat_world \<Rightarrow> 'p fatfs_world \<Rightarrow> 'p fatfs_world" where
  "fatfs_store a st f w = w\<lparr>fw_states := (fw_states w)(a \<mapsto> st), fw_fat := f\<rparr>"

subsection \<open>The operations\<close>

definition fatfs_root :: "'p ports \<Rightarrow> u8 list \<Rightarrow> vref \<Rightarrow> 'p fatfs_world \<Rightarrow> (int \<times> vref \<times> 'p fatfs_world) option" where
  "fatfs_root io garbage dst w =
     (case run_state (floppy_init io) (w_dev (fw_fat w)) of
        (ok, p) \<Rightarrow>
          let f = (fw_fat w)\<lparr>w_dev := p\<rparr> in
          if \<not> ok then Some (- LINUX_EIO, dst, w\<lparr>fw_fat := f\<rparr>)
          else do {
            (res, disk, f) \<leftarrow> fat_init (fw_disk w) (read_func io) (write_func io garbage) f;
            let w = w\<lparr>fw_fat := f, fw_disk := disk\<rparr>;
            if res \<noteq> 0 then
              (case fatfs_alloc \<lparr>st_is_dir = True, st_file = fat_copy_DIR (d_root_directory disk)\<rparr> w of
                 (a, w) \<Rightarrow> Some (0, dst\<lparr>r_state := Some a\<rparr>, w))
            else Some (- LINUX_EIO, dst, w)
          })"

definition fatfs_clone :: "vref \<Rightarrow> vref \<Rightarrow> 'p fatfs_world \<Rightarrow> (int \<times> vref \<times> 'p fatfs_world) option" where
  "fatfs_clone dst src w =
     do {
       (_, st) \<leftarrow> fatfs_deref src w;
       (case fatfs_alloc st w of (a, w) \<Rightarrow> Some (0, dst\<lparr>r_state := Some a\<rparr>, w))
     }"

text \<open>The search fills the state of the reference also when it fails.\<close>

definition fatfs_open :: "vref \<Rightarrow> string \<Rightarrow> u32 \<Rightarrow> 'p fatfs_world \<Rightarrow> (int \<times> vref \<times> 'p fatfs_world) option" where
  "fatfs_open vref basename flags w =
     (case r_state vref of
        None \<Rightarrow> Some (- LINUX_EIO, vref, w)
      | Some _ \<Rightarrow> do {
          (a, st) \<leftarrow> fatfs_deref vref w;
          if \<not> st_is_dir st then Some (- LINUX_ENOTDIR, vref, w)
          else do {
            let parent_dir = st_file st;
            if flags AND OPEN_DIRECTORY \<noteq> 0 then do {
              (res, sub, parent_dir, f) \<leftarrow> fat_opendir (fw_disk w) parent_dir (name_bytes basename) (fw_fat w);
              let w = fatfs_store a (st\<lparr>st_file := sub\<rparr>) f w;
              Some (if res \<noteq> 0 then 0 else - LINUX_EIO, vref, w)
            }
            else do {
              let mode = (if flags AND OPEN_APPEND \<noteq> 0 then [0x61] else if flags AND OPEN_CREAT \<noteq> 0 then [0x77] else [0x72]);
              (res, opened, parent_dir, f) \<leftarrow> fat_fopen (fw_disk w) parent_dir (name_bytes basename) mode (fw_fat w);
              if res \<noteq> 0 then Some (0, vref, fatfs_store a \<lparr>st_is_dir = False, st_file = opened\<rparr> f w)
              else Some (- LINUX_EIO, vref, fatfs_store a (st\<lparr>st_file := opened\<rparr>) f w)
            }
          }
        })"

definition fatfs_close :: "vref \<Rightarrow> 'p fatfs_world \<Rightarrow> (int \<times> vref \<times> 'p fatfs_world) option" where
  "fatfs_close vref w =
     (case r_state vref of
        None \<Rightarrow> Some (0, vref, w)
      | Some a \<Rightarrow> Some (0, vref, w\<lparr>fw_states := (fw_states w)(a := None)\<rparr>))"

text \<open>
  The bytes delivered are those that the cursor moved over; \<^verbatim>\<open>fat_fread\<close> returns 1 always, so that the
  second \<^verbatim>\<open>LINUX_EIO\<close> is never returned.
\<close>

definition fatfs_read :: "vref \<Rightarrow> u32 \<Rightarrow> 'p fatfs_world \<Rightarrow> (int \<times> u8 list \<times> 'p fatfs_world) option" where
  "fatfs_read vref n w =
     do {
       (a, st) \<leftarrow> fatfs_deref vref w;
       if st_is_dir st then Some (- LINUX_EISDIR, [], w)
       else do {
         let cursor = fat_ftell (st_file st);
         (out, moved_file, f) \<leftarrow> fat_fread (fw_disk w) (replicate (unat n) 0) 1 n (st_file st) (fw_fat w);
         Some (i32 (fat_ftell moved_file - cursor), take (unat (f_cursor moved_file - f_cursor (st_file st))) out,
               fatfs_store a (st\<lparr>st_file := moved_file\<rparr>) f w)
       }
     }"

definition fatfs_write :: "vref \<Rightarrow> u8 list \<Rightarrow> 'p fatfs_world \<Rightarrow> (int \<times> 'p fatfs_world) option" where
  "fatfs_write vref buffer w =
     do {
       (a, st) \<leftarrow> fatfs_deref vref w;
       if st_is_dir st then Some (- LINUX_EISDIR, w)
       else do {
         let cursor = fat_ftell (st_file st);
         (res, moved_file, f) \<leftarrow> fat_fwrite (fw_disk w) buffer 1 (word_of_nat (length buffer)) (st_file st) (fw_fat w);
         let w = fatfs_store a (st\<lparr>st_file := moved_file\<rparr>) f w;
         Some (if res \<noteq> 0 then i32 (fat_ftell moved_file - cursor) else - LINUX_EIO, w)
       }
     }"

definition fatfs_seek :: "vref \<Rightarrow> int \<Rightarrow> int \<Rightarrow> 'p fatfs_world \<Rightarrow> (int \<times> 'p fatfs_world) option" where
  "fatfs_seek vref offset whence w =
     do {
       (a, st) \<leftarrow> fatfs_deref vref w;
       let (res, moved_file) = (if st_is_dir st then fat_dirseek (st_file st) offset whence
                                else (1, fat_fseek (st_file st) offset whence));
       let w = fatfs_store a (st\<lparr>st_file := moved_file\<rparr>) (fw_fat w) w;
       Some (if res \<noteq> 0 then sint (f_cursor moved_file) else - LINUX_EIO, w)
     }"

text \<open>The two pointers that \<^verbatim>\<open>fat_readdir\<close> is given here are never set, which is undefined once an entry is asked for.\<close>

definition fatfs_list :: "vref \<Rightarrow> int \<Rightarrow> 'p fatfs_world \<Rightarrow> (int \<times> ventry list \<times> 'p fatfs_world) option" where
  "fatfs_list vref max_entries w =
     do {
       (a, st) \<leftarrow> fatfs_deref vref w;
       if st_is_dir st then
         (if max_entries > 0 then None
          else Some (0, [], fatfs_store a (st\<lparr>st_file := fat_rewinddir (st_file st)\<rparr>) (fw_fat w) w))
       else Some (- LINUX_EIO, [], w)
     }"

definition fatfs_mkdir :: "vref \<Rightarrow> string \<Rightarrow> 'p fatfs_world \<Rightarrow> (int \<times> 'p fatfs_world) option" where
  "fatfs_mkdir vref name w =
     do {
       (a, st) \<leftarrow> fatfs_deref vref w;
       if \<not> st_is_dir st then Some (- LINUX_ENOTDIR, w)
       else do {
         (res, new_dir, parent_dir, f) \<leftarrow> fat_create_dir (fw_disk w) (st_file st) (name_bytes name) 0 (fw_fat w);
         let w = fatfs_store a (st\<lparr>st_file := parent_dir\<rparr>) f w;
         Some (if res \<noteq> 0 then 0 else - LINUX_EROFS, w)
       }
     }"

definition fatfs_remove :: "vref \<Rightarrow> bool \<Rightarrow> 'p fatfs_world \<Rightarrow> (int \<times> 'p fatfs_world) option" where
  "fatfs_remove vref rmdir w =
     do {
       (a, st) \<leftarrow> fatfs_deref vref w;
       if st_is_dir st \<and> \<not> rmdir then Some (- LINUX_EISDIR, w)
       else do {
         (res, removed, f) \<leftarrow> (if st_is_dir st then fat_dirremove (fw_disk w) (st_file st) (fw_fat w)
                               else fat_fremove (fw_disk w) (st_file st) (fw_fat w));
         let w = fatfs_store a (st\<lparr>st_file := removed\<rparr>) f w;
         Some (if res \<noteq> 0 then 0 else - LINUX_EIO, w)
       }
     }"

definition fatfs_stat :: "vref \<Rightarrow> 'p fatfs_world \<Rightarrow> (int \<times> vstat option \<times> 'p fatfs_world) option" where
  "fatfs_stat vref w =
     do {
       (a, st) \<leftarrow> fatfs_deref vref w;
       let bytes = bytes_per_sector (fw_disk w);
       let dir = f_dir (st_file st);
       if bytes = 0 then None
       else Some (0, Some \<lparr>vs_size = DIR_FileSize dir, vs_atime = 0, vs_mtime = 0,
                           vs_blocks = (DIR_FileSize dir + bytes - 1) div bytes,
                           vs_writtable = (DIR_Attr dir AND fat_ATTR_READ_ONLY = 0),
                           vs_type = (if st_is_dir st then DT_DIR else DT_REG)\<rparr>, w)
     }"

definition fatfs_readlink :: "vref \<Rightarrow> string \<Rightarrow> int \<Rightarrow> 'p fatfs_world \<Rightarrow> (int \<times> string \<times> 'p fatfs_world) option" where
  "fatfs_readlink vref name n w =
     do {
       (res, bytes, w) \<leftarrow> fatfs_read vref (word_of_int n) w;
       Some (res, bytes_name bytes, w)
     }"

definition fatf_lookup :: "vref \<Rightarrow> 'p fatfs_world \<Rightarrow> (int \<times> string \<times> 'p fatfs_world) option" where
  "fatf_lookup vref w =
     do {
       (a, st) \<leftarrow> fatfs_deref vref w;
       if st_is_dir st \<and> DIR_FstClusLO (f_dir (st_file st)) \<le> 2 then Some (- 1, [], w)
       else do {
         name \<leftarrow> fat_longname_to_string (f_long_filename (st_file st));
         Some (0, bytes_name name, w)
       }
     }"

text \<open>\<^verbatim>\<open>fatfs_load\<close> sets every function but \<^verbatim>\<open>lookup\<close>, which stays what it was in the structure it is given.\<close>

definition fatfs_load :: "'p ports \<Rightarrow> u8 list \<Rightarrow> 'p fatfs_world driver \<Rightarrow> 'p fatfs_world driver" where
  "fatfs_load io garbage driver = driver\<lparr>
     d_identifier := ''FatFS'' @ drop 5 (d_identifier driver), d_root := fatfs_root io garbage, d_clone := fatfs_clone,
     d_open := fatfs_open, d_close := fatfs_close, d_read := fatfs_read, d_write := fatfs_write, d_seek := fatfs_seek,
     d_list := fatfs_list, d_mkdir := fatfs_mkdir, d_remove := fatfs_remove, d_stat := fatfs_stat,
     d_readlink := fatfs_readlink\<rparr>"

end
