(* ===== verification/FloppyDisk.thy ===== *)
theory FloppyDisk
  imports Floppy
begin

section \<open>Byte ranges on a sector device\<close>

text \<open>
  \<^verbatim>\<open>floppy_read\<close> and \<^verbatim>\<open>floppy_write\<close> rest on two operations on sectors.  Their contract is a
  locale; on top of it, reading a range delivers exactly its bytes and a preserving write changes
  exactly its bytes.
\<close>

locale sector_device =
  fixes rd :: "u32 \<Rightarrow> ('p, bool \<times> u8 list) state"
    and wr :: "u32 \<Rightarrow> (nat \<Rightarrow> u8) \<Rightarrow> ('p, bool) state"
    and disk :: "'p \<Rightarrow> nat \<Rightarrow> u8 list"
    and idle :: "'p \<Rightarrow> bool"
    and sectors :: nat
  assumes sector_size: "idle p \<Longrightarrow> length (disk p n) = 512"
    and rd_sector: "idle p \<Longrightarrow> unat lba < sectors \<Longrightarrow>
      \<exists>p'. run_state (rd lba) p = ((True, disk p (unat lba)), p') \<and> idle p' \<and> disk p' = disk p"
    and wr_sector: "idle p \<Longrightarrow> unat lba < sectors \<Longrightarrow> length b = 512 \<Longrightarrow> \<forall>i < 512. f i = b ! i \<Longrightarrow>
      \<exists>p'. run_state (wr lba f) p = (True, p') \<and> idle p' \<and> disk p' = (disk p)(unat lba := b)"
begin

definition byte :: "'p \<Rightarrow> nat \<Rightarrow> u8" where
  "byte p a = disk p (a div 512) ! (a mod 512)"

lemma byte_sector: "j < 512 \<Longrightarrow> byte p (512 * n + j) = disk p n ! j"
  by (simp add: byte_def)

lemma sector_part:
  assumes "idle p" "start \<le> stop" "stop \<le> 512"
  shows "take (stop - start) (drop start (disk p n)) = List.map (byte p) [512 * n + start..<512 * n + stop]"
proof (rule nth_equalityI)
  fix i assume "i < length (take (stop - start) (drop start (disk p n)))"
  then have "start + i < 512" "i < stop - start" using assms sector_size [OF assms(1), of n] by auto
  then show "take (stop - start) (drop start (disk p n)) ! i = List.map (byte p) [512 * n + start..<512 * n + stop] ! i"
    using byte_sector [of "start + i" p n] assms sector_size [OF assms(1), of n] by (simp add: add.assoc)
qed (use assms sector_size [OF assms(1), of n] in simp)

end

text \<open>The range of one round, in addresses: \<open>lo\<close> to \<open>hi\<close>.\<close>

lemma floppy_range:
  fixes address count :: u32
  assumes fit: "unat address + unat count < 2 ^ 32"
    and L: "unat address div 512 \<le> L" "L \<le> (unat address + unat count) div 512" "unat lba = L"
  defines "lo \<equiv> max (unat address) (512 * L)"
    and "hi \<equiv> min (unat address + unat count) (512 * (L + 1))"
  shows "512 * L + floppy_start address lba = lo" "512 * L + floppy_end address count lba = hi"
    "floppy_start address lba \<le> floppy_end address count lba" "floppy_end address count lba \<le> 512"
    "lba \<le> (address + count) div 512" "lo \<le> hi" "hi \<le> unat address + unat count"
    "L < (unat address + unat count) div 512 \<Longrightarrow> hi = max (unat address) (512 * (L + 1))"
    "L = (unat address + unat count) div 512 \<Longrightarrow> hi = unat address + unat count"
proof -
  have sum: "unat (address + count) = unat address + unat count"
    using fit by (simp add: unat_word_ariths)
  have e: "unat ((address + count) div 512) = (unat address + unat count) div 512" by (simp add: unat_div sum)
  have s: "unat (address div 512) = unat address div 512" by (simp add: unat_div)
  have eqs: "lba = address div 512 \<longleftrightarrow> L = unat address div 512"
    "lba = (address + count) div 512 \<longleftrightarrow> L = (unat address + unat count) div 512"
    using s e L(3) by (auto simp: word_unat_eq_iff)
  show start: "512 * L + floppy_start address lba = lo"
  proof (cases "L = unat address div 512")
    case True
    have "512 * (unat address div 512) + unat address mod 512 = unat address" by (rule mult_div_mod_eq)
    with True show ?thesis by (simp add: floppy_start_def eqs lo_def unat_mod)
  next
    case False
    with L(1) show ?thesis by (auto simp: floppy_start_def eqs lo_def)
  qed
  show stop: "512 * L + floppy_end address count lba = hi"
  proof (cases "L = (unat address + unat count) div 512")
    case True
    have "512 * ((unat address + unat count) div 512) + (unat address + unat count) mod 512 = unat address + unat count"
      by (rule mult_div_mod_eq)
    moreover have "(unat address + unat count) mod 512 < 512" by simp
    ultimately show ?thesis using True by (simp add: floppy_end_def eqs hi_def unat_mod sum)
  next
    case False
    with L(2) show ?thesis by (auto simp: floppy_end_def eqs hi_def)
  qed
  show "lba \<le> (address + count) div 512" using L(2,3) e by (simp add: word_le_nat_alt)
  show lohi: "lo \<le> hi" using L(1,2) by (auto simp: lo_def hi_def)
  show "floppy_start address lba \<le> floppy_end address count lba" using start stop lohi by linarith
  show "floppy_end address count lba \<le> 512" using stop by (simp add: hi_def)
  show "hi \<le> unat address + unat count" by (simp add: hi_def)
  show "L < (unat address + unat count) div 512 \<Longrightarrow> hi = max (unat address) (512 * (L + 1))"
    using L(1) by (auto simp: hi_def)
  show "L = (unat address + unat count) div 512 \<Longrightarrow> hi = unat address + unat count"
    by (auto simp: hi_def)
qed

context sector_device
begin

lemma read_loop_range:
  fixes address count :: u32
  assumes fit: "unat address + unat count < 2 ^ 32" "unat address + unat count < 512 * sectors"
  shows "unat address div 512 \<le> L \<Longrightarrow> L \<le> (unat address + unat count) div 512 \<Longrightarrow> unat lba = L \<Longrightarrow> idle p \<Longrightarrow>
    \<exists>p'. floppy_read_loop rd address count lba out p =
      ((True, out @ List.map (byte p) [max (unat address) (512 * L)..<unat address + unat count]), p') \<and>
      idle p' \<and> disk p' = disk p"
proof (induction "(unat address + unat count) div 512 - L" arbitrary: L lba out p)
  case 0
  then have last: "L = (unat address + unat count) div 512" by simp
  note r = floppy_range [OF fit(1) "0.prems"(1-3)]
  have "unat lba < sectors" using "0.prems"(3) last fit(2) by simp
  then obtain p' where rd: "run_state (rd lba) p = ((True, disk p L), p')" "idle p'" "disk p' = disk p"
    using rd_sector [OF "0.prems"(4)] "0.prems"(3) by blast
  have e: "unat ((address + count) div 512) = L"
    using fit(1) last by (simp add: unat_div unat_word_ariths)
  then have "\<not> lba + 1 \<le> (address + count) div 512"
    using floppy_loop_step [OF r(5)] "0.prems"(3) by (simp add: word_le_nat_alt)
  with rd r show ?case
    using sector_part [OF "0.prems"(4) r(3,4), of L] last
    by (auto simp: floppy_read_loop.simps [of rd address count lba] floppy_read_loop.simps [of rd address count "lba + 1"] Let_def)
next
  case (Suc k)
  then have less: "L < (unat address + unat count) div 512" by simp
  note r = floppy_range [OF fit(1) Suc.prems(1-3)]
  have "unat lba < sectors" using Suc.prems(3) less fit(2) by simp
  then obtain p' where rd: "run_state (rd lba) p = ((True, disk p L), p')" "idle p'" "disk p' = disk p"
    using rd_sector [OF Suc.prems(4)] Suc.prems(3) by blast
  let ?out = "out @ List.map (byte p) [max (unat address) (512 * L)..<max (unat address) (512 * (L + 1))]"
  have step: "floppy_read_loop rd address count lba out p = floppy_read_loop rd address count (lba + 1) ?out p'"
    using rd r sector_part [OF Suc.prems(4) r(3,4), of L] less
    by (simp add: floppy_read_loop.simps [of rd address count lba] Let_def algebra_simps)
  have next_lba: "unat (lba + 1) = L + 1" using floppy_loop_step [OF r(5)] Suc.prems(3) by simp
  have k: "k = (unat address + unat count) div 512 - (L + 1)" using Suc.hyps(2) by simp
  have "byte p' = byte p" by (simp add: byte_def fun_eq_iff rd(3))
  then obtain p'' where "floppy_read_loop rd address count (lba + 1) ?out p' =
      ((True, ?out @ List.map (byte p) [max (unat address) (512 * (L + 1))..<unat address + unat count]), p'')"
    "idle p''" "disk p'' = disk p"
    using Suc.hyps(1) [OF k _ _ next_lba rd(2), of ?out] Suc.prems(1) less rd(3) by auto
  moreover have "[max (unat address) (512 * L)..<max (unat address) (512 * (L + 1))] @
      [max (unat address) (512 * (L + 1))..<unat address + unat count] = [max (unat address) (512 * L)..<unat address + unat count]"
  proof -
    have "max (unat address) (512 * (L + 1)) \<le> unat address + unat count" using r(7,8) less by simp
    moreover have "max (unat address) (512 * L) \<le> max (unat address) (512 * (L + 1))" by auto
    ultimately show ?thesis by (metis le_Suc_ex upt_add_eq_append)
  qed
  ultimately show ?case unfolding step by (metis (no_types, lifting) append.assoc map_append)
qed

lemma read_range:
  assumes "idle p" "unat address + unat count < 2 ^ 32" "unat address + unat count < 512 * sectors"
  shows "\<exists>p'. floppy_read_loop rd address count (address div 512) [] p =
      ((True, List.map (byte p) [unat address..<unat address + unat count]), p') \<and> idle p' \<and> disk p' = disk p"
proof -
  have "512 * (unat address div 512) \<le> unat address" by simp
  then have "max (unat address) (512 * (unat address div 512)) = unat address" by simp
  with read_loop_range [OF assms(2,3) order.refl _ _ assms(1), of "address div 512" "[]"]
  show ?thesis by (simp add: unat_div div_le_mono)
qed

lemma write_sector_part:
  assumes p: "idle p" and p': "idle p'" "disk p' = (disk p)(L := take start (disk p L) @ take (stop - start) input @ drop (max start stop) (disk p L))"
    and b: "start \<le> stop" "stop \<le> 512" "stop - start \<le> length input"
  shows "byte p' a = (if 512 * L + start \<le> a \<and> a < 512 * L + stop then input ! (a - (512 * L + start)) else byte p a)"
proof (cases "a div 512 = L")
  case True
  then have a: "a = 512 * L + a mod 512" by (metis mult_div_mod_eq)
  then obtain j where j: "a = 512 * L + j" "j < 512" by (metis mod_less_divisor zero_less_numeral)
  have "length (disk p L) = 512" using sector_size [OF p] .
  moreover have "byte p' a = (take start (disk p L) @ take (stop - start) input @ drop (max start stop) (disk p L)) ! j"
    using byte_sector [OF j(2)] j(1) p'(2) by simp
  moreover have "byte p a = disk p L ! j" using byte_sector [OF j(2)] j(1) by simp
  ultimately show ?thesis using b j by (auto simp: nth_append)
next
  case False
  then have "\<not> (512 * L + start \<le> a \<and> a < 512 * L + stop)"
  proof (rule contrapos_nn)
    assume "512 * L + start \<le> a \<and> a < 512 * L + stop"
    then have "512 * L \<le> a" "a < 512 * (L + 1)" using b(2) by auto
    then show "a div 512 = L" by (simp add: div_nat_eqI)
  qed
  moreover have "byte p' a = byte p a" using False by (simp add: byte_def p'(2))
  ultimately show ?thesis by (simp only: if_False)
qed

lemma write_round:
  fixes address count :: u32
  assumes fit: "unat address + unat count < 2 ^ 32" "unat address + unat count < 512 * sectors"
    and L: "unat address div 512 \<le> L" "L \<le> (unat address + unat count) div 512" "unat lba = L"
    and p: "idle p" and len: "length input = unat address + unat count - max (unat address) (512 * L)"
  defines "hi \<equiv> min (unat address + unat count) (512 * (L + 1))"
  shows "\<exists>tmp' p'. floppy_write_loop rd wr True address count lba tmp input p =
      floppy_write_loop rd wr True address count (lba + 1) tmp' (drop (hi - max (unat address) (512 * L)) input) p' \<and>
      idle p' \<and> (\<forall>a. byte p' a = (if max (unat address) (512 * L) \<le> a \<and> a < hi
        then input ! (a - max (unat address) (512 * L)) else byte p a))"
proof -
  note r = floppy_range [OF fit(1) L, folded hi_def]
  have in_disk: "unat lba < sectors" using L(2,3) fit(2) by simp
  let ?start = "floppy_start address lba" and ?stop = "floppy_end address count lba"
  let ?tmp = "take ?start (disk p L) @ take (?stop - ?start) input @ drop (max ?start ?stop) (disk p L)"
  have diff: "?stop - ?start = hi - max (unat address) (512 * L)" using r(1,2) by linarith
  have enough: "?stop - ?start \<le> length input" unfolding len diff using r(7) by linarith
  obtain p1 where p1: "run_state (rd lba) p = ((True, disk p L), p1)" "idle p1" "disk p1 = disk p"
    using rd_sector [OF p in_disk] L(3) by blast
  have "length ?tmp = 512" using enough r(3,4) sector_size [OF p, of L] by simp
  then obtain p2 where p2: "run_state (wr lba (\<lambda>i. ?tmp ! i)) p1 = (True, p2)" "idle p2" "disk p2 = (disk p)(L := ?tmp)"
    using wr_sector [OF p1(2) in_disk, of ?tmp "\<lambda>i. ?tmp ! i"] L(3) p1(3) by auto
  have "floppy_write_loop rd wr True address count lba tmp input p =
      floppy_write_loop rd wr True address count (lba + 1) ?tmp (drop (?stop - ?start) input) p2"
    using r(5) p1(1) p2(1) by (subst floppy_write_loop.simps) (simp add: Let_def)
  with p2(2) write_sector_part [OF p p2(2,3) r(3,4) enough] show ?thesis
    unfolding diff r(1,2) by blast
qed

lemma write_loop_range:
  fixes address count :: u32
  assumes fit: "unat address + unat count < 2 ^ 32" "unat address + unat count < 512 * sectors"
  shows "unat address div 512 \<le> L \<Longrightarrow> L \<le> (unat address + unat count) div 512 \<Longrightarrow> unat lba = L \<Longrightarrow> idle p \<Longrightarrow>
    length input = unat address + unat count - max (unat address) (512 * L) \<Longrightarrow>
    \<exists>p'. floppy_write_loop rd wr True address count lba tmp input p = (True, p') \<and> idle p' \<and>
      (\<forall>a. byte p' a = (if max (unat address) (512 * L) \<le> a \<and> a < unat address + unat count
        then input ! (a - max (unat address) (512 * L)) else byte p a))"
proof (induction "(unat address + unat count) div 512 - L" arbitrary: L lba tmp input p)
  case 0
  then have last: "L = (unat address + unat count) div 512" by simp
  note r = floppy_range [OF fit(1) "0.prems"(1-3)]
  have "unat ((address + count) div 512) = L"
    using fit(1) last by (simp add: unat_div unat_word_ariths)
  then have "\<not> lba + 1 \<le> (address + count) div 512"
    using floppy_loop_step [OF r(5)] "0.prems"(3) by (simp add: word_le_nat_alt)
  then have stop: "floppy_write_loop rd wr True address count (lba + 1) tmp' input' p' = (True, p')" for tmp' input' p'
    by (simp add: floppy_write_loop.simps [of rd wr True address count "lba + 1"])
  show ?case
    using write_round [OF fit "0.prems", of tmp] unfolding stop r(9) [OF last] by blast
next
  case (Suc k)
  then have less: "L < (unat address + unat count) div 512" by simp
  note r = floppy_range [OF fit(1) Suc.prems(1-3)]
  let ?lo = "max (unat address) (512 * L)" and ?hi = "max (unat address) (512 * (L + 1))"
  have le: "?lo \<le> ?hi" "?hi \<le> unat address + unat count" using r(6-8) less by auto
  have k: "k = (unat address + unat count) div 512 - (L + 1)" using Suc.hyps(2) by simp
  have next_lba: "unat (lba + 1) = L + 1" using floppy_loop_step [OF r(5)] Suc.prems(3) by simp
  obtain tmp' p' where round: "floppy_write_loop rd wr True address count lba tmp input p =
      floppy_write_loop rd wr True address count (lba + 1) tmp' (drop (?hi - ?lo) input) p'" "idle p'"
    "\<And>a. byte p' a = (if ?lo \<le> a \<and> a < ?hi then input ! (a - ?lo) else byte p a)"
    using write_round [OF fit Suc.prems, of tmp] unfolding r(8) [OF less] by blast
  have bounds: "unat address div 512 \<le> L + 1" "L + 1 \<le> (unat address + unat count) div 512"
    using Suc.prems(1) less by simp_all
  have len: "length (drop (?hi - ?lo) input) = unat address + unat count - ?hi"
    unfolding length_drop Suc.prems(5) by (rule Nat.diff_diff_eq [OF order.trans [OF le] le(1)])
  obtain p'' where w: "floppy_write_loop rd wr True address count (lba + 1) tmp' (drop (?hi - ?lo) input) p' = (True, p'') \<and> idle p'' \<and>
      (\<forall>a. byte p'' a = (if ?hi \<le> a \<and> a < unat address + unat count then drop (?hi - ?lo) input ! (a - ?hi) else byte p' a))"
    using Suc.hyps(1) [OF k bounds next_lba round(2) len, of tmp'] by (rule exE)
  note rest = w [THEN conjunct2, THEN conjunct2, rule_format]
  have "byte p'' a = (if ?lo \<le> a \<and> a < unat address + unat count then input ! (a - ?lo) else byte p a)" for a
  proof (cases "?hi \<le> a \<and> a < unat address + unat count")
    case True
    then have "drop (?hi - ?lo) input ! (a - ?hi) = input ! (a - ?lo)"
      using Suc.prems(5) le by (subst nth_drop) auto
    then show ?thesis using True le rest by auto
  next
    case False
    then show ?thesis using le unfolding rest round(3) by auto
  qed
  then show ?case using round(1) w by (intro exI [of _ p'']) (simp only: simp_thms)
qed

lemma write_range:
  assumes "idle p" "unat address + unat count < 2 ^ 32" "unat address + unat count < 512 * sectors" "length buffer = unat count"
  shows "\<exists>p'. floppy_write_loop rd wr True address count (address div 512) tmp buffer p = (True, p') \<and> idle p' \<and>
      (\<forall>a. byte p' a = (if unat address \<le> a \<and> a < unat address + unat count then buffer ! (a - unat address) else byte p a))"
proof -
  have "512 * (unat address div 512) \<le> unat address" by simp
  then have m: "max (unat address) (512 * (unat address div 512)) = unat address" by (rule max_absorb1)
  have "unat address div 512 \<le> (unat address + unat count) div 512" by (simp add: div_le_mono)
  moreover have "unat (address div 512) = unat address div 512" by (simp add: unat_div)
  moreover have "length buffer = unat address + unat count - unat address" using assms(4) by simp
  ultimately show ?thesis
    using write_loop_range [OF assms(2,3) order.refl _ _ assms(1), of "address div 512" buffer tmp] unfolding m by blast
qed

text \<open>Reading back what was written.\<close>

lemma write_read_range:
  assumes "idle p" "unat address + unat count < 2 ^ 32" "unat address + unat count < 512 * sectors" "length buffer = unat count"
  shows "\<exists>p' p''. floppy_write_loop rd wr True address count (address div 512) tmp buffer p = (True, p') \<and>
      floppy_read_loop rd address count (address div 512) [] p' = ((True, buffer), p'') \<and> idle p''"
proof -
  obtain p' where w: "floppy_write_loop rd wr True address count (address div 512) tmp buffer p = (True, p')" "idle p'"
      "\<And>a. byte p' a = (if unat address \<le> a \<and> a < unat address + unat count then buffer ! (a - unat address) else byte p a)"
    using write_range [OF assms, of tmp] by blast
  have "List.map (byte p') [unat address..<unat address + unat count] = buffer"
    using assms(4) by (intro nth_equalityI) (auto simp: w(3))
  with w read_range [OF w(2) assms(2,3)] show ?thesis by metis
qed

end

end
