(* ===== verification/FloppyController.thy ===== *)
theory FloppyController
  imports FloppyDisk
begin

unbundle bit_operations_syntax

section \<open>The controller behind the ports\<close>

text \<open>
  The controller is hardware: the driver reads and writes its ports and nothing else.  This theory
  states how the drive with a formatted disk of 80 cylinders, two heads and 18 sectors per track
  answers to the commands that the driver sends, phase by phase as the data sheet of the 82077AA
  has them: the bytes of a command, for a transfer the 512 bytes of the sector (the execution
  phase, flagged by NDMA in the status register) and then the result bytes.  The properties take
  any ports that behave like it; \<open>fdc_ports\<close> itself is the instance.
\<close>

record fdc =
  fdc_disk :: "nat \<Rightarrow> u8 list"
  fdc_cmd :: "u8 list"
  fdc_data :: "u8 list"
  fdc_room :: nat
  fdc_buf :: "u8 list"
  fdc_lba :: nat
  fdc_res :: "u8 list"
  fdc_out :: "u8 list"
  fdc_cyl :: u8
  fdc_locked :: bool

definition fdc_msr :: "fdc \<Rightarrow> u8" where
  "fdc_msr f =
     (if fdc_data f \<noteq> [] then 0xF0
      else if fdc_room f > 0 then 0xB0
      else if fdc_out f \<noteq> [] then 0xD0
      else if fdc_cmd f \<noteq> [] then 0x90
      else 0x80)"

definition fdc_length :: "u8 \<Rightarrow> nat" where
  "fdc_length c =
     (if c = 0x66 \<or> c = 0x65 then 9 else if c = 19 then 4 else if c = 15 \<or> c = 3 then 3
      else if c = 7 then 2 else 1)"

definition fdc_sector :: "u8 list \<Rightarrow> nat" where
  "fdc_sector cmd = (unat (cmd ! 2) * 2 + unat (cmd ! 3)) * 18 + unat (cmd ! 4) - 1"

definition fdc_valid :: "u8 list \<Rightarrow> bool" where
  "fdc_valid cmd \<longleftrightarrow> unat (cmd ! 2) < 80 \<and> unat (cmd ! 3) < 2 \<and> 1 \<le> unat (cmd ! 4) \<and> unat (cmd ! 4) \<le> 18"

definition fdc_result :: "u8 \<Rightarrow> u8 \<Rightarrow> u8 list \<Rightarrow> u8 list" where
  "fdc_result st0 st1 cmd = [st0 OR cmd ! 1, st1, 0, cmd ! 2, cmd ! 3, cmd ! 4, 2]"

definition fdc_execute :: "u8 list \<Rightarrow> fdc \<Rightarrow> fdc" where
  "fdc_execute cmd f =
     (let c = cmd ! 0 in
      if c = 0x66 \<or> c = 0x65 then
        (if \<not> fdc_valid cmd then f\<lparr>fdc_out := fdc_result 0x40 4 cmd\<rparr>
         else if c = 0x66 then f\<lparr>fdc_data := fdc_disk f (fdc_sector cmd), fdc_res := fdc_result 0 0 cmd\<rparr>
         else f\<lparr>fdc_room := 512, fdc_buf := [], fdc_lba := fdc_sector cmd, fdc_res := fdc_result 0 0 cmd\<rparr>)
      else if c = 15 then f\<lparr>fdc_cyl := cmd ! 2\<rparr>
      else if c = 8 then f\<lparr>fdc_out := [0x21, fdc_cyl f]\<rparr>
      else if c = 7 then f\<lparr>fdc_cyl := 0\<rparr>
      else if c = 16 then f\<lparr>fdc_out := [0x90]\<rparr>
      else if c = 0x94 then f\<lparr>fdc_locked := True, fdc_out := [0x10]\<rparr>
      else if c = 19 \<or> c = 3 then f
      else f\<lparr>fdc_out := [0x80]\<rparr>)"

definition fdc_write :: "u8 \<Rightarrow> fdc \<Rightarrow> fdc" where
  "fdc_write b f =
     (if fdc_room f > 0 then
        (if fdc_room f = 1 then
           f\<lparr>fdc_room := 0, fdc_buf := [], fdc_disk := (fdc_disk f)(fdc_lba f := fdc_buf f @ [b]), fdc_out := fdc_res f\<rparr>
         else f\<lparr>fdc_room := fdc_room f - 1, fdc_buf := fdc_buf f @ [b]\<rparr>)
      else if length (fdc_cmd f) + 1 < fdc_length (hd (fdc_cmd f @ [b])) then f\<lparr>fdc_cmd := fdc_cmd f @ [b]\<rparr>
      else fdc_execute (fdc_cmd f @ [b]) (f\<lparr>fdc_cmd := []\<rparr>))"

definition fdc_read :: "fdc \<Rightarrow> u8 \<times> fdc" where
  "fdc_read f =
     (case fdc_data f of
        b # bs \<Rightarrow> (b, if bs = [] then f\<lparr>fdc_data := [], fdc_out := fdc_res f\<rparr> else f\<lparr>fdc_data := bs\<rparr>)
      | [] \<Rightarrow> (case fdc_out f of b # bs \<Rightarrow> (b, f\<lparr>fdc_out := bs\<rparr>) | [] \<Rightarrow> (0, f)))"

definition fdc_reset :: "fdc \<Rightarrow> fdc" where
  "fdc_reset f = f\<lparr>fdc_cmd := [], fdc_data := [], fdc_room := 0, fdc_out := []\<rparr>"

definition fdc_ports :: "fdc ports" where
  "fdc_ports = \<lparr>
     in_port = (\<lambda>port f. if port = MAIN_STATUS_REGISTER then (fdc_msr f, f)
                         else if port = DATA_FIFO then fdc_read f else (0, f)),
     out_port = (\<lambda>port b f. if port = DATA_FIFO then fdc_write b f
                           else if port = DIGITAL_OUTPUT_REGISTER \<and> b AND RESET = 0 then fdc_reset f else f)\<rparr>"

definition fdc_idle :: "fdc \<Rightarrow> bool" where
  "fdc_idle f \<longleftrightarrow> fdc_cmd f = [] \<and> fdc_data f = [] \<and> fdc_room f = 0 \<and> fdc_out f = [] \<and>
     (\<forall>n. length (fdc_disk f n) = 512)"

subsection \<open>Running the driver on it\<close>

lemma fdc_ports_simps [simp]:
  "in_port fdc_ports MAIN_STATUS_REGISTER f = (fdc_msr f, f)"
  "in_port fdc_ports DATA_FIFO f = fdc_read f"
  "out_port fdc_ports DATA_FIFO b f = fdc_write b f"
  "out_port fdc_ports DIGITAL_OUTPUT_REGISTER b f = (if b AND RESET = 0 then fdc_reset f else f)"
  by (simp_all add: fdc_ports_def)

lemma run_wait_loop:
  "floppy_wait_loop fdc_ports t m v f = (0 < t \<and> fdc_msr f AND m = v, f)"
  by (induction t) (simp_all add: floppy_wait_loop.simps)

lemma run_wait_ready:
  "0 < t \<Longrightarrow> run_state (floppy_wait_ready fdc_ports t) f = (True, f)"
  by (simp add: floppy_wait_ready_def floppy_wait_msr_def run_wait_loop fdc_msr_def)

lemma run_inb: "run_state (inb fdc_ports DATA_FIFO) f = fdc_read f"
  by (simp add: inb_def)

lemma run_send:
  "run_state (floppy_send_command fdc_ports c) f =
     ((), if fdc_data f = [] \<and> (fdc_room f > 0 \<or> fdc_out f = []) then fdc_write c f else f)"
  by (simp add: floppy_send_command_def floppy_wait_ready_send_def floppy_wait_msr_def run_wait_loop
      fdc_msr_def outb_def)

lemma fdc_length_simps [simp]:
  "fdc_length 0x66 = 9" "fdc_length 0x65 = 9" "fdc_length 19 = 4" "fdc_length 15 = 3" "fdc_length 3 = 3"
  "fdc_length 7 = 2" "fdc_length 8 = 1" "fdc_length 16 = 1" "fdc_length 0x94 = 1"
  by (simp_all add: fdc_length_def)

lemma fdc_idle_parts:
  assumes "fdc_idle f"
  shows "fdc_cmd f = []" "fdc_data f = []" "fdc_room f = 0" "fdc_out f = []" "length (fdc_disk f n) = 512"
  using assms by (simp_all add: fdc_idle_def)

lemma fdc_idle_cmd: "fdc_idle f \<Longrightarrow> f\<lparr>fdc_cmd := []\<rparr> = f"
  by (cases f) (simp add: fdc_idle_def)

text \<open>The bytes of a command: the first one, the ones in between and the last.\<close>

lemma run_first:
  "fdc_idle f \<Longrightarrow> 1 < fdc_length c \<Longrightarrow>
    run_state (floppy_send_command fdc_ports c) f = ((), f\<lparr>fdc_cmd := [c]\<rparr>)"
  by (simp add: run_send fdc_idle_parts fdc_write_def)

lemma run_param:
  "fdc_idle f \<Longrightarrow> length (c # cs) + 1 < fdc_length c \<Longrightarrow>
    run_state (floppy_send_command fdc_ports b) (f\<lparr>fdc_cmd := c # cs\<rparr>) = ((), f\<lparr>fdc_cmd := (c # cs) @ [b]\<rparr>)"
  by (simp add: run_send fdc_idle_parts fdc_write_def)

lemma run_last:
  "fdc_idle f \<Longrightarrow> length (c # cs) + 1 = fdc_length c \<Longrightarrow>
    run_state (floppy_send_command fdc_ports b) (f\<lparr>fdc_cmd := c # cs\<rparr>) = ((), fdc_execute ((c # cs) @ [b]) f)"
  by (simp add: run_send fdc_idle_parts fdc_write_def fdc_idle_cmd)

lemma run_single:
  "fdc_idle f \<Longrightarrow> fdc_length c = 1 \<Longrightarrow> run_state (floppy_send_command fdc_ports c) f = ((), fdc_execute [c] f)"
  by (simp add: run_send fdc_idle_parts fdc_write_def fdc_idle_cmd)

lemmas run_command = run_first run_param run_last run_single

lemma fdc_idle_cyl [simp]: "fdc_idle (f\<lparr>fdc_cyl := c\<rparr>) = fdc_idle f"
  by (simp add: fdc_idle_def)

text \<open>Reading the two bytes that answer SENSE INTERRUPT.\<close>

lemma run_sense:
  assumes "fdc_idle f"
  shows "run_state (floppy_send_command fdc_ports SENSE_INTERRUPT) f = ((), f\<lparr>fdc_out := [0x21, fdc_cyl f]\<rparr>)"
  using assms by (simp add: run_command fdc_execute_def)

lemma fdc_read_out:
  "fdc_idle f \<Longrightarrow> fdc_read (f\<lparr>fdc_out := b # bs\<rparr>) = (b, f\<lparr>fdc_out := bs\<rparr>)"
  by (simp add: fdc_read_def fdc_idle_def)

lemma fdc_idle_out: "fdc_idle f \<Longrightarrow> f\<lparr>fdc_out := []\<rparr> = f"
  by (cases f) (simp add: fdc_idle_def)

lemma run_seek:
  assumes "fdc_idle f"
  shows "run_state (floppy_seek fdc_ports h c) f = (True, f\<lparr>fdc_cyl := c\<rparr>)"
proof -
  have "(10 :: nat) = Suc 9" by simp
  with assms show ?thesis unfolding floppy_seek_def
    by (simp only: floppy_seek_loop.simps) (simp add: run_first run_param run_last run_sense run_wait_ready run_inb fdc_read_out fdc_idle_out
        fdc_execute_def [of "[SEEK, push_bit 2 h OR DRIVE1, c]"] del: numeral_eq_Suc)
qed

lemma run_transfer_command:
  assumes "fdc_idle f" "c = 0x66 \<or> c = 0x65"
  shows "run_state (floppy_transfer_command fdc_ports c head cylinder sector) f =
    ((), fdc_execute [c, push_bit 2 head OR DRIVE1, cylinder, head, sector, 2, sector, 0x1b, 0xff] f)"
proof -
  have "fdc_length c = 9" using assms(2) by auto
  with assms(1) show ?thesis by (simp add: floppy_transfer_command_def run_command)
qed

lemma run_transfer_result:
  assumes "fdc_data f = []" "fdc_out f = [st0, st1, st2, c, h, s, n]"
  shows "run_state (floppy_transfer_result fdc_ports head cylinder sector) f =
    (st0 AND 0xC0 = 0 \<and> c = cylinder \<and> h = head \<and> s = sector \<and> n = 2, f\<lparr>fdc_out := []\<rparr>)"
  using assms by (auto simp: floppy_transfer_result_def run_inb fdc_read_def)

lemma run_read_bytes:
  "fdc_data f = b # bs \<Longrightarrow> length buffer + length bs < 512 \<Longrightarrow> fdc_room f = 0 \<Longrightarrow> fdc_res f \<noteq> [] \<Longrightarrow>
    floppy_read_bytes fdc_ports buffer f = (buffer @ b # bs, f\<lparr>fdc_data := [], fdc_out := fdc_res f\<rparr>)"
proof (induction bs arbitrary: b buffer f)
  case Nil
  then show ?case
    by (simp add: floppy_read_bytes.simps [of fdc_ports buffer] floppy_read_bytes.simps [of fdc_ports "buffer @ [b]"]
        run_wait_loop fdc_msr_def fdc_read_def)
next
  case (Cons b' bs)
  then have "floppy_read_bytes fdc_ports buffer f = floppy_read_bytes fdc_ports (buffer @ [b]) (f\<lparr>fdc_data := b' # bs\<rparr>)"
    by (simp add: floppy_read_bytes.simps [of fdc_ports buffer] run_wait_loop fdc_msr_def fdc_read_def)
  with Cons.prems Cons.IH [of "f\<lparr>fdc_data := b' # bs\<rparr>" b' "buffer @ [b]"] show ?case by simp
qed

lemma run_write_bytes:
  "fdc_data f = [] \<Longrightarrow> fdc_room f = Suc n \<Longrightarrow> i + Suc n = 512 \<Longrightarrow> fdc_res f \<noteq> [] \<Longrightarrow>
    floppy_write_bytes fdc_ports buffer i f =
      (512, f\<lparr>fdc_room := 0, fdc_buf := [], fdc_disk := (fdc_disk f)(fdc_lba f := fdc_buf f @ List.map buffer [i..<512]),
              fdc_out := fdc_res f\<rparr>)"
proof (induction n arbitrary: i f)
  case 0
  then have "i = 511" by simp
  with 0 show ?case
    by (simp add: floppy_write_bytes.simps [of fdc_ports buffer 511] floppy_write_bytes.simps [of fdc_ports buffer 512]
        run_wait_loop fdc_msr_def fdc_write_def fun_upd_def)
next
  case (Suc n)
  let ?f = "f\<lparr>fdc_room := Suc n, fdc_buf := fdc_buf f @ [buffer i]\<rparr>"
  have "floppy_write_bytes fdc_ports buffer i f = floppy_write_bytes fdc_ports buffer (i + 1) ?f"
    using Suc.prems
    by (simp add: floppy_write_bytes.simps [of fdc_ports buffer i] run_wait_loop fdc_msr_def fdc_write_def)
  moreover have "[i..<512] = i # [i + 1..<512]" using Suc.prems by (simp add: upt_conv_Cons)
  ultimately show ?case using Suc.prems Suc.IH [of ?f "i + 1"] by simp
qed

subsection \<open>Sectors\<close>

lemma head_cases: "unat (h :: u8) < 2 \<Longrightarrow> h = 0 \<or> h = 1"
  by (auto simp: less_2_cases_iff word_unat_eq_iff)

lemma fdc_result_ok:
  assumes "unat (h :: u8) < 2"
  shows "fdc_result 0 0 [c, push_bit 2 h OR DRIVE1, cy, h, s, 2, s, 0x1b, 0xff] =
      [push_bit 2 h OR DRIVE1, 0, 0, cy, h, s, 2]" "(push_bit 2 h OR DRIVE1) AND 0xC0 = 0"
  using head_cases [OF assms] by (auto simp: fdc_result_def)

lemma run_read_sector:
  assumes f: "fdc_idle f" and chs: "unat c < 80" "unat h < 2" "1 \<le> unat s" "unat s \<le> 18"
    and n: "n = (unat c * 2 + unat h) * 18 + unat s - 1"
  shows "\<exists>f'. run_state (floppy_read_sector fdc_ports h c s) f = ((True, fdc_disk f n), f') \<and>
      fdc_idle f' \<and> fdc_disk f' = fdc_disk f"
proof -
  define r where "r = [push_bit 2 h OR DRIVE1, 0, 0, c, h, s, 2]"
  let ?cmd = "[0x66, push_bit 2 h OR DRIVE1, c, h, s, 2, s, 0x1b, 0xff]"
  let ?g = "f\<lparr>fdc_cyl := c, fdc_data := fdc_disk f n, fdc_res := r\<rparr>"
  have cmd: "fdc_execute ?cmd (f\<lparr>fdc_cyl := c\<rparr>) = ?g"
    using chs by (simp add: fdc_execute_def fdc_valid_def fdc_sector_def n r_def fdc_result_ok)
  have len: "length (fdc_disk f n) = 512" using f by (rule fdc_idle_parts)
  then obtain b bs where d: "fdc_disk f n = b # bs" "length bs = 511" by (cases "fdc_disk f n") auto
  have bytes: "floppy_read_bytes fdc_ports [] ?g = (fdc_disk f n, ?g\<lparr>fdc_data := [], fdc_out := r\<rparr>)"
    using run_read_bytes [of ?g b bs "[]"] d fdc_idle_parts [OF f] by (simp add: r_def)
  have result: "run_state (floppy_transfer_result fdc_ports h c s) (?g\<lparr>fdc_data := [], fdc_out := r\<rparr>) =
      (True, ?g\<lparr>fdc_data := [], fdc_out := []\<rparr>)"
    using fdc_result_ok(2) [OF chs(2)] by (subst run_transfer_result) (simp_all add: r_def)
  have "run_state (floppy_read_sector fdc_ports h c s) f = ((True, fdc_disk f n), ?g\<lparr>fdc_data := [], fdc_out := []\<rparr>)"
    using bytes result by (simp add: floppy_read_sector_def run_seek [OF f] run_transfer_command f cmd run_wait_ready len)
  moreover have "fdc_idle (?g\<lparr>fdc_data := [], fdc_out := []\<rparr>)" using f by (simp add: fdc_idle_def)
  ultimately show ?thesis by fastforce
qed

lemma run_write_sector:
  assumes f: "fdc_idle f" and chs: "unat c < 80" "unat h < 2" "1 \<le> unat s" "unat s \<le> 18"
    and n: "n = (unat c * 2 + unat h) * 18 + unat s - 1"
  shows "\<exists>f'. run_state (floppy_write_sector fdc_ports h c s buffer) f = (True, f') \<and> fdc_idle f' \<and>
      fdc_disk f' = (fdc_disk f)(n := List.map buffer [0..<512])"
proof -
  define r where "r = [push_bit 2 h OR DRIVE1, 0, 0, c, h, s, 2]"
  define d where "d = (fdc_disk f)(n := List.map buffer [0..<512])"
  let ?cmd = "[0x65, push_bit 2 h OR DRIVE1, c, h, s, 2, s, 0x1b, 0xff]"
  let ?g = "f\<lparr>fdc_cyl := c, fdc_room := 512, fdc_buf := [], fdc_lba := n, fdc_res := r\<rparr>"
  let ?h = "?g\<lparr>fdc_room := 0, fdc_disk := d, fdc_out := r\<rparr>"
  have cmd: "fdc_execute ?cmd (f\<lparr>fdc_cyl := c\<rparr>) = ?g"
    using chs by (simp add: fdc_execute_def fdc_valid_def fdc_sector_def n r_def fdc_result_ok)
  have "floppy_write_bytes fdc_ports buffer 0 ?g =
      (512, ?g\<lparr>fdc_room := 0, fdc_buf := [], fdc_disk := (fdc_disk ?g)(fdc_lba ?g := fdc_buf ?g @ List.map buffer [0..<512]),
              fdc_out := fdc_res ?g\<rparr>)"
    by (rule run_write_bytes [of ?g 511 0 buffer]) (use fdc_idle_parts [OF f] in \<open>simp_all add: r_def\<close>)
  then have bytes: "floppy_write_bytes fdc_ports buffer 0 ?g = (512, ?h)" by (simp add: d_def)
  have result: "run_state (floppy_transfer_result fdc_ports h c s) ?h = (True, ?h\<lparr>fdc_out := []\<rparr>)"
    using fdc_result_ok(2) [OF chs(2)] fdc_idle_parts [OF f] by (subst run_transfer_result) (simp_all add: r_def)
  have "run_state (floppy_write_sector fdc_ports h c s buffer) f = (True, ?h\<lparr>fdc_out := []\<rparr>)"
    using bytes result by (simp add: floppy_write_sector_def run_seek [OF f] run_transfer_command f cmd run_wait_ready)
  moreover have "fdc_idle (?h\<lparr>fdc_out := []\<rparr>)" using f by (simp add: fdc_idle_def d_def)
  ultimately show ?thesis unfolding d_def by fastforce
qed

subsection \<open>Block addresses\<close>

lemma lba_to_chs_bounds:
  assumes "unat lba < 2880" "lba_to_chs lba = (c, h, s)"
  shows "unat c < 80" "unat h < 2" "1 \<le> unat s" "unat s \<le> 18" "(unat c * 2 + unat h) * 18 + unat s - 1 = unat lba"
proof -
  let ?n = "unat lba"
  have c: "unat c = ?n div 36"
    using assms by (auto simp: lba_to_chs_def unat_div unsigned_ucast_eq take_bit_eq_mod)
  have h: "unat h = ?n mod 36 div 18"
    using assms(2) by (auto simp: lba_to_chs_def unat_div unat_mod unsigned_ucast_eq take_bit_eq_mod)
  have s: "unat s = ?n mod 36 mod 18 + 1"
    using assms(2) by (auto simp: lba_to_chs_def unat_mod unsigned_ucast_eq take_bit_eq_mod unat_word_ariths)
  show "unat c < 80" unfolding c using assms(1) by simp
  show "unat h < 2" unfolding h by simp
  show "1 \<le> unat s" unfolding s by simp
  show "unat s \<le> 18" unfolding s by (simp add: Suc_le_eq)
  have "?n div 36 * 36 + ?n mod 36 = ?n" "?n mod 36 div 18 * 18 + ?n mod 36 mod 18 = ?n mod 36"
    by (rule div_mult_mod_eq)+
  then show "(unat c * 2 + unat h) * 18 + unat s - 1 = unat lba" unfolding c h s by simp
qed

lemma run_read_lba:
  assumes "fdc_idle f" "unat lba < 2880"
  shows "\<exists>f'. run_state (floppy_read_lba fdc_ports lba) f = ((True, fdc_disk f (unat lba)), f') \<and>
      fdc_idle f' \<and> fdc_disk f' = fdc_disk f"
proof -
  obtain c h s where chs: "lba_to_chs lba = (c, h, s)" by (cases "lba_to_chs lba")
  note b = lba_to_chs_bounds [OF assms(2) chs]
  show ?thesis using run_read_sector [OF assms(1) b(1-4) b(5) [symmetric]] by (simp add: floppy_read_lba_def chs)
qed

lemma run_write_lba:
  assumes "fdc_idle f" "unat lba < 2880" "length b = 512" "\<forall>i < 512. buffer i = b ! i"
  shows "\<exists>f'. run_state (floppy_write_lba fdc_ports lba buffer) f = (True, f') \<and>
      fdc_idle f' \<and> fdc_disk f' = (fdc_disk f)(unat lba := b)"
proof -
  obtain c h s where chs: "lba_to_chs lba = (c, h, s)" by (cases "lba_to_chs lba")
  note r = lba_to_chs_bounds [OF assms(2) chs]
  have "List.map buffer [0..<512] = b" using assms(3,4) by (intro nth_equalityI) simp_all
  with run_write_sector [OF assms(1) r(1-4) r(5) [symmetric], of buffer] show ?thesis
    by (simp add: floppy_write_lba_def chs)
qed

text \<open>The driver's sector operations are a sector device.\<close>

interpretation fd: sector_device "floppy_read_lba fdc_ports" "floppy_write_lba fdc_ports" fdc_disk fdc_idle 2880
  by unfold_locales (blast intro: fdc_idle_parts run_read_lba run_write_lba)+

end
