(* ===== verification/FloppyLaws.thy ===== *)
theory FloppyLaws
  imports FloppyController
begin

section \<open>The floppy driver on any such controller\<close>

text \<open>
  Ports that behave like the controller are those whose state has an abstraction to it that the
  two instructions respect; the driver then runs on them as it runs on \<open>fdc_ports\<close>, which is
  shown operation by operation.  The properties of the driver follow.
\<close>

subsection \<open>Simulation\<close>

definition behaves_as :: "'p ports \<Rightarrow> ('p \<Rightarrow> fdc) \<Rightarrow> bool" where
  "behaves_as io ctl \<longleftrightarrow>
     (\<forall>port p. map_prod id ctl (in_port io port p) = in_port fdc_ports port (ctl p)) \<and>
     (\<forall>port b p. ctl (out_port io port b p) = out_port fdc_ports port b (ctl p))"

definition sim :: "('p \<Rightarrow> 'q) \<Rightarrow> ('p, 'a) state \<Rightarrow> ('q, 'a) state \<Rightarrow> bool" where
  "sim ctl m n \<longleftrightarrow> (\<forall>p. map_prod id ctl (run_state m p) = run_state n (ctl p))"

named_theorems sims \<open>simulation of the driver's operations\<close>

lemma sim_return [sims]: "sim ctl (State_Monad.return x) (State_Monad.return x)"
  by (simp add: sim_def)

lemma sim_bind: "sim ctl m n \<Longrightarrow> (\<And>x. sim ctl (f x) (g x)) \<Longrightarrow> sim ctl (State_Monad.bind m f) (State_Monad.bind n g)"
proof -
  assume m: "sim ctl m n" and f: "\<And>x. sim ctl (f x) (g x)"
  have "map_prod id ctl (run_state (f x) p) = run_state (g x) (ctl p)" for x p using f by (simp add: sim_def)
  moreover have "run_state n (ctl p) = map_prod id ctl (run_state m p)" for p using m by (simp add: sim_def)
  ultimately show ?thesis by (simp add: sim_def split: prod.split)
qed

lemma sim_if: "sim ctl m m' \<Longrightarrow> sim ctl n n' \<Longrightarrow> sim ctl (if b then m else n) (if b then m' else n')"
  by simp

lemmas sim_intros = sim_bind sim_if sim_return

lemma sim_inb [sims]: "behaves_as io ctl \<Longrightarrow> sim ctl (inb io port) (inb fdc_ports port)"
  by (simp add: sim_def inb_def behaves_as_def)

lemma sim_outb [sims]: "behaves_as io ctl \<Longrightarrow> sim ctl (outb io port b) (outb fdc_ports port b)"
  by (simp add: sim_def outb_def behaves_as_def)

lemma sim_in_port: "behaves_as io ctl \<Longrightarrow> in_port fdc_ports port (ctl p) = map_prod id ctl (in_port io port p)"
  by (simp add: behaves_as_def)

lemma sim_wait_loop:
  "behaves_as io ctl \<Longrightarrow> floppy_wait_loop fdc_ports t m v (ctl p) = map_prod id ctl (floppy_wait_loop io t m v p)"
proof (induction t arbitrary: p)
  case 0
  then show ?case by (simp add: floppy_wait_loop.simps [of _ 0])
next
  case (Suc t)
  then show ?case
    by (simp add: floppy_wait_loop.simps [of _ "Suc t"] sim_in_port del: fdc_ports_simps split: prod.split)
qed

lemma sim_waits [sims]:
  assumes "behaves_as io ctl"
  shows "sim ctl (floppy_wait_ready io t) (floppy_wait_ready fdc_ports t)"
    "sim ctl (floppy_wait_ready_send io t) (floppy_wait_ready_send fdc_ports t)"
  using assms by (simp_all add: sim_def floppy_wait_ready_def floppy_wait_ready_send_def floppy_wait_msr_def sim_wait_loop)

lemma sim_send [sims]: "behaves_as io ctl \<Longrightarrow> sim ctl (floppy_send_command io c) (floppy_send_command fdc_ports c)"
  unfolding floppy_send_command_def by (intro sim_intros sims)

lemma sim_version [sims]: "behaves_as io ctl \<Longrightarrow> sim ctl (get_version io) (get_version fdc_ports)"
  unfolding get_version_def by (intro sim_intros sims)

lemma sim_calibrate [sims]: "behaves_as io ctl \<Longrightarrow> sim ctl (floppy_calibrate io d) (floppy_calibrate fdc_ports d)"
  unfolding floppy_calibrate_def by (intro sim_intros sims)

lemma sim_seek [sims]: "behaves_as io ctl \<Longrightarrow> sim ctl (floppy_seek io h c) (floppy_seek fdc_ports h c)"
proof -
  assume "behaves_as io ctl"
  then have "sim ctl (floppy_seek_loop io n h c) (floppy_seek_loop fdc_ports n h c)" for n
    by (induction n) (auto intro!: sim_intros sims)
  then show ?thesis by (simp add: floppy_seek_def)
qed

lemma sim_sense_loop [sims]: "behaves_as io ctl \<Longrightarrow> sim ctl (floppy_sense_loop io n) (floppy_sense_loop fdc_ports n)"
  by (induction n) (auto intro!: sim_intros sims)

lemma sim_reset [sims]: "behaves_as io ctl \<Longrightarrow> sim ctl (floppy_reset io) (floppy_reset fdc_ports)"
  unfolding floppy_reset_def by (intro sim_intros sims)

lemma sim_init [sims]: "behaves_as io ctl \<Longrightarrow> sim ctl (floppy_init io) (floppy_init fdc_ports)"
  unfolding floppy_init_def by (intro sim_intros sims)

lemma sim_transfer_command [sims]: "behaves_as io ctl \<Longrightarrow>
    sim ctl (floppy_transfer_command io k h c s) (floppy_transfer_command fdc_ports k h c s)"
  unfolding floppy_transfer_command_def by (intro sim_intros sims)

lemma sim_transfer_result [sims]: "behaves_as io ctl \<Longrightarrow>
    sim ctl (floppy_transfer_result io h c s) (floppy_transfer_result fdc_ports h c s)"
  unfolding floppy_transfer_result_def by (intro sim_intros sims)

lemma sim_read_bytes:
  "behaves_as io ctl \<Longrightarrow> floppy_read_bytes fdc_ports buffer (ctl p) = map_prod id ctl (floppy_read_bytes io buffer p)"
proof (induction io buffer p rule: floppy_read_bytes.induct)
  case (1 io buffer p)
  then show ?case
    by (simp add: floppy_read_bytes.simps [of _ buffer] sim_wait_loop sim_in_port del: fdc_ports_simps split: prod.split)
qed

lemma sim_write_bytes:
  "behaves_as io ctl \<Longrightarrow> floppy_write_bytes fdc_ports buffer i (ctl p) = map_prod id ctl (floppy_write_bytes io buffer i p)"
proof (induction io buffer i p rule: floppy_write_bytes.induct)
  case (1 io buffer i p)
  then have "out_port fdc_ports port b (ctl p) = ctl (out_port io port b p)" for port b p by (simp add: behaves_as_def)
  with 1 show ?case
    by (simp add: floppy_write_bytes.simps [of _ buffer i] sim_wait_loop del: fdc_ports_simps split: prod.split)
qed

lemma sim_read_lba [sims]: "behaves_as io ctl \<Longrightarrow> sim ctl (floppy_read_lba io lba) (floppy_read_lba fdc_ports lba)"
proof -
  assume io: "behaves_as io ctl"
  then have "sim ctl (State (floppy_read_bytes io [])) (State (floppy_read_bytes fdc_ports []))"
    by (simp add: sim_def sim_read_bytes)
  with io show ?thesis
    unfolding floppy_read_lba_def floppy_read_sector_def by (auto split: prod.split intro!: sim_intros sims)
qed

lemma sim_write_lba [sims]:
  "behaves_as io ctl \<Longrightarrow> sim ctl (floppy_write_lba io lba buffer) (floppy_write_lba fdc_ports lba buffer)"
proof -
  assume io: "behaves_as io ctl"
  then have "sim ctl (State (floppy_write_bytes io buffer 0)) (State (floppy_write_bytes fdc_ports buffer 0))"
    by (simp add: sim_def sim_write_bytes)
  with io show ?thesis
    unfolding floppy_write_lba_def floppy_write_sector_def by (auto split: prod.split intro!: sim_intros sims)
qed

lemma sim_read [sims]: "behaves_as io ctl \<Longrightarrow> sim ctl (floppy_read io a n) (floppy_read fdc_ports a n)"
proof -
  assume io: "behaves_as io ctl"
  have rd: "run_state (floppy_read_lba fdc_ports lba) (ctl p) = map_prod id ctl (run_state (floppy_read_lba io lba) p)" for lba p
    using sim_read_lba [OF io] by (simp add: sim_def)
  have "floppy_read_loop (floppy_read_lba fdc_ports) a n lba out (ctl p) =
      map_prod id ctl (floppy_read_loop (floppy_read_lba io) a n lba out p)" for lba out p
  proof (induction "floppy_read_lba io" a n lba out p rule: floppy_read_loop.induct)
    case (1 a n lba out p)
    then show ?case by (simp add: floppy_read_loop.simps [of _ a n lba] rd Let_def split: prod.split)
  qed
  then show ?thesis by (simp add: sim_def floppy_read_def)
qed

lemma sim_write [sims]: "behaves_as io ctl \<Longrightarrow> sim ctl (floppy_write io g b a n pr) (floppy_write fdc_ports g b a n pr)"
proof -
  assume io: "behaves_as io ctl"
  have rd: "run_state (floppy_read_lba fdc_ports lba) (ctl p) = map_prod id ctl (run_state (floppy_read_lba io lba) p)" for lba p
    using sim_read_lba [OF io] by (simp add: sim_def)
  have wr: "run_state (floppy_write_lba fdc_ports lba b) (ctl p) = map_prod id ctl (run_state (floppy_write_lba io lba b) p)" for lba b p
    using sim_write_lba [OF io] by (simp add: sim_def)
  have "floppy_write_loop (floppy_read_lba fdc_ports) (floppy_write_lba fdc_ports) pr a n lba tmp inp (ctl p) =
      map_prod id ctl (floppy_write_loop (floppy_read_lba io) (floppy_write_lba io) pr a n lba tmp inp p)" for lba tmp inp p
  proof (induction "floppy_read_lba io" "floppy_write_lba io" pr a n lba tmp inp p rule: floppy_write_loop.induct)
    case (1 pr a n lba tmp inp p)
    then show ?case
      by (cases pr) (simp_all add: floppy_write_loop.simps [of _ _ _ a n lba] rd wr Let_def split: prod.split)
  qed
  then show ?thesis by (simp add: sim_def floppy_write_def)
qed

text \<open>A run on the controller, carried over.\<close>

lemma sim_run:
  assumes "sim ctl m n" "run_state n (ctl p) = (x, f)"
  shows "\<exists>p'. run_state m p = (x, p') \<and> ctl p' = f"
  using assms by (cases "run_state m p") (auto simp: sim_def dest: spec [of _ p])

lemma behaves_as_fdc: "behaves_as fdc_ports id"
  by (simp add: behaves_as_def prod.map_id)

subsection \<open>Initialisation\<close>

lemma run_calibrate:
  assumes "fdc_idle f"
  shows "run_state (floppy_calibrate fdc_ports DRIVE1) f = (True, f\<lparr>fdc_cyl := 0\<rparr>)"
  using assms
  by (simp add: floppy_calibrate_def run_first run_last run_sense run_wait_ready run_inb fdc_read_out fdc_idle_out
      fdc_execute_def [of "[RECALIBRATE, DRIVE1]"])

lemma run_sense_loop: "fdc_idle f \<Longrightarrow> run_state (floppy_sense_loop fdc_ports n) f = ((), f)"
  by (induction n) (simp_all add: run_sense run_inb fdc_read_out fdc_idle_out)

lemma fdc_reset_idle: "fdc_idle f \<Longrightarrow> fdc_reset f = f"
  by (cases f) (simp add: fdc_idle_def fdc_reset_def)

lemma run_reset:
  assumes "fdc_idle f"
  shows "run_state (floppy_reset fdc_ports) f = (True, f\<lparr>fdc_cyl := 0\<rparr>)"
  using assms
  by (simp add: floppy_reset_def outb_def fdc_reset_idle run_sense_loop run_first run_param run_last run_calibrate
      fdc_execute_def [of "[SPECIFY, 0xdf, 3]"])

lemma run_init:
  assumes "fdc_idle f"
  shows "run_state (floppy_init fdc_ports) f = (True, f\<lparr>fdc_locked := True, fdc_cyl := 0\<rparr>)"
proof -
  have version: "run_state (get_version fdc_ports) f = (0x90, f)"
    using assms
    by (simp add: get_version_def run_single fdc_execute_def run_inb fdc_read_out fdc_idle_out
        floppy_wait_ready_send_def floppy_wait_msr_def run_wait_loop fdc_msr_def fdc_idle_parts)
  have idle: "fdc_idle (f\<lparr>fdc_locked := True\<rparr>)" using assms by (simp add: fdc_idle_def)
  have lock: "fdc_execute [0x94] f = (f\<lparr>fdc_locked := True\<rparr>)\<lparr>fdc_out := [0x10]\<rparr>" by (simp add: fdc_execute_def)
  show ?thesis using assms
    by (simp add: floppy_init_def version run_first run_param run_last run_single lock idle run_inb fdc_read_out fdc_idle_out
        run_reset fdc_execute_def [of "[CONFIGURE, 0, 0x60, 0]"])
qed

lemma floppy_init_run:
  assumes "behaves_as io ctl" "fdc_idle (ctl p)"
  shows "\<exists>p'. run_state (floppy_init io) p = (True, p') \<and> fdc_idle (ctl p') \<and> fdc_disk (ctl p') = fdc_disk (ctl p) \<and>
    fdc_locked (ctl p')"
proof -
  obtain p' where "run_state (floppy_init io) p = (True, p')" "ctl p' = (ctl p)\<lparr>fdc_locked := True, fdc_cyl := 0\<rparr>"
    using sim_run [OF sim_init [OF assms(1)] run_init [OF assms(2)]] by blast
  then show ?thesis using assms(2) by (auto simp: fdc_idle_def)
qed

text \<open>On a controller that behaves as the data sheet says, with a formatted disk, the
  initialisation of the driver succeeds: the version is accepted, the lock bit comes back, the
  four sense commands and the recalibration answer as expected; the controller is left idle and
  the disk as it was.\<close>

theorem floppy_init_ready:
  assumes "behaves_as io ctl" "fdc_idle (ctl p)"
  shows "\<exists>p'. run_state (floppy_init io) p = (True, p') \<and> fdc_idle (ctl p') \<and> fdc_disk (ctl p') = fdc_disk (ctl p) \<and>
    fdc_locked (ctl p')"
  using assms by (rule floppy_init_run)

definition fdc_zero :: fdc where
  "fdc_zero = \<lparr>fdc_disk = (\<lambda>n. replicate 512 0), fdc_cmd = [], fdc_data = [], fdc_room = 0, fdc_buf = [], fdc_lba = 0,
     fdc_res = [], fdc_out = [], fdc_cyl = 5, fdc_locked = False\<rparr>"

lemma fdc_zero_idle: "fdc_idle fdc_zero"
  by (simp add: fdc_idle_def fdc_zero_def)

theorem floppy_init_ready_witness:
  "\<exists>p'. run_state (floppy_init fdc_ports) fdc_zero = (True, p') \<and> fdc_idle p' \<and> fdc_disk p' 7 = replicate 512 0"
  using floppy_init_ready [of fdc_ports id fdc_zero, OF behaves_as_fdc] fdc_zero_idle
  by (auto simp: fdc_zero_def)

subsection \<open>Block addresses\<close>

text \<open>Every block of the disk gets a cylinder, a head and a sector that exist, and they
  determine the block: the three bytes are never truncated.\<close>

theorem lba_to_chs_exact:
  assumes "unat lba < 2880"
  shows "case lba_to_chs lba of (cylinder, head, sector) \<Rightarrow>
    unat cylinder < 80 \<and> unat head < 2 \<and> 1 \<le> unat sector \<and> unat sector \<le> 18 \<and>
    (unat cylinder * 2 + unat head) * 18 + unat sector - 1 = unat lba"
  using lba_to_chs_bounds [OF assms] by (simp split: prod.split)

theorem lba_to_chs_exact_witness: "lba_to_chs 2879 = (79, 1, 18)"
  using lba_to_chs_exact [of 2879] by (simp add: lba_to_chs_def)

subsection \<open>Reading and writing byte ranges\<close>

definition disk_byte :: "fdc \<Rightarrow> nat \<Rightarrow> u8" where
  "disk_byte f a = fdc_disk f (a div 512) ! (a mod 512)"

lemma disk_byte_eq: "fd.byte = disk_byte"
  by (simp add: fun_eq_iff fd.byte_def disk_byte_def)

definition in_disk :: "u32 \<Rightarrow> u32 \<Rightarrow> bool" where
  "in_disk address count \<longleftrightarrow> unat address + unat count < 1474560"

lemma in_diskD:
  assumes "in_disk address count"
  shows "unat address + unat count < 2 ^ 32" "unat address + unat count < 512 * 2880"
  using assms by (simp_all add: in_disk_def)

lemma run_read:
  assumes "fdc_idle f" "in_disk address count"
  shows "\<exists>f'. run_state (floppy_read fdc_ports address count) f =
      ((True, List.map (disk_byte f) [unat address..<unat address + unat count]), f') \<and> fdc_idle f' \<and> fdc_disk f' = fdc_disk f"
  using fd.read_range [OF assms(1) in_diskD [OF assms(2)]] unfolding floppy_read_def disk_byte_eq state.sel .

lemma run_write:
  assumes "fdc_idle f" "in_disk address count" "length buffer = unat count"
  shows "\<exists>f'. run_state (floppy_write fdc_ports garbage buffer address count True) f = (True, f') \<and> fdc_idle f' \<and>
      (\<forall>a. disk_byte f' a = (if unat address \<le> a \<and> a < unat address + unat count then buffer ! (a - unat address) else disk_byte f a))"
  using fd.write_range [OF assms(1) in_diskD [OF assms(2)] assms(3), of garbage]
  unfolding floppy_write_def disk_byte_eq state.sel .

text \<open>Reading a range of bytes, however it lies across the sectors, succeeds and delivers
  exactly the bytes of the range, in order, and the disk is unchanged.  (The range has to end
  before the last byte of the disk.)\<close>

theorem floppy_read_range:
  assumes "behaves_as io ctl" "fdc_idle (ctl p)" "in_disk address count"
  shows "\<exists>p'. run_state (floppy_read io address count) p =
      ((True, List.map (disk_byte (ctl p)) [unat address..<unat address + unat count]), p') \<and>
      fdc_idle (ctl p') \<and> fdc_disk (ctl p') = fdc_disk (ctl p)"
proof -
  obtain f where f: "run_state (floppy_read fdc_ports address count) (ctl p) =
      ((True, List.map (disk_byte (ctl p)) [unat address..<unat address + unat count]), f)" "fdc_idle f"
      "fdc_disk f = fdc_disk (ctl p)"
    using run_read [OF assms(2,3)] by blast
  show ?thesis using sim_run [OF sim_read [OF assms(1)] f(1)] f(2,3) by auto
qed

theorem floppy_read_range_witness:
  "\<exists>p'. run_state (floppy_read fdc_ports 510 4) fdc_zero = ((True, [0, 0, 0, 0]), p')"
  using floppy_read_range [of fdc_ports id fdc_zero 510 4, OF behaves_as_fdc] fdc_zero_idle
  by (auto simp: in_disk_def disk_byte_def fdc_zero_def upt_rec)





subsection \<open>The end of the disk\<close>

lemma run_read_behind:
  assumes f: "fdc_idle f"
  shows "\<exists>f'. run_state (floppy_read_lba fdc_ports 2880) f = ((False, []), f') \<and> fdc_out f' \<noteq> []"
proof -
  let ?cmd = "[0x66, push_bit 2 0 OR DRIVE1, 80, 0, 1, 2, 1, 0x1b, 0xff]"
  let ?g = "f\<lparr>fdc_cyl := 80, fdc_out := fdc_result 0x40 4 ?cmd\<rparr>"
  have chs: "lba_to_chs 2880 = (80, 0, 1)" by (simp add: lba_to_chs_def)
  have cmd: "fdc_execute ?cmd (f\<lparr>fdc_cyl := 80\<rparr>) = ?g" by (simp add: fdc_execute_def fdc_valid_def)
  have bytes: "floppy_read_bytes fdc_ports [] ?g = ([], ?g)"
    using fdc_idle_parts [OF f]
    by (simp add: floppy_read_bytes.simps [of fdc_ports "[]"] run_wait_loop fdc_msr_def fdc_result_def)
  have transfer: "run_state (floppy_transfer_command fdc_ports 0x66 0 80 1) (f\<lparr>fdc_cyl := 80\<rparr>) = ((), ?g)"
    using cmd f by (subst run_transfer_command) simp_all
  show ?thesis
    using bytes transfer
    by (simp add: floppy_read_lba_def chs floppy_read_sector_def run_seek [OF f] run_wait_ready) (simp add: fdc_result_def)
qed

text \<open>The loop runs up to the sector of the byte behind the range.  A range that ends with
  the disk therefore makes it read block 2880, which does not exist: the driver reports failure
  although every byte asked for was read, and leaves the result bytes of the failed command in
  the controller.\<close>

theorem floppy_read_disk_end:
  assumes "fdc_idle f" "address div 512 = 2879" "unat address + unat count = 1474560"
  shows "\<exists>f'. run_state (floppy_read fdc_ports address count) f =
      ((False, List.map (disk_byte f) [unat address..<1474560]), f') \<and> \<not> fdc_idle f'"
proof -
  have fit: "unat address + unat count < 2 ^ 32" using assms(3) by simp
  have start: "unat address div 512 = 2879" using arg_cong [OF assms(2), of unat] by (simp add: unat_div)
  have stop: "(unat address + unat count) div 512 = 2880" using assms(3) by simp
  have L1: "unat address div 512 \<le> 2879" "2879 \<le> (unat address + unat count) div 512" "unat (2879 :: u32) = 2879"
    using start stop by simp_all
  note r = floppy_range [OF fit L1]
  have L2: "unat address div 512 \<le> 2880" "2880 \<le> (unat address + unat count) div 512" "unat (2880 :: u32) = 2880"
    using start stop by simp_all
  note r2 = floppy_range [OF fit L2]
  have lo: "max (unat address) (512 * 2879) = unat address" using start by simp
  have hi: "min (unat address + unat count) (512 * (2879 + 1)) = 1474560" using assms(3) by simp
  have in2879: "unat (2879 :: u32) < 2880" by simp
  obtain f1 where f1: "run_state (floppy_read_lba fdc_ports 2879) f = ((True, fdc_disk f 2879), f1)" "fdc_idle f1"
    using run_read_lba [OF assms(1) in2879] by auto
  obtain f2 where f2: "run_state (floppy_read_lba fdc_ports 2880) f1 = ((False, []), f2)" "fdc_out f2 \<noteq> []"
    using run_read_behind [OF f1(2)] by blast
  have part: "take (floppy_end address count 2879 - floppy_start address 2879) (drop (floppy_start address 2879) (fdc_disk f 2879)) =
      List.map (disk_byte f) [unat address..<1474560]"
    using fd.sector_part [OF assms(1) r(3,4), of 2879] unfolding r(1,2) lo hi disk_byte_eq .
  have next_lba: "(2879 :: u32) + 1 = 2880" by simp
  have "run_state (floppy_read fdc_ports address count) f =
      floppy_read_loop (floppy_read_lba fdc_ports) address count 2880 (List.map (disk_byte f) [unat address..<1474560]) f1"
    unfolding floppy_read_def assms(2)
    using r(5) f1(1) part by (simp add: floppy_read_loop.simps [of _ address count 2879] Let_def next_lba)
  also have "\<dots> = ((False, List.map (disk_byte f) [unat address..<1474560]), f2)"
    using r2(5) f2(1) by (simp add: floppy_read_loop.simps [of _ address count 2880])
  finally show ?thesis using f2(2) by (auto simp: fdc_idle_def)
qed

theorem floppy_read_disk_end_witness:
  "\<exists>f'. run_state (floppy_read fdc_ports 1474556 4) fdc_zero = ((False, [0, 0, 0, 0]), f') \<and> \<not> fdc_idle f'"
  using floppy_read_disk_end [of fdc_zero 1474556 4] fdc_zero_idle
  by (simp add: upt_rec disk_byte_def fdc_zero_def)

end
