(* ===== verification/FatfsLaws.thy ===== *)
theory FatfsLaws
  imports FatLaws Fatfs FloppyLaws
begin

section \<open>The FAT file system on the floppy\<close>

text \<open>
  The two functions that the driver gives to \<^verbatim>\<open>fat_init\<close> meet the contract of a byte device on any
  ports behind which the controller works, up to the last byte of the disk, which the floppy driver
  cannot read.  A volume of 1.44 MB is one on this device.
\<close>

subsection \<open>The device\<close>

lemma run_read_func:
  assumes "behaves_as io ctl" "fdc_idle (ctl p)" "unat offset + unat n < 1474560"
  shows "\<exists>p'. run_state (read_func io offset n) p = (range_of (disk_byte (ctl p)) (unat offset) (unat n), p') \<and>
    fdc_idle (ctl p') \<and> disk_byte (ctl p') = disk_byte (ctl p)"
proof -
  have "in_disk offset n" using assms(3) by (simp add: in_disk_def)
  from run_read [OF assms(2) this] obtain f where f: "run_state (floppy_read fdc_ports offset n) (ctl p) =
      ((True, List.map (disk_byte (ctl p)) [unat offset..<unat offset + unat n]), f)" "fdc_idle f" "fdc_disk f = fdc_disk (ctl p)"
    by blast
  obtain p' where p': "run_state (floppy_read io offset n) p =
      ((True, List.map (disk_byte (ctl p)) [unat offset..<unat offset + unat n]), p')" "ctl p' = f"
    using sim_run [OF sim_read [OF assms(1)] f(1)] by blast
  have "disk_byte f = disk_byte (ctl p)" using f(3) by (simp add: disk_byte_def fun_eq_iff)
  then show ?thesis using p' f(2) by (auto simp: read_func_def range_of_def)
qed

lemma run_write_func:
  assumes "behaves_as io ctl" "fdc_idle (ctl p)" "unat offset + length data < 1474560"
  shows "\<exists>p'. run_state (write_func io garbage offset data) p = ((), p') \<and> fdc_idle (ctl p') \<and>
    disk_byte (ctl p') = overwrite (disk_byte (ctl p)) (unat offset) data"
proof -
  let ?n = "word_of_nat (length data) :: u32"
  have n: "length data = unat ?n" using assms(3) by (simp add: unat_of_nat)
  have "in_disk offset ?n" using assms(3) n by (simp add: in_disk_def)
  from run_write [OF assms(2) this n] obtain f where f: "run_state (floppy_write fdc_ports garbage data offset ?n True) (ctl p) = (True, f)"
    "fdc_idle f" "\<forall>a. disk_byte f a = (if unat offset \<le> a \<and> a < unat offset + unat ?n then data ! (a - unat offset) else disk_byte (ctl p) a)"
    by blast
  obtain p' where p': "run_state (floppy_write io garbage data offset ?n True) p = (True, p')" "ctl p' = f"
    using sim_run [OF sim_write [OF assms(1)] f(1)] by blast
  have "disk_byte f = overwrite (disk_byte (ctl p)) (unat offset) data"
    using f(3) n by (simp add: overwrite_def fun_eq_iff)
  then show ?thesis using p' f(2) by (auto simp: write_func_def)
qed

lemma floppy_byte_device:
  assumes "behaves_as io ctl"
  shows "byte_device (read_func io) (write_func io garbage) (\<lambda>p. fdc_idle (ctl p)) (\<lambda>p. disk_byte (ctl p)) 1474560"
  using run_read_func [OF assms] run_write_func [OF assms] by unfold_locales

interpretation fdd: byte_device "read_func fdc_ports" "write_func fdc_ports garbage" fdc_idle disk_byte 1474560 for garbage
  using floppy_byte_device [OF behaves_as_fdc] by simp

subsection \<open>Volumes\<close>

text \<open>The disk structure that mounting leaves.\<close>

definition fatfs_disk :: "'p ports \<Rightarrow> u8 list \<Rightarrow> fat_bpb \<Rightarrow> 'p fat_disk" where
  "fatfs_disk io garbage b =
     \<lparr>d_read_func = read_func io, d_write_func = write_func io garbage, d_bpb = b, d_root_directory = fat_root_directory b\<rparr>"

lemma floppy_volume:
  assumes "behaves_as io ctl" "fat_geometry (fatfs_disk io garbage b) 1474560 clusters"
  shows "fat_volume (fatfs_disk io garbage b) (\<lambda>p. fdc_idle (ctl p)) (\<lambda>p. disk_byte (ctl p)) 1474560 clusters"
  using floppy_byte_device [OF assms(1), of garbage] assms(2)
  by (simp add: fat_volume_def fat_volume_axioms_def fatfs_disk_def)

text \<open>A 1.44 MB volume: sectors of 512 bytes, one per cluster, 32 reserved sectors, two tables of 22 sectors.\<close>

definition floppy_bpb :: fat_bpb where
  "floppy_bpb =
     \<lparr>BS_jmpBoot = [0xEB, 0x58, 0x90], BS_OEMName = replicate 8 0x20, BPB_BytsPerSec = 512, BPB_SecPerClus = 1,
      BPB_RsvdSecCnt = 32, BPB_NumFATs = 2, BPB_RootEntCnt = 0, BPB_TotSec16 = 2880, BPB_Media = 0xF0, BPB_FATSz16 = 0,
      BPB_SecPerTrk = 18, BPB_NumHeads = 2, BPB_HiddSec = 0, BPB_TotSec32 = 0, BPB_FATSz32 = 22, BPB_ExtFlags = 0,
      BPB_FSVer = 0, BPB_RootClus = 2, BPB_FSInfo = 1, BPB_BkBootSec = 6, BPB_Reserved = replicate 12 0, BS_DrvNum = 0,
      BS_Reserved1 = 0, BS_BootSig = 0x29, BS_VolID = 0, BS_VolLab = replicate 11 0x20,
      BS_FilSysType = [0x46, 0x41, 0x54, 0x33, 0x32, 0x20, 0x20, 0x20]\<rparr>"

lemma floppy_bpb_sizes [simp]:
  "sector_bytes (fatfs_disk io garbage floppy_bpb) = 512" "cluster_bytes (fatfs_disk io garbage floppy_bpb) = 512"
  "table_start (fatfs_disk io garbage floppy_bpb) = 16384" "table_bytes (fatfs_disk io garbage floppy_bpb) = 11264"
  "data_start (fatfs_disk io garbage floppy_bpb) = 38912"
  by (simp_all add: sector_bytes_def cluster_bytes_def table_start_def table_bytes_def data_start_def fatfs_disk_def floppy_bpb_def)

lemma floppy_geometry: "fat_geometry (fatfs_disk io garbage floppy_bpb) 1474560 2803"
  by (simp add: fat_geometry_def) (simp add: fatfs_disk_def floppy_bpb_def)

interpretation fv: fat_volume "fatfs_disk fdc_ports garbage floppy_bpb" fdc_idle disk_byte 1474560 2803 for garbage
  using floppy_volume [OF behaves_as_fdc floppy_geometry, of garbage] by simp

text \<open>
  The volume of the witnesses: a file of the clusters 5 and 6, whose sectors hold their own number in
  every byte, in a directory of the cluster 7; the first sector
  starts with the parameter block; every other sector is zero.
\<close>

definition fdc_volume :: fdc where
  "fdc_volume = fdc_zero\<lparr>fdc_disk := (\<lambda>n.
     if n = 0 then bytes_of_bpb floppy_bpb @ replicate 422 0
     else if n = 32 then replicate 20 0 @ bytes32 6 @ bytes32 0x0FFFFFFF @ bytes32 0x0FFFFFFF @ replicate 480 0
     else if n = 79 \<or> n = 80 then replicate 512 (word_of_nat n) else replicate 512 0)\<rparr>"

definition volume_world :: "fdc fat_world" where
  "volume_world = \<lparr>w_dev = fdc_volume, w_cache = replicate 512 0, w_cache_sector = 0xFFFFFFFF\<rparr>"

definition volume_file :: fat_file where
  "volume_file = fat_file_default\<lparr>f_dir := fat_dir_empty\<lparr>DIR_FstClusLO := 5, DIR_FileSize := 700\<rparr>, f_cursor := 510,
     f_first_parent_cluster := 7, f_entry_position := 64\<rparr>"

lemma length_floppy_bpb: "length (bytes_of_bpb floppy_bpb) = 90"
  by (simp add: bytes_of_bpb_def floppy_bpb_def)

lemma volume_idle: "fdc_idle fdc_volume"
  using fdc_zero_idle by (simp add: fdc_idle_def fdc_volume_def fdc_zero_def length_floppy_bpb)

lemma volume_world_ok: "world_ok fdc_idle volume_world"
  using volume_idle by (simp add: world_ok_def volume_world_def)

abbreviation (input) volume :: "fdc fat_disk" where "volume \<equiv> fatfs_disk fdc_ports [] floppy_bpb"

lemma volume_entry:
  "table_entry volume (disk_byte fdc_volume) 5 = 6" "table_entry volume (disk_byte fdc_volume) 6 = 0x0FFFFFFF"
  "table_entry volume (disk_byte fdc_volume) 7 = 0x0FFFFFFF" "table_entry volume (disk_byte fdc_volume) 8 = 0"
  by (simp_all add: table_entry_def le32_def range_of_def upt_rec disk_byte_def fdc_volume_def nth_append bytes32_def)

lemma volume_simps [simp]:
  "DIR_FstClusLO (f_dir volume_file) = 5" "DIR_FileSize (f_dir volume_file) = 700" "f_cursor volume_file = 510"
  "f_first_parent_cluster volume_file = 7" "f_entry_position volume_file = 64" "DIR_Name (f_dir volume_file) = replicate 11 0"
  "w_dev volume_world = fdc_volume"
  by (simp_all add: volume_file_def volume_world_def fat_dir_empty_def fat_file_default_def)

lemma volume_chain: "chain (table_entry volume (disk_byte (w_dev volume_world))) 2803 (first_cluster volume_file) [5, 6]"
  by (simp add: volume_entry valid_cluster_def fat_no_cluster_def fat_last_cluster_def)

lemma sector_range: "length (fdc_disk f n) = 512 \<Longrightarrow> range_of (disk_byte f) (512 * n) 512 = fdc_disk f n"
  by (rule nth_equalityI) (simp_all add: disk_byte_def)

lemma volume_bytes: "file_bytes volume (disk_byte fdc_volume) [5, 6] = replicate 512 79 @ replicate 512 80"
proof -
  have "range_of (disk_byte fdc_volume) (512 * 79) 512 = replicate 512 79" "range_of (disk_byte fdc_volume) (512 * 80) 512 = replicate 512 80"
    by (subst sector_range; simp add: fdc_volume_def)+
  then show ?thesis by (simp add: file_bytes_def cluster_start_def)
qed

subsection \<open>Files on any volume\<close>

text \<open>C5. Reading.  On a volume whose device meets its contract, for a file whose size lies in the
  last cluster of its chain and a cursor inside the file, \<^verbatim>\<open>fat_fread\<close> returns; it delivers the bytes
  from the cursor up to the end of the request or of the file, leaves the rest of the buffer as it
  was, moves the cursor over what it delivered and does not change the device.\<close>

theorem fat_fread_delivers:
  assumes "fat_volume disk ready content limit clusters" "world_ok ready w"
    "chain (table_entry disk (content (w_dev w))) clusters (first_cluster fl) cs"
    "(length cs - 1) * cluster_bytes disk \<le> unat (DIR_FileSize (f_dir fl))"
    "unat (DIR_FileSize (f_dir fl)) \<le> length cs * cluster_bytes disk"
    "f_cursor fl \<le> DIR_FileSize (f_dir fl)" "unat (n * k) \<le> length out"
  shows "\<exists>moved w'. fat_fread disk out n k fl w =
      Some (take (unat moved) (drop (unat (f_cursor fl)) (file_bytes disk (content (w_dev w)) cs)) @ drop (unat moved) out,
            fl\<lparr>f_cursor := f_cursor fl + moved\<rparr>, w') \<and>
      unat moved = min (unat (n * k)) (unat (DIR_FileSize (f_dir fl)) - unat (f_cursor fl)) \<and>
      world_ok ready w' \<and> content (w_dev w') = content (w_dev w)"
  using assms by (rule fat_volume.fread_file)

theorem fat_fread_delivers_witness:
  "\<exists>w'. fat_fread volume [1, 2, 3, 4, 5] 4 1 volume_file volume_world =
     Some ([79, 79, 80, 80, 5], volume_file\<lparr>f_cursor := 514\<rparr>, w')"
proof -
  obtain moved w' where "fat_fread volume [1, 2, 3, 4, 5] 4 1 volume_file volume_world =
      Some (take (unat moved) (drop 510 (file_bytes volume (disk_byte fdc_volume) [5, 6])) @
              drop (unat moved) [1, 2, 3, 4, 5], volume_file\<lparr>f_cursor := 510 + moved\<rparr>, w')" "unat moved = 4"
    using fat_fread_delivers [OF fv.fat_volume_axioms volume_world_ok volume_chain, of 4 1 "[1, 2, 3, 4, 5]"] by auto
  moreover from this(2) have "moved = 4" by (simp add: word_unat_eq_iff)
  ultimately show ?thesis by (simp add: volume_bytes numeral_2_eq_2)
qed



text \<open>C29. Walking a chain ends: \<^verbatim>\<open>fat_file_cluster_count\<close> returns the length of the file's chain,
  which is at most the number of clusters of the volume, although no step is bounded by it.\<close>

theorem fat_count_is_chain_length:
  assumes "fat_volume disk ready content limit clusters" "world_ok ready w"
    "chain (table_entry disk (content (w_dev w))) clusters (first_cluster fl) cs"
  shows "\<exists>count w'. fat_file_cluster_count disk fl w = Some (count, w') \<and> unat count = length cs \<and> length cs \<le> clusters \<and>
      world_ok ready w' \<and> content (w_dev w') = content (w_dev w)"
  using assms by (rule fat_volume.count_file)

theorem fat_count_is_chain_length_witness: "\<exists>w'. fat_file_cluster_count volume volume_file volume_world = Some (2, w')"
proof -
  obtain count w' where "fat_file_cluster_count volume volume_file volume_world = Some (count, w')" "unat count = 2"
    using fat_count_is_chain_length [OF fv.fat_volume_axioms volume_world_ok volume_chain] by auto
  moreover from this(2) have "count = 2" by (simp add: word_unat_eq_iff)
  ultimately show ?thesis by blast
qed

text \<open>Releasing a chain sets exactly the entries of its clusters to free, in a table whose other
  entries stay, and changes no byte outside the tables.\<close>

theorem fat_remove_chain_frees:
  assumes "fat_volume disk ready content limit clusters" "world_ok ready w"
    "chain (table_entry disk (content (w_dev w))) clusters (first_cluster fl) cs"
  shows "\<exists>w'. fat_remove_fat_chain disk fl w = Some w' \<and> world_ok ready w' \<and>
      (\<forall>c. unat c < clusters + 2 \<longrightarrow> table_entry disk (content (w_dev w')) c =
         (if c \<in> set cs then 0 else table_entry disk (content (w_dev w)) c)) \<and>
      (\<forall>a. a < table_start disk \<or> data_start disk \<le> a \<longrightarrow> content (w_dev w') a = content (w_dev w) a)"
  using assms by (rule fat_volume.remove_chain)

theorem fat_remove_chain_frees_witness:
  "\<exists>w'. fat_remove_fat_chain volume volume_file volume_world = Some w' \<and>
     table_entry volume (disk_byte (w_dev w')) 5 = 0 \<and> table_entry volume (disk_byte (w_dev w')) 6 = 0"
  using fat_remove_chain_frees [OF fv.fat_volume_axioms volume_world_ok volume_chain] by auto

text \<open>C28. The cache of the table is transparent: after \<^verbatim>\<open>fat_invalidate_cache\<close>, two reads through the
  cache give what two reads from the device give.\<close>

theorem fat_cache_transparent:
  assumes "fat_volume disk ready content limit clusters" "world_ok ready w" "unat c < clusters + 2" "unat d < clusters + 2"
  shows "\<exists>w1 w2 w3 w4. fat_read_fat_entry disk c True (fat_invalidate_cache w) = Some (table_entry disk (content (w_dev w)) c, w1) \<and>
      fat_read_fat_entry disk d True w1 = Some (table_entry disk (content (w_dev w)) d, w2) \<and>
      fat_read_fat_entry disk c False w = Some (table_entry disk (content (w_dev w)) c, w3) \<and>
      fat_read_fat_entry disk d False w3 = Some (table_entry disk (content (w_dev w)) d, w4)"
  using assms by (rule fat_volume.cache_transparent)

theorem fat_cache_transparent_witness:
  "\<exists>w1 w2 w3 w4. fat_read_fat_entry volume 5 True (fat_invalidate_cache volume_world) = Some (6, w1) \<and>
     fat_read_fat_entry volume 6 True w1 = Some (0x0FFFFFFF, w2) \<and>
     fat_read_fat_entry volume 5 False volume_world = Some (6, w3) \<and> fat_read_fat_entry volume 6 False w3 = Some (0x0FFFFFFF, w4)"
  using fat_cache_transparent [OF fv.fat_volume_axioms volume_world_ok, of 5 6 "[]"]
  by (simp add: volume_entry)

subsection \<open>The driver\<close>

lemma sint_small:
  assumes "unat (c :: u32) < 2 ^ 31"
  shows "sint c = int (unat c)"
proof -
  have "uint c = int (unat c)" by simp
  moreover have "unat c < 2147483648" using assms by simp
  ultimately have "uint c < 2147483648" by linarith
  moreover have "sint c = (uint c + 2 ^ 31) mod 2 ^ 32 - 2 ^ 31"
    using int_word_sint [of "uint c", where 'a = 32] by simp
  ultimately show ?thesis by simp
qed


definition volume_state :: "fdc fatfs_world" where
  "volume_state = \<lparr>fw_fat = volume_world, fw_disk = volume, fw_states = [3 \<mapsto> \<lparr>st_is_dir = False, st_file = volume_file\<rparr>], fw_next = 4\<rparr>"


end
