(* ===== verification/FatNames.thy ===== *)
theory FatNames
  imports FatOps Digits
begin

section \<open>Structures, numbers and names of the FAT file system\<close>

text \<open>
  The packed structures and their bytes determine each other; numbers are printed as their digits;
  \<^verbatim>\<open>path_compare\<close> compares a name with the first component of a path; long names survive the
  conversions and the split into directory entries.
\<close>

subsection \<open>Structures\<close>

lemma le16_join: "(ucast (ucast (v :: u16) :: u8) :: u16) + 0x100 * ucast (ucast (v div 0x100) :: u8) = v"
  using le16_bytes16 [of v] by (simp add: le16_def bytes16_def)

lemma le32_join: "(ucast (ucast (v :: u32) :: u8) :: u32) + 0x100 * ucast (ucast (v div 0x100) :: u8) +
    0x10000 * ucast (ucast (v div 0x10000) :: u8) + 0x1000000 * ucast (ucast (v div 0x1000000) :: u8) = v"
  using le32_bytes32 [of v] by (simp add: le32_def bytes32_def)

lemma byte_of_unat: "(ucast (w :: 'a::len word) :: u8) = b \<longleftrightarrow> unat w mod 256 = unat b"
  by (simp add: word_unat_eq_iff unsigned_ucast_eq take_bit_eq_mod)

lemma bytes16_le16: "bytes16 (le16 bs i) = [bs ! i, bs ! (i + 1)]"
proof -
  have "unat (bs ! i) < 256" "unat (bs ! (i + 1)) < 256" by (rule unat_byte)+
  then have "(unat (bs ! i) + 256 * unat (bs ! (i + 1))) div 256 = unat (bs ! (i + 1))" by simp
  then show ?thesis
    using unat_byte [of "bs ! i"] unat_byte [of "bs ! (i + 1)"]
    by (simp add: bytes16_def byte_of_unat unat_div unat_le16)
qed

lemma bytes32_le32: "bytes32 (le32 bs i) = [bs ! i, bs ! (i + 1), bs ! (i + 2), bs ! (i + 3)]"
proof -
  define a b c d where "a = unat (bs ! i)" and "b = unat (bs ! (i + 1))" and "c = unat (bs ! (i + 2))" and "d = unat (bs ! (i + 3))"
  have s: "a < 256" "b < 256" "c < 256" "d < 256" unfolding a_def b_def c_def d_def by (rule unat_byte)+
  have e: "a + 256 * b + 65536 * c + 16777216 * d = a + 256 * (b + 256 * (c + 256 * d))" by simp
  have d1: "(a + 256 * b + 65536 * c + 16777216 * d) div 256 = b + 256 * (c + 256 * d)" unfolding e using s by simp
  have d2: "(a + 256 * b + 65536 * c + 16777216 * d) div 65536 = c + 256 * d"
    using div_mult2_eq [of "a + 256 * b + 65536 * c + 16777216 * d" 256 256] d1 s by simp
  have d3: "(a + 256 * b + 65536 * c + 16777216 * d) div 16777216 = d"
    using div_mult2_eq [of "a + 256 * b + 65536 * c + 16777216 * d" 65536 256] d2 s by simp
  have m: "(a + 256 * b + 65536 * c + 16777216 * d) mod 256 = a" unfolding e mod_mult_self2 using s by simp
  have "unat (le32 bs i) = a + 256 * b + 65536 * c + 16777216 * d" by (simp add: unat_le32 a_def b_def c_def d_def)
  moreover have "unat (bs ! Suc i) = b" "unat (bs ! Suc (Suc i)) = c"
    by (simp_all add: b_def c_def)
  moreover have "(b + (256 * c + 65536 * d)) mod 256 = b"
  proof -
    have "b + (256 * c + 65536 * d) = b + 256 * (c + 256 * d)" by simp
    then show ?thesis using s(2) by (simp only: mod_mult_self2 mod_less)
  qed
  moreover have "(c + 256 * d) mod 256 = c" using s(3) by (simp only: mod_mult_self2 mod_less)
  ultimately show ?thesis using s d1 d2 d3 m by (simp add: bytes32_def byte_of_unat unat_div flip: a_def d_def)
qed

lemma dir_roundtrip: "length (DIR_Name d) = 11 \<Longrightarrow> dir_of_bytes (bytes_of_dir d) = d"
  by (simp add: dir_of_bytes_def bytes_of_dir_def le16_def le32_def nth_append bytes16_def bytes32_def le16_join le32_join)

lemma length_bytes_of_dir: "length (DIR_Name d) = 11 \<Longrightarrow> length (bytes_of_dir d) = 32"
  by (simp add: bytes_of_dir_def)

lemma list_expand: "length xs = n \<Longrightarrow> xs = List.map ((!) xs) [0..<n]"
  by (rule nth_equalityI) simp_all

lemma bytes_roundtrip: assumes "length bs = 32" shows "bytes_of_dir (dir_of_bytes bs) = bs"
proof -
  have "take 11 bs = List.map ((!) bs) [0..<11]" using assms by (intro nth_equalityI) simp_all
  then have "bytes_of_dir (dir_of_bytes bs) = List.map ((!) bs) [0..<32]"
    by (simp add: dir_of_bytes_def bytes_of_dir_def bytes16_le16 bytes32_le32 upt_rec)
       (simp add: numeral_eq_Suc)
  then show ?thesis using list_expand [OF assms] by simp
qed

lemma lfn_roundtrip:
  assumes "length (LDIR_Name1 l) = 5" "length (LDIR_Name2 l) = 6" "length (LDIR_Name3 l) = 2"
  shows "lfn_of_bytes (bytes_of_lfn l) = l"
proof -
  note e = list_expand [OF assms(1)] list_expand [OF assms(2)] list_expand [OF assms(3)]
  define a b c where "a = (!) (LDIR_Name1 l)" and "b = (!) (LDIR_Name2 l)" and "c = (!) (LDIR_Name3 l)"
  have l: "LDIR_Name1 l = List.map a [0..<5]" "LDIR_Name2 l = List.map b [0..<6]" "LDIR_Name3 l = List.map c [0..<2]"
    using e by (simp_all add: a_def b_def c_def)
  show ?thesis
    by (simp add: lfn_of_bytes_def bytes_of_lfn_def l upt_rec bytes16_def le16_def le16_join)
qed

lemma length_bytes_of_lfn:
  assumes "length (LDIR_Name1 l) = 5" "length (LDIR_Name2 l) = 6" "length (LDIR_Name3 l) = 2"
  shows "length (bytes_of_lfn l) = 32"
  using assms by (simp add: bytes_of_lfn_def length_concat comp_def sum_list_triv)

lemma bpb_roundtrip:
  assumes "length (BS_jmpBoot b) = 3" "length (BS_OEMName b) = 8" "length (BPB_Reserved b) = 12" "length (BS_VolLab b) = 11"
    "length (BS_FilSysType b) = 8"
  shows "bpb_of_bytes (bytes_of_bpb b) = b" "length (bytes_of_bpb b) = 90"
  using assms by (simp_all add: bpb_of_bytes_def bytes_of_bpb_def le16_def le32_def nth_append bytes16_def bytes32_def le16_join le32_join)

subsection \<open>Numbers\<close>

lemma itoa_loop_digits:
  assumes "2 \<le> radix"
  shows "fat_itoa_loop val radix buffer =
    Some (buffer @ rev (List.map (\<lambda>d. fat_digit (word_of_nat d)) (to_digits (unat radix) (unat val))))"
proof (induction "unat val" arbitrary: val buffer rule: less_induct)
  case less
  have r: "2 \<le> unat radix" "radix \<noteq> 0" using assms by (auto simp: word_le_nat_alt)
  show ?case
  proof (cases "val > 0")
    case True
    then have nz: "unat val \<noteq> 0" by (simp add: word_less_nat_alt)
    then have "unat (val div radix) < unat val" using r(1) by (simp add: unat_div)
    note IH = less [OF this, of "buffer @ [fat_digit (val mod radix)]"]
    have "word_of_nat (unat val mod unat radix) = val mod radix" by (simp flip: unat_mod)
    then show ?thesis
      using True r nz IH by (simp add: fat_itoa_loop.simps [of val] to_digits.simps [of _ "unat val"] unat_div)
  next
    case False
    then have "unat val = 0" by (simp add: word_less_nat_alt)
    then show ?thesis using False by (simp add: fat_itoa_loop.simps [of val])
  qed
qed

lemma reverse_loop_nth:
  "i < length buffer \<Longrightarrow> length (fat_reverse_loop buffer j i) = length buffer \<and>
     (\<forall>k < length buffer. fat_reverse_loop buffer j i ! k = (if j \<le> k \<and> k \<le> i then buffer ! (j + i - k) else buffer ! k))"
proof (induction buffer j i rule: fat_reverse_loop.induct)
  case (1 buffer j i)
  show ?case
  proof (cases "j < i")
    case True
    let ?b = "buffer[j := buffer ! i, i := buffer ! j]"
    have IH: "length (fat_reverse_loop ?b (j + 1) (i - 1)) = length buffer"
      "\<And>k. k < length buffer \<Longrightarrow> fat_reverse_loop ?b (j + 1) (i - 1) ! k =
         (if j + 1 \<le> k \<and> k \<le> i - 1 then ?b ! (j + 1 + (i - 1) - k) else ?b ! k)"
      using 1 True by simp_all
    have "fat_reverse_loop ?b (j + 1) (i - 1) ! k = (if j \<le> k \<and> k \<le> i then buffer ! (j + i - k) else buffer ! k)"
      if k: "k < length buffer" for k
    proof (cases "j + 1 \<le> k \<and> k \<le> i - 1")
      case inner: True
      then have "j \<le> k" "k \<le> i" "j + i - k < length buffer" "j + i - k \<noteq> i" "j + i - k \<noteq> j" "j + 1 + (i - 1) - k = j + i - k"
        using 1(2) True by auto
      then show ?thesis using IH(2) [OF k] inner True by simp
    next
      case False
      then consider "k = j" | "k = i" | "k < j \<or> i < k" using True by linarith
      then show ?thesis using IH(2) [OF k] False True 1(2) by cases (auto simp: nth_list_update)
    qed
    then show ?thesis using True IH(1) by (simp add: fat_reverse_loop.simps [of buffer])
  next
    case False
    then have "j \<le> k \<and> k \<le> i \<Longrightarrow> j + i - k = k" for k by auto
    then show ?thesis using False by (auto simp: fat_reverse_loop.simps [of buffer])
  qed
qed

lemma reverse_loop_rev: "buffer \<noteq> [] \<Longrightarrow> fat_reverse_loop buffer 0 (length buffer - 1) = rev buffer"
  using reverse_loop_nth [of "length buffer - 1" buffer 0] by (intro nth_equalityI) (auto simp: rev_nth)

text \<open>Numbers are printed as their digits in the given base, most significant first, a letter for
  a digit above nine, with a single zero for zero.\<close>

theorem fat_itoa_digits:
  assumes "2 \<le> radix"
  shows "fat_itoa val radix = Some (if val = 0 then [0x30]
    else List.map (\<lambda>d. fat_digit (word_of_nat d)) (to_digits (unat radix) (unat val)))"
proof (cases "val = 0")
  case False
  let ?ds = "List.map (\<lambda>d. fat_digit (word_of_nat d)) (to_digits (unat radix) (unat val))"
  have "unat val \<noteq> 0" using False by (simp add: unsigned_eq_0_iff)
  moreover have "2 \<le> unat radix" using assms by (simp add: word_le_nat_alt)
  ultimately have "rev ?ds \<noteq> []" by (simp add: to_digits.simps [of _ "unat val"])
  from reverse_loop_rev [OF this] show ?thesis using False itoa_loop_digits [OF assms, of val "[]"] by (simp add: fat_itoa_def)
qed (simp add: fat_itoa_def)

theorem fat_itoa_digits_witness: "fat_itoa 254 16 = Some [0x46, 0x45]"
  using fat_itoa_digits [of 16 254] by (simp add: to_digits.simps fat_digit_def)

subsection \<open>Comparing names\<close>

text \<open>What the comparison looks at in a character.\<close>

definition fat_fold :: "bool \<Rightarrow> u8 \<Rightarrow> u8" where
  "fat_fold case_sensitive c = (if case_sensitive then c else to_lowercase c)"

lemma path_compare_loop_bound: "path_compare_loop cs path name i \<le> i + length name"
proof (induction path arbitrary: name i)
  case Nil
  then show ?case by (simp add: path_compare_loop.simps [of cs "[]"] byte_at_def)
next
  case (Cons p path)
  from Cons [of "drop 1 name" "i + 1"] show ?case
    by (cases name) (simp_all add: path_compare_loop.simps [of cs "p # path"] byte_at_def Let_def)
qed

lemma path_compare_bound: "path_compare path name cs \<le> length name"
  using path_compare_loop_bound [of cs path name 0] by (simp add: path_compare_def)

lemma to_lowercase_slash: "to_lowercase c = to_lowercase 0x2F \<longleftrightarrow> c = 0x2F"
proof -
  have "c + 0x20 = 0x2F \<Longrightarrow> c = 0xF" by (simp add: eq_diff_eq [symmetric])
  then show ?thesis by (auto simp: to_lowercase_def)
qed

lemma path_compare_loop_name:
  assumes "0 \<notin> set path" "0 \<notin> set name"
  shows "path_compare_loop cs path (name @ 0 # rest) i =
    (if List.map (fat_fold cs) (takeWhile (\<lambda>c. c \<noteq> 0x2F) path) = List.map (fat_fold cs) name \<and> 0x2F \<notin> set name
     then i + length name else 0)"
  using assms
proof (induction path arbitrary: name i)
  case Nil
  then show ?case by (cases name) (auto simp: path_compare_loop.simps [of cs "[]"] byte_at_def)
next
  case (Cons p path)
  show ?case
  proof (cases name)
    case Nil
    then show ?thesis using Cons.prems by (simp add: path_compare_loop.simps [of cs "p # path"] byte_at_def)
  next
    case (Cons d name')
    then show ?thesis using Cons.prems Cons.IH [of name' "i + 1"]
      by (auto simp: path_compare_loop.simps [of cs "p # path"] byte_at_def fat_fold_def Let_def to_lowercase_slash)
  qed
qed

text \<open>Comparing a name with a path: the length of the name when the first component of the path is
  the name, up to letter case unless the comparison is exact, else 0.\<close>

theorem path_compare_component:
  assumes "0 \<notin> set path" "0 \<notin> set name"
  shows "path_compare path (name @ 0 # rest) case_sensitive =
    (if List.map (fat_fold case_sensitive) (takeWhile (\<lambda>c. c \<noteq> 0x2F) path) = List.map (fat_fold case_sensitive) name \<and>
        0x2F \<notin> set name then length name else 0)"
  using path_compare_loop_name [OF assms, of case_sensitive rest 0] by (simp add: path_compare_def)

theorem path_compare_component_witness: "path_compare [0x41, 0x62, 0x2F, 0x63] ([0x61, 0x42] @ 0 # [7]) False = 2"
  using path_compare_component [of "[0x41, 0x62, 0x2F, 0x63]" "[0x61, 0x42]" "[7]" False] by (simp add: fat_fold_def to_lowercase_def)

subsection \<open>Long names\<close>

lemma scast_byte: "ucast (scast (c :: u8) :: u16) = c"
  by (rule bit_word_eqI) (simp add: bit_simps)

lemma scast_byte_0: "(scast (c :: u8) :: u16) = 0 \<longleftrightarrow> c = 0"
proof
  assume "(scast c :: u16) = 0"
  then have "ucast (scast c :: u16) = (0 :: u8)" by simp
  then show "c = 0" by (simp only: scast_byte)
qed simp

text \<open>A name that is stored as a long name is read back as the same string, whatever was in the
  array, if it fits.\<close>

theorem fat_longname_roundtrip:
  assumes "0 \<notin> set s" "length s < length buffer"
  shows "\<exists>l. fat_string_to_longname s buffer = Some l \<and> length l = length buffer \<and> fat_longname_to_string l = Some s"
proof -
  let ?l = "List.map scast s @ 0 # drop (length s + 1) buffer"
  have "fat_string_to_longname s buffer = Some ?l"
    using assms(2) by (simp add: fat_string_to_longname_def store_at_def)
  moreover have "takeWhile (\<lambda>c. c \<noteq> 0) ?l = List.map scast s"
    using assms(1) by (subst takeWhile_append2) (auto simp: scast_byte_0)
  then have "fat_longname_to_string ?l = Some s"
    by (simp add: fat_longname_to_string_def comp_def scast_byte)
  ultimately show ?thesis using assms(2) by auto
qed

theorem fat_longname_roundtrip_witness:
  "\<exists>l. fat_string_to_longname [0x61, 0xE9] [9, 9, 9, 9] = Some l \<and> fat_longname_to_string l = Some [0x61, 0xE9]"
  using fat_longname_roundtrip [of "[0x61, 0xE9]" "[9, 9, 9, 9]"] by auto

lemma lfn_entry_chars:
  assumes "fat_lfn_entry_at name i n checksum = Some l" "1 \<le> unat i"
  shows "fat_lfn_chars l = take 13 (drop ((unat i - 1) * 13) name)" "(unat i - 1) * 13 + 13 \<le> length name"
    "LDIR_Ord l = (if i = n then 0x40 else 0) OR i" "LDIR_Attr l = 0x0F"
    "length (LDIR_Name1 l) = 5" "length (LDIR_Name2 l) = 6" "length (LDIR_Name3 l) = 2"
proof -
  obtain chars where c: "slice name ((unat i - 1) * 13) 13 = Some chars"
    "l = \<lparr>LDIR_Ord = (if i = n then 0x40 else 0) OR i, LDIR_Name1 = take 5 chars, LDIR_Attr = 0x0F, LDIR_Type = 0,
          LDIR_Chksum = checksum, LDIR_Name2 = take 6 (drop 5 chars), LDIR_FstClusLO = 0, LDIR_Name3 = drop 11 chars\<rparr>"
    using assms(1) by (auto simp: fat_lfn_entry_at_def Option.bind_eq_Some_conv)
  have k: "chars = take 13 (drop ((unat i - 1) * 13) name)" "(unat i - 1) * 13 + 13 \<le> length name"
    using c(1) by (auto simp: slice_def split: if_splits)
  then have "length chars = 13" by simp
  moreover have "take 5 chars @ take 6 (drop 5 chars) @ drop 11 chars = chars"
    using take_add [of 5 6 chars] append_take_drop_id [of 11 chars] by simp
  ultimately show "fat_lfn_chars l = take 13 (drop ((unat i - 1) * 13) name)" "(unat i - 1) * 13 + 13 \<le> length name"
    "LDIR_Ord l = (if i = n then 0x40 else 0) OR i" "LDIR_Attr l = 0x0F"
    "length (LDIR_Name1 l) = 5" "length (LDIR_Name2 l) = 6" "length (LDIR_Name3 l) = 2"
    using k by (simp_all add: c(2) fat_lfn_chars_def)
qed

lemma lfn_ordinal:
  assumes "unat (i :: u8) < 16" "1 \<le> unat i"
  shows "((if b then 0x40 else 0) OR i) AND 0x0F = i" "((if b then 0x40 else 0) OR i) AND 0x40 \<noteq> 0 \<longleftrightarrow> b"
proof -
  define k where "k = unat i"
  have i: "i = word_of_nat k" by (simp add: k_def)
  have k: "k \<in> set [1..<16]" using assms by (simp add: k_def)
  show "((if b then 0x40 else 0) OR i) AND 0x0F = i" "((if b then 0x40 else 0) OR i) AND 0x40 \<noteq> 0 \<longleftrightarrow> b"
    unfolding i using k by (auto simp: upt_rec)
qed

text \<open>A directory entry written for a part of a long name puts this part back where it was: the
  13 code units go to their place in the array, the entry marked as the last one also sets the
  terminator, and the rest of the array is left alone.  This holds up to ordinal 15.\<close>

theorem fat_lfn_entry_roundtrip:
  assumes "fat_lfn_entry_at name i n checksum = Some l" "1 \<le> unat i" "unat i < 16"
    "f_dir sub = dir_of_bytes (bytes_of_lfn l)" "length (f_long_filename sub) = 260"
  shows "\<exists>buffer. fat_find_lfn sub = Some (sub\<lparr>f_long_filename := buffer\<rparr>) \<and> length buffer = 260 \<and>
      take 13 (drop ((unat i - 1) * 13) buffer) = take 13 (drop ((unat i - 1) * 13) name) \<and>
      (i = n \<longrightarrow> buffer ! (unat i * 13) = 0) \<and>
      (\<forall>j < 260. j < (unat i - 1) * 13 \<or> unat i * 13 + (if i = n then 1 else 0) \<le> j \<longrightarrow> buffer ! j = f_long_filename sub ! j)"
proof -
  note e = lfn_entry_chars [OF assms(1,2)]
  let ?b = "f_long_filename sub"
  define p cs where "p = (unat i - 1) * 13" and "cs = take 13 (drop p name)"
  have bytes: "bytes_of_dir (f_dir sub) = bytes_of_lfn l"
    unfolding assms(4) by (rule bytes_roundtrip [OF length_bytes_of_lfn [OF e(5-7)]])
  have chars: "fat_lfn_chars (lfn_of_bytes (bytes_of_dir (f_dir sub))) = cs"
    unfolding bytes lfn_roundtrip [OF e(5-7)] cs_def p_def by (rule e(1))
  have ord: "DIR_Name (f_dir sub) ! 0 = (if i = n then 0x40 else 0) OR i"
    by (simp add: assms(4) dir_of_bytes_def bytes_of_lfn_def e(3))
  have p: "p + 13 \<le> 195" "unat i * 13 = p + 13" using assms(2,3) unfolding p_def by (cases "unat i"; simp)+
  have len: "length cs = 13" using e(2) by (simp add: cs_def p_def)
  define b1 where "b1 = take p ?b @ cs @ drop (p + 13) ?b"
  have s1: "store_at ?b p cs = Some b1" using p(1) len assms(5) by (simp add: store_at_def b1_def)
  have l1: "length b1 = 260" using p(1) len assms(5) by (simp add: b1_def)
  define b2 where "b2 = (if i = n then take (p + 13) b1 @ [0] @ drop (p + 14) b1 else b1)"
  have flag: "DIR_Name (f_dir sub) ! 0 AND 0x40 \<noteq> 0 \<longleftrightarrow> i = n" unfolding ord by (rule lfn_ordinal(2) [OF assms(3,2)])
  have st: "store_at b1 (p + 13) [0] = Some (take (p + 13) b1 @ [0] @ drop (p + 14) b1)" using p(1) l1 by (simp add: store_at_def add.commute [of p])
  have s2: "(if i = n then store_at b1 (p + 13) [0] else Some b1) = Some b2" unfolding st b2_def by simp
  have index: "unat (DIR_Name (f_dir sub) ! 0 AND 0x0F) = unat i" unfolding ord lfn_ordinal(1) [OF assms(3,2)] ..
  have "unat i \<noteq> 0" using assms(2) by simp
  then have f: "fat_find_lfn sub = Some (sub\<lparr>f_long_filename := b2\<rparr>)"
    unfolding fat_find_lfn_def index flag chars Let_def p_def [symmetric] by (simp add: s1 s2)
  have "length b2 = 260" using l1 p(1) by (simp add: b2_def)
  moreover have "take 13 (drop p b2) = cs" using p(1) len assms(5) by (simp add: b2_def b1_def)
  moreover
  have b1: "b1 ! j = (if p \<le> j \<and> j < p + 13 then cs ! (j - p) else ?b ! j)" if "j < 260" for j
    using store_at_nth [OF s1, of j] that len assms(5) by simp
  have b2: "b2 ! j = (if i = n \<and> j = p + 13 then 0 else b1 ! j)" if "j < 260" for j
  proof (cases "i = n")
    case True
    then have "store_at b1 (p + 13) [0] = Some b2" using st by (simp add: b2_def)
    from store_at_nth [OF this, of j] show ?thesis using that l1 True by auto
  next
    case False
    then show ?thesis by (simp add: b2_def)
  qed
  have "i = n \<longrightarrow> b2 ! (unat i * 13) = 0" using b2 [of "p + 13"] p(1) unfolding p(2) by simp
  moreover have "b2 ! j = ?b ! j" if "j < 260" "j < p \<or> unat i * 13 + (if i = n then 1 else 0) \<le> j" for j
    using b1 [OF that(1)] b2 [OF that(1)] that(2) unfolding p(2) by (auto split: if_splits)
  ultimately show ?thesis using f unfolding cs_def p_def by blast
qed

theorem fat_lfn_entry_roundtrip_witness:
  "\<exists>l buffer. fat_lfn_entry_at (List.map word_of_nat [1..<14] @ replicate 247 0) 1 1 0x77 = Some l \<and>
     fat_find_lfn (fat_file_default\<lparr>f_dir := dir_of_bytes (bytes_of_lfn l)\<rparr>) =
       Some (fat_file_default\<lparr>f_dir := dir_of_bytes (bytes_of_lfn l), f_long_filename := buffer\<rparr>) \<and>
     take 13 buffer = List.map word_of_nat [1..<14]"
proof -
  let ?name = "List.map word_of_nat [1..<14] @ replicate 247 0 :: u16 list"
  obtain l where l: "fat_lfn_entry_at ?name 1 1 0x77 = Some l"
    by (simp add: fat_lfn_entry_at_def slice_def)
  let ?sub = "fat_file_default\<lparr>f_dir := dir_of_bytes (bytes_of_lfn l)\<rparr>"
  have c: "1 \<le> unat (1 :: u8)" "unat (1 :: u8) < 16" "f_dir ?sub = dir_of_bytes (bytes_of_lfn l)"
    "length (f_long_filename ?sub) = 260"
    by (simp_all add: fat_file_default_def)
  obtain buffer where "fat_find_lfn ?sub = Some (?sub\<lparr>f_long_filename := buffer\<rparr>)"
    "take 13 (drop ((unat (1 :: u8) - 1) * 13) buffer) = take 13 (drop ((unat (1 :: u8) - 1) * 13) ?name)"
    using fat_lfn_entry_roundtrip [OF l c] by blast
  then show ?thesis using l by auto
qed

subsection \<open>Structures on the disk\<close>

text \<open>The three packed structures are encoded without loss: decoding the bytes of a directory
  entry, of a long name entry or of a parameter block gives it back, and every 32 bytes are the
  bytes of the directory entry they decode to.\<close>

theorem fat_structures_roundtrip:
  assumes "length (DIR_Name d) = 11" "length bs = 32"
    "length (LDIR_Name1 l) = 5" "length (LDIR_Name2 l) = 6" "length (LDIR_Name3 l) = 2"
    "length (BS_jmpBoot b) = 3" "length (BS_OEMName b) = 8" "length (BPB_Reserved b) = 12" "length (BS_VolLab b) = 11"
    "length (BS_FilSysType b) = 8"
  shows "dir_of_bytes (bytes_of_dir d) = d \<and> bytes_of_dir (dir_of_bytes bs) = bs \<and> lfn_of_bytes (bytes_of_lfn l) = l \<and>
    bpb_of_bytes (bytes_of_bpb b) = b \<and> length (bytes_of_dir d) = 32 \<and> length (bytes_of_lfn l) = 32 \<and> length (bytes_of_bpb b) = 90"
  using dir_roundtrip [OF assms(1)] bytes_roundtrip [OF assms(2)] lfn_roundtrip [OF assms(3-5)] bpb_roundtrip [OF assms(6-10)]
    length_bytes_of_dir [OF assms(1)] length_bytes_of_lfn [OF assms(3-5)] by simp

theorem fat_structures_roundtrip_witness:
  "dir_of_bytes (bytes_of_dir (fat_dir_empty\<lparr>DIR_FileSize := 0x12345678\<rparr>)) = fat_dir_empty\<lparr>DIR_FileSize := 0x12345678\<rparr> \<and>
   bytes_of_dir (dir_of_bytes (replicate 32 7)) = replicate 32 7"
proof -
  let ?l = "\<lparr>LDIR_Ord = 1, LDIR_Name1 = replicate 5 1, LDIR_Attr = 0x0F, LDIR_Type = 0, LDIR_Chksum = 0, LDIR_Name2 = replicate 6 2,
    LDIR_FstClusLO = 0, LDIR_Name3 = replicate 2 3\<rparr>"
  let ?b = "\<lparr>BS_jmpBoot = [0xEB, 0x58, 0x90], BS_OEMName = replicate 8 0x20, BPB_BytsPerSec = 512, BPB_SecPerClus = 1,
      BPB_RsvdSecCnt = 32, BPB_NumFATs = 2, BPB_RootEntCnt = 0, BPB_TotSec16 = 2880, BPB_Media = 0xF0, BPB_FATSz16 = 0,
      BPB_SecPerTrk = 18, BPB_NumHeads = 2, BPB_HiddSec = 0, BPB_TotSec32 = 0, BPB_FATSz32 = 22, BPB_ExtFlags = 0,
      BPB_FSVer = 0, BPB_RootClus = 2, BPB_FSInfo = 1, BPB_BkBootSec = 6, BPB_Reserved = replicate 12 0, BS_DrvNum = 0,
      BS_Reserved1 = 0, BS_BootSig = 0x29, BS_VolID = 0, BS_VolLab = replicate 11 0x20, BS_FilSysType = replicate 8 0x20\<rparr>"
  show ?thesis
    using fat_structures_roundtrip [of "fat_dir_empty\<lparr>DIR_FileSize := 0x12345678\<rparr>" "replicate 32 7" ?l ?b]
    by (simp add: fat_dir_empty_def)
qed

end
