(* ===== verification/FatEntry.thy ===== *)
theory FatEntry
  imports FatLaws FatNames
begin

section \<open>Directory entries of files\<close>

text \<open>
  A file's entry lies in the chain of its parent directory.  Writing it back and reading it, and a
  write that makes the file longer, which ends with the entry being written back.
\<close>

text \<open>The entry of a file lies in the chain \<open>ps\<close> of its parent.\<close>

definition entry_in :: "'p fat_disk \<Rightarrow> nat \<Rightarrow> (nat \<Rightarrow> u8) \<Rightarrow> fat_file \<Rightarrow> u32 list \<Rightarrow> bool" where
  "entry_in disk clusters m fl ps \<longleftrightarrow>
     2 \<le> f_first_parent_cluster fl \<and> length (DIR_Name (f_dir fl)) = 11 \<and>
     chain (table_entry disk m) clusters (first_cluster (fat_parent (f_first_parent_cluster fl))) ps \<and>
     table_entry disk m (last ps) = 0x0FFFFFFF \<and> unat (f_entry_position fl) + 32 \<le> length ps * cluster_bytes disk"

context fat_volume
begin

lemma chain_room:
  assumes "chain T clusters c ps"
  shows "length ps * cluster_bytes disk < 2 ^ 32" "unat (word_of_nat (length ps * cluster_bytes disk) :: u32) = length ps * cluster_bytes disk"
proof -
  have "length ps * cluster_bytes disk \<le> clusters * cluster_bytes disk" by (rule mult_le_mono1 [OF chain_length [OF assms]])
  moreover have "clusters * cluster_bytes disk < 2 ^ 32" using geometry_parts(7,8) by simp
  ultimately show "length ps * cluster_bytes disk < 2 ^ 32" by (rule le_less_trans)
  then show "unat (word_of_nat (length ps * cluster_bytes disk) :: u32) = length ps * cluster_bytes disk" by (simp add: unat_of_nat del: of_nat_mult)
qed

text \<open>The parent directory as a file, with the size of its chain and the cursor at the entry.\<close>

definition parent_at :: "fat_file \<Rightarrow> u32 list \<Rightarrow> fat_file" where
  "parent_at fl ps = (fat_parent (f_first_parent_cluster fl))\<lparr>f_dir := (f_dir (fat_parent (f_first_parent_cluster fl)))
     \<lparr>DIR_FileSize := word_of_nat (length ps * cluster_bytes disk)\<rparr>, f_cursor := f_entry_position fl\<rparr>"

lemma parent_chain_size:
  assumes "world_ok ready w" "entry_in disk clusters (content (w_dev w)) fl ps"
  shows "\<exists>parent w'. fat_chain_size disk (fat_parent (f_first_parent_cluster fl)) w = Some (parent, w') \<and>
    fat_fseek parent (uint (f_entry_position fl)) fat_SEEK_SET = parent_at fl ps \<and>
    world_ok ready w' \<and> content (w_dev w') = content (w_dev w)"
proof -
  have o: "on w (content (w_dev w))" using assms(1) by (simp add: on_world)
  have ch: "chain (table_entry disk (content (w_dev w))) clusters (first_cluster (fat_parent (f_first_parent_cluster fl))) ps"
    using assms(2) by (simp add: entry_in_def)
  from chain_size [OF o ch] show ?thesis by (auto simp: on_world fat_fseek_def parent_at_def)
qed

lemma parent_at_simps [simp]:
  "first_cluster (parent_at fl ps) = first_cluster (fat_parent (f_first_parent_cluster fl))"
  "f_cursor (parent_at fl ps) = f_entry_position fl" "DIR_FileSize (f_dir (parent_at fl ps)) = word_of_nat (length ps * cluster_bytes disk)"
  by (simp_all add: parent_at_def)

lemma update_entry:
  assumes w: "world_ok ready w" and e: "entry_in disk clusters (content (w_dev w)) fl ps"
  shows "\<exists>w'. fat_update_entry disk fl w = Some w' \<and> world_ok ready w' \<and>
    file_write disk ps (unat (f_entry_position fl)) (bytes_of_dir (f_dir fl)) (content (w_dev w)) (content (w_dev w'))"
proof -
  obtain parent w1 where w1: "fat_chain_size disk (fat_parent (f_first_parent_cluster fl)) w = Some (parent, w1)"
    "fat_fseek parent (uint (f_entry_position fl)) fat_SEEK_SET = parent_at fl ps" "world_ok ready w1" "content (w_dev w1) = content (w_dev w)"
    using parent_chain_size [OF assms] by blast
  have p: "\<not> f_first_parent_cluster fl < 2" "length (bytes_of_dir (f_dir fl)) = 32"
    "chain (table_entry disk (content (w_dev w1))) clusters (first_cluster (parent_at fl ps)) ps"
    "table_entry disk (content (w_dev w1)) (last ps) = 0x0FFFFFFF" "unat (f_entry_position fl) + 32 \<le> length ps * cluster_bytes disk"
    using e w1(4) by (auto simp: entry_in_def not_less length_bytes_of_dir)
  note room = chain_room [OF p(3)]
  have "\<exists>w'. fat_fwrite_with (\<lambda>file w. Some w) disk (bytes_of_dir (f_dir fl)) 32 1 (parent_at fl ps) w1 =
      Some (1, (parent_at fl ps)\<lparr>f_cursor := f_cursor (parent_at fl ps) + 32 * 1\<rparr>, w') \<and> world_ok ready w' \<and>
      file_write disk ps (unat (f_cursor (parent_at fl ps))) (bytes_of_dir (f_dir fl)) (content (w_dev w1)) (content (w_dev w'))"
    by (rule fwrite_file [OF w1(3) p(3,4)]) (use p room in \<open>simp_all del: of_nat_mult\<close>)
  then show ?thesis using w1 p(1) by (auto simp: fat_update_entry_def)
qed

lemma read_entry:
  assumes w: "world_ok ready w" and e: "entry_in disk clusters (content (w_dev w)) fl ps"
  shows "\<exists>w'. fat_read_entry disk fl w =
      Some (fl\<lparr>f_dir := dir_of_bytes (take 32 (drop (unat (f_entry_position fl)) (file_bytes disk (content (w_dev w)) ps)))\<rparr>, w') \<and>
    world_ok ready w' \<and> content (w_dev w') = content (w_dev w)"
proof -
  obtain parent w1 where w1: "fat_chain_size disk (fat_parent (f_first_parent_cluster fl)) w = Some (parent, w1)"
    "fat_fseek parent (uint (f_entry_position fl)) fat_SEEK_SET = parent_at fl ps" "world_ok ready w1" "content (w_dev w1) = content (w_dev w)"
    using parent_chain_size [OF assms] by blast
  have p: "length (bytes_of_dir (f_dir fl)) = 32"
    "chain (table_entry disk (content (w_dev w1))) clusters (first_cluster (parent_at fl ps)) ps"
    "unat (f_entry_position fl) + 32 \<le> length ps * cluster_bytes disk"
    using e w1(4) by (auto simp: entry_in_def length_bytes_of_dir)
  note room = chain_room [OF p(2)]
  have le: "f_cursor (parent_at fl ps) \<le> DIR_FileSize (f_dir (parent_at fl ps))"
    using p(3) room by (simp add: word_le_nat_alt del: of_nat_mult)
  have s: "(length ps - 1) * cluster_bytes disk \<le> unat (DIR_FileSize (f_dir (parent_at fl ps)))"
    "unat (DIR_FileSize (f_dir (parent_at fl ps))) \<le> length ps * cluster_bytes disk"
    "unat (32 * 1 :: u32) \<le> length (bytes_of_dir (f_dir fl))"
    using p(1) by (simp_all add: room(2) del: of_nat_mult)
  obtain moved w' where r: "fat_fread disk (bytes_of_dir (f_dir fl)) 32 1 (parent_at fl ps) w1 =
      Some (take (unat moved) (drop (unat (f_cursor (parent_at fl ps))) (file_bytes disk (content (w_dev w1)) ps)) @
              drop (unat moved) (bytes_of_dir (f_dir fl)),
            (parent_at fl ps)\<lparr>f_cursor := f_cursor (parent_at fl ps) + moved\<rparr>, w')"
    "unat moved = min (unat (32 * 1 :: u32)) (unat (DIR_FileSize (f_dir (parent_at fl ps))) - unat (f_cursor (parent_at fl ps)))"
    "world_ok ready w'" "content (w_dev w') = content (w_dev w1)"
    using fread_file [OF w1(3) p(2) s(1,2) le s(3)] by blast
  have "unat moved = min 32 (length ps * cluster_bytes disk - unat (f_entry_position fl))"
    using r(2) by (simp add: room(2) del: of_nat_mult)
  also have "\<dots> = 32" using p(3) by simp
  finally have "unat moved = 32" .
  with r(1,3,4) w1 p(1) show ?thesis by (simp add: fat_read_entry_def)
qed

text \<open>A write that ends behind the size of the file, in the clusters the file has.\<close>

lemma fwrite_grows:
  assumes w: "world_ok ready w" and ch: "chain (table_entry disk (content (w_dev w))) clusters (first_cluster fl) cs"
    and mark: "table_entry disk (content (w_dev w)) (last cs) = 0x0FFFFFFF"
    and e: "entry_in disk clusters (content (w_dev w)) fl ps" "set cs \<inter> set ps = {}"
    and fit: "unat (DIR_FileSize (f_dir fl)) < unat (f_cursor fl) + length data"
      "unat (f_cursor fl) + length data \<le> length cs * cluster_bytes disk" and n: "unat (n * k) = length data"
  defines "fl' \<equiv> fl\<lparr>f_cursor := f_cursor fl + n * k, f_dir := (f_dir fl)\<lparr>DIR_FileSize := f_cursor fl + n * k\<rparr>\<rparr>"
  shows "\<exists>w'. fat_fwrite disk data n k fl w = Some (1, fl', w') \<and> world_ok ready w' \<and>
      file_bytes disk (content (w_dev w')) cs = write_at (file_bytes disk (content (w_dev w)) cs) (unat (f_cursor fl)) data \<and>
      file_bytes disk (content (w_dev w')) ps =
        write_at (file_bytes disk (content (w_dev w)) ps) (unat (f_entry_position fl)) (bytes_of_dir (f_dir fl')) \<and>
      (\<forall>a. \<not> in_clusters disk (cs @ ps) a \<longrightarrow> content (w_dev w') a = content (w_dev w) a)"
proof -
  let ?m = "content (w_dev w)"
  have o: "on w ?m" using w by (simp add: on_world)
  have v: "\<And>y. y \<in> set cs \<Longrightarrow> valid_cluster clusters y" by (rule chain_valid [OF ch])
  then have all: "\<And>y. y \<in> set ([] @ cs) \<Longrightarrow> valid_cluster clusters y" by simp
  have d: "distinct ([] @ cs)" "length ([] @ cs) \<le> clusters" "unat (f_cursor fl) + length data \<le> length ([] @ cs) * cluster_bytes disk"
    using chain_distinct [OF ch] chain_length [OF ch] fit(2) by simp_all
  have z: "unat (0 :: u32) = length ([] :: u32 list) * cluster_bytes disk" "unat (0 :: u32) = 0"
    "0 = min (length data) (length ([] :: u32 list) * cluster_bytes disk - unat (f_cursor fl))" by simp_all
  have i: "file_write disk ([] @ cs) (unat (f_cursor fl)) (take 0 data) ?m ?m" by (simp add: file_write_def)
  obtain w1 where w1: "fat_fwrite_loop disk fl data (n * k) (first_cluster fl) 0 0 w = Some (Some (n * k), w1)" "world_ok ready w1"
    and f1: "file_write disk cs (unat (f_cursor fl)) data ?m (content (w_dev w1))"
    using fwrite_loop [OF refl refl n refl o ch mark all d z i] by (auto simp: on_world)
  have "unat (f_cursor fl + n * k) = unat (f_cursor fl) + length data"
    using fit(2) chain_room(1) [OF ch] unfolding unat_word_ariths(1) n by simp
  then have grow: "f_cursor fl + n * k > DIR_FileSize (f_dir fl)" using fit(1) by (simp add: word_less_nat_alt)
  have v2: "\<And>y. y \<in> set ps \<Longrightarrow> valid_cluster clusters y"
    using e(1) chain_valid unfolding entry_in_def by blast
  have "last ps \<in> set ps" using e(1) unfolding entry_in_def by (cases ps) auto
  then have la: "unat (last ps) < clusters + 2" using v2 by (simp add: valid_cluster_def)
  have e1: "entry_in disk clusters (content (w_dev w1)) fl' ps"
    using e(1) write_keeps_chain [OF _ f1 v] write_keeps_entry [OF la f1 v] by (simp add: entry_in_def fl'_def)
  from update_entry [OF w1(2) e1] obtain w2 where w2: "fat_update_entry disk fl' w1 = Some w2" "world_ok ready w2"
    and f2: "file_write disk ps (unat (f_entry_position fl)) (bytes_of_dir (f_dir fl')) (content (w_dev w1)) (content (w_dev w2))"
    by (auto simp: fl'_def)
  have r: "fat_fwrite disk data n k fl w = Some (1, fl', w2)"
    using w1(1) grow w2(1) by (simp add: fat_fwrite_def fat_fwrite_with_def fl'_def Let_def)
  have away: "\<not> in_clusters disk ps a" if "x \<in> set cs" "cluster_start disk x \<le> a" "a < cluster_start disk x + cluster_bytes disk" for x a
  proof
    assume "in_clusters disk ps a"
    then obtain y where y: "y \<in> set ps" "cluster_start disk y \<le> a" "a < cluster_start disk y + cluster_bytes disk"
      by (auto simp: in_clusters_def)
    then have "x \<noteq> y" using e(2) that(1) by blast
    from clusters_disjoint [OF v [OF that(1)] v2 [OF y(1)] this] y(2,3) that(2,3) show False by linarith
  qed
  have away2: "\<not> in_clusters disk cs a" if "y \<in> set ps" "cluster_start disk y \<le> a" "a < cluster_start disk y + cluster_bytes disk" for y a
    using away that by (meson in_clusters_def)
  have "file_bytes disk (content (w_dev w2)) cs = file_bytes disk (content (w_dev w1)) cs"
    using f2 away unfolding file_write_def file_bytes_def
    by (intro arg_cong [where f = concat] map_cong refl range_of_cong) blast
  moreover have "file_bytes disk (content (w_dev w1)) ps = file_bytes disk ?m ps"
    using f1 away2 unfolding file_write_def file_bytes_def
    by (intro arg_cong [where f = concat] map_cong refl range_of_cong) blast
  moreover have "content (w_dev w2) a = ?m a" if "\<not> in_clusters disk (cs @ ps) a" for a
    using f1 f2 that by (auto simp: file_write_def in_clusters_def)
  ultimately show ?thesis using r w2(2) f1 f2 by (auto simp: file_write_def)
qed

end

end
