(* ===== verification/FatExtend.thy ===== *)
theory FatExtend
  imports FatLaws
begin

section \<open>New clusters\<close>

text \<open>
  The search for a free cluster, and what a write does when a file needs another cluster: the end
  mark that it sets is also cleared as if it were a cluster.
\<close>

context fat_volume
begin

lemma find_free_loop:
  assumes "on w m" "coherent w m" "unat c < clusters + 2" "unat d < clusters + 2" "c \<le> d"
    and "table_entry disk m d = 0" "\<And>x. c \<le> x \<Longrightarrow> x < d \<Longrightarrow> table_entry disk m x \<noteq> 0"
    and size: "\<And>x. c \<le> x \<Longrightarrow> x < d \<Longrightarrow> (x + 1) * ucast (BPB_SecPerClus (d_bpb disk)) < fat_disk_size disk"
  shows "\<exists>w'. fat_find_free disk c w = Some (Some d, w') \<and> on w' m \<and> coherent w' m"
  using assms
proof (induction "unat d - unat c" arbitrary: c w)
  case 0
  then have "c = d" by (simp add: word_le_nat_alt word_unat_eq_iff)
  then show ?case using read_cached [OF 0(2,3,4)] 0(7) by (auto simp: fat_find_free.simps [of _ d])
next
  case (Suc k)
  then have "unat c < unat d" by simp
  then have lt: "c < d" by (simp add: word_less_nat_alt)
  have nz: "table_entry disk m c \<noteq> 0" using Suc.prems(7) [of c] lt by simp
  obtain w1 where w1: "fat_read_fat_entry disk c True w = Some (table_entry disk m c, w1)" "on w1 m" "coherent w1 m"
    using read_cached [OF Suc.prems(1-3)] by blast
  have "unat c + 1 < 2 ^ 32" using \<open>unat c < unat d\<close> unat_bound [of d] by simp
  then have s: "unat (c + 1) = unat c + 1" by (simp add: unat_word_ariths)
  have p: "k = unat d - unat (c + 1)" "unat (c + 1) < clusters + 2" "c + 1 \<le> d"
    using Suc(2) s \<open>unat c < unat d\<close> Suc.prems(4) by (simp_all add: word_le_nat_alt)
  have up: "c \<le> x" if "c + 1 \<le> x" for x using that s by (simp add: word_le_nat_alt)
  from Suc(1) [OF p(1) w1(2,3) p(2) Suc.prems(4) p(3) Suc.prems(6)] Suc.prems(7,8) up
  obtain w' where "fat_find_free disk (c + 1) w1 = Some (Some d, w')" "on w' m" "coherent w' m" by blast
  moreover have "\<not> (c + 1) * ucast (BPB_SecPerClus (d_bpb disk)) \<ge> fat_disk_size disk"
    using Suc.prems(8) [of c] lt by simp
  ultimately show ?case using w1(1) nz by (auto simp: fat_find_free.simps [of _ c])
qed

text \<open>Where cluster \<open>0x0FFFFFFF\<close> would be: three clusters before the data.\<close>

lemma end_mark_offset:
  assumes "16 dvd cluster_bytes disk" "3 * cluster_bytes disk \<le> data_start disk"
  shows "unat (cluster_offset disk 0x0FFFFFFF * bytes_per_sector disk) = data_start disk - 3 * cluster_bytes disk"
proof -
  let ?b = "BPB_SecPerClus (d_bpb disk)" and ?s = "sector_bytes disk"
  obtain q where q: "cluster_bytes disk = 16 * q" using assms(1) by (elim dvdE)
  have "cluster_offset disk 0x0FFFFFFF * bytes_per_sector disk =
      word_of_nat ((unat (BPB_RsvdSecCnt (d_bpb disk)) + unat (BPB_NumFATs (d_bpb disk)) * unat (BPB_FATSz32 (d_bpb disk)) + 0x0FFFFFFD * unat ?b) * ?s)"
    by (simp add: cluster_offset_def first_data_sector_def sector_bytes_def bytes_per_sector_def)
  also have "\<dots> = word_of_nat (data_start disk + 0x0FFFFFFD * cluster_bytes disk)"
    by (simp add: data_start_def table_start_def table_bytes_def cluster_bytes_def algebra_simps)
  finally have e: "unat (cluster_offset disk 0x0FFFFFFF * bytes_per_sector disk) = (data_start disk + 0x0FFFFFFD * cluster_bytes disk) mod 2 ^ 32"
    by (simp add: unat_of_nat del: of_nat_add of_nat_mult)
  have "data_start disk + 0x0FFFFFFD * cluster_bytes disk + 3 * cluster_bytes disk = data_start disk + 2 ^ 32 * q" by (simp add: q)
  then have "data_start disk + 0x0FFFFFFD * cluster_bytes disk = (data_start disk - 3 * cluster_bytes disk) + 2 ^ 32 * q" using assms(2) by simp
  then have "(data_start disk + 0x0FFFFFFD * cluster_bytes disk) mod 2 ^ 32 = (data_start disk - 3 * cluster_bytes disk) mod 2 ^ 32"
    by (simp only: mod_mult_self2)
  moreover have "data_start disk - 3 * cluster_bytes disk < 2 ^ 32" using data_limit by simp
  ultimately show ?thesis unfolding e by (simp only: mod_less)
qed

lemma extend_clears:
  assumes w: "world_ok ready w" and c: "valid_cluster clusters c" and b: "16 dvd cluster_bytes disk" "3 * cluster_bytes disk \<le> data_start disk"
    and fit: "f_cursor fl + data_size \<le> passed + cluster_size disk"
  shows "\<exists>w'. fat_extend disk fl data_size c 0 passed w = Some (Some 0x0FFFFFFF, w') \<and> world_ok ready w' \<and>
      content (w_dev w') = overwrite (set_entry disk (content (w_dev w)) c 0x0FFFFFFF)
        (data_start disk - 3 * cluster_bytes disk) (replicate (cluster_bytes disk) 0)"
proof -
  have o: "on w (content (w_dev w))" using w by (simp add: on_world)
  have cb: "unat c < clusters + 2" using c by (simp add: valid_cluster_def)
  let ?w = "fat_write_fat_entry disk c 0x0FFFFFFF w"
  have o1: "on ?w (set_entry disk (content (w_dev w)) c 0x0FFFFFFF)" by (rule run_write_entry [OF o cb])
  have in_limit: "unat (cluster_offset disk 0x0FFFFFFF * bytes_per_sector disk) + length (replicate (unat (cluster_size disk)) (0 :: u8)) < limit"
    using end_mark_offset [OF b] b(2) geometry_parts(7) by (simp add: unat_cluster_size)
  have "on (fat_clear_cluster disk 0x0FFFFFFF ?w) (overwrite (set_entry disk (content (w_dev w)) c 0x0FFFFFFF)
        (data_start disk - 3 * cluster_bytes disk) (replicate (cluster_bytes disk) 0))"
    using run_dev_write(1) [OF o1 in_limit] by (simp add: fat_clear_cluster_def end_mark_offset [OF b] unat_cluster_size)
  then show ?thesis using fit by (auto simp: fat_extend_def on_world)
qed

end

end
