(* ===== verification/FatProps.thy ===== *)
theory FatProps
  imports FatfsLaws FatEntry FatExtend
begin

section \<open>Directory entries, new clusters and mounting\<close>

text \<open>Properties on any volume, with the volume of \<open>FatfsLaws\<close> for the witnesses.\<close>

lemma volume_parent: "entry_in volume 2803 (disk_byte (w_dev volume_world)) volume_file [7]"
  by (simp add: entry_in_def fat_parent_def fat_file_default_def fat_dir_empty_def volume_entry valid_cluster_def
      fat_no_cluster_def fat_last_cluster_def)

subsection \<open>Entries\<close>





subsection \<open>New clusters\<close>

text \<open>The search for a free cluster finds the first one from where it starts, when there is one
  before the search meets the size of the disk, and does not change the device.\<close>

theorem fat_find_free_first:
  assumes "fat_volume disk ready content limit clusters" "world_ok ready w"
    "unat c < clusters + 2" "unat d < clusters + 2" "c \<le> d" "table_entry disk (content (w_dev w)) d = 0"
    "\<And>x. c \<le> x \<Longrightarrow> x < d \<Longrightarrow> table_entry disk (content (w_dev w)) x \<noteq> 0"
    "\<And>x. c \<le> x \<Longrightarrow> x < d \<Longrightarrow> (x + 1) * ucast (BPB_SecPerClus (d_bpb disk)) < fat_disk_size disk"
  shows "\<exists>w'. fat_find_free disk c (fat_invalidate_cache w) = Some (Some d, w') \<and> world_ok ready w' \<and>
    content (w_dev w') = content (w_dev w)"
proof -
  note V = assms(1)
  have o: "fat_volume.on ready content (fat_invalidate_cache w) (content (w_dev w))"
    using assms(2) by (simp add: fat_volume.on_invalidate [OF V] fat_volume.on_world [OF V])
  show ?thesis
    using fat_volume.find_free_loop [OF V o fat_volume.coherent_invalidate [OF V] assms(3-8)]
    by (auto simp: fat_volume.on_world [OF V])
qed

theorem fat_find_free_first_witness: "\<exists>w'. fat_find_free volume 5 (fat_invalidate_cache volume_world) = Some (Some 8, w')"
proof -
  have x: "x = 5 \<or> x = 6 \<or> x = 7" if "5 \<le> x" "x < 8" for x :: u32
  proof -
    have "5 \<le> unat x" "unat x < 8" using that by (simp_all add: word_le_nat_alt word_less_nat_alt)
    then have "unat x = unat (5 :: u32) \<or> unat x = unat (6 :: u32) \<or> unat x = unat (7 :: u32)" by auto
    then show ?thesis by (simp only: word_unat_eq_iff)
  qed
  have t: "table_entry volume (disk_byte (w_dev volume_world)) x \<noteq> 0" if "5 \<le> x" "x < 8" for x
    using x [OF that] by (elim disjE) (simp_all add: volume_entry)
  have s: "(x + 1) * ucast (BPB_SecPerClus (d_bpb volume)) < fat_disk_size volume" if "5 \<le> x" "x < 8" for x :: u32
    using x [OF that] by (elim disjE) (simp_all add: fatfs_disk_def fat_disk_size_def floppy_bpb_def)
  have "\<exists>w'. fat_find_free volume 5 (fat_invalidate_cache volume_world) = Some (Some 8, w') \<and> world_ok fdc_idle w' \<and>
      disk_byte (w_dev w') = disk_byte (w_dev volume_world)"
    by (rule fat_find_free_first [OF fv.fat_volume_axioms volume_world_ok _ _ _ _ t s]) (simp_all add: volume_entry)
  then show ?thesis by blast
qed

text \<open>C39. When a write has come to a new cluster, it sets the end mark in the table and then clears
  the cluster \<^verbatim>\<open>0x0FFFFFFF\<close>, which does not exist: its position wraps around to three clusters
  before the data area, so that this much of the last table, or of what lies there, is lost.\<close>

theorem fat_extend_clears_end_mark:
  assumes "fat_volume disk ready content limit clusters" "world_ok ready w" "valid_cluster clusters c"
    "16 dvd cluster_bytes disk" "3 * cluster_bytes disk \<le> data_start disk" "f_cursor fl + data_size \<le> passed + cluster_size disk"
  shows "\<exists>w'. fat_extend disk fl data_size c 0 passed w = Some (Some 0x0FFFFFFF, w') \<and> world_ok ready w' \<and>
      content (w_dev w') = overwrite (set_entry disk (content (w_dev w)) c 0x0FFFFFFF)
        (data_start disk - 3 * cluster_bytes disk) (replicate (cluster_bytes disk) 0)"
  using assms by (rule fat_volume.extend_clears)

theorem fat_extend_clears_end_mark_witness:
  "\<exists>w'. fat_extend volume volume_file 4 8 0 1024 volume_world = Some (Some 0x0FFFFFFF, w') \<and>
     disk_byte (w_dev w') (38912 - 1536) = 0 \<and> disk_byte (w_dev w') (38912 - 1025) = 0 \<and>
     table_entry volume (disk_byte (w_dev w')) 5 = 6"
proof -
  have s: "cluster_size volume = 512" by (simp add: cluster_size_def bytes_per_sector_def fatfs_disk_def floppy_bpb_def)
  obtain w' where w': "fat_extend volume volume_file 4 8 0 1024 volume_world = Some (Some 0x0FFFFFFF, w')"
    "disk_byte (w_dev w') = overwrite (set_entry volume (disk_byte fdc_volume) 8 0x0FFFFFFF) 37376 (replicate 512 0)"
    using fat_extend_clears_end_mark [OF fv.fat_volume_axioms volume_world_ok, of 8 "[]" volume_file 4 1024]
    by (auto simp: valid_cluster_def s)
  have "table_entry volume (disk_byte (w_dev w')) 5 = table_entry volume (set_entry volume (disk_byte fdc_volume) 8 0x0FFFFFFF) 5"
    unfolding w'(2) by (simp add: table_entry_def range_of_elsewhere)
  also have "\<dots> = 6" using fv.table_set_entry [of 8 5 "[]" "disk_byte fdc_volume" "0x0FFFFFFF"] by (simp add: volume_entry)
  finally show ?thesis using w' by (simp add: overwrite_def)
qed

subsection \<open>Mounting\<close>

definition bpb_ok :: "fat_bpb \<Rightarrow> bool" where
  "bpb_ok b \<longleftrightarrow> length (BS_jmpBoot b) = 3 \<and> length (BS_OEMName b) = 8 \<and> length (BPB_Reserved b) = 12 \<and>
     length (BS_VolLab b) = 11 \<and> length (BS_FilSysType b) = 8"

lemma bpb_codec: "bpb_ok b \<Longrightarrow> bpb_of_bytes (bytes_of_bpb b) = b" "bpb_ok b \<Longrightarrow> length (bytes_of_bpb b) = 90"
  using bpb_roundtrip [of b] by (simp_all add: bpb_ok_def)

lemma fat_init_mounts:
  assumes "byte_device rd wr ready content limit" "ready (w_dev w)" "90 < limit" "bpb_ok (d_bpb disk)" "bpb_ok b"
    "range_of (content (w_dev w)) 0 90 = bytes_of_bpb b" "BS_jmpBoot b ! 0 = 0xEB \<or> BS_jmpBoot b ! 0 = 0xE9"
  shows "\<exists>w'. fat_init disk rd wr w = Some (1, \<lparr>d_read_func = rd, d_write_func = wr, d_bpb = b, d_root_directory = fat_root_directory b\<rparr>, w') \<and>
    ready (w_dev w') \<and> content (w_dev w') = content (w_dev w) \<and> w_cache w' = w_cache w"
proof -
  obtain p where p: "run_state (rd 0 90) (w_dev w) = (bytes_of_bpb b, p)" "ready p" "content p = content (w_dev w)"
    using byte_device.rd_range [OF assms(1,2), of 0 90] assms(3,6) by auto
  let ?d = "disk\<lparr>d_read_func := rd, d_write_func := wr\<rparr>"
  have "dev_read ?d 0 90 w = (bytes_of_bpb b, w\<lparr>w_dev := p\<rparr>)" using p(1) by (simp add: dev_read_def)
  moreover have "store_at (bytes_of_bpb (d_bpb disk)) 0 (bytes_of_bpb b) = Some (bytes_of_bpb b)"
    by (rule store_at_all) (simp add: bpb_codec assms(4,5))
  moreover have "path_compare (BS_FilSysType b) [0x46, 0x41, 0x54, 0x33, 0x32, 0x20, 0x20, 0x20] True \<noteq> 9"
    using path_compare_bound [of "BS_FilSysType b" "[0x46, 0x41, 0x54, 0x33, 0x32, 0x20, 0x20, 0x20]" True] by auto
  ultimately show ?thesis using p(2,3) assms(7) bpb_codec(1) [OF assms(5)] by (auto simp: fat_init_def Let_def)
qed

text \<open>Mounting the floppy.  With a controller that works and a disk whose first bytes are a
  parameter block that begins with a jump, \<^verbatim>\<open>fatfs_root\<close> succeeds: the static disk holds the
  functions and the block, the new reference is the root directory of the volume, and the disk is
  not changed.  The type field of the block may say anything: the comparison with 9 lets every
  type pass.\<close>

theorem fatfs_root_mounts:
  assumes "behaves_as io ctl" "fdc_idle (ctl (w_dev (fw_fat w)))" "bpb_ok (d_bpb (fw_disk w))" "bpb_ok b"
    "range_of (disk_byte (ctl (w_dev (fw_fat w)))) 0 90 = bytes_of_bpb b" "BS_jmpBoot b ! 0 = 0xEB \<or> BS_jmpBoot b ! 0 = 0xE9"
  shows "\<exists>w'. fatfs_root io garbage dst w = Some (0, dst\<lparr>r_state := Some (fw_next w)\<rparr>, w') \<and>
    fw_disk w' = fatfs_disk io garbage b \<and>
    fw_states w' = (fw_states w)(fw_next w \<mapsto> \<lparr>st_is_dir = True, st_file = fat_root_directory b\<rparr>) \<and>
    fdc_idle (ctl (w_dev (fw_fat w'))) \<and> disk_byte (ctl (w_dev (fw_fat w'))) = disk_byte (ctl (w_dev (fw_fat w)))"
proof -
  obtain p where p: "run_state (floppy_init io) (w_dev (fw_fat w)) = (True, p)" "fdc_idle (ctl p)"
    "fdc_disk (ctl p) = fdc_disk (ctl (w_dev (fw_fat w)))"
    using floppy_init_run [OF assms(1,2)] by blast
  have same: "disk_byte (ctl p) = disk_byte (ctl (w_dev (fw_fat w)))" using p(3) by (simp add: disk_byte_def fun_eq_iff)
  let ?f = "(fw_fat w)\<lparr>w_dev := p\<rparr>"
  have i: "fdc_idle (ctl (w_dev ?f))" "(90 :: nat) < 1474560" "range_of (disk_byte (ctl (w_dev ?f))) 0 90 = bytes_of_bpb b"
    using p(2) assms(5) same by simp_all
  obtain f where "fat_init (fw_disk w) (read_func io) (write_func io garbage) ?f = Some (1, fatfs_disk io garbage b, f)"
    "fdc_idle (ctl (w_dev f))" "disk_byte (ctl (w_dev f)) = disk_byte (ctl p)"
    using fat_init_mounts [OF floppy_byte_device [OF assms(1), of garbage] i(1,2) assms(3,4) i(3) assms(6)]
    by (auto simp: fatfs_disk_def)
  then show ?thesis using p(1) same
    by (simp add: fatfs_root_def Let_def fatfs_alloc_def fat_copy_DIR_def) (simp add: fatfs_disk_def)
qed

theorem fatfs_root_mounts_witness:
  "\<exists>w'. fatfs_root fdc_ports [] \<lparr>r_node = 0, r_offset = 0, r_driver = Some 0, r_state = None\<rparr> volume_state =
     Some (0, \<lparr>r_node = 0, r_offset = 0, r_driver = Some 0, r_state = Some 4\<rparr>, w') \<and> fw_disk w' = volume"
proof -
  have ok: "bpb_ok floppy_bpb" by (simp add: bpb_ok_def floppy_bpb_def)
  have d: "d_bpb (fw_disk volume_state) = floppy_bpb" "w_dev (fw_fat volume_state) = fdc_volume" "fw_next volume_state = 4"
    by (simp_all add: volume_state_def fatfs_disk_def)
  have "range_of (disk_byte fdc_volume) (512 * 0) 512 = bytes_of_bpb floppy_bpb @ replicate 422 0"
    by (subst sector_range) (simp_all add: fdc_volume_def length_floppy_bpb)
  from arg_cong [OF this, of "take 90"] have "range_of (disk_byte fdc_volume) 0 90 = bytes_of_bpb floppy_bpb"
    by (simp add: length_floppy_bpb)
  moreover have "BS_jmpBoot floppy_bpb ! 0 = 0xEB" by (simp add: floppy_bpb_def)
  ultimately show ?thesis
    using fatfs_root_mounts [OF behaves_as_fdc, of volume_state floppy_bpb "[]"
        "\<lparr>r_node = 0, r_offset = 0, r_driver = Some 0, r_state = None\<rparr>"] ok d volume_idle by auto
qed

end
