(* ===== verification/VfsTree.thy ===== *)
theory VfsTree
  imports Vfs
begin

section \<open>Paths and the mount tree\<close>

text \<open>
  Path resolution against a reference definition of the segments of a path, and the mount tree
  against its abstraction: a map from segment lists to drivers.  \<open>tree_ok\<close> is the shape of
  the tree that \<^verbatim>\<open>vfs_mount\<close> keeps.
\<close>

subsection \<open>Segments\<close>

text \<open>A slash starts a segment, and nothing follows a trailing one.\<close>

definition no_slash :: "char \<Rightarrow> bool" where
  "no_slash c \<longleftrightarrow> c \<noteq> CHR ''/''"

function path_segments :: "string \<Rightarrow> string list" where
  "path_segments s =
     (let s = (if s \<noteq> [] \<and> hd s = CHR ''/'' then tl s else s) in
      if s = [] then [] else takeWhile no_slash s # path_segments (dropWhile no_slash s))"
  by pat_completeness auto
termination
proof (relation "measure length")
  fix s s' :: string
  assume s': "s' = (if s \<noteq> [] \<and> hd s = CHR ''/'' then tl s else s)" and ne: "s' \<noteq> []"
  show "(dropWhile no_slash s', s) \<in> measure length"
  proof (cases "s \<noteq> [] \<and> hd s = CHR ''/''")
    case True
    with s' have "length s' < length s" by (cases s) auto
    then show ?thesis using length_dropWhile_le [of no_slash s'] by simp
  next
    case False
    with s' ne have "s' = s" "no_slash (hd s)" by (auto simp: no_slash_def)
    with ne have "length (dropWhile no_slash s) < length s"
      by (cases s) (auto simp: le_imp_less_Suc length_dropWhile_le)
    with \<open>s' = s\<close> show ?thesis by simp
  qed
qed simp

declare path_segments.simps [simp del]

text \<open>What is left of the path.\<close>

definition path_rest :: "vpath \<Rightarrow> string" where
  "path_rest p = drop (p_offset p) (p_string p)"

definition no_nul :: "string \<Rightarrow> bool" where
  "no_nul s \<longleftrightarrow> CHR 0x00 \<notin> set s"

lemma string_at_rest:
  "no_nul s \<Longrightarrow> string_at s i = (case drop i s of [] \<Rightarrow> CHR 0x00 | c # _ \<Rightarrow> c)"
  by (auto simp: string_at_def Cons_nth_drop_Suc [symmetric] split: list.split)

lemma string_at_nul: "no_nul s \<Longrightarrow> string_at s i = CHR 0x00 \<longleftrightarrow> length s \<le> i"
  by (auto simp: string_at_def no_nul_def in_set_conv_nth)

lemma drop_step: "i < length s \<Longrightarrow> drop i s = string_at s i # drop (Suc i) s"
  by (simp add: string_at_def Cons_nth_drop_Suc)

lemma vfs_resolve_loop_segment:
  assumes "no_nul s" "length (buffer @ takeWhile no_slash (drop off s)) < FILE_MAX_NAME - 1" "off \<le> length s"
  shows "vfs_resolve_loop s off buffer errno =
    (buffer @ takeWhile no_slash (drop off s), off + length (takeWhile no_slash (drop off s)), errno)"
  using assms
proof (induction s off buffer errno rule: vfs_resolve_loop.induct)
  case (1 s off buffer errno)
  show ?case
  proof (cases "off < length s \<and> no_slash (string_at s off)")
    case True
    then have step: "drop off s = string_at s off # drop (Suc off) s" "string_at s off \<noteq> CHR 0x00"
      using drop_step [of off s] string_at_nul [OF "1.prems"(1), of off] by auto
    with True "1.prems" "1.IH" [OF _ refl] show ?thesis
      by (auto simp: vfs_resolve_loop.simps [of s off] Let_def no_slash_def)
  next
    case False
    then have "takeWhile no_slash (drop off s) = []"
      using drop_step [of off s] "1.prems"(3) by (cases "off < length s") auto
    moreover have "string_at s off = CHR ''/'' \<or> string_at s off = CHR 0x00"
      using False string_at_nul [OF "1.prems"(1), of off] "1.prems"(3) by (auto simp: no_slash_def)
    ultimately show ?thesis using "1.prems"(2)
      by (auto simp: vfs_resolve_loop.simps [of s off] Let_def)
  qed
qed

text \<open>The path after its leading slash.\<close>

lemma skip_slash:
  assumes "no_nul (p_string p)" "p_offset p \<le> length (p_string p)"
  defines "off \<equiv> (if string_at (p_string p) (p_offset p) = CHR ''/'' then p_offset p + 1 else p_offset p)"
  shows "drop off (p_string p) = (if path_rest p \<noteq> [] \<and> hd (path_rest p) = CHR ''/'' then tl (path_rest p) else path_rest p)"
    "off \<le> length (p_string p)"
proof -
  have "string_at (p_string p) (p_offset p) = CHR ''/'' \<longleftrightarrow> path_rest p \<noteq> [] \<and> hd (path_rest p) = CHR ''/''"
    using string_at_rest [OF assms(1), of "p_offset p"]
    by (cases "drop (p_offset p) (p_string p)") (auto simp: path_rest_def)
  then show "drop off (p_string p) = (if path_rest p \<noteq> [] \<and> hd (path_rest p) = CHR ''/'' then tl (path_rest p) else path_rest p)"
    by (simp add: off_def path_rest_def drop_Suc tl_drop)
  show "off \<le> length (p_string p)"
    using assms(2) string_at_nul [OF assms(1), of "p_offset p"] by (auto simp: off_def not_le [symmetric] Suc_le_eq)
qed

lemma vfs_resolve_end:
  assumes "no_nul (p_string p)" "p_offset p \<le> length (p_string p)" "path_segments (path_rest p) = []"
  shows "\<exists>p'. vfs_resolve p = (False, [], p')"
proof -
  note off = skip_slash [OF assms(1,2)]
  have "(if path_rest p \<noteq> [] \<and> hd (path_rest p) = CHR ''/'' then tl (path_rest p) else path_rest p) = []"
    using assms(3) by (simp add: path_segments.simps [of "path_rest p"] Let_def split: if_splits)
  with off show ?thesis
    unfolding vfs_resolve_def Let_def using string_at_nul [OF assms(1)] by simp
qed

lemma vfs_resolve_segment:
  assumes "no_nul (p_string p)" "p_offset p \<le> length (p_string p)"
    and "path_segments (path_rest p) = seg # segs" "length seg < FILE_MAX_NAME - 1"
  obtains p' where "vfs_resolve p = (True, seg, p')" "p_string p' = p_string p"
    "p_offset p' \<le> length (p_string p)" "path_segments (path_rest p') = segs"
    "p_errno p' = p_errno p" "p_resolves p' = p_resolves p + 1"
proof -
  let ?s = "p_string p"
  define off where "off = (if string_at ?s (p_offset p) = CHR ''/'' then p_offset p + 1 else p_offset p)"
  note skip = skip_slash [OF assms(1,2), folded off_def]
  define t where "t = drop off ?s"
  have t: "t \<noteq> []" "seg = takeWhile no_slash t" "segs = path_segments (dropWhile no_slash t)"
    using assms(3) skip(1) by (simp_all add: t_def path_segments.simps [of "path_rest p"] Let_def split: if_splits)
  have off': "off + length seg \<le> length ?s"
    using length_takeWhile_le [of no_slash t] skip(2) t(2) by (simp add: t_def)
  have loop: "vfs_resolve_loop ?s off [] (p_errno p) = (seg, off + length seg, p_errno p)"
    using vfs_resolve_loop_segment [OF assms(1), of "[]" off "p_errno p"] skip(2) t(2) assms(4) by (simp add: t_def)
  let ?p' = "p\<lparr>p_offset := off + length seg, p_errno := p_errno p, p_resolves := p_resolves p + 1\<rparr>"
  have "string_at ?s off \<noteq> CHR 0x00"
    using t(1) string_at_nul [OF assms(1), of off] by (simp add: t_def)
  then have "vfs_resolve p = (True, seg, ?p')"
    using loop by (simp add: vfs_resolve_def Let_def off_def [symmetric])
  moreover have "path_rest ?p' = dropWhile no_slash t"
    using dropWhile_eq_drop [of no_slash t] t(2) by (simp add: path_rest_def t_def add.commute)
  ultimately show ?thesis using off' t(3) by (intro that [of ?p']) auto
qed

text \<open>All segments, by iterating \<^verbatim>\<open>vfs_resolve\<close> the way its callers do.\<close>

function vfs_resolve_all :: "vpath \<Rightarrow> string list \<times> vpath" where
  "vfs_resolve_all p =
     (case vfs_resolve p of
        (False, _, p') \<Rightarrow> ([], p')
      | (True, buffer, p') \<Rightarrow> (case vfs_resolve_all p' of (segs, q) \<Rightarrow> (buffer # segs, q)))"
  by pat_completeness auto
termination
  by (relation "measure (\<lambda>p. length (p_string p) - p_offset p)") (auto dest: vfs_resolve_measure)

declare vfs_resolve_all.simps [simp del]

definition short_segments :: "string \<Rightarrow> bool" where
  "short_segments s \<longleftrightarrow> (\<forall>seg \<in> set (path_segments s). length seg < FILE_MAX_NAME - 1)"

lemma vfs_resolve_all_segments:
  assumes "no_nul (p_string p)" "p_offset p \<le> length (p_string p)" "path_segments (path_rest p) = segs"
    and "\<forall>seg \<in> set segs. length seg < FILE_MAX_NAME - 1"
  shows "\<exists>q. vfs_resolve_all p = (segs, q) \<and> p_errno q = p_errno p"
  using assms
proof (induction segs arbitrary: p)
  case Nil
  then obtain p' where p': "vfs_resolve p = (False, [], p')" using vfs_resolve_end by blast
  moreover have "p_errno p' = p_errno p"
    using p' by (auto simp: vfs_resolve_def Let_def split: if_splits prod.splits)
  ultimately show ?case by (simp add: vfs_resolve_all.simps [of p])
next
  case (Cons seg segs)
  obtain p' where p': "vfs_resolve p = (True, seg, p')" "p_string p' = p_string p"
    "p_offset p' \<le> length (p_string p)" "path_segments (path_rest p') = segs" "p_errno p' = p_errno p"
    using vfs_resolve_segment [OF Cons.prems(1-3)] Cons.prems(4) by auto
  with Cons.IH [of p'] Cons.prems show ?case by (auto simp: vfs_resolve_all.simps [of p])
qed

subsection \<open>The shape of the tree\<close>

text \<open>
  Children and later siblings have larger indices than the node that points to them, and all
  nodes of a sibling chain have the parent whose child starts it.
\<close>

definition tree_ok :: "vnode list \<Rightarrow> bool" where
  "tree_ok nodes \<longleftrightarrow>
     nodes \<noteq> [] \<and> n_sibling (nodes ! 0) = None \<and> n_parent (nodes ! 0) = 0 \<and>
     (\<forall>i < length nodes. 0 < i \<longrightarrow> n_parent (nodes ! i) < i) \<and>
     (\<forall>i < length nodes. \<forall>s. n_sibling (nodes ! i) = Some s \<longrightarrow>
        i < s \<and> s < length nodes \<and> n_parent (nodes ! s) = n_parent (nodes ! i)) \<and>
     (\<forall>i < length nodes. \<forall>c. n_child (nodes ! i) = Some c \<longrightarrow>
        i < c \<and> c < length nodes \<and> n_parent (nodes ! c) = i)"

lemma tree_okD:
  assumes "tree_ok nodes"
  shows "nodes \<noteq> []" "0 < length nodes"
    "0 < i \<Longrightarrow> i < length nodes \<Longrightarrow> n_parent (nodes ! i) < i"
    "i < length nodes \<Longrightarrow> n_sibling (nodes ! i) = Some s \<Longrightarrow>
      i < s \<and> s < length nodes \<and> n_parent (nodes ! s) = n_parent (nodes ! i)"
    "i < length nodes \<Longrightarrow> n_child (nodes ! i) = Some c \<Longrightarrow> i < c \<and> c < length nodes \<and> n_parent (nodes ! c) = i"
  using assms unfolding tree_ok_def by (simp, simp, blast, blast, blast)

lemma tree_ok_root: "tree_ok nodes \<Longrightarrow> n_parent (nodes ! 0) = 0"
  unfolding tree_ok_def by blast

lemma tree_ok_parent:
  assumes "tree_ok nodes" "i < length nodes"
  shows "n_parent (nodes ! i) < length nodes"
proof (cases "i = 0")
  case True
  then show ?thesis using tree_ok_root [OF assms(1)] tree_okD(2) [OF assms(1)] by simp
next
  case False
  then show ?thesis using tree_okD(3) [OF assms(1), of i] assms(2) by simp
qed

lemma tree_ok_init [simp]: "tree_ok vfs_init"
  by (simp add: tree_ok_def vfs_init_def)

text \<open>The siblings from a node on, and the children of a node.\<close>

function sibling_chain :: "vnode list \<Rightarrow> nat \<Rightarrow> nat list" where
  "sibling_chain nodes i =
     i # (case n_sibling (nodes ! i) of
            None \<Rightarrow> []
          | Some s \<Rightarrow> if i < s \<and> s < length nodes then sibling_chain nodes s else [])"
  by pat_completeness auto
termination
  by (relation "measure (\<lambda>(nodes, i). length nodes - i)") auto

declare sibling_chain.simps [simp del]

definition children :: "vnode list \<Rightarrow> nat \<Rightarrow> nat list" where
  "children nodes i = (case n_child (nodes ! i) of None \<Rightarrow> [] | Some c \<Rightarrow> sibling_chain nodes c)"

lemma sibling_chain_props:
  assumes "tree_ok nodes" "i < length nodes"
  shows "\<forall>j \<in> set (sibling_chain nodes i). i \<le> j \<and> j < length nodes \<and> n_parent (nodes ! j) = n_parent (nodes ! i)"
  using assms
proof (induction nodes i rule: sibling_chain.induct)
  case (1 nodes i)
  show ?case
  proof (cases "n_sibling (nodes ! i)")
    case None
    then show ?thesis using "1.prems" by (simp add: sibling_chain.simps [of nodes i])
  next
    case (Some s)
    note s = tree_okD(4) [OF "1.prems" Some]
    with "1.IH" [OF Some] "1.prems" Some show ?thesis
      by (auto simp: sibling_chain.simps [of nodes i])
  qed
qed

lemma children_props:
  assumes "tree_ok nodes" "i < length nodes" "j \<in> set (children nodes i)"
  shows "i < j" "j < length nodes" "n_parent (nodes ! j) = i"
proof -
  obtain c where c: "n_child (nodes ! i) = Some c" "j \<in> set (sibling_chain nodes c)"
    using assms(3) by (cases "n_child (nodes ! i)") (auto simp: children_def)
  note d = tree_okD(5) [OF assms(1,2) c(1)]
  with sibling_chain_props [OF assms(1), of c] c(2)
  show "i < j" "j < length nodes" "n_parent (nodes ! j) = i" by fastforce+
qed

lemma vfs_findchld_loop_find:
  assumes "tree_ok nodes" "i < length nodes" "length nodes - i \<le> fuel"
  shows "vfs_findchld_loop nodes fuel i name =
    Some (case List.find (\<lambda>j. n_name (nodes ! j) = name) (sibling_chain nodes i) of
            Some j \<Rightarrow> (1, j) | None \<Rightarrow> (0, List.last (sibling_chain nodes i)))"
  using assms
proof (induction fuel arbitrary: i)
  case (Suc fuel)
  show ?case
  proof (cases "n_sibling (nodes ! i)")
    case None
    then show ?thesis by (simp add: sibling_chain.simps [of nodes i])
  next
    case (Some s)
    note s = tree_okD(4) [OF Suc.prems(1,2) Some]
    have "sibling_chain nodes s \<noteq> []" by (simp add: sibling_chain.simps [of nodes s])
    moreover have "sibling_chain nodes i = i # sibling_chain nodes s"
      using s Some by (simp add: sibling_chain.simps [of nodes i])
    moreover have "vfs_findchld_loop nodes fuel s name =
      Some (case List.find (\<lambda>j. n_name (nodes ! j) = name) (sibling_chain nodes s) of
            Some j \<Rightarrow> (1, j) | None \<Rightarrow> (0, List.last (sibling_chain nodes s)))"
      using Suc.IH [of s] Suc.prems s by auto
    ultimately show ?thesis using Some by (simp split: option.split)
  qed
qed simp

text \<open>The search, and the step of a walk down the tree.\<close>

definition find_child :: "vnode list \<Rightarrow> nat \<Rightarrow> string \<Rightarrow> nat option" where
  "find_child nodes i name = List.find (\<lambda>j. n_name (nodes ! j) = name) (children nodes i)"

lemma vfs_findchld_find:
  assumes "tree_ok nodes" "i < length nodes" "n_child (nodes ! i) \<noteq> None"
  shows "vfs_findchld nodes i name =
    Some (case find_child nodes i name of Some j \<Rightarrow> (1, j) | None \<Rightarrow> (0, List.last (children nodes i)))"
proof -
  obtain c where c: "n_child (nodes ! i) = Some c" using assms(3) by auto
  then have "children nodes i = sibling_chain nodes c" by (simp add: children_def)
  with c tree_okD(5) [OF assms(1,2) c] show ?thesis
    using vfs_findchld_loop_find [OF assms(1), of c "length nodes" name]
    by (simp add: vfs_findchld_def find_child_def split: option.split)
qed

lemma find_SomeD: "List.find P xs = Some x \<Longrightarrow> x \<in> set xs \<and> P x"
  by (auto simp: find_Some_iff)

lemma find_childD:
  assumes "tree_ok nodes" "i < length nodes" "find_child nodes i name = Some j"
  shows "i < j" "j < length nodes" "n_parent (nodes ! j) = i" "n_name (nodes ! j) = name"
    "n_child (nodes ! i) \<noteq> None"
proof -
  note f = find_SomeD [OF assms(3) [unfolded find_child_def]]
  with children_props [OF assms(1,2), of j]
  show "i < j" "j < length nodes" "n_parent (nodes ! j) = i" "n_name (nodes ! j) = name" by auto
  show "n_child (nodes ! i) \<noteq> None" using f by (cases "n_child (nodes ! i)") (auto simp: children_def)
qed

fun walk :: "vnode list \<Rightarrow> nat \<Rightarrow> string list \<Rightarrow> nat option" where
  "walk nodes i [] = Some i"
| "walk nodes i (s # ss) = (case find_child nodes i s of None \<Rightarrow> None | Some j \<Rightarrow> walk nodes j ss)"

lemma walk_append:
  "walk nodes i (as @ bs) = (case walk nodes i as of None \<Rightarrow> None | Some j \<Rightarrow> walk nodes j bs)"
  by (induction as arbitrary: i) (auto split: option.splits)

lemma walk_bounds:
  "tree_ok nodes \<Longrightarrow> i < length nodes \<Longrightarrow> walk nodes i ss = Some j \<Longrightarrow> j < length nodes \<and> (ss \<noteq> [] \<longrightarrow> i < j)"
proof (induction ss arbitrary: i)
  case (Cons s ss)
  then obtain k where k: "find_child nodes i s = Some k" "walk nodes k ss = Some j"
    by (auto split: option.splits)
  with Cons.IH [of k] Cons.prems find_childD [OF Cons.prems(1,2) k(1)] show ?case by fastforce
qed simp

text \<open>A node has one path.\<close>

lemma walk_unique:
  assumes "tree_ok nodes" "walk nodes 0 as = Some j" "walk nodes 0 bs = Some j"
  shows "as = bs"
  using assms(2,3)
proof (induction as arbitrary: j bs rule: rev_induct)
  case Nil
  then show ?case using walk_bounds [OF assms(1) tree_okD(2) [OF assms(1)], of bs j] by auto
next
  case (snoc a as)
  note n0 = tree_okD(2) [OF assms(1)]
  obtain k where k: "walk nodes 0 as = Some k" "find_child nodes k a = Some j"
    using snoc.prems(1) by (auto simp: walk_append split: option.splits)
  have kl: "k < length nodes" using walk_bounds [OF assms(1) n0 k(1)] by simp
  note kj = find_childD [OF assms(1) kl k(2)]
  show ?case
  proof (cases bs rule: rev_cases)
    case Nil
    with snoc.prems(2) kj(1) show ?thesis by simp
  next
    case (snoc bs' b)
    then obtain l where l: "walk nodes 0 bs' = Some l" "find_child nodes l b = Some j"
      using snoc.prems(2) by (auto simp: walk_append split: option.splits)
    have ll: "l < length nodes" using walk_bounds [OF assms(1) n0 l(1)] by simp
    note lj = find_childD [OF assms(1) ll l(2)]
    from kj(3,4) lj(3,4) have "k = l" "a = b" by auto
    with snoc.IH [OF k(1), of bs'] l(1) snoc show ?thesis by simp
  qed
qed

text \<open>The abstraction of the tree: which driver is mounted at a path.\<close>

definition mounted :: "vnode list \<Rightarrow> string list \<Rightarrow> nat option" where
  "mounted nodes ss = (case walk nodes 0 ss of None \<Rightarrow> None | Some i \<Rightarrow> n_driver (nodes ! i))"

subsection \<open>Adding a node\<close>

text \<open>\<open>child_added nodes k name nodes'\<close>: the new last node is a child of \<open>k\<close>, after its others.\<close>

definition child_added :: "vnode list \<Rightarrow> nat \<Rightarrow> string \<Rightarrow> vnode list \<Rightarrow> bool" where
  "child_added nodes k name nodes' \<longleftrightarrow>
     tree_ok nodes' \<and> length nodes' = Suc (length nodes) \<and>
     (\<forall>i \<le> length nodes. children nodes' i =
        (if i = k then children nodes k @ [length nodes] else if i = length nodes then [] else children nodes i)) \<and>
     (\<forall>i < length nodes. n_name (nodes' ! i) = n_name (nodes ! i) \<and> n_driver (nodes' ! i) = n_driver (nodes ! i)) \<and>
     n_name (nodes' ! length nodes) = name \<and> n_driver (nodes' ! length nodes) = None"

lemma sibling_chain_same:
  assumes "tree_ok nodes" "i < length nodes" "length nodes \<le> length nodes'"
    and "\<forall>j < length nodes. n_sibling (nodes' ! j) = n_sibling (nodes ! j)"
  shows "sibling_chain nodes' i = sibling_chain nodes i"
  using assms
proof (induction nodes i rule: sibling_chain.induct)
  case (1 nodes i)
  show ?case
  proof (cases "n_sibling (nodes ! i)")
    case None
    then show ?thesis using "1.prems"
      by (simp add: sibling_chain.simps [of nodes i] sibling_chain.simps [of nodes' i])
  next
    case (Some s)
    note s = tree_okD(4) [OF "1.prems"(1,2) Some]
    with "1.IH" [OF Some] "1.prems" Some show ?thesis
      by (simp add: sibling_chain.simps [of nodes i] sibling_chain.simps [of nodes' i])
  qed
qed

lemma sibling_chain_last:
  "tree_ok nodes \<Longrightarrow> i < length nodes \<Longrightarrow> n_sibling (nodes ! List.last (sibling_chain nodes i)) = None"
proof (induction nodes i rule: sibling_chain.induct)
  case (1 nodes i)
  show ?case
  proof (cases "n_sibling (nodes ! i)")
    case None
    then show ?thesis by (simp add: sibling_chain.simps [of nodes i])
  next
    case (Some s)
    note s = tree_okD(4) [OF "1.prems" Some]
    have "sibling_chain nodes s \<noteq> []" by (simp add: sibling_chain.simps [of nodes s])
    with s "1.IH" [OF Some] "1.prems" Some show ?thesis
      by (simp add: sibling_chain.simps [of nodes i])
  qed
qed

lemma sibling_chain_snoc:
  assumes "tree_ok nodes" "i < length nodes" "l < length nodes" "n_sibling (nodes ! l) = None"
    and "length nodes' = Suc (length nodes)" "n_sibling (nodes' ! l) = Some (length nodes)"
    and "\<forall>j < length nodes. j \<noteq> l \<longrightarrow> n_sibling (nodes' ! j) = n_sibling (nodes ! j)"
    and "n_sibling (nodes' ! length nodes) = None"
  shows "sibling_chain nodes' i =
    (if l \<in> set (sibling_chain nodes i) then sibling_chain nodes i @ [length nodes] else sibling_chain nodes i)"
  using assms
proof (induction nodes i rule: sibling_chain.induct)
  case (1 nodes i)
  show ?case
  proof (cases "n_sibling (nodes ! i)")
    case None
    then show ?thesis using "1.prems"
      by (cases "l = i") (simp_all add: sibling_chain.simps [of nodes i] sibling_chain.simps [of nodes' i]
        sibling_chain.simps [of nodes' "length nodes"])
  next
    case (Some s)
    then have "i \<noteq> l" using "1.prems"(4) by auto
    moreover note s = tree_okD(4) [OF "1.prems"(1,2) Some]
    ultimately show ?thesis using "1.IH" [OF Some] "1.prems" Some
      by (simp add: sibling_chain.simps [of nodes i] sibling_chain.simps [of nodes' i])
  qed
qed

definition new_node :: "nat \<Rightarrow> string \<Rightarrow> vnode" where
  "new_node parent name =
     \<lparr>n_sibling = None, n_child = None, n_parent = parent, n_driver = None, n_name = name\<rparr>"

lemma new_node_simps [simp]:
  "n_sibling (new_node k name) = None" "n_child (new_node k name) = None" "n_parent (new_node k name) = k"
  "n_driver (new_node k name) = None" "n_name (new_node k name) = name"
  by (simp_all add: new_node_def)

lemma add_first_child:
  assumes ok: "tree_ok nodes" and k: "k < length nodes" and none: "n_child (nodes ! k) = None"
  shows "child_added nodes k name ((nodes @ [new_node k name])[k := (nodes ! k)\<lparr>n_child := Some (length nodes)\<rparr>])"
    (is "child_added nodes k name ?nodes'")
proof -
  have fields: "n_sibling (?nodes' ! i) = (if i < length nodes then n_sibling (nodes ! i) else None)"
    "n_parent (?nodes' ! i) = (if i < length nodes then n_parent (nodes ! i) else k)"
    "n_child (?nodes' ! i) = (if i = k then Some (length nodes) else if i < length nodes then n_child (nodes ! i) else None)"
    if "i \<le> length nodes" for i
    using that k by (cases "i = k"; simp add: nth_append nth_list_update)+
  have ok': "tree_ok ?nodes'"
    unfolding tree_ok_def
  proof (intro conjI allI impI)
    fix i assume i: "i < length ?nodes'" and "0 < i"
    then show "n_parent (?nodes' ! i) < i" using fields(2) [of i] tree_okD(3) [OF ok, of i] k by auto
  next
    fix i s assume i: "i < length ?nodes'" and "n_sibling (?nodes' ! i) = Some s"
    then have "i < length nodes" "n_sibling (nodes ! i) = Some s" using fields(1) [of i] by (auto split: if_splits)
    from tree_okD(4) [OF ok this] this i show "i < s" "s < length ?nodes'"
      "n_parent (?nodes' ! s) = n_parent (?nodes' ! i)" using fields(2) by auto
  next
    fix i c assume i: "i < length ?nodes'" and c: "n_child (?nodes' ! i) = Some c"
    consider "i = k" "c = length nodes" | "i < length nodes" "n_child (nodes ! i) = Some c"
      using i c fields(3) [of i] by (auto split: if_splits)
    then show "i < c" "c < length ?nodes'" "n_parent (?nodes' ! c) = i"
      using k fields(2) [of c] tree_okD(5) [OF ok, of i c] by (cases; auto)+
  next
    show "?nodes' \<noteq> []" by simp
    show "n_sibling (?nodes' ! 0) = None" "n_parent (?nodes' ! 0) = 0"
      using ok fields [of 0] by (auto simp: tree_ok_def)
  qed
  have chain: "sibling_chain ?nodes' i = sibling_chain nodes i" if "i < length nodes" for i
    by (rule sibling_chain_same [OF ok that]) (use fields(1) in auto)
  have chain_new: "sibling_chain ?nodes' (length nodes) = [length nodes]"
    using fields(1) [of "length nodes"] by (simp add: sibling_chain.simps [of ?nodes' "length nodes"])
  have kids: "children ?nodes' i = (if i = k then children nodes k @ [length nodes]
      else if i = length nodes then [] else children nodes i)" if "i \<le> length nodes" for i
  proof -
    have kid: "n_child (nodes ! i) = Some c \<Longrightarrow> i < length nodes \<Longrightarrow> c < length nodes" for c
      using tree_okD(5) [OF ok] by blast
    show ?thesis
      using fields(3) [OF that] that k none chain chain_new kid
      by (cases "n_child (nodes ! i)") (auto simp: children_def)
  qed
  show ?thesis
    unfolding child_added_def using ok' kids k
    by (auto simp: nth_append nth_list_update)
qed

lemma add_next_child:
  assumes ok: "tree_ok nodes" and k: "k < length nodes" and some: "n_child (nodes ! k) = Some c"
  defines "l \<equiv> List.last (children nodes k)"
  shows "child_added nodes k name ((nodes @ [new_node k name])[l := (nodes ! l)\<lparr>n_sibling := Some (length nodes)\<rparr>])"
    (is "child_added nodes k name ?nodes'") and "l < length nodes" "n_parent (nodes ! l) = k"
proof -
  note c = tree_okD(5) [OF ok k some]
  have chain_c: "children nodes k = sibling_chain nodes c" using some by (simp add: children_def)
  have "children nodes k \<noteq> []" by (simp add: chain_c sibling_chain.simps [of nodes c])
  then have lin: "l \<in> set (children nodes k)" by (simp add: l_def)
  from children_props [OF ok k lin] show l: "l < length nodes" and lp: "n_parent (nodes ! l) = k" by auto
  have lnone: "n_sibling (nodes ! l) = None"
    using sibling_chain_last [OF ok, of c] c by (simp add: l_def chain_c)
  have fields: "n_sibling (?nodes' ! i) = (if i = l then Some (length nodes) else if i < length nodes then n_sibling (nodes ! i) else None)"
    "n_parent (?nodes' ! i) = (if i < length nodes then n_parent (nodes ! i) else k)"
    "n_child (?nodes' ! i) = (if i < length nodes then n_child (nodes ! i) else None)"
    if "i \<le> length nodes" for i
    using that l by (cases "i = l"; simp add: nth_append nth_list_update)+
  have l0: "0 < l" using children_props(1) [OF ok k lin] by simp
  have ok': "tree_ok ?nodes'"
    unfolding tree_ok_def
  proof (intro conjI allI impI)
    fix i assume i: "i < length ?nodes'" and "0 < i"
    then show "n_parent (?nodes' ! i) < i" using fields(2) [of i] tree_okD(3) [OF ok, of i] k by auto
  next
    fix i s assume i: "i < length ?nodes'" and s: "n_sibling (?nodes' ! i) = Some s"
    consider "i = l" "s = length nodes" | "i < length nodes" "n_sibling (nodes ! i) = Some s"
      using i s fields(1) [of i] by (auto split: if_splits)
    then show "i < s" "s < length ?nodes'" "n_parent (?nodes' ! s) = n_parent (?nodes' ! i)"
      using l lp fields(2) tree_okD(4) [OF ok, of i s] by (cases; auto)+
  next
    fix i c assume i: "i < length ?nodes'" and "n_child (?nodes' ! i) = Some c"
    then have "i < length nodes" "n_child (nodes ! i) = Some c" using fields(3) [of i] by (auto split: if_splits)
    with tree_okD(5) [OF ok this] show "i < c" "c < length ?nodes'" "n_parent (?nodes' ! c) = i"
      using fields(2) [of c] by auto
  next
    show "?nodes' \<noteq> []" by simp
    show "n_sibling (?nodes' ! 0) = None" "n_parent (?nodes' ! 0) = 0"
      using ok l0 fields [of 0] by (auto simp: tree_ok_def)
  qed
  have chain: "sibling_chain ?nodes' i = (if l \<in> set (sibling_chain nodes i)
      then sibling_chain nodes i @ [length nodes] else sibling_chain nodes i)" if "i < length nodes" for i
    by (rule sibling_chain_snoc [OF ok that l lnone]) (use l in \<open>auto simp: nth_append\<close>)
  have kids: "children ?nodes' i = (if i = k then children nodes k @ [length nodes]
      else if i = length nodes then [] else children nodes i)" if "i \<le> length nodes" for i
  proof (cases "n_child (?nodes' ! i)")
    case None
    with fields(3) [OF that] that k some show ?thesis by (auto simp: children_def split: if_splits)
  next
    case (Some d)
    then have i: "i < length nodes" "n_child (nodes ! i) = Some d"
      using fields(3) [OF that] by (auto split: if_splits)
    note d = tree_okD(5) [OF ok i]
    have "l \<in> set (sibling_chain nodes d) \<longleftrightarrow> i = k"
      using children_props(3) [OF ok i(1), of l] lp lin i by (auto simp: children_def)
    with chain [of d] d i Some show ?thesis by (auto simp: children_def)
  qed
  show "child_added nodes k name ?nodes'"
    unfolding child_added_def using ok' kids l
    by (auto simp: nth_append nth_list_update)
qed

subsection \<open>Mounting refines the map update\<close>

lemma child_added_find:
  assumes add: "child_added nodes k name nodes'" and ok: "tree_ok nodes" and k: "k < length nodes"
    and i: "i < length nodes"
  shows "find_child nodes' i s =
    (case find_child nodes i s of
       Some j \<Rightarrow> Some j | None \<Rightarrow> if i = k \<and> s = name then Some (length nodes) else None)"
proof -
  have same: "List.find (\<lambda>j. n_name (nodes' ! j) = s) (children nodes i) = List.find (\<lambda>j. n_name (nodes ! j) = s) (children nodes i)"
    using add children_props(2) [OF ok i] by (intro find_cong refl) (auto simp: child_added_def)
  have new: "children nodes' i = (if i = k then children nodes k @ [length nodes] else children nodes i)"
    "n_name (nodes' ! length nodes) = name"
    using add i by (auto simp: child_added_def)
  have app: "List.find P (xs @ [y]) = (case List.find P xs of Some j \<Rightarrow> Some j | None \<Rightarrow> if P y then Some y else None)"
    for P :: "nat \<Rightarrow> bool" and xs y
    by (induction xs) auto
  show ?thesis
    using same new by (auto simp: find_child_def app split: option.splits)
qed

lemma child_added_walk:
  assumes add: "child_added nodes k name nodes'" and ok: "tree_ok nodes" and k: "k < length nodes"
    and fresh: "find_child nodes k name = None"
  shows "i < length nodes \<Longrightarrow> walk nodes i ss = Some j \<Longrightarrow> walk nodes' i ss = Some j"
    and "i < length nodes \<Longrightarrow> walk nodes i ss = None \<Longrightarrow> walk nodes' i ss \<noteq> None \<Longrightarrow> walk nodes' i ss = Some (length nodes)"
proof -
  note find = child_added_find [OF add ok k]
  have leaf: "find_child nodes' (length nodes) s = None" for s
    using add k by (simp add: child_added_def find_child_def)
  show "i < length nodes \<Longrightarrow> walk nodes i ss = Some j \<Longrightarrow> walk nodes' i ss = Some j"
  proof (induction ss arbitrary: i)
    case (Cons s ss)
    then obtain m where m: "find_child nodes i s = Some m" "walk nodes m ss = Some j"
      by (auto split: option.splits)
    with Cons.IH [of m] Cons.prems(1) find [of i s] find_childD(2) [OF ok Cons.prems(1) m(1)] show ?case by simp
  qed simp
  show "i < length nodes \<Longrightarrow> walk nodes i ss = None \<Longrightarrow> walk nodes' i ss \<noteq> None \<Longrightarrow> walk nodes' i ss = Some (length nodes)"
  proof (induction ss arbitrary: i)
    case (Cons s ss)
    show ?case
    proof (cases "find_child nodes i s")
      case None
      with Cons.prems find [of i s] leaf show ?thesis by (cases ss) (auto split: if_splits)
    next
      case (Some m)
      with Cons.IH [of m] Cons.prems find [of i s] find_childD(2) [OF ok Cons.prems(1) Some] show ?thesis by simp
    qed
  qed simp
qed

lemma child_added_mounted:
  assumes "child_added nodes k name nodes'" "tree_ok nodes" "k < length nodes" "find_child nodes k name = None"
  shows "mounted nodes' = mounted nodes"
proof
  fix ss
  note n0 = tree_okD(2) [OF assms(2)] and walks = child_added_walk [OF assms, of 0 ss]
  show "mounted nodes' ss = mounted nodes ss"
  proof (cases "walk nodes 0 ss")
    case None
    then show ?thesis using walks(2) n0 assms(1)
      by (cases "walk nodes' 0 ss") (auto simp: mounted_def child_added_def)
  next
    case (Some j)
    with walks(1) n0 walk_bounds [OF assms(2) n0 Some] assms(1) show ?thesis
      by (simp add: mounted_def child_added_def)
  qed
qed

lemma vfs_mount_loop_walk:
  assumes "tree_ok nodes" "walk nodes 0 pre = Some node" "no_nul (p_string p)" "p_offset p \<le> length (p_string p)"
    and "path_segments (path_rest p) = segs" "\<forall>seg \<in> set segs. length seg < FILE_MAX_NAME - 1"
  shows "\<exists>nodes' k. vfs_mount_loop nodes node p = Some (nodes', k) \<and> tree_ok nodes' \<and>
    walk nodes' 0 (pre @ segs) = Some k \<and> mounted nodes' = mounted nodes"
  using assms
proof (induction segs arbitrary: nodes node p pre)
  case Nil
  then obtain p' where "vfs_resolve p = (False, [], p')" using vfs_resolve_end by blast
  with Nil.prems show ?case by (simp add: vfs_mount_loop.simps [of nodes node])
next
  case (Cons seg segs)
  obtain p' where p': "vfs_resolve p = (True, seg, p')" "p_string p' = p_string p"
    "p_offset p' \<le> length (p_string p)" "path_segments (path_rest p') = segs"
    using vfs_resolve_segment [OF Cons.prems(3-5)] Cons.prems(6) by auto
  note n0 = tree_okD(2) [OF Cons.prems(1)]
  have node: "node < length nodes" using walk_bounds [OF Cons.prems(1) n0 Cons.prems(2)] by simp
  have rest: "no_nul (p_string p')" "p_offset p' \<le> length (p_string p')" "\<forall>seg \<in> set segs. length seg < FILE_MAX_NAME - 1"
    using Cons.prems p' by auto
  have go: "\<exists>nodes' k. vfs_mount_loop m (length nodes) p' = Some (nodes', k) \<and> tree_ok nodes' \<and>
      walk nodes' 0 (pre @ seg # segs) = Some k \<and> mounted nodes' = mounted nodes"
    if add: "child_added nodes node seg m" and fresh: "find_child nodes node seg = None" for m
  proof -
    have m: "tree_ok m" "mounted m = mounted nodes"
      using add child_added_mounted [OF add Cons.prems(1) node fresh] by (auto simp: child_added_def)
    have "walk m 0 pre = Some node" by (rule child_added_walk(1) [OF add Cons.prems(1) node fresh n0 Cons.prems(2)])
    then have "walk m 0 (pre @ [seg]) = Some (length nodes)"
      using child_added_find [OF add Cons.prems(1) node node, of seg] fresh by (simp add: walk_append)
    from Cons.IH [OF m(1) this rest(1,2) p'(4) rest(3)] m(2) show ?thesis by simp
  qed
  show ?case
  proof (cases "n_child (nodes ! node)")
    case None
    then have "find_child nodes node seg = None" by (simp add: find_child_def children_def)
    from go [OF add_first_child [OF Cons.prems(1) node None] this] show ?thesis
      using p'(1) None node
      by (simp add: vfs_mount_loop.simps [of nodes node] vfs_mknode_def new_node_def nth_append)
  next
    case (Some c)
    note find = vfs_findchld_find [OF Cons.prems(1) node, of seg]
    note next_child = add_next_child [OF Cons.prems(1) node Some]
    show ?thesis
    proof (cases "find_child nodes node seg")
      case None
      from go [OF next_child(1) this] show ?thesis
        using p'(1) Some node find None next_child(2,3)
        by (simp add: vfs_mount_loop.simps [of nodes node] vfs_mknode_def new_node_def nth_append)
    next
      case found: (Some j)
      have "walk nodes 0 (pre @ [seg]) = Some j" using Cons.prems(2) found by (simp add: walk_append)
      from Cons.IH [OF Cons.prems(1) this rest(1,2) p'(4) rest(3)] show ?thesis
        using p'(1) Some find found by (simp add: vfs_mount_loop.simps [of nodes node])
    qed
  qed
qed

lemma nth_list_update': "k < length xs \<Longrightarrow> xs[k := x] ! i = (if i = k then x else xs ! i)"
  by simp

lemma driver_update_tree:
  fixes d :: nat
  assumes ok: "tree_ok nodes" and k: "k < length nodes"
  defines "nodes' \<equiv> nodes[k := (nodes ! k)\<lparr>n_driver := Some d\<rparr>]"
  shows "tree_ok nodes'" "i < length nodes \<Longrightarrow> walk nodes' i ss = walk nodes i ss"
    "i < length nodes \<Longrightarrow> n_driver (nodes' ! i) = (if i = k then Some d else n_driver (nodes ! i))"
proof -
  have same: "n_sibling (nodes' ! i) = n_sibling (nodes ! i)" "n_child (nodes' ! i) = n_child (nodes ! i)"
    "n_parent (nodes' ! i) = n_parent (nodes ! i)" "n_name (nodes' ! i) = n_name (nodes ! i)"
    "length nodes' = length nodes" for i
    using k by (simp_all add: nodes'_def nth_list_update')
  show "tree_ok nodes'"
    using ok unfolding tree_ok_def same length_0_conv [symmetric] .
  have kids: "children nodes' i = children nodes i" if "i < length nodes" for i
    using sibling_chain_same [OF ok, of _ nodes'] same tree_okD(5) [OF ok that]
    by (auto simp: children_def split: option.splits)
  show "i < length nodes \<Longrightarrow> walk nodes' i ss = walk nodes i ss"
  proof (induction ss arbitrary: i)
    case (Cons s ss)
    have "find_child nodes' i s = find_child nodes i s"
      using kids [OF Cons.prems] same by (simp add: find_child_def)
    then show ?case using Cons.IH Cons.prems find_childD(2) [OF ok Cons.prems, of s]
      by (auto split: option.split)
  qed simp
  show "i < length nodes \<Longrightarrow> n_driver (nodes' ! i) = (if i = k then Some d else n_driver (nodes ! i))"
    by (simp add: nodes'_def nth_list_update)
qed

text \<open>A path that \<^verbatim>\<open>vfs_mount\<close> takes: absolute, with names that fit.\<close>

definition mount_path :: "string \<Rightarrow> bool" where
  "mount_path path \<longleftrightarrow> path \<noteq> [] \<and> hd path = CHR ''/'' \<and> no_nul path \<and> short_segments path"

lemma vfs_path_simps [simp]:
  "p_string (vfs_path path) = path" "p_offset (vfs_path path) = 0" "path_rest (vfs_path path) = path"
  "p_errno (vfs_path path) = 0" "p_resolves (vfs_path path) = 0"
  by (simp_all add: vfs_path_def path_rest_def)

lemma vfs_mount_mounted:
  assumes "tree_ok nodes" "mount_path path"
  shows "\<exists>nodes'. vfs_mount nodes path d = Some nodes' \<and> tree_ok nodes' \<and>
    mounted nodes' = (mounted nodes)(path_segments path \<mapsto> d)"
proof -
  have abs: "string_at path 0 = CHR ''/''"
    using assms(2) by (cases path) (auto simp: mount_path_def string_at_def)
  obtain m k where m: "vfs_mount_loop nodes 0 (vfs_path path) = Some (m, k)" "tree_ok m"
    "walk m 0 (path_segments path) = Some k" "mounted m = mounted nodes"
    using vfs_mount_loop_walk [OF assms(1), of "[]" 0 "vfs_path path" "path_segments path"] assms(2)
    by (auto simp: mount_path_def short_segments_def)
  let ?m' = "m[k := (m ! k)\<lparr>n_driver := Some d\<rparr>]"
  note n0 = tree_okD(2) [OF m(2)]
  have k: "k < length m" using walk_bounds [OF m(2) n0 m(3)] by simp
  note upd = driver_update_tree [OF m(2) k, where d = d]
  have "mounted ?m' ss = ((mounted nodes)(path_segments path \<mapsto> d)) ss" for ss
  proof (cases "walk m 0 ss")
    case None
    then have "ss \<noteq> path_segments path" using m(3) by auto
    with None upd(2) [OF n0, of ss] m(4) [THEN fun_cong, of ss] show ?thesis by (simp add: mounted_def)
  next
    case (Some j)
    have j: "j < length m" using walk_bounds [OF m(2) n0 Some] by simp
    have "j = k \<longleftrightarrow> ss = path_segments path"
      using walk_unique [OF m(2) Some, of "path_segments path"] m(3) Some by auto
    with Some upd(2) [OF n0, of ss] upd(3) [OF j] m(4) [THEN fun_cong, of ss] show ?thesis by (simp add: mounted_def)
  qed
  moreover have "vfs_mount nodes path d = Some ?m'"
    using abs m(1) by (simp add: vfs_mount_def)
  ultimately show ?thesis using upd(1) by blast
qed

end
