(* ===== verification/VfsWalk.thy ===== *)
theory VfsWalk
  imports VfsTree
begin

section \<open>Walking paths across mounted drivers\<close>

text \<open>
  The interface between the file system layer and its drivers, as locales: what the drivers
  promise of the functions the walk calls, and what \<^verbatim>\<open>vfs_open\<close> and \<^verbatim>\<open>vfs_trace\<close> deliver
  on top of it.  A second interface, of the mount tree towards its users, is a map.
\<close>

subsection \<open>The mount tree as a map\<close>

locale mount_table =
  fixes inv :: "'m \<Rightarrow> bool"
    and mnt :: "'m \<Rightarrow> 'p \<Rightarrow> 'd \<Rightarrow> 'm option"
    and tab :: "'m \<Rightarrow> 'k \<Rightarrow> 'd option"
    and path_ok :: "'p \<Rightarrow> bool"
    and key :: "'p \<Rightarrow> 'k"
  assumes mount_step: "inv m \<Longrightarrow> path_ok p \<Longrightarrow> \<exists>m'. mnt m p d = Some m' \<and> inv m' \<and> tab m' = (tab m)(key p \<mapsto> d)"
begin

lemma mount_two:
  assumes "inv m" "path_ok p" "path_ok q"
  shows "\<exists>m' m''. mnt m p d = Some m' \<and> mnt m' q e = Some m'' \<and> inv m'' \<and> tab m'' = (tab m)(key p \<mapsto> d, key q \<mapsto> e)"
proof -
  obtain m' where m': "mnt m p d = Some m'" "inv m'" "tab m' = (tab m)(key p \<mapsto> d)"
    using mount_step [OF assms(1,2)] by blast
  obtain m'' where "mnt m' q e = Some m''" "inv m''" "tab m'' = (tab m')(key q \<mapsto> e)"
    using mount_step [OF m'(2) assms(3)] by blast
  with m' show ?thesis by auto
qed

lemma mount_order:
  assumes "inv m" "path_ok p" "path_ok q" "key p \<noteq> key q"
    and "mnt m p d = Some a" "mnt a q e = Some a'" "mnt m q e = Some b" "mnt b p d = Some b'"
  shows "tab a' = tab b'"
  using mount_two [OF assms(1-3), of d e] mount_two [OF assms(1,3,2), of e d] assms(4-)
  by (auto simp: fun_upd_twist)

end

interpretation mt: mount_table tree_ok vfs_mount mounted mount_path path_segments
  by unfold_locales (rule vfs_mount_mounted)

subsection \<open>What drivers promise\<close>

text \<open>A driver may change the state of a reference, not the part that belongs to the layer above.\<close>

definition ref_keeps :: "vref \<Rightarrow> vref \<Rightarrow> bool" where
  "ref_keeps v v' \<longleftrightarrow> r_node v' = r_node v \<and> r_offset v' = r_offset v \<and> r_driver v' = r_driver v"

locale nav_contract =
  fixes drv :: "('w, 'z) drivers"
  assumes root_keeps: "d_root (drv d) v w = Some (res, v', w') \<Longrightarrow> ref_keeps v v'"
    and clone_keeps: "d_clone (drv d) v src w = Some (res, v', w') \<Longrightarrow> ref_keeps v v'"
    and open_keeps: "d_open (drv d) v part flags w = Some (res, v', w') \<Longrightarrow> ref_keeps v v'"
    and close_keeps: "d_close (drv d) v w = Some (res, v', w') \<Longrightarrow> ref_keeps v v'"

text \<open>
  A reference whose driver is the one mounted at its node, which is what all calls through the
  reference rely on.
\<close>

definition ref_ok :: "vnode list \<Rightarrow> vref \<Rightarrow> bool" where
  "ref_ok nodes v \<longleftrightarrow>
     r_node v < length nodes \<and> (\<exists>d. n_driver (nodes ! r_node v) = Some d \<and> r_driver v = Some d)"

text \<open>A reference as \<^verbatim>\<open>vfs_root\<close> hands it out, or an open one.\<close>

definition ref_base :: "vnode list \<Rightarrow> vref \<Rightarrow> bool" where
  "ref_base nodes v \<longleftrightarrow> r_node v < length nodes \<and> (r_driver v = None \<or> ref_ok nodes v)"

lemma ref_base_cong: "r_node v = r_node u \<Longrightarrow> r_driver v = r_driver u \<Longrightarrow> ref_base nodes v = ref_base nodes u"
  by (simp add: ref_base_def ref_ok_def)

lemma ref_ok_base: "ref_ok nodes v \<Longrightarrow> ref_base nodes v"
  by (simp add: ref_base_def ref_ok_def)

lemma ref_keeps_ok: "ref_keeps v v' \<Longrightarrow> ref_ok nodes v \<Longrightarrow> ref_ok nodes v'"
  by (simp add: ref_keeps_def ref_ok_def)

context nav_contract
begin

lemma enable_ok:
  assumes "vfs_enable nodes drv v w = Some (res, v', w')" "r_node v < length nodes"
  shows "ref_ok nodes v'"
proof -
  obtain d where d: "n_driver (nodes ! r_node v) = Some d"
    "d_root (drv d) (v\<lparr>r_driver := Some d\<rparr>) w = Some (res, v', w')"
    using assms(1) by (auto simp: vfs_enable_def split: option.splits)
  from root_keeps [OF d(2)] d(1) assms(2) show ?thesis by (simp add: ref_keeps_def ref_ok_def)
qed

text \<open>After an update that succeeds the reference is in order, wherever it pointed before.\<close>

lemma update_ok:
  assumes "vfs_update nodes drv v w = Some (0, v', w')" "r_node v < length nodes"
  shows "ref_ok nodes v'"
proof (cases "r_driver v")
  case None
  with assms show ?thesis by (auto simp: vfs_update_def intro: enable_ok)
next
  case (Some d)
  show ?thesis
  proof (cases "r_driver v = n_driver (nodes ! r_node v)")
    case True
    with assms Some show ?thesis by (auto simp: vfs_update_def ref_ok_def)
  next
    case False
    with assms Some obtain v1 w1 where c: "d_close (drv d) v w = Some (0, v1, w1)"
      "vfs_enable nodes drv v1 w1 = Some (0, v', w')"
      by (auto simp: vfs_update_def bind_eq_Some_conv split: if_splits)
    with close_keeps [OF c(1)] assms(2) show ?thesis by (auto simp: ref_keeps_def intro: enable_ok)
  qed
qed

text \<open>On a base reference the first update leaves it in order even when the driver reports an error.\<close>

lemma update_base_ok:
  assumes "vfs_update nodes drv v w = Some (res, v', w')" "ref_base nodes v"
  shows "ref_ok nodes v'"
proof (cases "r_driver v")
  case None
  with assms show ?thesis by (auto simp: vfs_update_def ref_base_def intro: enable_ok)
next
  case (Some d)
  with assms show ?thesis by (auto simp: vfs_update_def ref_base_def ref_ok_def)
qed

lemma update_open_ok:
  assumes "vfs_update_open nodes drv v part flags w = Some (0, v', w')" "r_node v < length nodes"
  shows "ref_ok nodes v'"
proof -
  obtain v1 w1 where u: "vfs_update nodes drv v w = Some (0, v1, w1)" "vfs_driver_open drv v1 part flags w1 = Some (0, v', w')"
    using assms(1) by (auto simp: vfs_update_open_def bind_eq_Some_conv split: if_splits)
  obtain d where "d_open (drv d) v1 part flags w1 = Some (0, v', w')"
    using u(2) by (auto simp: vfs_driver_open_def split: option.splits)
  from ref_keeps_ok [OF open_keeps [OF this] update_ok [OF u(1) assms(2)]] show ?thesis .
qed

lemma enter_ok:
  assumes "tree_ok nodes" "vfs_enter nodes drv v part flags w = Some (0, v', w')" "ref_ok nodes v"
  shows "ref_ok nodes v'"
proof -
  have n: "r_node v < length nodes" using assms(3) by (simp add: ref_ok_def)
  have parent: "n_parent (nodes ! r_node v) < length nodes" by (rule tree_ok_parent [OF assms(1) n])
  consider "part = ''.''" | "part = ''..''" | "part \<noteq> ''.''" "part \<noteq> ''..''" by auto
  then show ?thesis
  proof cases
    case 1
    with assms show ?thesis by (simp add: vfs_enter_def)
  next
    case 2
    with assms(2) n parent show ?thesis
      by (auto simp: vfs_enter_def intro: update_open_ok update_ok split: if_splits)
  next
    case 3
    then obtain found node where f:
      "(if r_offset v = 0 then vfs_findchld nodes (r_node v) part else Some (0, r_node v)) = Some (found, node)"
      "(if found \<noteq> 0 then vfs_update nodes drv (v\<lparr>r_node := node\<rparr>) w
        else vfs_update_open nodes drv (v\<lparr>r_offset := i32 (r_offset v + 1)\<rparr>) part flags w) = Some (0, v', w')"
      using assms(2) by (auto simp: vfs_enter_def bind_eq_Some_conv)
    show ?thesis
    proof (cases "found = 0")
      case True
      with f(2) n show ?thesis by (auto intro: update_open_ok)
    next
      case False
      with f(1) have fc: "vfs_findchld nodes (r_node v) part = Some (found, node)" by (auto split: if_splits)
      then have some: "n_child (nodes ! r_node v) \<noteq> None"
        by (cases "n_child (nodes ! r_node v)") (auto simp: vfs_findchld_def)
      have "find_child nodes (r_node v) part = Some node"
        using fc False unfolding vfs_findchld_find [OF assms(1) n some] by (auto split: option.splits)
      from find_childD(2) [OF assms(1) n this] f(2) False show ?thesis by (auto intro: update_ok)
    qed
  qed
qed

lemma open_loop_ok:
  assumes "tree_ok nodes"
  shows "vfs_open_loop nodes drv p prev flags v w = Some (0, v', w') \<Longrightarrow> ref_ok nodes v \<Longrightarrow> ref_ok nodes v'"
proof (induction "length (p_string p) - p_offset p" arbitrary: p prev v w rule: less_induct)
  case less
  obtain more front p' where r: "vfs_resolve p = (more, front, p')" by (cases "vfs_resolve p")
  show ?case
  proof (cases more)
    case False
    with less.prems r show ?thesis
      by (auto simp: vfs_open_loop.simps [of nodes drv p] intro: enter_ok [OF assms] split: option.splits)
  next
    case True
    let ?step = "case prev of None \<Rightarrow> Some (0, v, w)
      | Some b \<Rightarrow> vfs_enter nodes drv v b (OPEN_DIRECTORY OR (flags AND OPEN_NOFOLLOW)) w"
    have "p_errno p' = 0"
      using less.prems(1) r True by (auto simp: vfs_open_loop.simps [of nodes drv p] split: if_splits)
    with less.prems(1) r True obtain v1 w1 where s: "?step = Some (0, v1, w1)"
      "vfs_open_loop nodes drv p' (Some front) flags v1 w1 = Some (0, v', w')"
      by (auto simp: vfs_open_loop.simps [of nodes drv p] bind_eq_Some_conv split: if_splits)
    have "ref_ok nodes v1"
      using s(1) less.prems(2) by (cases prev) (auto intro: enter_ok [OF assms])
    with less.hyps [OF _ s(2)] r True show ?thesis by (auto dest: vfs_resolve_measure [OF sym])
  qed
qed

lemma refcpy_keeps:
  assumes "vfs_refcpy drv src w = Some (v, w')"
  shows "r_node v = r_node src" "r_driver v = r_driver src" "r_offset v = r_offset src"
  using assms clone_keeps
  by (cases "r_driver src"; auto simp: vfs_refcpy_def bind_eq_Some_conv ref_keeps_def)+

lemma open_ok:
  assumes "tree_ok nodes" "ref_base nodes rel" "vfs_open nodes drv rel path flags w = Some (0, v', w')"
  shows "ref_ok nodes v'"
proof -
  let ?src = "if string_at path 0 = CHR ''/'' then vfs_root else rel"
  have src: "ref_base nodes ?src"
    using assms(2) tree_okD(2) [OF assms(1)] by (simp add: ref_base_def vfs_root_def)
  obtain v1 w1 res v2 w2 where o: "vfs_refcpy drv ?src w = Some (v1, w1)"
    "vfs_update nodes drv v1 w1 = Some (res, v2, w2)"
    "vfs_open_loop nodes drv (vfs_path path) None flags v2 w2 = Some (0, v', w')"
    using assms(3) by (auto simp: vfs_open_def bind_eq_Some_conv)
  have "ref_base nodes v1" using ref_base_cong [OF refcpy_keeps(1,2) [OF o(1)]] src by simp
  from update_base_ok [OF o(2) this] open_loop_ok [OF assms(1) o(3)] show ?thesis by blast
qed

end

subsection \<open>References at the root of their driver\<close>

text \<open>
  \<open>at_root v w\<close>: the state of the reference is the one \<^verbatim>\<open>driver_root\<close> loads.  Loading it and
  closing and cloning such a reference succeed, and it has no name: the words of \<^verbatim>\<open>vfs.h\<close>.
\<close>

locale nav_root = nav_contract +
  fixes at_root :: "vref \<Rightarrow> 'a \<Rightarrow> bool"
  assumes root_loads: "\<exists>v' w'. d_root (drv d) v w = Some (0, v', w') \<and> at_root v' w'"
    and root_closes: "at_root v w \<Longrightarrow> \<exists>v' w'. d_close (drv d) v w = Some (0, v', w')"
    and root_clones: "at_root src w \<Longrightarrow> \<exists>v' w'. d_clone (drv d) v src w = Some (0, v', w') \<and> at_root v' w'"
    and root_nameless: "at_root v w \<Longrightarrow> \<exists>res name w'. d_lookup (drv d) v w = Some (res, name, w') \<and> res \<noteq> 0 \<and> at_root v w'"
    and root_state: "r_state v = r_state u \<Longrightarrow> at_root v w = at_root u w"
begin

definition root_ref :: "vnode list \<Rightarrow> nat \<Rightarrow> vref \<Rightarrow> 'a \<Rightarrow> bool" where
  "root_ref nodes k v w \<longleftrightarrow> ref_ok nodes v \<and> r_node v = k \<and> r_offset v = 0 \<and> at_root v w"

lemma enable_root:
  assumes "n_driver (nodes ! r_node v) \<noteq> None" "r_node v < length nodes" "r_offset v = 0"
  shows "\<exists>v' w'. vfs_enable nodes drv v w = Some (0, v', w') \<and> root_ref nodes (r_node v) v' w'"
proof -
  obtain d where d: "n_driver (nodes ! r_node v) = Some d" using assms(1) by blast
  obtain v' w' where l: "d_root (drv d) (v\<lparr>r_driver := Some d\<rparr>) w = Some (0, v', w')" "at_root v' w'"
    using root_loads [of d] by blast
  with root_keeps [OF l(1)] d assms show ?thesis
    by (auto simp: vfs_enable_def root_ref_def ref_keeps_def ref_ok_def)
qed

text \<open>Moving a root reference to another node that has a driver gives a root reference there.\<close>

lemma update_root:
  assumes "r_driver v \<noteq> None \<longrightarrow> at_root v w" "n_driver (nodes ! r_node v) \<noteq> None" "r_node v < length nodes" "r_offset v = 0"
  shows "\<exists>v' w'. vfs_update nodes drv v w = Some (0, v', w') \<and> root_ref nodes (r_node v) v' w'"
proof (cases "r_driver v")
  case None
  then show ?thesis using enable_root [OF assms(2-4)] by (simp add: vfs_update_def)
next
  case (Some d)
  show ?thesis
  proof (cases "r_driver v = n_driver (nodes ! r_node v)")
    case True
    with Some assms show ?thesis by (auto simp: vfs_update_def root_ref_def ref_ok_def)
  next
    case False
    obtain v1 w1 where c: "d_close (drv d) v w = Some (0, v1, w1)" using root_closes [of v w d] assms(1) Some by blast
    with close_keeps [OF c] have "r_node v1 = r_node v" "r_offset v1 = r_offset v" by (auto simp: ref_keeps_def)
    with enable_root [of nodes v1 w1] assms(2-4) c Some False show ?thesis by (simp add: vfs_update_def)
  qed
qed

lemma enter_child_root:
  assumes "tree_ok nodes" "root_ref nodes k v w" "find_child nodes k part = Some j" "n_driver (nodes ! j) \<noteq> None"
    and "part \<noteq> ''.''" "part \<noteq> ''..''"
  shows "\<exists>v' w'. vfs_enter nodes drv v part flags w = Some (0, v', w') \<and> root_ref nodes j v' w'"
proof -
  have v: "r_node v = k" "r_offset v = 0" "k < length nodes" "at_root v w"
    using assms(2) by (auto simp: root_ref_def ref_ok_def)
  note j = find_childD [OF assms(1) v(3) assms(3)]
  have "vfs_findchld nodes k part = Some (1, j)" using vfs_findchld_find [OF assms(1) v(3) j(5), of part] assms(3) by simp
  moreover have "at_root (v\<lparr>r_node := j\<rparr>) w" using v(4) root_state [of "v\<lparr>r_node := j\<rparr>" v] by simp
  ultimately show ?thesis
    using update_root [of "v\<lparr>r_node := j\<rparr>" w nodes] assms(4-6) j(2) v by (simp add: vfs_enter_def)
qed

lemma enter_parent_root:
  assumes "tree_ok nodes" "root_ref nodes k v w" "n_driver (nodes ! n_parent (nodes ! k)) \<noteq> None"
  shows "\<exists>v' w'. vfs_enter nodes drv v ''..'' flags w = Some (0, v', w') \<and> root_ref nodes (n_parent (nodes ! k)) v' w'"
proof -
  let ?p = "n_parent (nodes ! k)"
  have v: "r_node v = k" "r_offset v = 0" "k < length nodes" "at_root v w"
    using assms(2) by (auto simp: root_ref_def ref_ok_def)
  have "?p < length nodes" by (rule tree_ok_parent [OF assms(1) v(3)])
  moreover have "at_root (v\<lparr>r_node := ?p\<rparr>) w" using v(4) root_state [of "v\<lparr>r_node := ?p\<rparr>" v] by simp
  ultimately show ?thesis
    using update_root [of "v\<lparr>r_node := ?p\<rparr>" w nodes] assms(3) v by (simp add: vfs_enter_def)
qed

end

text \<open>Every node on the way to a mount point has a driver of its own.\<close>

definition mounts_along :: "vnode list \<Rightarrow> string list \<Rightarrow> bool" where
  "mounts_along nodes segs \<longleftrightarrow> (\<forall>n \<le> length segs. mounted nodes (take n segs) \<noteq> None)"

definition plain_name :: "string \<Rightarrow> bool" where
  "plain_name s \<longleftrightarrow> s \<noteq> ''.'' \<and> s \<noteq> ''..'' \<and> length s < FILE_MAX_NAME - 1"

lemma mounts_along_snoc:
  "mounts_along nodes (pre @ [s]) \<longleftrightarrow> mounts_along nodes pre \<and> mounted nodes (pre @ [s]) \<noteq> None"
  by (auto simp: mounts_along_def le_Suc_eq)

lemma mounts_along_app:
  assumes "mounts_along nodes (as @ bs)"
  shows "mounts_along nodes as"
  unfolding mounts_along_def
proof (intro allI impI)
  fix n assume n: "n \<le> length as"
  then have "mounted nodes (take n (as @ bs)) \<noteq> None" using assms unfolding mounts_along_def by (simp del: take_append)
  with n show "mounted nodes (take n as) \<noteq> None" by simp
qed

lemma mounts_along_end: "mounts_along nodes ss \<Longrightarrow> mounted nodes ss \<noteq> None"
  unfolding mounts_along_def by (drule spec [of _ "length ss"]) simp

lemma mountedD: "mounted nodes ss \<noteq> None \<Longrightarrow> \<exists>k. walk nodes 0 ss = Some k \<and> n_driver (nodes ! k) \<noteq> None"
  by (auto simp: mounted_def split: option.splits)

context nav_root
begin

lemma open_loop_root:
  assumes ok: "tree_ok nodes"
  shows "\<lbrakk>no_nul (p_string p); p_offset p \<le> length (p_string p); path_segments (path_rest p) = segs; p_errno p = 0;
     \<forall>s \<in> set segs. plain_name s; p_resolves p + int (length segs) \<le> PATH_MAX_RESOLVES;
     case prev of None \<Rightarrow> walk nodes 0 pre = Some k | Some b \<Rightarrow> plain_name b \<and>
       (\<exists>pre'. pre = pre' @ [b] \<and> walk nodes 0 pre' = Some k);
     mounts_along nodes (pre @ segs); root_ref nodes k v w\<rbrakk> \<Longrightarrow>
    \<exists>v' w' j. vfs_open_loop nodes drv p prev flags v w = Some (0, v', w') \<and> walk nodes 0 (pre @ segs) = Some j \<and>
      root_ref nodes j v' w'"
proof (induction segs arbitrary: p prev pre k v w)
  case Nil
  obtain p' where p': "vfs_resolve p = (False, [], p')" using vfs_resolve_end [OF Nil.prems(1-3)] by blast
  show ?case
  proof (cases prev)
    case None
    with Nil.prems p' show ?thesis by (auto simp: vfs_open_loop.simps [of nodes drv p])
  next
    case (Some b)
    then obtain pre' where pre: "pre = pre' @ [b]" "walk nodes 0 pre' = Some k" "plain_name b" using Nil.prems(7) by auto
    obtain j where j: "walk nodes 0 pre = Some j" "n_driver (nodes ! j) \<noteq> None"
      using Nil.prems(8) mountedD [OF mounts_along_end, of nodes pre] by auto
    with pre have "find_child nodes k b = Some j" by (auto simp: walk_append split: option.splits)
    from enter_child_root [OF ok Nil.prems(9) this j(2)] pre(3) p' Some j(1) show ?thesis
      by (auto simp: vfs_open_loop.simps [of nodes drv p] plain_name_def)
  qed
next
  case (Cons seg segs)
  have plain: "plain_name seg" "length seg < FILE_MAX_NAME - 1" using Cons.prems(5) by (auto simp: plain_name_def)
  obtain p' where p': "vfs_resolve p = (True, seg, p')" "p_string p' = p_string p" "p_offset p' \<le> length (p_string p)"
    "path_segments (path_rest p') = segs" "p_errno p' = p_errno p" "p_resolves p' = p_resolves p + 1"
    using vfs_resolve_segment [OF Cons.prems(1-3) plain(2)] .
  have "\<exists>k' v1 w1. (case prev of None \<Rightarrow> Some (0, v, w)
      | Some b \<Rightarrow> vfs_enter nodes drv v b (OPEN_DIRECTORY OR (flags AND OPEN_NOFOLLOW)) w) = Some (0, v1, w1) \<and>
      walk nodes 0 pre = Some k' \<and> root_ref nodes k' v1 w1"
  proof (cases prev)
    case None
    with Cons.prems show ?thesis by auto
  next
    case (Some b)
    then obtain pre' where pre: "pre = pre' @ [b]" "walk nodes 0 pre' = Some k" "plain_name b" using Cons.prems(7) by auto
    have "mounted nodes pre \<noteq> None" by (rule mounts_along_end [OF mounts_along_app [OF Cons.prems(8)]])
    then obtain j where j: "walk nodes 0 pre = Some j" "n_driver (nodes ! j) \<noteq> None" using mountedD by blast
    with pre have "find_child nodes k b = Some j" by (auto simp: walk_append split: option.splits)
    from enter_child_root [OF ok Cons.prems(9) this j(2)] pre(3) Some j(1) show ?thesis
      by (auto simp: plain_name_def)
  qed
  then obtain k' v1 w1 where s: "(case prev of None \<Rightarrow> Some (0, v, w)
      | Some b \<Rightarrow> vfs_enter nodes drv v b (OPEN_DIRECTORY OR (flags AND OPEN_NOFOLLOW)) w) = Some (0, v1, w1)"
    "walk nodes 0 pre = Some k'" "root_ref nodes k' v1 w1" by blast
  have "vfs_open_loop nodes drv p prev flags v w = vfs_open_loop nodes drv p' (Some seg) flags v1 w1"
    using p' s(1) Cons.prems(4,6) by (simp add: vfs_open_loop.simps [of nodes drv p])
  with Cons.IH [where p = p' and prev = "Some seg" and pre = "pre @ [seg]" and k = k' and v = v1 and w = w1] p' s(2,3) Cons.prems plain(1) show ?case by simp
qed

text \<open>Opening the path of a mount point reaches that mount point.\<close>

lemma open_mounted:
  assumes "tree_ok nodes" "mount_path path" "\<forall>s \<in> set (path_segments path). plain_name s"
    and "length (path_segments path) \<le> 64" "mounts_along nodes (path_segments path)"
  shows "\<exists>v' w' j. vfs_open nodes drv rel path flags w = Some (0, v', w') \<and>
    walk nodes 0 (path_segments path) = Some j \<and> root_ref nodes j v' w'"
proof -
  have abs: "string_at path 0 = CHR ''/''" using assms(2) by (cases path) (auto simp: mount_path_def string_at_def)
  have "n_driver (nodes ! 0) \<noteq> None" using assms(5) by (auto simp: mounts_along_def mounted_def)
  with update_root [of vfs_root w nodes] tree_okD(2) [OF assms(1)] obtain v1 w1 where
    u: "vfs_update nodes drv vfs_root w = Some (0, v1, w1)" "root_ref nodes 0 v1 w1"
    by (auto simp: vfs_root_def)
  have "\<exists>v' w' j. vfs_open_loop nodes drv (vfs_path path) None flags v1 w1 = Some (0, v', w') \<and>
      walk nodes 0 ([] @ path_segments path) = Some j \<and> root_ref nodes j v' w'"
    by (rule open_loop_root [OF assms(1), where k = 0]) (use assms u(2) in \<open>auto simp: mount_path_def\<close>)
  moreover have "vfs_open nodes drv rel path flags w = vfs_open_loop nodes drv (vfs_path path) None flags v1 w1"
    using abs u(1) by (simp add: vfs_open_def vfs_refcpy_def vfs_root_def Let_def)
  ultimately show ?thesis by auto
qed

end

subsection \<open>Traces\<close>

definition trace_path :: "string list \<Rightarrow> string" where
  "trace_path segs = ''/'' @ concat (List.map (\<lambda>s. s @ ''/'') segs)"

lemma path_segments_slash_free: "s \<in> set (path_segments p) \<Longrightarrow> \<forall>c \<in> set s. no_slash c"
proof (induction p rule: path_segments.induct)
  case (1 p)
  define q where "q = (if p \<noteq> [] \<and> hd p = CHR ''/'' then tl p else p)"
  have "path_segments p = (if q = [] then [] else takeWhile no_slash q # path_segments (dropWhile no_slash q))"
    by (subst path_segments.simps) (simp only: q_def Let_def)
  with "1.prems" "1.IH" [OF q_def] show ?case by (auto dest: set_takeWhileD split: if_splits)
qed

lemma path_segments_trace:
  "\<forall>s \<in> set segs. \<forall>c \<in> set s. no_slash c \<Longrightarrow> path_segments (trace_path segs) = segs"
proof (induction segs)
  case Nil
  then show ?case by (simp add: trace_path_def path_segments.simps)
next
  case (Cons s segs)
  have "takeWhile no_slash (s @ ''/'' @ u) = s" "dropWhile no_slash (s @ ''/'' @ u) = ''/'' @ u" for u
    using Cons.prems by (simp_all add: takeWhile_append2 dropWhile_append2 no_slash_def)
  then have "path_segments (trace_path (s # segs)) = s # path_segments (trace_path segs)"
    by (subst path_segments.simps) (simp add: trace_path_def)
  with Cons show ?case by simp
qed

lemma vfs_trace_output_full:
  "int (length out) + int (length (concat (List.map (\<lambda>s. s @ ''/'') names))) \<le> limit \<Longrightarrow>
    vfs_trace_output limit out names = out @ concat (List.map (\<lambda>s. s @ ''/'') names)"
proof (induction names arbitrary: out)
  case (Cons name names)
  from Cons.prems Cons.IH [of "out @ name @ ''/''"] show ?case by simp
qed simp

text \<open>The buffer of \<^verbatim>\<open>vfs_trace\<close> is overrun by at most its terminator.\<close>

lemma vfs_trace_output_length:
  "int (length out) \<le> limit \<Longrightarrow> int (length (vfs_trace_output limit out names)) \<le> limit"
  by (induction names arbitrary: out) auto

context nav_root
begin

lemma trace_loop_root:
  assumes ok: "tree_ok nodes"
  shows "\<lbrakk>walk nodes 0 segs = Some k; mounts_along nodes segs; root_ref nodes k v w; length segs \<le> slots\<rbrakk> \<Longrightarrow>
    \<exists>v' w'. vfs_trace_loop nodes drv slots names v w = Some (segs @ names, v', w') \<and> root_ref nodes 0 v' w'"
proof (induction segs arbitrary: k v w slots names rule: rev_induct)
  case Nil
  then show ?case by (cases slots) (auto simp: root_ref_def)
next
  case (snoc s segs)
  note n0 = tree_okD(2) [OF ok]
  obtain m where slots: "slots = Suc m" "length segs \<le> m" using snoc.prems(4) by (cases slots) auto
  obtain p where p: "walk nodes 0 segs = Some p" "find_child nodes p s = Some k"
    using snoc.prems(1) by (auto simp: walk_append split: option.splits)
  have pl: "p < length nodes" using walk_bounds [OF ok n0 p(1)] by simp
  note k = find_childD [OF ok pl p(2)]
  have v: "r_node v = k" "at_root v w" "r_driver v \<noteq> None"
    using snoc.prems(3) by (auto simp: root_ref_def ref_ok_def)
  then obtain d where d: "r_driver v = Some d" by blast
  obtain res name w1 where l: "d_lookup (drv d) v w = Some (res, name, w1)" "res \<noteq> 0" "at_root v w1"
    using root_nameless [OF v(2)] by blast
  have along: "mounts_along nodes segs" by (rule mounts_along_app [OF snoc.prems(2)])
  have "n_driver (nodes ! p) \<noteq> None" using mountedD [OF mounts_along_end [OF along]] p(1) by auto
  moreover have "root_ref nodes k v w1" using snoc.prems(3) l(3) by (simp add: root_ref_def)
  ultimately obtain v2 w2 where e: "vfs_enter nodes drv v ''..'' 0 w1 = Some (0, v2, w2)" "root_ref nodes p v2 w2"
    using enter_parent_root [OF ok, of k v w1 0] k(3) by auto
  from snoc.IH [OF p(1) along e(2) slots(2), of "s # names"]
  show ?case using slots(1) v(1) k(1,4) d l(1,2) e(1) by auto
qed

lemma trace_root:
  assumes "tree_ok nodes" "walk nodes 0 segs = Some k" "mounts_along nodes segs" "root_ref nodes k v w"
    and "length segs \<le> 64" "int (length (trace_path segs)) \<le> limit"
  shows "\<exists>w'. vfs_trace nodes drv v limit w = Some (trace_path segs, w')"
proof -
  obtain d where d: "r_driver v = Some d" "n_driver (nodes ! k) = Some d" "r_node v = k" "r_offset v = 0" "at_root v w" "k < length nodes"
    using assms(4) by (auto simp: root_ref_def ref_ok_def)
  let ?c = "\<lparr>r_node = k, r_offset = 0, r_driver = Some d, r_state = None\<rparr>"
  obtain v1 w1 where c: "d_clone (drv d) ?c v w = Some (0, v1, w1)" "at_root v1 w1"
    using root_clones [OF d(5), of d ?c] by blast
  with clone_keeps [OF c(1)] d have v1: "root_ref nodes k v1 w1" "r_node v1 = k" "r_driver v1 = Some d"
    by (auto simp: root_ref_def ref_ok_def ref_keeps_def)
  obtain v2 w2 where t: "vfs_trace_loop nodes drv 64 [] v1 w1 = Some (segs, v2, w2)" "root_ref nodes 0 v2 w2"
    using trace_loop_root [OF assms(1,2,3) v1(1) assms(5), of "[]"] by auto
  obtain e where "r_driver v2 = Some e" "at_root v2 w2" using t(2) by (auto simp: root_ref_def ref_ok_def)
  then obtain v3 w3 where "vfs_close drv v2 w2 = Some (0, v3, w3)" using root_closes [of v2 w2 e] by (auto simp: vfs_close_def)
  moreover have "vfs_refcpy drv v w = Some (v1, w1)" using c(1) d by (simp add: vfs_refcpy_def Let_def)
  moreover have "vfs_update nodes drv v1 w1 = Some (0, v1, w1)" using v1 d by (simp add: vfs_update_def)
  moreover have "vfs_trace_output limit ''/'' segs = trace_path segs"
    using vfs_trace_output_full [of "''/''" segs limit] assms(6) by (simp add: trace_path_def)
  ultimately show ?thesis using t(1) by (simp add: vfs_trace_def)
qed

text \<open>Opening a mount point and tracing it gives back its segments.\<close>

lemma open_trace:
  assumes "tree_ok nodes" "mount_path path" "\<forall>s \<in> set (path_segments path). plain_name s"
    and "length (path_segments path) \<le> 64" "mounts_along nodes (path_segments path)"
    and "int (length (trace_path (path_segments path))) \<le> limit"
  shows "\<exists>v w1 out w2. vfs_open nodes drv rel path flags w = Some (0, v, w1) \<and>
    vfs_trace nodes drv v limit w1 = Some (out, w2) \<and> path_segments out = path_segments path"
proof -
  obtain v w1 j where o: "vfs_open nodes drv rel path flags w = Some (0, v, w1)"
    "walk nodes 0 (path_segments path) = Some j" "root_ref nodes j v w1"
    using open_mounted [OF assms(1-5)] by blast
  obtain w2 where "vfs_trace nodes drv v limit w1 = Some (trace_path (path_segments path), w2)"
    using trace_root [OF assms(1) o(2) assms(5) o(3) assms(4,6)] by blast
  with o(1) path_segments_trace [of "path_segments path"] path_segments_slash_free show ?thesis by blast
qed

end

end
