(* ===== verification/Scheduler.thy ===== *)
theory Scheduler
  imports VfsWalk CMath
begin

section \<open>The process table (scheduler.c)\<close>

text \<open>
  The table of process descriptors and its operations.  \<open>sd_table\<close> is the allocated array, whose
  length is \<^verbatim>\<open>process_table_size\<close>; an access outside it is \<open>None\<close>.  \<^verbatim>\<open>kmalloc\<close> and \<^verbatim>\<open>krealloc\<close> do
  not clear memory, so what they return is an argument.  The array behind \<^verbatim>\<open>files\<close> and the one
  behind \<^verbatim>\<open>fileExists\<close> are lists; the latter is \<open>None\<close> when the pointer is null.

  \<^verbatim>\<open>scheduler_create_process\<close>, which needs the ELF loader, is in \<open>Exec\<close>.
\<close>

abbreviation (input) INITIAL_PROCESS_TABLE_SIZE :: int where "INITIAL_PROCESS_TABLE_SIZE \<equiv> 2"
abbreviation (input) MAX_FILES_PER_PROCESS :: nat where "MAX_FILES_PER_PROCESS \<equiv> 1024"

datatype process_state = RUNNABLE | SLEEPING | STOPPED | ZOMBIE

record process =
  ps_exists :: bool
  ps_stack :: u32
  ps_process_memory :: u32
  ps_state :: process_state
  ps_parent_index :: int
  ps_files :: "vref list"
  ps_fileExists :: "bool list option"
  ps_cwd :: vref
  ps_exe :: vref
  ps_mount :: u32
  ps_processSegmentsIndex :: int

record sched =
  sd_table :: "process list"
  sd_count :: int
  sd_size :: int
  sd_running :: int

definition proc_at :: "sched \<Rightarrow> int \<Rightarrow> process option" where
  "proc_at s i = (if 0 \<le> i \<and> i < int (length (sd_table s)) then Some (sd_table s ! nat i) else None)"

definition proc_put :: "sched \<Rightarrow> int \<Rightarrow> process \<Rightarrow> sched option" where
  "proc_put s i p =
     (if 0 \<le> i \<and> i < int (length (sd_table s)) then Some (s\<lparr>sd_table := (sd_table s)[nat i := p]\<rparr>) else None)"

definition scheduler_pid_invalid :: "sched \<Rightarrow> int \<Rightarrow> bool option" where
  "scheduler_pid_invalid s pid =
     (if pid \<le> 0 then Some True
      else let pid = pid - 1 in
        if pid \<ge> sd_count s then Some True
        else do { p \<leftarrow> proc_at s pid; Some (\<not> ps_exists p) })"

definition scheduler_get_current_pid :: "sched \<Rightarrow> int" where
  "scheduler_get_current_pid s = i32 (sd_running s + 1)"

text \<open>The copy \<^verbatim>\<open>scheduler_load_process_info\<close> makes leaves \<^verbatim>\<open>exists\<close> and \<^verbatim>\<open>stack\<close> of its target alone.\<close>

definition scheduler_load_process_info :: "sched \<Rightarrow> process \<Rightarrow> int \<Rightarrow> (int \<times> process) option" where
  "scheduler_load_process_info s processInfo pid =
     do {
       bad \<leftarrow> scheduler_pid_invalid s pid;
       if bad then Some (1, processInfo)
       else do {
         p \<leftarrow> proc_at s (pid - 1);
         Some (0, p\<lparr>ps_exists := ps_exists processInfo, ps_stack := ps_stack processInfo\<rparr>)
       }
     }"

function scheduler_process_list_loop :: "sched \<Rightarrow> int \<Rightarrow> (int \<times> int) option" where
  "scheduler_process_list_loop s i =
     (if i \<le> sd_count s then
        let i = i + 1 in
        (case proc_at s (i - 1) of
           None \<Rightarrow> None
         | Some p \<Rightarrow> if ps_exists p then Some (1, i) else scheduler_process_list_loop s i)
      else Some (0, i))"
  by pat_completeness auto
termination
  by (relation "measure (\<lambda>(s, i). nat (sd_count s + 1 - i))") auto

declare scheduler_process_list_loop.simps [simp del]

text \<open>The result and \<^verbatim>\<open>*pid\<close>, which stays when there is no further process.\<close>

definition scheduler_process_list :: "sched \<Rightarrow> int \<Rightarrow> (int \<times> int) option" where
  "scheduler_process_list s pid =
     (if pid < 0 then Some (0, pid)
      else do {
        (found, i) \<leftarrow> scheduler_process_list_loop s pid;
        Some (if found = 1 then (1, i) else (0, pid))
      })"

definition get_index :: "sched \<Rightarrow> int \<Rightarrow> int option" where
  "get_index s i = map_option ps_parent_index (proc_at s i)"

definition scheduler_init :: "sched \<Rightarrow> process list \<Rightarrow> sched" where
  "scheduler_init s table = s\<lparr>sd_running := -1, sd_table := table\<rparr>"

text \<open>The static variables before \<^verbatim>\<open>scheduler_init\<close>.\<close>

definition sched_static :: sched where
  "sched_static = \<lparr>sd_table = [], sd_count = 0, sd_size = INITIAL_PROCESS_TABLE_SIZE, sd_running = 0\<rparr>"

subsection \<open>Creating and removing entries\<close>

function scheduler_free_loop :: "sched \<Rightarrow> int \<Rightarrow> int option" where
  "scheduler_free_loop s index =
     (if index \<noteq> sd_count s \<and> index < int (length (sd_table s)) \<and> 0 \<le> index then
        (if ps_exists (sd_table s ! nat index) then scheduler_free_loop s (index + 1) else Some index)
      else if index = sd_count s then Some index
      else None)"
  by pat_completeness auto
termination
  by (relation "measure (\<lambda>(s, index). nat (int (length (sd_table s)) - index))") auto

declare scheduler_free_loop.simps [simp del]

text \<open>
  \<open>grown\<close> is the memory that \<^verbatim>\<open>krealloc\<close> adds, \<open>files\<close> the one the new file array gets.  The count of
  processes goes up at the end, and once more where the table is extended.
\<close>

definition scheduler_new_entry ::
  "process list \<Rightarrow> vref list \<Rightarrow> sched \<Rightarrow> int \<Rightarrow> u32 \<Rightarrow> u32 \<Rightarrow> vref \<Rightarrow> u32 \<Rightarrow> int \<Rightarrow> sched option" where
  "scheduler_new_entry grown files s parent_index stack process_memory exe mount processSegmentIndex =
     do {
       index \<leftarrow> scheduler_free_loop s 0;
       let s = (if index = sd_count s then
                  (let s = (if sd_size s = sd_count s
                            then s\<lparr>sd_size := i32 (sd_size s * 2), sd_table := sd_table s @ grown\<rparr> else s)
                   in s\<lparr>sd_count := sd_count s + 1\<rparr>)
                else s);
       p \<leftarrow> proc_at s index;
       s \<leftarrow> proc_put s index
         (p\<lparr>ps_exists := True, ps_stack := stack, ps_parent_index := parent_index,
            ps_process_memory := process_memory, ps_files := files,
            ps_fileExists := Some (replicate MAX_FILES_PER_PROCESS False),
            ps_exe := exe, ps_mount := mount, ps_processSegmentsIndex := processSegmentIndex,
            ps_cwd := vfs_root, ps_state := RUNNABLE\<rparr>);
       Some (s\<lparr>sd_count := sd_count s + 1\<rparr>)
     }"

definition scheduler_remove_entry :: "sched \<Rightarrow> int \<Rightarrow> sched option" where
  "scheduler_remove_entry s index =
     do { p \<leftarrow> proc_at s index; proc_put s index (p\<lparr>ps_exists := False\<rparr>) }"

text \<open>The memory of the process goes back to the allocator, whose state is not part of the model.\<close>

definition scheduler_kill_process ::
  "('w, 'z) drivers \<Rightarrow> sched \<Rightarrow> int \<Rightarrow> 'w \<Rightarrow> (int \<times> sched \<times> 'w) option" where
  "scheduler_kill_process drv s pid w =
     do {
       bad \<leftarrow> scheduler_pid_invalid s pid;
       if bad then Some (1, s, w)
       else do {
         p \<leftarrow> proc_at s (pid - 1);
         (_, cwd, w) \<leftarrow> vfs_close drv (ps_cwd p) w;
         s \<leftarrow> proc_put s (pid - 1) (p\<lparr>ps_cwd := cwd\<rparr>);
         s \<leftarrow> scheduler_remove_entry s (pid - 1);
         Some (0, s, w)
       }
     }"

subsection \<open>Switching\<close>

function scheduler_scan :: "sched \<Rightarrow> int \<Rightarrow> int option" where
  "scheduler_scan s i =
     (if 0 \<le> i \<and> i < int (length (sd_table s))
      then (if ps_exists (sd_table s ! nat i) then Some i else scheduler_scan s (i + 1))
      else None)"
  by pat_completeness auto
termination
  by (relation "measure (\<lambda>(s, i). nat (int (length (sd_table s)) - i))") auto

declare scheduler_scan.simps [simp del]

definition scheduler_context_switch :: "sched \<Rightarrow> u32 \<Rightarrow> (u32 \<times> sched) option" where
  "scheduler_context_switch s old_stack =
     (if sd_count s = 0 then Some (old_stack, s)
      else do {
        p \<leftarrow> proc_at s (sd_running s);
        s \<leftarrow> proc_put s (sd_running s) (p\<lparr>ps_stack := old_stack\<rparr>);
        running \<leftarrow> scheduler_scan s (sd_running s + 1);
        let s = s\<lparr>sd_running := (if running \<ge> sd_count s then 0 else running)\<rparr>;
        p \<leftarrow> proc_at s (sd_running s);
        Some (ps_stack p, s)
      })"

subsection \<open>Fields of a process\<close>

definition scheduler_update :: "sched \<Rightarrow> int \<Rightarrow> (process \<Rightarrow> process) \<Rightarrow> (int \<times> sched) option" where
  "scheduler_update s pid f =
     do {
       bad \<leftarrow> scheduler_pid_invalid s pid;
       if bad then Some (1, s)
       else do { p \<leftarrow> proc_at s (pid - 1); s \<leftarrow> proc_put s (pid - 1) (f p); Some (0, s) }
     }"

definition scheduler_chdir :: "sched \<Rightarrow> int \<Rightarrow> vref \<Rightarrow> (int \<times> sched) option" where
  "scheduler_chdir s pid cwd = scheduler_update s pid (\<lambda>p. p\<lparr>ps_cwd := cwd\<rparr>)"

definition scheduler_move_process :: "sched \<Rightarrow> int \<Rightarrow> u32 \<Rightarrow> (int \<times> sched) option" where
  "scheduler_move_process s pid new_address = scheduler_update s pid (\<lambda>p. p\<lparr>ps_process_memory := new_address\<rparr>)"

subsection \<open>File descriptors\<close>

text \<open>The first index from \<open>i\<close> on whose flag is clear.\<close>

fun first_clear :: "nat \<Rightarrow> bool list \<Rightarrow> nat option" where
  "first_clear i [] = None"
| "first_clear i (b # bs) = (if \<not> b then Some i else first_clear (Suc i) bs)"

definition scheduler_fput :: "sched \<Rightarrow> int \<Rightarrow> vref \<Rightarrow> (int \<times> sched) option" where
  "scheduler_fput s pid vref =
     do {
       bad \<leftarrow> scheduler_pid_invalid s pid;
       if bad then Some (0, s)
       else do {
         p \<leftarrow> proc_at s (pid - 1);
         flags \<leftarrow> ps_fileExists p;
         (case first_clear 0 (take MAX_FILES_PER_PROCESS flags) of
            None \<Rightarrow> Some (0, s)
          | Some i \<Rightarrow> do {
              s \<leftarrow> proc_put s (pid - 1) (p\<lparr>ps_files := (ps_files p)[i := vref], ps_fileExists := Some (flags[i := True])\<rparr>);
              Some (int i + 1, s)
            })
       }
     }"

text \<open>The pointer \<^verbatim>\<open>scheduler_fget\<close> returns, as the index into the file array; the inner \<open>None\<close> is null.\<close>

definition scheduler_fget :: "sched \<Rightarrow> int \<Rightarrow> int \<Rightarrow> nat option option" where
  "scheduler_fget s pid fd =
     do {
       bad \<leftarrow> scheduler_pid_invalid s pid;
       if bad then Some None
       else if fd - 1 < 0 \<or> fd - 1 \<ge> int MAX_FILES_PER_PROCESS then Some None
       else do {
         p \<leftarrow> proc_at s (pid - 1);
         flags \<leftarrow> ps_fileExists p;
         Some (if flags ! nat (fd - 1) then Some (nat (fd - 1)) else None)
       }
     }"

text \<open>\<^verbatim>\<open>scheduler_fremove\<close> stores \<^verbatim>\<open>false\<close>, that is null, in the pointer to the flags.\<close>

definition scheduler_fremove :: "sched \<Rightarrow> int \<Rightarrow> int \<Rightarrow> (int \<times> sched) option" where
  "scheduler_fremove s pid fd =
     do {
       bad \<leftarrow> scheduler_pid_invalid s pid;
       if bad then Some (1, s)
       else if fd - 1 < 0 \<or> fd - 1 \<ge> int MAX_FILES_PER_PROCESS then Some (1, s)
       else do {
         p \<leftarrow> proc_at s (pid - 1);
         flags \<leftarrow> ps_fileExists p;
         if \<not> flags ! nat (fd - 1) then Some (1, s)
         else do { s \<leftarrow> proc_put s (pid - 1) (p\<lparr>ps_fileExists := None\<rparr>); Some (0, s) }
       }
     }"

subsection \<open>Access to the table\<close>

definition proc_live :: "sched \<Rightarrow> int \<Rightarrow> bool" where
  "proc_live s pid \<longleftrightarrow>
     1 \<le> pid \<and> pid \<le> sd_count s \<and> pid \<le> int (length (sd_table s)) \<and> ps_exists (sd_table s ! nat (pid - 1))"

definition proc_of :: "sched \<Rightarrow> int \<Rightarrow> process" where
  "proc_of s pid = sd_table s ! nat (pid - 1)"

lemma live_valid [simp]:
  "proc_live s pid \<Longrightarrow> scheduler_pid_invalid s pid = Some False"
  "proc_live s pid \<Longrightarrow> proc_at s (pid - 1) = Some (proc_of s pid)"
  "proc_live s pid \<Longrightarrow> proc_put s (pid - 1) p = Some (s\<lparr>sd_table := (sd_table s)[nat (pid - 1) := p]\<rparr>)"
  by (auto simp: proc_live_def scheduler_pid_invalid_def proc_at_def proc_put_def proc_of_def)

text \<open>The files of a process, and the process table with one of its entries replaced.\<close>

definition proc_set :: "sched \<Rightarrow> int \<Rightarrow> process \<Rightarrow> sched" where
  "proc_set s pid p = s\<lparr>sd_table := (sd_table s)[nat (pid - 1) := p]\<rparr>"

lemma proc_set_simps [simp]:
  assumes "proc_live s pid"
  shows "proc_of (proc_set s pid p) pid = p" "proc_live (proc_set s pid p) pid = ps_exists p"
    "q \<noteq> pid \<Longrightarrow> 1 \<le> q \<Longrightarrow> proc_of (proc_set s pid p) q = proc_of s q"
    "q \<noteq> pid \<Longrightarrow> proc_live (proc_set s pid p) q = proc_live s q"
  using assms by (auto simp: proc_set_def proc_of_def proc_live_def nth_list_update nat_eq_iff)

definition fd_ok :: "process \<Rightarrow> bool" where
  "fd_ok p \<longleftrightarrow>
     (\<exists>flags. ps_fileExists p = Some flags \<and> length flags = MAX_FILES_PER_PROCESS) \<and>
     length (ps_files p) = MAX_FILES_PER_PROCESS"

definition fd_inv :: "int \<Rightarrow> sched \<Rightarrow> bool" where
  "fd_inv pid s \<longleftrightarrow> proc_live s pid \<and> fd_ok (proc_of s pid)"

text \<open>The open files of a process, as \<^verbatim>\<open>scheduler_fget\<close> finds them.\<close>

definition open_files :: "int \<Rightarrow> sched \<Rightarrow> int \<Rightarrow> vref option" where
  "open_files pid s fd =
     (case scheduler_fget s pid fd of Some (Some i) \<Rightarrow> Some (ps_files (proc_of s pid) ! i) | _ \<Rightarrow> None)"

lemma open_files_flags:
  assumes "fd_inv pid s" "ps_fileExists (proc_of s pid) = Some flags"
  shows "open_files pid s fd =
    (if 1 \<le> fd \<and> fd \<le> 1024 \<and> flags ! nat (fd - 1) then Some (ps_files (proc_of s pid) ! nat (fd - 1)) else None)"
  using assms by (auto simp: open_files_def scheduler_fget_def fd_inv_def)

lemma first_clear_Some:
  "first_clear i bs = Some k \<Longrightarrow> i \<le> k \<and> k < i + length bs \<and> \<not> bs ! (k - i) \<and> (\<forall>j. i \<le> j \<and> j < k \<longrightarrow> bs ! (j - i))"
proof (induction bs arbitrary: i)
  case (Cons b bs)
  show ?case
  proof (cases b)
    case True
    with Cons.IH [of "Suc i"] Cons.prems have k: "Suc i \<le> k" "k < Suc i + length bs" "\<not> bs ! (k - Suc i)" "\<forall>j. Suc i \<le> j \<and> j < k \<longrightarrow> bs ! (j - Suc i)"
      by simp_all
    have "(b # bs) ! (j - i)" if "i \<le> j" "j < k" for j
      using that True k(4) by (cases "j = i") (auto simp: nth_Cons')
    with k show ?thesis by (auto simp: nth_Cons')
  qed (use Cons.prems in auto)
qed simp

lemma first_clear_None: "first_clear i bs = None \<Longrightarrow> \<forall>b \<in> set bs. b"
  by (induction bs arbitrary: i) (auto split: if_splits)

lemma scheduler_fput_step:
  assumes "fd_inv pid s"
  shows "\<exists>r s'. scheduler_fput s pid v = Some (r, s') \<and> fd_inv pid s' \<and>
    (if r = 0 then s' = s \<and> (\<forall>fd. 1 \<le> fd \<and> fd \<le> 1024 \<longrightarrow> open_files pid s fd \<noteq> None)
     else 1 \<le> r \<and> r \<le> 1024 \<and> open_files pid s r = None \<and>
       (\<forall>fd. 1 \<le> fd \<and> fd < r \<longrightarrow> open_files pid s fd \<noteq> None) \<and>
       open_files pid s' = (open_files pid s)(r \<mapsto> v))"
proof -
  let ?p = "proc_of s pid"
  have live: "proc_live s pid" using assms by (simp add: fd_inv_def)
  obtain flags where f: "ps_fileExists ?p = Some flags" "length flags = 1024" "length (ps_files ?p) = 1024"
    using assms by (auto simp: fd_inv_def fd_ok_def)
  note files = open_files_flags [OF assms f(1)]
  show ?thesis
  proof (cases "first_clear 0 flags")
    case None
    then have "\<forall>fd. 1 \<le> fd \<and> fd \<le> 1024 \<longrightarrow> open_files pid s fd \<noteq> None"
      using first_clear_None [OF None] f(2) files by (auto simp: all_set_conv_all_nth)
    then show ?thesis using None live f assms by (simp add: scheduler_fput_def)
  next
    case (Some i)
    note i = first_clear_Some [OF Some]
    let ?q = "?p\<lparr>ps_files := (ps_files ?p)[i := v], ps_fileExists := Some (flags[i := True])\<rparr>"
    let ?s' = "proc_set s pid ?q"
    have put: "scheduler_fput s pid v = Some (int i + 1, ?s')"
      using Some live f by (simp add: scheduler_fput_def proc_set_def)
    have "ps_exists ?q" using live by (simp add: proc_live_def proc_of_def)
    then have inv: "fd_inv pid ?s'" using live f by (simp add: fd_inv_def fd_ok_def)
    have "ps_fileExists (proc_of ?s' pid) = Some (flags[i := True])" using live by simp
    note files' = open_files_flags [OF inv this]
    have "open_files pid ?s' fd = ((open_files pid s)(int i + 1 \<mapsto> v)) fd" for fd
      using files' [of fd] files [of fd] live i f by (auto simp: nth_list_update nat_eq_iff)
    moreover have "open_files pid s (int i + 1) = None" using files [of "int i + 1"] i by simp
    moreover have "open_files pid s fd \<noteq> None" if "1 \<le> fd" "fd < int i + 1" for fd
      using files [of fd] i f(2) that by (auto simp: nat_less_iff)
    ultimately show ?thesis using put inv i f(2) by (intro exI conjI) auto
  qed
qed

subsection \<open>A table of descriptors\<close>

locale descriptor_table =
  fixes inv :: "'s \<Rightarrow> bool"
    and files :: "'s \<Rightarrow> int \<Rightarrow> 'v option"
    and put :: "'s \<Rightarrow> 'v \<Rightarrow> (int \<times> 's) option"
    and limit :: int
  assumes put_step: "inv s \<Longrightarrow> \<exists>r s'. put s v = Some (r, s') \<and> inv s' \<and>
    (if r = 0 then s' = s \<and> (\<forall>fd. 1 \<le> fd \<and> fd \<le> limit \<longrightarrow> files s fd \<noteq> None)
     else 1 \<le> r \<and> r \<le> limit \<and> files s r = None \<and> (\<forall>fd. 1 \<le> fd \<and> fd < r \<longrightarrow> files s fd \<noteq> None) \<and>
       files s' = (files s)(r \<mapsto> v))"
begin

lemma put_keeps_open:
  assumes "inv s" "put s v = Some (r, s')" "files s fd = Some u"
  shows "files s' fd = Some u"
proof -
  obtain r' t where "put s v = Some (r', t)"
    "if r' = 0 then t = s \<and> (\<forall>fd. 1 \<le> fd \<and> fd \<le> limit \<longrightarrow> files s fd \<noteq> None)
     else 1 \<le> r' \<and> r' \<le> limit \<and> files s r' = None \<and> (\<forall>fd. 1 \<le> fd \<and> fd < r' \<longrightarrow> files s fd \<noteq> None) \<and>
       files t = (files s)(r' \<mapsto> v)"
    using put_step [OF assms(1), of v] by blast
  with assms(2,3) show ?thesis by (auto split: if_splits)
qed

lemma put_twice:
  assumes "inv s" "put s v = Some (r, s')" "put s' u = Some (q, s'')" "r \<noteq> 0" "q \<noteq> 0"
  shows "r < q" "files s'' r = Some v" "files s'' q = Some u"
proof -
  obtain r1 t1 where 1: "put s v = Some (r1, t1)" "inv t1"
    "if r1 = 0 then t1 = s \<and> (\<forall>fd. 1 \<le> fd \<and> fd \<le> limit \<longrightarrow> files s fd \<noteq> None)
     else 1 \<le> r1 \<and> r1 \<le> limit \<and> files s r1 = None \<and> (\<forall>fd. 1 \<le> fd \<and> fd < r1 \<longrightarrow> files s fd \<noteq> None) \<and>
       files t1 = (files s)(r1 \<mapsto> v)"
    using put_step [OF assms(1), of v] by blast
  with assms(2) have eq1: "r1 = r" "t1 = s'" by auto
  obtain r2 t2 where 2: "put s' u = Some (r2, t2)"
    "if r2 = 0 then t2 = s' \<and> (\<forall>fd. 1 \<le> fd \<and> fd \<le> limit \<longrightarrow> files s' fd \<noteq> None)
     else 1 \<le> r2 \<and> r2 \<le> limit \<and> files s' r2 = None \<and> (\<forall>fd. 1 \<le> fd \<and> fd < r2 \<longrightarrow> files s' fd \<noteq> None) \<and>
       files t2 = (files s')(r2 \<mapsto> u)"
    using put_step [OF 1(2), of u] eq1(2) by blast
  with assms(3) have eq2: "r2 = q" "t2 = s''" by auto
  from 1(3) eq1 assms(4) have a: "1 \<le> r" "files s r = None" "\<forall>fd. 1 \<le> fd \<and> fd < r \<longrightarrow> files s fd \<noteq> None"
    "files s' = (files s)(r \<mapsto> v)" by auto
  from 2(2) eq2 assms(5) have b: "1 \<le> q" "files s' q = None" "files s'' = (files s')(q \<mapsto> u)" by auto
  from a(4) b(2) have "q \<noteq> r" "files s q = None" by (auto split: if_splits)
  with a(3) b(1) have "\<not> q < r" by blast
  with \<open>q \<noteq> r\<close> show "r < q" by simp
  with a(4) b(3) show "files s'' r = Some v" "files s'' q = Some u" by auto
qed

end

interpretation fdt: descriptor_table "fd_inv pid" "open_files pid" "\<lambda>s v. scheduler_fput s pid v" 1024 for pid
  by unfold_locales (rule scheduler_fput_step)

subsection \<open>Listing and switching\<close>

text \<open>\<open>slot s i\<close>: the process at index \<open>i\<close> of the table exists.\<close>

definition slot :: "sched \<Rightarrow> int \<Rightarrow> bool" where
  "slot s i \<longleftrightarrow> 0 \<le> i \<and> i < int (length (sd_table s)) \<and> ps_exists (sd_table s ! nat i)"

lemma proc_at_slot: "proc_at s i = Some p \<Longrightarrow> ps_exists p = slot s i"
  by (auto simp: proc_at_def slot_def split: if_splits)

lemma scheduler_process_list_loop_spec:
  "scheduler_process_list_loop s i = Some (found, j) \<Longrightarrow> 0 \<le> i \<Longrightarrow>
    (found = 1 \<and> i < j \<and> j \<le> sd_count s + 1 \<and> slot s (j - 1) \<and> (\<forall>k. i < k \<and> k < j \<longrightarrow> \<not> slot s (k - 1))) \<or>
    (found = 0 \<and> (\<forall>k. i < k \<and> k \<le> sd_count s + 1 \<longrightarrow> \<not> slot s (k - 1)))"
proof (induction s i rule: scheduler_process_list_loop.induct)
  case (1 s i)
  show ?case
  proof (cases "i \<le> sd_count s")
    case False
    with "1.prems" show ?thesis by (auto simp: scheduler_process_list_loop.simps [of s i] Let_def)
  next
    case True
    then obtain p where p: "proc_at s i = Some p"
      using "1.prems" by (auto simp: scheduler_process_list_loop.simps [of s i] Let_def split: option.splits)
    show ?thesis
    proof (cases "ps_exists p")
      case True
      with p "1.prems" \<open>i \<le> sd_count s\<close> show ?thesis
        using proc_at_slot [OF p] by (auto simp: scheduler_process_list_loop.simps [of s i] Let_def)
    next
      case gone: False
      have rec: "scheduler_process_list_loop s (i + 1) = Some (found, j)"
        using p gone "1.prems"(1) True by (simp add: scheduler_process_list_loop.simps [of s i] Let_def)
      have "scheduler_process_list_loop s (i + 1) = Some (found, j) \<Longrightarrow> 0 \<le> i + 1 \<Longrightarrow>
          (found = 1 \<and> i + 1 < j \<and> j \<le> sd_count s + 1 \<and> slot s (j - 1) \<and> (\<forall>k. i + 1 < k \<and> k < j \<longrightarrow> \<not> slot s (k - 1))) \<or>
          (found = 0 \<and> (\<forall>k. i + 1 < k \<and> k \<le> sd_count s + 1 \<longrightarrow> \<not> slot s (k - 1)))"
        using "1.IH" [OF True refl, of p] p gone by simp
      with rec "1.prems"(2) have spec:
        "(found = 1 \<and> i + 1 < j \<and> j \<le> sd_count s + 1 \<and> slot s (j - 1) \<and> (\<forall>k. i + 1 < k \<and> k < j \<longrightarrow> \<not> slot s (k - 1))) \<or>
         (found = 0 \<and> (\<forall>k. i + 1 < k \<and> k \<le> sd_count s + 1 \<longrightarrow> \<not> slot s (k - 1)))" by simp
      have here: "\<not> slot s i" using proc_at_slot [OF p] gone by simp
      have up: "\<forall>k. i < k \<and> R k \<longrightarrow> \<not> slot s (k - 1)" if "\<forall>k. i + 1 < k \<and> R k \<longrightarrow> \<not> slot s (k - 1)" for R
      proof (intro allI impI)
        fix k assume "i < k \<and> R k"
        then show "\<not> slot s (k - 1)" using that here by (cases "k = i + 1") auto
      qed
      have less: "i + 1 < j \<Longrightarrow> i < j" by simp
      from spec up [of "\<lambda>k. k < j"] up [of "\<lambda>k. k \<le> sd_count s + 1"] less show ?thesis by blast
    qed
  qed
qed

lemma scheduler_scan_spec:
  "scheduler_scan s i = Some j \<Longrightarrow> i \<le> j \<and> slot s j \<and> (\<forall>k. i \<le> k \<and> k < j \<longrightarrow> \<not> slot s k)"
proof (induction s i rule: scheduler_scan.induct)
  case (1 s i)
  then have i: "0 \<le> i" "i < int (length (sd_table s))"
    by (auto simp: scheduler_scan.simps [of s i] split: if_splits)
  show ?case
  proof (cases "ps_exists (sd_table s ! nat i)")
    case True
    with i "1.prems" show ?thesis by (auto simp: scheduler_scan.simps [of s i] slot_def)
  next
    case False
    with i "1.prems" have "scheduler_scan s (i + 1) = Some j" by (simp add: scheduler_scan.simps [of s i])
    with "1.IH" i False have j: "i + 1 \<le> j" "slot s j" "\<forall>k. i + 1 \<le> k \<and> k < j \<longrightarrow> \<not> slot s k" by auto
    have "\<not> slot s k" if "i \<le> k" "k < j" for k
      using that j(3) False by (cases "k = i") (auto simp: slot_def)
    with j show ?thesis by auto
  qed
qed

lemma scheduler_scan_None: "scheduler_scan s i = None \<Longrightarrow> 0 \<le> i \<Longrightarrow> i \<le> k \<Longrightarrow> \<not> slot s k"
proof (induction s i rule: scheduler_scan.induct)
  case (1 s i)
  show ?case
  proof (cases "i < int (length (sd_table s))")
    case False
    with "1.prems"(3) show ?thesis by (simp add: slot_def)
  next
    case True
    with "1.prems"(1,2) have "\<not> ps_exists (sd_table s ! nat i)" "scheduler_scan s (i + 1) = None"
      by (auto simp: scheduler_scan.simps [of s i] split: if_splits)
    with "1.IH" True "1.prems"(2,3) show ?thesis by (cases "k = i") (auto simp: slot_def)
  qed
qed

subsection \<open>Properties\<close>

text \<open>
  Descriptor allocation: for a live process with its two arrays, \<^verbatim>\<open>scheduler_fput\<close> either
  returns 0, exactly when all 1024 descriptors are open, and changes nothing, or returns the
  lowest descriptor that was not open; \<^verbatim>\<open>scheduler_fget\<close> then finds the file under it, and every
  other descriptor of the process is as before.
\<close>

theorem fput_allocates_lowest:
  assumes "fd_inv pid s"
  shows "\<exists>r s'. scheduler_fput s pid v = Some (r, s') \<and> fd_inv pid s' \<and>
    (if r = 0 then s' = s \<and> (\<forall>fd. 1 \<le> fd \<and> fd \<le> 1024 \<longrightarrow> open_files pid s fd \<noteq> None)
     else 1 \<le> r \<and> r \<le> 1024 \<and> open_files pid s r = None \<and>
       (\<forall>fd. 1 \<le> fd \<and> fd < r \<longrightarrow> open_files pid s fd \<noteq> None) \<and>
       open_files pid s' = (open_files pid s)(r \<mapsto> v))"
  using scheduler_fput_step [OF assms] .

text \<open>
  Two files put one after the other get different, increasing descriptors, and both are
  found afterwards.
\<close>

theorem fput_twice:
  assumes "fd_inv pid s" "scheduler_fput s pid v = Some (r, s')" "scheduler_fput s' pid u = Some (q, s'')"
    and "r \<noteq> 0" "q \<noteq> 0"
  shows "r < q \<and> open_files pid s'' r = Some v \<and> open_files pid s'' q = Some u"
  using fdt.put_twice [OF assms] by simp

text \<open>
  \<^verbatim>\<open>scheduler_fremove\<close> does not close one descriptor: it clears the process's pointer to the
  flags, after which every attempt to put a file dereferences a null pointer.
\<close>

theorem fremove_breaks_table:
  assumes "fd_inv pid s" "open_files pid s fd \<noteq> None"
  shows "\<exists>s'. scheduler_fremove s pid fd = Some (0, s') \<and> scheduler_fput s' pid v = None"
proof -
  let ?p = "proc_of s pid"
  have live: "proc_live s pid" using assms(1) by (simp add: fd_inv_def)
  obtain flags where f: "ps_fileExists ?p = Some flags" using assms(1) by (auto simp: fd_inv_def fd_ok_def)
  have fd: "1 \<le> fd" "fd \<le> 1024" "flags ! nat (fd - 1)"
    using assms(2) open_files_flags [OF assms(1) f, of fd] by (auto split: if_splits)
  let ?s' = "proc_set s pid (?p\<lparr>ps_fileExists := None\<rparr>)"
  have rm: "scheduler_fremove s pid fd = Some (0, ?s')"
    using live f fd by (simp add: scheduler_fremove_def proc_set_def)
  have "proc_live ?s' pid" using live by (simp add: proc_live_def [of s] proc_of_def)
  then have "scheduler_fput ?s' pid v = None" using live by (simp add: scheduler_fput_def)
  with rm show ?thesis by blast
qed

text \<open>
  The scheduler picks the next process in table order: a context switch stores the old
  stack in the running entry and resumes the first existing entry behind it, or entry 0 when
  that one lies at or beyond the process count.
\<close>

theorem context_switch_next:
  assumes "scheduler_context_switch s old = Some (stack, s')" "sd_count s \<noteq> 0"
  shows "\<exists>j. sd_running s < j \<and> slot s j \<and> (\<forall>k. sd_running s < k \<and> k < j \<longrightarrow> \<not> slot s k) \<and>
    sd_running s' = (if j \<ge> sd_count s then 0 else j) \<and>
    stack = ps_stack (sd_table s' ! nat (sd_running s')) \<and>
    ps_stack (sd_table s' ! nat (sd_running s)) = old"
proof -
  obtain p where p: "proc_at s (sd_running s) = Some p" using assms by (auto simp: scheduler_context_switch_def bind_eq_Some_conv)
  define t where "t = s\<lparr>sd_table := (sd_table s)[nat (sd_running s) := p\<lparr>ps_stack := old\<rparr>]\<rparr>"
  have run: "0 \<le> sd_running s" "sd_running s < int (length (sd_table s))" "p = sd_table s ! nat (sd_running s)"
    using p by (auto simp: proc_at_def split: if_splits)
  then have put: "proc_put s (sd_running s) (p\<lparr>ps_stack := old\<rparr>) = Some t" by (simp add: proc_put_def t_def)
  have slots: "slot t k = slot s k" for k
    using run by (auto simp: slot_def t_def nth_list_update nat_eq_iff)
  have same: "sd_count t = sd_count s" "sd_running t = sd_running s" by (simp_all add: t_def)
  obtain j q where j: "scheduler_scan t (sd_running s + 1) = Some j"
    "proc_at (t\<lparr>sd_running := (if j \<ge> sd_count s then 0 else j)\<rparr>)
      (sd_running (t\<lparr>sd_running := (if j \<ge> sd_count s then 0 else j)\<rparr>)) = Some q"
    "s' = t\<lparr>sd_running := (if j \<ge> sd_count s then 0 else j)\<rparr>" "stack = ps_stack q"
    using assms p put same by (auto simp only: scheduler_context_switch_def bind_eq_Some_conv Let_def if_False
      option.inject prod.inject sched.simps)
  have q: "q = sd_table t ! nat (if j \<ge> sd_count s then 0 else j)"
    using j(2) by (simp add: proc_at_def split: if_splits)
  note scan = scheduler_scan_spec [OF j(1)]
  have "sd_running s < j" "slot s j" "\<forall>k. sd_running s < k \<and> k < j \<longrightarrow> \<not> slot s k"
    using scan slots by auto
  moreover have "ps_stack (sd_table s' ! nat (sd_running s)) = old" using run j(3) by (simp add: t_def)
  ultimately show ?thesis using j(3,4) q by (intro exI [of _ j]) simp
qed

text \<open>
  The first context switch after \<^verbatim>\<open>scheduler_init\<close>, once a process exists, writes in front
  of the table: it stores the stack in entry -1.
\<close>

theorem first_switch_out_of_bounds:
  assumes "sd_count s \<noteq> 0"
  shows "scheduler_context_switch (scheduler_init s table) old = None"
  using assms by (simp add: scheduler_context_switch_def scheduler_init_def proc_at_def)

definition no_process :: process where
  "no_process = \<lparr>ps_exists = False, ps_stack = 0, ps_process_memory = 0, ps_state = RUNNABLE, ps_parent_index = 0,
     ps_files = [], ps_fileExists = None, ps_cwd = vfs_root, ps_exe = vfs_root, ps_mount = 0,
     ps_processSegmentsIndex = 0\<rparr>"

definition sched_fresh :: sched where
  "sched_fresh = scheduler_init sched_static [no_process, no_process]"

lemma first_entry:
  "\<exists>p. scheduler_new_entry grown files sched_fresh parent stack mem exe mnt seg =
    Some (sched_fresh\<lparr>sd_table := [p, no_process], sd_count := 2\<rparr>) \<and> ps_exists p \<and>
    ps_fileExists p = Some (replicate 1024 False) \<and> ps_files p = files"
  by (simp add: scheduler_new_entry_def scheduler_free_loop.simps [of _ 0] sched_fresh_def scheduler_init_def
    sched_static_def proc_at_def proc_put_def Let_def del: replicate.simps)

lemma second_entry:
  assumes "ps_exists p"
  shows "\<exists>q. scheduler_new_entry grown files (sched_fresh\<lparr>sd_table := [p, no_process], sd_count := 2\<rparr>) parent stack mem exe mnt seg =
    Some (sched_fresh\<lparr>sd_table := [p, q], sd_count := 3\<rparr>) \<and> ps_exists q"
  using assms
  by (simp add: scheduler_new_entry_def scheduler_free_loop.simps [of _ 0] scheduler_free_loop.simps [of _ 1]
    no_process_def proc_at_def proc_put_def Let_def sched_fresh_def scheduler_init_def sched_static_def del: replicate.simps)

lemma third_entry:
  assumes "ps_exists p" "ps_exists q"
  shows "scheduler_new_entry grown files (sched_fresh\<lparr>sd_table := [p, q], sd_count := 3\<rparr>) parent stack mem exe mnt seg = None"
  using assms
  by (simp add: scheduler_new_entry_def scheduler_free_loop.simps [of _ 0] scheduler_free_loop.simps [of _ 1]
    scheduler_free_loop.simps [of _ 2] sched_fresh_def scheduler_init_def sched_static_def)

text \<open>
  \<^verbatim>\<open>scheduler_new_entry\<close> counts an appended process twice: on a cleared table of the initial
  size the count is 2 after one process and 3 after two, more than the table holds, and the
  third creation reads beyond the table instead of growing it.
\<close>

theorem new_entry_overruns:
  "\<exists>s1 s2. scheduler_new_entry g1 f1 sched_fresh par st mem exe mnt seg = Some s1 \<and> sd_count s1 = 2 \<and>
    scheduler_new_entry g2 f2 s1 par st mem exe mnt seg = Some s2 \<and> sd_count s2 = 3 \<and>
    int (length (sd_table s2)) = 2 \<and>
    scheduler_new_entry g3 f3 s2 par st mem exe mnt seg = None"
proof -
  obtain p where p: "scheduler_new_entry g1 f1 sched_fresh par st mem exe mnt seg =
    Some (sched_fresh\<lparr>sd_table := [p, no_process], sd_count := 2\<rparr>)" "ps_exists p" using first_entry by blast
  obtain q where q: "scheduler_new_entry g2 f2 (sched_fresh\<lparr>sd_table := [p, no_process], sd_count := 2\<rparr>) par st mem exe mnt seg =
    Some (sched_fresh\<lparr>sd_table := [p, q], sd_count := 3\<rparr>)" "ps_exists q" using second_entry [OF p(2)] by blast
  show ?thesis using p(1) q(1) third_entry [OF p(2) q(2)] by simp
qed

lemma process_list_steps:
  assumes "scheduler_process_list s pid = Some (found, q)" "0 \<le> pid"
  shows "found = 1 \<and> pid < q \<and> slot s (q - 1) \<and> (\<forall>k. pid < k \<and> k < q \<longrightarrow> \<not> slot s (k - 1)) \<or>
    found = 0 \<and> q = pid \<and> (\<forall>k. pid < k \<and> k \<le> sd_count s + 1 \<longrightarrow> \<not> slot s (k - 1))"
proof -
  obtain f i where l: "scheduler_process_list_loop s pid = Some (f, i)" "(found, q) = (if f = 1 then (1, i) else (0, pid))"
    using assms by (auto simp: scheduler_process_list_def bind_eq_Some_conv)
  from scheduler_process_list_loop_spec [OF l(1) assms(2)] l(2) show ?thesis by (cases "f = 1") simp_all
qed

text \<open>
  Listing: \<^verbatim>\<open>scheduler_process_list\<close> moves \<^verbatim>\<open>*pid\<close> to the next larger PID whose entry exists, or
  returns 0 and leaves it when there is none up to one beyond the process count.
\<close>

theorem process_list_next:
  assumes "scheduler_process_list s pid = Some (found, q)" "0 \<le> pid"
  shows "found = 1 \<and> pid < q \<and> slot s (q - 1) \<and> (\<forall>k. pid < k \<and> k < q \<longrightarrow> \<not> slot s (k - 1)) \<or>
    found = 0 \<and> q = pid \<and> (\<forall>k. pid < k \<and> k \<le> sd_count s + 1 \<longrightarrow> \<not> slot s (k - 1))"
  by (rule process_list_steps [OF assms])

subsection \<open>Witnesses\<close>

definition demo_process :: process where
  "demo_process = no_process\<lparr>ps_exists := True, ps_stack := 9, ps_files := replicate 1024 vfs_root,
     ps_fileExists := Some (replicate 1024 False)\<rparr>"

definition sched_demo :: sched where
  "sched_demo = \<lparr>sd_table = [demo_process, no_process, demo_process, no_process], sd_count = 3, sd_size = 4, sd_running = 0\<rparr>"

lemma sched_demo_simps [simp]:
  "proc_live sched_demo 1" "fd_inv 1 sched_demo" "proc_of sched_demo 1 = demo_process" "sd_count sched_demo = 3"
  by (simp_all add: proc_live_def fd_inv_def fd_ok_def proc_of_def sched_demo_def demo_process_def)

lemma fput_demo:
  "scheduler_fput sched_demo 1 v = Some (1, proc_set sched_demo 1
     (demo_process\<lparr>ps_files := (replicate 1024 vfs_root)[0 := v], ps_fileExists := Some ((replicate 1024 False)[0 := True])\<rparr>))"
proof -
  have "replicate 1024 False = False # replicate 1023 False" by (subst replicate_Suc [symmetric]) simp
  then have "first_clear 0 (replicate 1024 False) = Some 0" by simp
  then show ?thesis
    using live_valid [OF sched_demo_simps(1)]
    by (simp add: scheduler_fput_def proc_set_def demo_process_def del: One_nat_def diff_self)
qed

theorem fput_allocates_lowest_witness:
  "\<exists>s'. scheduler_fput sched_demo 1 vfs_root = Some (1, s') \<and> open_files 1 s' 1 = Some vfs_root"
  using fput_allocates_lowest [of 1 sched_demo vfs_root] fput_demo [of vfs_root] by auto

theorem context_switch_next_witness:
  "\<exists>s'. scheduler_context_switch sched_demo 5 = Some (9, s') \<and> sd_running s' = 2 \<and> ps_stack (sd_table s' ! 0) = 5"
proof -
  let ?s = "sched_demo\<lparr>sd_table := [demo_process\<lparr>ps_stack := 5\<rparr>, no_process, demo_process, no_process], sd_running := 2\<rparr>"
  have "scheduler_context_switch sched_demo 5 = Some (9, ?s)"
    by (simp add: scheduler_context_switch_def proc_at_def proc_put_def sched_demo_def demo_process_def no_process_def
      scheduler_scan.simps [of _ 1] scheduler_scan.simps [of _ 2])
  then show ?thesis using context_switch_next [of sched_demo 5 9 ?s] by simp
qed

theorem first_switch_out_of_bounds_witness: "scheduler_context_switch (scheduler_init sched_demo [demo_process]) 7 = None"
  by (rule first_switch_out_of_bounds) simp

theorem process_list_next_witness:
  "slot sched_demo 2 \<and> \<not> slot sched_demo 1"
proof -
  have "scheduler_process_list sched_demo 1 = Some (1, 3)"
    by (simp add: scheduler_process_list_def sched_demo_def demo_process_def no_process_def proc_at_def
      scheduler_process_list_loop.simps [of _ 1] scheduler_process_list_loop.simps [of _ 2])
  from process_list_next [OF this] show ?thesis by (auto dest: spec [of _ 2])
qed

theorem fremove_breaks_table_witness:
  "\<exists>s s'. scheduler_fput sched_demo 1 vfs_root = Some (1, s) \<and> scheduler_fremove s 1 1 = Some (0, s') \<and>
     scheduler_fput s' 1 vfs_root = None"
proof -
  obtain r s where s: "scheduler_fput sched_demo 1 vfs_root = Some (r, s)" "fd_inv 1 s"
    "r \<noteq> 0 \<longrightarrow> open_files 1 s r = Some vfs_root"
    using scheduler_fput_step [of 1 sched_demo vfs_root] by (auto split: if_splits)
  with fput_demo [of vfs_root] have "r = 1" by simp
  with s fremove_breaks_table [of 1 s 1 vfs_root] show ?thesis by auto
qed

theorem fput_twice_witness:
  "\<exists>s r s' q. scheduler_fput sched_demo 1 vfs_root = Some (r, s) \<and> scheduler_fput s 1 vfs_root = Some (q, s') \<and> r < q"
proof -
  obtain r s where s: "scheduler_fput sched_demo 1 vfs_root = Some (r, s)" "fd_inv 1 s"
    "r \<noteq> 0 \<longrightarrow> open_files 1 s = (open_files 1 sched_demo)(r \<mapsto> vfs_root)"
    using scheduler_fput_step [of 1 sched_demo vfs_root] by (auto split: if_splits)
  with fput_demo [of vfs_root] have r: "r = 1" by simp
  have closed: "open_files 1 sched_demo 2 = None"
    using open_files_flags [of 1 sched_demo "replicate 1024 False" 2] by (simp add: demo_process_def)
  obtain q s' where q: "scheduler_fput s 1 vfs_root = Some (q, s')"
    "q = 0 \<longrightarrow> (\<forall>fd. 1 \<le> fd \<and> fd \<le> 1024 \<longrightarrow> open_files 1 s fd \<noteq> None)"
    using scheduler_fput_step [OF s(2), of vfs_root] by (auto split: if_splits)
  have "q \<noteq> 0"
  proof
    assume "q = 0"
    with q(2) have "open_files 1 s 2 \<noteq> None" by simp
    with s(3) r closed show False by simp
  qed
  with fput_twice [OF _ s(1) q(1)] r s(1) q(1) show ?thesis by auto
qed

end
