(* ===== verification/Procfs.thy ===== *)
theory Procfs
  imports Scheduler Digits
begin

section \<open>The process file system (procfs.c)\<close>

text \<open>
  The driver behind \<^verbatim>\<open>/proc\<close>.  Its references point to \<^verbatim>\<open>ProcState\<close> objects that it allocates, so
  the world of the driver functions holds these objects by address next to the process table.
  The addresses that \<^verbatim>\<open>kmalloc\<close> hands out are increasing numbers, and an access to one that is not
  allocated is \<open>None\<close>.  Uninitialised stack buffers are arguments.
\<close>

subsection \<open>Numbers as text\<close>

abbreviation (input) NUL :: char where "NUL \<equiv> CHR 0x00"

definition proc_digits :: string where
  "proc_digits = ''0123456789ABCDEFGHIJKLMNOPQRSTUVWXYZ''"

text \<open>The digit loop of \<^verbatim>\<open>uint_to_str\<close>: the remaining number, the buffer, and the index.\<close>

function uint_to_str_loop :: "u32 \<Rightarrow> string \<Rightarrow> int \<Rightarrow> int \<Rightarrow> u32 \<times> string \<times> int" where
  "uint_to_str_loop num buffer base i =
     (if num > 0 \<and> i \<ge> 0
      then uint_to_str_loop (num div word_of_int base)
             (buffer[nat i := proc_digits ! unat (num mod word_of_int base)]) base (i - 1)
      else (num, buffer, i))"
  by pat_completeness auto
termination
  by (relation "measure (\<lambda>(num, buffer, base, i). nat (i + 1))") auto

declare uint_to_str_loop.simps [simp del]

text \<open>The loop that moves the digits to the start.\<close>

function uint_to_str_shift :: "string \<Rightarrow> nat \<Rightarrow> nat \<Rightarrow> string \<times> nat" where
  "uint_to_str_shift buffer i j =
     (if buffer ! i \<noteq> NUL \<and> j < length buffer - 1
      then uint_to_str_shift (buffer[j := buffer ! i]) (i + 1) (j + 1)
      else (buffer, j))"
  by pat_completeness auto
termination
  by (relation "measure (\<lambda>(buffer, i, j). length buffer - j)") auto

declare uint_to_str_shift.simps [simp del]

text \<open>The buffer, whose length is \<^verbatim>\<open>buffer_size\<close>, as the function leaves it.\<close>

definition uint_to_str :: "u32 \<Rightarrow> string \<Rightarrow> int \<Rightarrow> string" where
  "uint_to_str num buffer base =
     (let buffer_size = length buffer;
          buffer = buffer[buffer_size - 1 := NUL] in
      if num = 0 then buffer[0 := CHR ''0'', 1 := NUL]
      else (case uint_to_str_loop num buffer base (int buffer_size - 2) of
              (num, buffer, i) \<Rightarrow>
                if num > 0 then buffer[0 := NUL]
                else (case uint_to_str_shift buffer (nat (i + 1)) 0 of
                        (buffer, j) \<Rightarrow> buffer[j := NUL])))"

definition c_string :: "string \<Rightarrow> string" where
  "c_string buffer = takeWhile (\<lambda>c. c \<noteq> NUL) buffer"

definition digit_value :: "char \<Rightarrow> int option" where
  "digit_value c =
     (let v = of_char c :: int in
      if 0x30 \<le> v \<and> v \<le> 0x39 then Some (v - 0x30)
      else if 0x41 \<le> v \<and> v \<le> 0x5A then Some (v - 0x41 + 10)
      else None)"

text \<open>The end of the string stops the scan as any character does that is no digit.\<close>

fun str_to_uint_loop :: "string \<Rightarrow> int \<Rightarrow> u32 \<Rightarrow> u32" where
  "str_to_uint_loop [] base result = result"
| "str_to_uint_loop (c # str) base result =
     (case digit_value c of
        None \<Rightarrow> result
      | Some value \<Rightarrow>
          if value \<ge> base then result
          else str_to_uint_loop str base (result * word_of_int base + word_of_int value))"

definition str_to_uint :: "string \<Rightarrow> int \<Rightarrow> u32" where
  "str_to_uint str base = str_to_uint_loop str base 0"

subsection \<open>State\<close>

datatype proc_node =
  PROC_NODE_ROOT | PROC_NODE_PROC | PROC_NODE_FD | PROC_LEAF_EXE | PROC_LEAF_CWD | PROC_LEAF_SELF

record proc_state =
  pr_pid :: int
  pr_node :: proc_node
  pr_offset :: int

record kworld =
  kw_sched :: sched
  kw_states :: "nat \<rightharpoonup> proc_state"
  kw_next :: nat

definition proc_alloc :: "kworld \<Rightarrow> proc_state \<Rightarrow> nat \<times> kworld" where
  "proc_alloc w st = (kw_next w, w\<lparr>kw_states := (kw_states w)(kw_next w \<mapsto> st), kw_next := kw_next w + 1\<rparr>)"

text \<open>\<^verbatim>\<open>vref->state\<close>, dereferenced.\<close>

definition proc_deref :: "vref \<Rightarrow> kworld \<Rightarrow> (nat \<times> proc_state) option" where
  "proc_deref vref w = do { a \<leftarrow> r_state vref; st \<leftarrow> kw_states w a; Some (a, st) }"

definition proc_store :: "nat \<Rightarrow> proc_state \<Rightarrow> kworld \<Rightarrow> kworld" where
  "proc_store a st w = w\<lparr>kw_states := (kw_states w)(a \<mapsto> st)\<rparr>"

text \<open>
  \<^verbatim>\<open>proc_sread\<close> in two parts: the offset it reads from, the count and the new state, and what a
  file with the content \<open>file\<close> then delivers.  A count that is not positive copies nothing.
\<close>

definition proc_sread_range :: "int \<Rightarrow> int \<Rightarrow> proc_state \<Rightarrow> int \<times> int \<times> proc_state" where
  "proc_sread_range output_size file_size st =
     (let offset = (if pr_offset st < 0 then 0 else pr_offset st);
          left = i32 (file_size - offset);
          bytes = min_c left output_size
      in (offset, bytes, st\<lparr>pr_offset := i32 (offset + bytes)\<rparr>))"

definition proc_sread :: "int \<Rightarrow> 'a list \<Rightarrow> proc_state \<Rightarrow> int \<times> 'a list \<times> proc_state" where
  "proc_sread output_size file st =
     (case proc_sread_range output_size (int (length file)) st of
        (offset, bytes, st) \<Rightarrow> (bytes, take (nat bytes) (drop (nat offset) file), st))"

subsection \<open>Walking\<close>

definition procfs_root :: "vref \<Rightarrow> kworld \<Rightarrow> (int \<times> vref \<times> kworld) option" where
  "procfs_root dst w =
     (case proc_alloc w \<lparr>pr_pid = 0, pr_node = PROC_NODE_ROOT, pr_offset = 0\<rparr> of
        (a, w) \<Rightarrow> Some (0, dst\<lparr>r_state := Some a\<rparr>, w))"

definition procfs_clone :: "vref \<Rightarrow> vref \<Rightarrow> kworld \<Rightarrow> (int \<times> vref \<times> kworld) option" where
  "procfs_clone dst src w =
     do {
       (_, st) \<leftarrow> proc_deref src w;
       (case proc_alloc w st of (a, w) \<Rightarrow> Some (0, dst\<lparr>r_state := Some a\<rparr>, w))
     }"

text \<open>The search of \<^verbatim>\<open>procfs_open\<close> through the process list; the fuel is the process count plus two.\<close>

fun procfs_find_pid :: "nat \<Rightarrow> sched \<Rightarrow> int \<Rightarrow> int \<Rightarrow> bool option" where
  "procfs_find_pid 0 s expected pid = None"
| "procfs_find_pid (Suc fuel) s expected pid =
     do {
       (found, pid) \<leftarrow> scheduler_process_list s pid;
       if found = 0 then Some False
       else if expected = pid then Some True
       else procfs_find_pid fuel s expected pid
     }"

definition procfs_enter :: "vref \<Rightarrow> nat \<Rightarrow> kworld \<Rightarrow> proc_state \<Rightarrow> (int \<times> vref \<times> kworld) option" where
  "procfs_enter vref a w st = Some (0, vref, proc_store a st w)"

definition procfs_open :: "vref \<Rightarrow> string \<Rightarrow> u32 \<Rightarrow> kworld \<Rightarrow> (int \<times> vref \<times> kworld) option" where
  "procfs_open vref basename flags w =
     do {
       (a, st) \<leftarrow> proc_deref vref w;
       (case pr_node st of
          PROC_NODE_ROOT \<Rightarrow>
            if basename = ''self'' then
              procfs_enter vref a w (st\<lparr>pr_pid := scheduler_get_current_pid (kw_sched w), pr_offset := 0,
                        pr_node := (if flags AND OPEN_NOFOLLOW \<noteq> 0 then PROC_LEAF_SELF else PROC_NODE_PROC)\<rparr>)
            else do {
              let expected = sint (str_to_uint basename 10);
              found \<leftarrow> procfs_find_pid (nat (sd_count (kw_sched w) + 2)) (kw_sched w) expected 0;
              if found then procfs_enter vref a w (st\<lparr>pr_offset := 0, pr_pid := expected, pr_node := PROC_NODE_PROC\<rparr>)
              else Some (- LINUX_ENOENT, vref, w)
            }
        | PROC_NODE_PROC \<Rightarrow>
            if basename = ''..'' then procfs_enter vref a w (st\<lparr>pr_node := PROC_NODE_ROOT, pr_offset := 0\<rparr>)
            else if basename = ''fd'' then
              procfs_enter vref a w (st\<lparr>pr_offset := 0, pr_node := (if flags AND OPEN_NOFOLLOW \<noteq> 0 then PROC_NODE_FD else pr_node st)\<rparr>)
            else if basename = ''exe'' then
              procfs_enter vref a w (st\<lparr>pr_offset := 0, pr_node := (if flags AND OPEN_NOFOLLOW \<noteq> 0 then PROC_LEAF_EXE else pr_node st)\<rparr>)
            else if basename = ''cwd'' then procfs_enter vref a w (st\<lparr>pr_offset := 0, pr_node := PROC_LEAF_CWD\<rparr>)
            else Some (- LINUX_ENOENT, vref, w)
        | PROC_NODE_FD \<Rightarrow>
            if basename = ''..'' then procfs_enter vref a w (st\<lparr>pr_offset := 0, pr_node := PROC_NODE_PROC\<rparr>)
            else Some (- LINUX_ENOENT, vref, w)
        | _ \<Rightarrow> Some (- LINUX_EIO, vref, w))
     }"

definition procfs_close :: "vref \<Rightarrow> kworld \<Rightarrow> (int \<times> vref \<times> kworld) option" where
  "procfs_close vref w =
     do { (a, _) \<leftarrow> proc_deref vref w; Some (0, vref, w\<lparr>kw_states := (kw_states w)(a := None)\<rparr>) }"

definition procfs_lookup :: "string \<Rightarrow> vref \<Rightarrow> kworld \<Rightarrow> (int \<times> string \<times> kworld) option" where
  "procfs_lookup garbage vref w =
     do {
       (_, st) \<leftarrow> proc_deref vref w;
       Some (case pr_node st of
               PROC_NODE_PROC \<Rightarrow> (0, c_string (uint_to_str (word_of_int (pr_pid st)) garbage 10), w)
             | PROC_NODE_FD \<Rightarrow> (0, ''fd'', w)
             | PROC_LEAF_CWD \<Rightarrow> (0, ''cwd'', w)
             | PROC_LEAF_EXE \<Rightarrow> (0, ''exe'', w)
             | PROC_LEAF_SELF \<Rightarrow> (0, ''self'', w)
             | PROC_NODE_ROOT \<Rightarrow> (-1, [], w))
     }"

text \<open>\<open>garbage\<close> is the content of the 16 byte buffers before \<^verbatim>\<open>uint_to_str\<close> writes them.\<close>

definition procfs_nav :: "string \<Rightarrow> kworld nav_driver" where
  "procfs_nav garbage =
     \<lparr>d_identifier = ''ProcFS'', d_root = procfs_root, d_clone = procfs_clone, d_open = procfs_open,
      d_close = procfs_close, d_lookup = procfs_lookup garbage\<rparr>"

subsection \<open>Files and directories\<close>

text \<open>
  Reading a link traces the reference that the process holds: \<open>trace\<close> is \<^verbatim>\<open>vfs_trace\<close> on the mounted
  drivers.  A PID without a process leaves the local descriptor uninitialised.
\<close>

type_synonym tracer = "vref \<Rightarrow> int \<Rightarrow> kworld \<Rightarrow> (string \<times> kworld) option"

definition procfs_process :: "kworld \<Rightarrow> int \<Rightarrow> process option" where
  "procfs_process w pid =
     do { (res, p) \<leftarrow> scheduler_load_process_info (kw_sched w) no_process pid; if res = 0 then Some p else None }"

definition procfs_read :: "tracer \<Rightarrow> string \<Rightarrow> vref \<Rightarrow> u32 \<Rightarrow> kworld \<Rightarrow> (int \<times> u8 list \<times> kworld) option" where
  "procfs_read trace garbage vref count w =
     do {
       (a, st) \<leftarrow> proc_deref vref w;
       (case pr_node st of
          PROC_LEAF_CWD \<Rightarrow> do {
            p \<leftarrow> procfs_process w (pr_pid st);
            (out, w) \<leftarrow> trace (ps_cwd p) (sint count) w;
            Some (0, List.map of_char (out @ [NUL]), w)
          }
        | PROC_LEAF_EXE \<Rightarrow> do {
            p \<leftarrow> procfs_process w (pr_pid st);
            (out, w) \<leftarrow> trace (ps_exe p) (sint count) w;
            Some (0, List.map of_char (out @ [NUL]), w)
          }
        | PROC_LEAF_SELF \<Rightarrow>
            (case proc_sread (sint count) (uint_to_str (word_of_int (pr_pid st)) garbage 10) st of
               (bytes, out, st) \<Rightarrow> Some (bytes, List.map of_char out, proc_store a st w))
        | _ \<Rightarrow> Some (- LINUX_EINVAL, [], w))
     }"

definition procfs_write :: "vref \<Rightarrow> u8 list \<Rightarrow> kworld \<Rightarrow> (int \<times> kworld) option" where
  "procfs_write vref buffer w = Some (- LINUX_EROFS, w)"

definition procfs_seek :: "vref \<Rightarrow> int \<Rightarrow> int \<Rightarrow> kworld \<Rightarrow> (int \<times> kworld) option" where
  "procfs_seek vref offset whence w =
     do {
       (a, st) \<leftarrow> proc_deref vref w;
       Some (if whence = SEEK_SET then (offset, proc_store a (st\<lparr>pr_offset := offset\<rparr>) w)
             else if whence = SEEK_CUR then
               (let offset = i32 (pr_offset st + offset) in (offset, proc_store a (st\<lparr>pr_offset := offset\<rparr>) w))
             else (- LINUX_EINVAL, w))
     }"

text \<open>
  Directories are arrays of \<^verbatim>\<open>vEntry\<close> records of 268 bytes, which \<^verbatim>\<open>proc_sread\<close> copies like any
  bytes.  The model delivers the records, and is \<open>None\<close> at an offset inside of one.  The quotient
  of the (signed) count is an unsigned division.
\<close>

abbreviation (input) VENTRY_SIZE :: int where "VENTRY_SIZE \<equiv> 268"

definition procfs_entries :: "(string \<times> nat \<times> ventry_type) list \<Rightarrow> ventry list" where
  "procfs_entries rows =
     List.map (\<lambda>(i, (name, len, typ)). \<lparr>ve_seek_offset = of_nat (i * 268), ve_name_length = of_nat len,
                                          ve_name = name, ve_type = typ\<rparr>)
       (List.zip [0..<length rows] rows)"

definition procfs_deliver :: "nat \<Rightarrow> proc_state \<Rightarrow> int \<Rightarrow> ventry list \<Rightarrow> kworld \<Rightarrow> (int \<times> ventry list \<times> kworld) option" where
  "procfs_deliver a st max_entries entries w =
     (case proc_sread_range (i32 (max_entries * VENTRY_SIZE)) (int (length entries) * VENTRY_SIZE) st of
        (offset, bytes, st) \<Rightarrow>
          if offset mod VENTRY_SIZE \<noteq> 0 then None
          else Some (sint (word_of_int bytes div word_of_int VENTRY_SIZE :: u32),
                     take (nat (bytes div VENTRY_SIZE)) (drop (nat (offset div VENTRY_SIZE)) entries),
                     proc_store a st w))"

fun procfs_pids :: "nat \<Rightarrow> sched \<Rightarrow> int \<Rightarrow> int list option" where
  "procfs_pids 0 s pid = None"
| "procfs_pids (Suc fuel) s pid =
     do {
       (found, pid) \<leftarrow> scheduler_process_list s pid;
       if found = 0 then Some []
       else do { pids \<leftarrow> procfs_pids fuel s pid; Some (pid # pids) }
     }"

definition procfs_list :: "string \<Rightarrow> vref \<Rightarrow> int \<Rightarrow> kworld \<Rightarrow> (int \<times> ventry list \<times> kworld) option" where
  "procfs_list garbage vref max_entries w =
     do {
       (a, st) \<leftarrow> proc_deref vref w;
       (case pr_node st of
          PROC_NODE_ROOT \<Rightarrow> do {
            pids \<leftarrow> procfs_pids (nat (sd_count (kw_sched w) + 2)) (kw_sched w) 0;
            procfs_deliver a st max_entries
              (procfs_entries
                ([(''.'', 2, DT_DIR), (''..'', 3, DT_DIR), (''self'', 5, DT_LNK)] @
                 List.map (\<lambda>pid. let name = c_string (uint_to_str (word_of_int pid) garbage 10)
                            in (name, length name, DT_DIR)) pids)) w
          }
        | PROC_NODE_PROC \<Rightarrow>
            procfs_deliver a st max_entries
              (procfs_entries [(''.'', 1, DT_DIR), (''..'', 2, DT_DIR), (''exe'', 3, DT_LNK),
                               (''cwd'', 3, DT_LNK), (''fd'', 2, DT_DIR)]) w
        | PROC_NODE_FD \<Rightarrow>
            procfs_deliver a st max_entries (procfs_entries [(''.'', 1, DT_DIR), (''..'', 2, DT_DIR)]) w
        | _ \<Rightarrow> Some (LINUX_EIO, [], w))
     }"

definition procfs_mkdir :: "vref \<Rightarrow> string \<Rightarrow> kworld \<Rightarrow> (int \<times> kworld) option" where
  "procfs_mkdir vref name w = Some (- LINUX_EROFS, w)"

definition procfs_remove :: "vref \<Rightarrow> bool \<Rightarrow> kworld \<Rightarrow> (int \<times> kworld) option" where
  "procfs_remove vref rmdir w = Some (- LINUX_EROFS, w)"

definition procfs_stat :: "vref \<Rightarrow> kworld \<Rightarrow> (int \<times> vstat option \<times> kworld) option" where
  "procfs_stat vref w =
     do {
       (_, st) \<leftarrow> proc_deref vref w;
       let stat = (\<lambda>typ. \<lparr>vs_size = 1024, vs_atime = 0, vs_mtime = 0, vs_blocks = 0, vs_writtable = False, vs_type = typ\<rparr>);
       Some (0, Some (stat (case pr_node st of
               PROC_NODE_ROOT \<Rightarrow> DT_DIR | PROC_NODE_PROC \<Rightarrow> DT_DIR | PROC_NODE_FD \<Rightarrow> DT_DIR
             | PROC_LEAF_CWD \<Rightarrow> DT_LNK | PROC_LEAF_EXE \<Rightarrow> DT_LNK | PROC_LEAF_SELF \<Rightarrow> DT_LNK)), w)
     }"

definition procfs_readlink :: "tracer \<Rightarrow> string \<Rightarrow> vref \<Rightarrow> string \<Rightarrow> int \<Rightarrow> kworld \<Rightarrow> (int \<times> string \<times> kworld) option" where
  "procfs_readlink trace garbage vref name count w =
     do {
       (a, st) \<leftarrow> proc_deref vref w;
       if pr_node st = PROC_NODE_PROC \<and> name = ''cwd'' then do {
         p \<leftarrow> procfs_process w (pr_pid st);
         (out, w) \<leftarrow> trace (ps_cwd p) count w;
         Some (0, out @ [NUL], w)
       }
       else if pr_node st = PROC_NODE_PROC \<and> name = ''exe'' then do {
         p \<leftarrow> procfs_process w (pr_pid st);
         (out, w) \<leftarrow> trace (ps_exe p) count w;
         Some (0, out @ [NUL], w)
       }
       else if pr_node st = PROC_NODE_ROOT \<and> name = ''self'' then
         (let caller = scheduler_get_current_pid (kw_sched w);
              file_buffer = c_string (uint_to_str (word_of_int caller) garbage 10) @ [NUL]
          in case proc_sread count file_buffer st of
               (bytes, out, st) \<Rightarrow> Some (bytes, out, proc_store a st w))
       else Some (- LINUX_EINVAL, [], w)
     }"

definition procfs_load :: "tracer \<Rightarrow> string \<Rightarrow> kworld driver" where
  "procfs_load trace garbage =
     \<lparr>d_identifier = ''ProcFS'', d_root = procfs_root, d_clone = procfs_clone, d_open = procfs_open,
      d_close = procfs_close, d_lookup = procfs_lookup garbage,
      d_read = procfs_read trace garbage, d_write = procfs_write, d_seek = procfs_seek,
      d_list = procfs_list garbage, d_mkdir = procfs_mkdir, d_remove = procfs_remove,
      d_stat = procfs_stat, d_readlink = procfs_readlink trace garbage\<rparr>"

end
