(* ===== verification/Gdt.thy ===== *)
theory Gdt
  imports Prelude
begin

section \<open>Segment descriptors (gdt.c)\<close>

text \<open>
  The table is the list of its 64-bit entries.  The entries from 3 on are handed out in pairs, one
  for code and one for data.  \<^verbatim>\<open>gput\<close> falls off its end when every pair is taken, where the value it
  returns is undefined: \<open>None\<close>.  Loading the table into the processor is done in assembly.
\<close>

abbreviation (input) GDT_SIZE :: nat where "GDT_SIZE \<equiv> 2 * (1 + 1023)"

abbreviation (input) EMPTY_GDT_ENTRY :: u64 where "EMPTY_GDT_ENTRY \<equiv> 0x000000000040F300"
abbreviation (input) EMPTY_CODE :: u64 where "EMPTY_CODE \<equiv> 0x000000000040FB00"

definition ginit :: "u64 list" where
  "ginit = (0 # replicate GDT_SIZE EMPTY_GDT_ENTRY)[1 := 0x0000FFFF00CF9B00, 2 := 0x0000FFFF00CF9300]"

text \<open>The size in units of 1024 bytes and the offset, in the bits that \<^verbatim>\<open>gput\<close> and \<^verbatim>\<open>gad\<close> place them at.\<close>

definition gdt_mask :: "u32 \<Rightarrow> u32 \<Rightarrow> u64" where
  "gdt_mask offset size_bytes =
     (let size_blocks = drop_bit 10 size_bytes;
          size_low = drop_bit 16 (push_bit 16 size_blocks);
          size_high = drop_bit 16 size_blocks;
          offset_low = drop_bit 16 (push_bit 16 offset);
          offset_highmid = drop_bit 16 offset;
          offset_mid = offset_highmid AND 0xFF;
          offset_high = drop_bit 8 offset_highmid;
          msk = ucast offset_high;
          msk = push_bit 8 msk OR ucast size_high;
          msk = push_bit 16 msk OR ucast offset_mid;
          msk = push_bit 16 msk OR ucast offset_low
      in push_bit 16 msk OR ucast size_low)"

function gput_loop :: "u64 list \<Rightarrow> u64 \<Rightarrow> nat \<Rightarrow> (nat \<times> u64 list) option" where
  "gput_loop gdt msk i =
     (if i < GDT_SIZE + 1 then
        (if gdt ! i = EMPTY_GDT_ENTRY then Some (i, gdt[i := EMPTY_CODE OR msk, i + 1 := EMPTY_GDT_ENTRY OR msk])
         else gput_loop gdt msk (i + 2))
      else None)"
  by pat_completeness auto
termination
  by (relation "measure (\<lambda>(gdt, msk, i). GDT_SIZE + 1 - i)") auto

declare gput_loop.simps [simp del]

definition gput :: "u64 list \<Rightarrow> u32 \<Rightarrow> u32 \<Rightarrow> (nat \<times> u64 list) option" where
  "gput gdt offset size_bytes = gput_loop gdt (gdt_mask offset size_bytes) 3"

definition grm :: "u64 list \<Rightarrow> nat \<Rightarrow> u64 list" where
  "grm gdt i = gdt[i := EMPTY_GDT_ENTRY, i + 1 := EMPTY_GDT_ENTRY]"

text \<open>\<^verbatim>\<open>gad\<close> computes the descriptors and then stores those of the kernel.\<close>

definition gad :: "u64 list \<Rightarrow> nat \<Rightarrow> u32 \<Rightarrow> u32 \<Rightarrow> u64 list" where
  "gad gdt i offset size_bytes =
     (let msk = gdt_mask offset size_bytes; code = EMPTY_CODE OR msk; data = EMPTY_GDT_ENTRY OR msk
      in gdt[i := 0x0000FFFF00CF9B00, i + 1 := 0x0000FFFF00CF9300])"

subsection \<open>Pairs\<close>

text \<open>The abstract state: the pairs that are taken.\<close>

definition gdt_slot :: "nat \<Rightarrow> bool" where
  "gdt_slot i \<longleftrightarrow> odd i \<and> 3 \<le> i \<and> i < GDT_SIZE + 1"

definition gdt_taken :: "u64 list \<Rightarrow> nat set" where
  "gdt_taken gdt = {i. gdt_slot i \<and> gdt ! i \<noteq> EMPTY_GDT_ENTRY}"

text \<open>The invariant: the second entry of a free pair is free too.\<close>

definition gdt_ok :: "u64 list \<Rightarrow> bool" where
  "gdt_ok gdt \<longleftrightarrow> length gdt = GDT_SIZE + 1 \<and> (\<forall>i. gdt_slot i \<longrightarrow> gdt ! i = EMPTY_GDT_ENTRY \<longrightarrow> gdt ! (i + 1) = EMPTY_GDT_ENTRY)"

lemma slot_bounds: "gdt_slot i \<Longrightarrow> i + 1 < GDT_SIZE + 1"
proof -
  assume s: "gdt_slot i"
  then have "odd i" "i \<le> 2048" by (simp_all add: gdt_slot_def)
  moreover have "i \<noteq> 2048" using \<open>odd i\<close> by auto
  ultimately show ?thesis by simp
qed

lemma slot_pairs: "gdt_slot i \<Longrightarrow> gdt_slot j \<Longrightarrow> j \<noteq> i + 1"
  by (auto simp: gdt_slot_def)

lemma code_taken: "EMPTY_CODE OR msk \<noteq> EMPTY_GDT_ENTRY"
proof
  assume "EMPTY_CODE OR msk = EMPTY_GDT_ENTRY"
  then have "bit (EMPTY_CODE OR msk) 11 = bit EMPTY_GDT_ENTRY 11" by simp
  then show False by (simp add: bit_or_iff)
qed

lemma gput_loop_first:
  assumes "gdt_ok gdt" "gdt_slot i \<or> i \<ge> GDT_SIZE + 1" "odd i" "3 \<le> i"
  shows "case gput_loop gdt msk i of
      None \<Rightarrow> (\<forall>k. gdt_slot k \<longrightarrow> i \<le> k \<longrightarrow> k \<in> gdt_taken gdt)
    | Some (j, gdt') \<Rightarrow> i \<le> j \<and> gdt_slot j \<and> j \<notin> gdt_taken gdt \<and> (\<forall>k. gdt_slot k \<longrightarrow> i \<le> k \<longrightarrow> k < j \<longrightarrow> k \<in> gdt_taken gdt) \<and>
        gdt' = gdt[j := EMPTY_CODE OR msk, j + 1 := EMPTY_GDT_ENTRY OR msk]"
  using assms
proof (induction gdt msk i rule: gput_loop.induct)
  case (1 gdt msk i)
  show ?case
  proof (cases "gdt_slot i")
    case False
    then have "\<not> i < GDT_SIZE + 1" using 1(3) by simp
    then show ?thesis by (auto simp: gput_loop.simps [of gdt] gdt_slot_def)
  next
    case slot: True
    then have lt: "i < GDT_SIZE + 1" by (simp add: gdt_slot_def)
    show ?thesis
    proof (cases "gdt ! i = EMPTY_GDT_ENTRY")
      case True
      then show ?thesis using slot lt by (auto simp: gput_loop.simps [of gdt] gdt_taken_def)
    next
      case False
      have next_slot: "gdt_slot (i + 2) \<or> i + 2 \<ge> GDT_SIZE + 1" using 1(4,5) by (auto simp: gdt_slot_def)
      have skip: "k = i \<or> i + 2 \<le> k" if "gdt_slot k" "i \<le> k" for k
      proof -
        have "k \<noteq> i + 1" using slot_pairs [OF slot that(1)] .
        then show ?thesis using that(2) by linarith
      qed
      have taken: "i \<in> gdt_taken gdt" using slot False by (simp add: gdt_taken_def)
      have eq: "gput_loop gdt msk i = gput_loop gdt msk (i + 2)" using lt False by (simp add: gput_loop.simps [of gdt msk i])
      from 1(1) [OF lt False 1(2) next_slot] 1(4,5)
      show ?thesis unfolding eq using skip taken by (fastforce split: option.splits)
    qed
  qed
qed

lemma taken_update:
  assumes "gdt_ok gdt" "gdt_slot i" "v \<noteq> EMPTY_GDT_ENTRY"
  shows "gdt_taken (gdt[i := v, i + 1 := x]) = insert i (gdt_taken gdt)" "gdt_ok (gdt[i := v, i + 1 := x])"
proof -
  have b: "i + 1 < length gdt" using assms(1) slot_bounds [OF assms(2)] by (simp add: gdt_ok_def)
  have other: "gdt[i := v, i + 1 := x] ! k = (if k = i then v else gdt ! k)" if "gdt_slot k" for k
    using slot_pairs [OF assms(2) that] b by (auto simp: nth_list_update)
  have pair: "gdt[i := v, i + 1 := x] ! (k + 1) = gdt ! (k + 1)" if "gdt_slot k" "k \<noteq> i" for k
    using slot_pairs [OF that(1) assms(2)] that(2) by (simp add: nth_list_update)
  show "gdt_taken (gdt[i := v, i + 1 := x]) = insert i (gdt_taken gdt)"
  proof (rule set_eqI)
    fix k
    show "k \<in> gdt_taken (gdt[i := v, i + 1 := x]) \<longleftrightarrow> k \<in> insert i (gdt_taken gdt)"
      using other [of k] assms(2,3) unfolding gdt_taken_def by (cases "k = i") auto
  qed
  show "gdt_ok (gdt[i := v, i + 1 := x])"
    using assms(1,3) other pair by (auto simp: gdt_ok_def split: if_splits)
qed

lemma taken_free:
  assumes "gdt_ok gdt" "gdt_slot i"
  shows "gdt_taken (grm gdt i) = gdt_taken gdt - {i}" "gdt_ok (grm gdt i)"
proof -
  have b: "i + 1 < length gdt" using assms(1) slot_bounds [OF assms(2)] by (simp add: gdt_ok_def)
  have other: "grm gdt i ! k = (if k = i then EMPTY_GDT_ENTRY else gdt ! k)" if "gdt_slot k" for k
    using slot_pairs [OF assms(2) that] b by (auto simp: grm_def nth_list_update)
  have pair: "grm gdt i ! (k + 1) = (if k = i then EMPTY_GDT_ENTRY else gdt ! (k + 1))" if "gdt_slot k" for k
    using slot_pairs [OF that assms(2)] b by (auto simp: grm_def nth_list_update)
  show "gdt_taken (grm gdt i) = gdt_taken gdt - {i}" using other by (auto simp: gdt_taken_def split: if_splits)
  show "gdt_ok (grm gdt i)" using assms(1) other pair by (auto simp: gdt_ok_def grm_def split: if_splits)
qed

lemma ginit_ok: "gdt_ok ginit" "gdt_taken ginit = {}"
proof -
  have e: "ginit ! k = EMPTY_GDT_ENTRY" if "3 \<le> k" "k < GDT_SIZE + 1" for k
    using that by (auto simp: ginit_def nth_list_update nth_Cons')
  show "gdt_ok ginit" using e slot_bounds by (auto simp: gdt_ok_def ginit_def [THEN arg_cong, of length] gdt_slot_def)
  show "gdt_taken ginit = {}" using e by (auto simp: gdt_taken_def gdt_slot_def)
qed

subsection \<open>Properties\<close>

lemma gput_spec:
  assumes "gdt_ok gdt"
  shows "case gput gdt offset size_bytes of
      None \<Rightarrow> (\<forall>k. gdt_slot k \<longrightarrow> k \<in> gdt_taken gdt)
    | Some (i, gdt') \<Rightarrow> gdt_slot i \<and> i \<notin> gdt_taken gdt \<and> (\<forall>k. gdt_slot k \<longrightarrow> k < i \<longrightarrow> k \<in> gdt_taken gdt) \<and>
        gdt' = gdt[i := EMPTY_CODE OR gdt_mask offset size_bytes, i + 1 := EMPTY_GDT_ENTRY OR gdt_mask offset size_bytes]"
proof -
  have "gdt_slot 3 \<or> (3 :: nat) \<ge> GDT_SIZE + 1" "odd (3 :: nat)" "(3 :: nat) \<le> 3" by (simp_all add: gdt_slot_def)
  from gput_loop_first [OF assms this, of "gdt_mask offset size_bytes"]
  show ?thesis unfolding gput_def by (auto simp: gdt_slot_def split: option.splits)
qed

text \<open>C31. The table as an allocator of pairs.  \<^verbatim>\<open>gput\<close> hands out the lowest free pair and takes exactly
  it, or returns nothing when every pair is taken; the invariant is preserved; \<^verbatim>\<open>grm\<close> of that pair
  restores the table as it was.\<close>

theorem gput_lowest_pair:
  assumes "gdt_ok gdt"
  shows "case gput gdt offset size_bytes of
      None \<Rightarrow> (\<forall>k. gdt_slot k \<longrightarrow> k \<in> gdt_taken gdt)
    | Some (i, gdt') \<Rightarrow> gdt_slot i \<and> i \<notin> gdt_taken gdt \<and> (\<forall>k. gdt_slot k \<longrightarrow> k < i \<longrightarrow> k \<in> gdt_taken gdt) \<and>
        gdt_ok gdt' \<and> gdt_taken gdt' = insert i (gdt_taken gdt) \<and> grm gdt' i = gdt"
proof (cases "gput gdt offset size_bytes")
  case None
  then show ?thesis using gput_spec [OF assms, of offset size_bytes] by simp
next
  case (Some r)
  obtain i gdt' where r: "r = (i, gdt')" by (cases r)
  let ?c = "EMPTY_CODE OR gdt_mask offset size_bytes" and ?d = "EMPTY_GDT_ENTRY OR gdt_mask offset size_bytes"
  have g: "gdt_slot i" "i \<notin> gdt_taken gdt" "\<forall>k. gdt_slot k \<longrightarrow> k < i \<longrightarrow> k \<in> gdt_taken gdt" "gdt' = gdt[i := ?c, i + 1 := ?d]"
    using gput_spec [OF assms, of offset size_bytes] Some r by auto
  have e: "gdt ! i = EMPTY_GDT_ENTRY" "gdt ! (i + 1) = EMPTY_GDT_ENTRY"
    using g(1,2) assms by (auto simp: gdt_taken_def gdt_ok_def)
  have "grm gdt' i = gdt"
    unfolding g(4) grm_def using e slot_bounds [OF g(1)] assms by (intro nth_equalityI) (auto simp: nth_list_update gdt_ok_def)
  then show ?thesis using Some r g taken_update [OF assms g(1) code_taken] by simp
qed

theorem gput_lowest_pair_witness:
  "case gput ginit 0x100000 0x200000 of None \<Rightarrow> False | Some (i, gdt') \<Rightarrow> i = 3 \<and> grm gdt' 3 = ginit"
proof -
  have s: "gdt_slot 3" "\<And>k. gdt_slot k \<Longrightarrow> 3 \<le> k" by (simp_all add: gdt_slot_def)
  show ?thesis
  proof (cases "gput ginit 0x100000 0x200000")
    case None
    with gput_lowest_pair [OF ginit_ok(1), where offset = "0x100000" and size_bytes = "0x200000"] s(1)
    have "3 \<in> gdt_taken ginit" by simp
    then show ?thesis by (simp add: ginit_ok(2))
  next
    case (Some r)
    obtain i gdt' where r: "r = (i, gdt')" by (cases r)
    have *: "gdt_slot i" "gdt_slot 3 \<longrightarrow> 3 < i \<longrightarrow> 3 \<in> gdt_taken ginit" "grm gdt' i = ginit"
      using gput_lowest_pair [OF ginit_ok(1), where offset = "0x100000" and size_bytes = "0x200000"] Some r by simp_all
    then have "i = 3" using s(1) s(2) [of i] by (simp add: ginit_ok(2))
    with * show ?thesis using Some r by simp
  qed
qed

lemma gdt_mask_bit: "\<not> bit (gdt_mask offset size_bytes) 47"
  by (simp add: gdt_mask_def Let_def bit_simps)

text \<open>The descriptors are not valid.  The processor takes bit 47 of an entry as its present bit;
  the constants have their access byte 32 bits too low, and \<^verbatim>\<open>gput\<close> puts nothing there, so that both
  entries of every pair it hands out are marked as not present, whatever the segment.\<close>

theorem gput_not_present:
  assumes "gdt_ok gdt" "gput gdt offset size_bytes = Some (i, gdt')"
  shows "\<not> bit (gdt' ! i) 47 \<and> \<not> bit (gdt' ! (i + 1)) 47"
proof -
  have g: "gdt_slot i" "gdt' = gdt[i := EMPTY_CODE OR gdt_mask offset size_bytes, i + 1 := EMPTY_GDT_ENTRY OR gdt_mask offset size_bytes]"
    using gput_spec [OF assms(1), of offset size_bytes] assms(2) by auto
  have "i + 1 < length gdt" using slot_bounds [OF g(1)] assms(1) by (simp add: gdt_ok_def)
  then show ?thesis using gdt_mask_bit by (simp add: g(2) bit_or_iff nth_list_update)
qed

theorem gput_not_present_witness:
  "\<exists>gdt'. gput ginit 0 0xFFFFFFFF = Some (3, gdt') \<and> \<not> bit (gdt' ! 3) 47"
proof -
  have "ginit ! 3 = EMPTY_GDT_ENTRY" by (simp add: ginit_def)
  then obtain gdt' where "gput ginit 0 0xFFFFFFFF = Some (3, gdt')"
    by (simp add: gput_def gput_loop.simps [of ginit _ 3])
  with gput_not_present [OF ginit_ok(1) this] show ?thesis by blast
qed

end
