(* ===== verification/Syscall.thy ===== *)
theory Syscall
  imports Procfs CMemory Gdt Bytes
begin

section \<open>System calls (syscall.c)\<close>

text \<open>
  The handlers of the Linux system calls over the virtual file system and the process table.  The
  world is that of the drivers, which holds the process table; the drivers themselves are a table
  of records, as in \<open>Vfs\<close>.  A handler returns the value for \<^verbatim>\<open>EAX\<close>, what it delivers to the buffers of the
  caller, and the world.  Directory entries are packed by the handlers themselves, so those
  write into a byte memory.  \<^verbatim>\<open>sys_exit\<close>, which prints and halts, is in \<open>FatPrint\<close>.
\<close>

subsection \<open>Descriptors\<close>

definition caller :: "'a kworld_scheme \<Rightarrow> int" where
  "caller w = scheduler_get_current_pid (kw_sched w)"

text \<open>
  \<^verbatim>\<open>fd_resolve\<close>: the reference that the returned pointer leads to; the inner \<open>None\<close> is the null pointer.
\<close>

definition fd_resolve :: "int \<Rightarrow> 'a kworld_scheme \<Rightarrow> vref option option" where
  "fd_resolve fd w =
     (if fd \<le> 0 then Some None
      else do {
        r \<leftarrow> scheduler_fget (kw_sched w) (caller w) fd;
        (case r of
           None \<Rightarrow> Some None
         | Some i \<Rightarrow> do { p \<leftarrow> proc_at (kw_sched w) (caller w - 1); Some (Some (ps_files p ! i)) })
      })"

text \<open>The local descriptor of \<^verbatim>\<open>fd_cwd\<close> stays uninitialised when the caller is not in the table.\<close>

definition caller_process :: "'a kworld_scheme \<Rightarrow> process option" where
  "caller_process w =
     do { (res, p) \<leftarrow> scheduler_load_process_info (kw_sched w) no_process (caller w); if res = 0 then Some p else None }"

definition fd_cwd :: "'a kworld_scheme \<Rightarrow> vref option" where
  "fd_cwd w = map_option ps_cwd (caller_process w)"

definition fd_open ::
  "vnode list \<Rightarrow> (nat \<Rightarrow> 'a kworld_scheme driver) \<Rightarrow> vref \<Rightarrow> string \<Rightarrow> u32 \<Rightarrow> 'a kworld_scheme \<Rightarrow> (int \<times> 'a kworld_scheme) option" where
  "fd_open nodes drv parent filename flags w =
     do {
       (res, new_file, w) \<leftarrow> vfs_open nodes drv parent filename flags w;
       if res < 0 then Some (res, w)
       else do {
         (fd, s) \<leftarrow> scheduler_fput (kw_sched w) (caller w) new_file;
         let w = w\<lparr>kw_sched := s\<rparr>;
         if fd = 0 then Some (- LINUX_EMFILE, w) else Some (fd, w)
       }
     }"

subsection \<open>Status of a file\<close>

fun entry_type_code :: "ventry_type \<Rightarrow> u16" where
  "entry_type_code DT_UNKNOWN = 0"
| "entry_type_code DT_FIFO = 1"
| "entry_type_code DT_CHR = 2"
| "entry_type_code DT_DIR = 4"
| "entry_type_code DT_BLK = 6"
| "entry_type_code DT_REG = 8"
| "entry_type_code DT_LNK = 10"
| "entry_type_code DT_SOCK = 12"
| "entry_type_code DT_WHT = 14"

definition mkmode :: "ventry_type \<Rightarrow> u16 \<Rightarrow> u16 \<Rightarrow> u16 \<Rightarrow> bool \<Rightarrow> bool \<Rightarrow> u16" where
  "mkmode typ owner grp other suid sgid =
     push_bit 4 (entry_type_code typ) OR owner OR push_bit 3 grp OR push_bit 6 other OR
     (if suid then 0x0800 else 0) OR (if sgid then 0x0400 else 0)"

record old_kernel_stat =
  os_dev :: u16
  os_ino :: u16
  os_mode :: u16
  os_nlink :: u16
  os_uid :: u16
  os_gid :: u16
  os_rdev :: u16
  os_size :: u32
  os_atime :: u32
  os_mtime :: u32
  os_ctime :: u32

definition vstat_to_linux_old :: "vstat \<Rightarrow> old_kernel_stat" where
  "vstat_to_linux_old st =
     (let perm = if vs_writtable st then 7 else 5
      in \<lparr>os_dev = 1, os_ino = 0, os_mode = mkmode (vs_type st) perm perm perm False False, os_nlink = 0, os_uid = 0,
          os_gid = 0, os_rdev = 1, os_size = vs_size st, os_atime = vs_atime st, os_mtime = vs_mtime st,
          os_ctime = vs_mtime st\<rparr>)"

text \<open>
  The two newer structures have the same fields in other widths; a signed \<^verbatim>\<open>long\<close> is read as an \<open>int\<close>.
\<close>

record linux_stat =
  ls_dev :: int
  ls_ino :: int
  ls_mode :: u16
  ls_nlink :: int
  ls_uid :: int
  ls_gid :: int
  ls_rdev :: int
  ls_size :: int
  ls_blksize :: int
  ls_blocks :: int
  ls_atime :: int
  ls_atime_nsec :: int
  ls_mtime :: int
  ls_mtime_nsec :: int
  ls_ctime :: int
  ls_ctime_nsec :: int

definition vstat_to_linux_32 :: "vstat \<Rightarrow> linux_stat" where
  "vstat_to_linux_32 st =
     (let perm = if vs_writtable st then 7 else 5
      in \<lparr>ls_dev = 1, ls_ino = 0, ls_mode = mkmode (vs_type st) perm perm perm False False, ls_nlink = 0, ls_uid = 0,
          ls_gid = 0, ls_rdev = 1, ls_size = sint (vs_size st), ls_blksize = 512, ls_blocks = sint (vs_blocks st),
          ls_atime = sint (vs_atime st), ls_atime_nsec = 0, ls_mtime = sint (vs_mtime st), ls_mtime_nsec = 0,
          ls_ctime = sint (vs_mtime st), ls_ctime_nsec = 0\<rparr>)"

definition vstat_to_linux_64 :: "vstat \<Rightarrow> linux_stat" where
  "vstat_to_linux_64 st =
     (let perm = if vs_writtable st then 7 else 5
      in \<lparr>ls_dev = 1, ls_ino = 0, ls_mode = mkmode (vs_type st) perm perm perm False False, ls_nlink = 0, ls_uid = 0,
          ls_gid = 0, ls_rdev = 1, ls_size = uint (vs_size st), ls_blksize = 512, ls_blocks = uint (vs_blocks st),
          ls_atime = sint (vs_atime st), ls_atime_nsec = 0, ls_mtime = sint (vs_mtime st), ls_mtime_nsec = 0,
          ls_ctime = sint (vs_mtime st), ls_ctime_nsec = 0\<rparr>)"

text \<open>
  The shared bodies, for a conversion to any of the structures.  A driver that succeeds without
  filling in the status leaves the local variable uninitialised.
\<close>

definition stat_c ::
  "vnode list \<Rightarrow> (nat \<Rightarrow> 'a kworld_scheme driver) \<Rightarrow> string \<Rightarrow> (vstat \<Rightarrow> 'b) \<Rightarrow> u32 \<Rightarrow> 'a kworld_scheme \<Rightarrow> (int \<times> 'b option \<times> 'a kworld_scheme) option" where
  "stat_c nodes drv filename converter flags w =
     do {
       cwd \<leftarrow> fd_cwd w;
       (res, vref, w) \<leftarrow> vfs_open nodes drv cwd filename flags w;
       if res \<noteq> 0 then Some (res, None, w)
       else do {
         (res, st, w) \<leftarrow> vfs_stat drv vref w;
         if res \<noteq> 0 then do { (_, _, w) \<leftarrow> vfs_close drv vref w; Some (res, None, w) }
         else do {
           (res, _, w) \<leftarrow> vfs_close drv vref w;
           if res \<noteq> 0 then Some (res, None, w)
           else do { st \<leftarrow> st; Some (0, Some (converter st), w) }
         }
       }
     }"

definition fstat_c ::
  "(nat \<Rightarrow> 'a kworld_scheme driver) \<Rightarrow> int \<Rightarrow> (vstat \<Rightarrow> 'b) \<Rightarrow> 'a kworld_scheme \<Rightarrow> (int \<times> 'b option \<times> 'a kworld_scheme) option" where
  "fstat_c drv fd converter w =
     do {
       vref \<leftarrow> fd_resolve fd w;
       (case vref of
          None \<Rightarrow> Some (- LINUX_EBADF, None, w)
        | Some vref \<Rightarrow> do {
            (res, st, w) \<leftarrow> vfs_stat drv vref w;
            if res \<noteq> 0 then Some (res, None, w) else do { st \<leftarrow> st; Some (0, Some (converter st), w) }
          })
     }"

definition sys_stat where "sys_stat nodes drv filename = stat_c nodes drv filename vstat_to_linux_old 0"
definition sys_lstat where "sys_lstat nodes drv filename = stat_c nodes drv filename vstat_to_linux_old OPEN_NOFOLLOW"
definition sys_fstat where "sys_fstat drv fd = fstat_c drv fd vstat_to_linux_old"
definition sys_newstat where "sys_newstat nodes drv filename = stat_c nodes drv filename vstat_to_linux_32 0"
definition sys_newlstat where "sys_newlstat nodes drv filename = stat_c nodes drv filename vstat_to_linux_32 OPEN_NOFOLLOW"
definition sys_newfstat where "sys_newfstat drv fd = fstat_c drv fd vstat_to_linux_32"
definition sys_stat64 where "sys_stat64 nodes drv filename = stat_c nodes drv filename vstat_to_linux_64 0"
definition sys_lstat64 where "sys_lstat64 nodes drv filename = stat_c nodes drv filename vstat_to_linux_64 OPEN_NOFOLLOW"
definition sys_fstat64 where "sys_fstat64 drv fd = fstat_c drv fd vstat_to_linux_64"

subsection \<open>Files\<close>

definition sys_write :: "(nat \<Rightarrow> 'a kworld_scheme driver) \<Rightarrow> int \<Rightarrow> u8 list \<Rightarrow> 'a kworld_scheme \<Rightarrow> (int \<times> 'a kworld_scheme) option" where
  "sys_write drv fd buffer w =
     do {
       vref \<leftarrow> fd_resolve fd w;
       (case vref of None \<Rightarrow> Some (- LINUX_EBADF, w) | Some vref \<Rightarrow> vfs_write drv vref buffer w)
     }"

definition sys_read :: "(nat \<Rightarrow> 'a kworld_scheme driver) \<Rightarrow> int \<Rightarrow> int \<Rightarrow> 'a kworld_scheme \<Rightarrow> (int \<times> u8 list \<times> 'a kworld_scheme) option" where
  "sys_read drv fd bytes w =
     do {
       vref \<leftarrow> fd_resolve fd w;
       (case vref of None \<Rightarrow> Some (- LINUX_EBADF, [], w) | Some vref \<Rightarrow> vfs_read drv vref (word_of_int bytes) w)
     }"

definition sys_open ::
  "vnode list \<Rightarrow> (nat \<Rightarrow> 'a kworld_scheme driver) \<Rightarrow> string \<Rightarrow> u32 \<Rightarrow> int \<Rightarrow> 'a kworld_scheme \<Rightarrow> (int \<times> 'a kworld_scheme) option" where
  "sys_open nodes drv filename flags mode w = do { cwd \<leftarrow> fd_cwd w; fd_open nodes drv cwd filename flags w }"

definition sys_openat ::
  "vnode list \<Rightarrow> (nat \<Rightarrow> 'a kworld_scheme driver) \<Rightarrow> int \<Rightarrow> string \<Rightarrow> u32 \<Rightarrow> int \<Rightarrow> 'a kworld_scheme \<Rightarrow> (int \<times> 'a kworld_scheme) option" where
  "sys_openat nodes drv fd filename flags mode w =
     do {
       vref \<leftarrow> fd_resolve fd w;
       (case vref of None \<Rightarrow> Some (- LINUX_EBADF, w) | Some vref \<Rightarrow> fd_open nodes drv vref filename flags w)
     }"

definition sys_creat ::
  "vnode list \<Rightarrow> (nat \<Rightarrow> 'a kworld_scheme driver) \<Rightarrow> string \<Rightarrow> int \<Rightarrow> 'a kworld_scheme \<Rightarrow> (int \<times> 'a kworld_scheme) option" where
  "sys_creat nodes drv pathname mode w =
     sys_open nodes drv pathname (OPEN_WRONLY OR OPEN_CREAT OR OPEN_WRONLY) mode w"

definition sys_lseek ::
  "(nat \<Rightarrow> 'a kworld_scheme driver) \<Rightarrow> int \<Rightarrow> int \<Rightarrow> int \<Rightarrow> 'a kworld_scheme \<Rightarrow> (int \<times> 'a kworld_scheme) option" where
  "sys_lseek drv fd offset whence w =
     do {
       vref \<leftarrow> fd_resolve fd w;
       (case vref of None \<Rightarrow> Some (- LINUX_EBADF, w) | Some vref \<Rightarrow> vfs_seek drv vref offset whence w)
     }"

definition sys_mkdir ::
  "(nat \<Rightarrow> 'a kworld_scheme driver) \<Rightarrow> string \<Rightarrow> int \<Rightarrow> 'a kworld_scheme \<Rightarrow> (int \<times> 'a kworld_scheme) option" where
  "sys_mkdir drv pathname mode w = do { cwd \<leftarrow> fd_cwd w; vfs_mkdir drv cwd pathname w }"

definition sys_mkdirat ::
  "(nat \<Rightarrow> 'a kworld_scheme driver) \<Rightarrow> int \<Rightarrow> string \<Rightarrow> int \<Rightarrow> 'a kworld_scheme \<Rightarrow> (int \<times> 'a kworld_scheme) option" where
  "sys_mkdirat drv fd pathname mode w =
     do {
       parent \<leftarrow> fd_resolve fd w;
       (case parent of None \<Rightarrow> Some (- LINUX_EBADF, w) | Some parent \<Rightarrow> vfs_mkdir drv parent pathname w)
     }"

definition sys_readlink ::
  "(nat \<Rightarrow> 'a kworld_scheme driver) \<Rightarrow> string \<Rightarrow> int \<Rightarrow> 'a kworld_scheme \<Rightarrow> (int \<times> string \<times> 'a kworld_scheme) option" where
  "sys_readlink drv path sz w = do { cwd \<leftarrow> fd_cwd w; vfs_readlink drv cwd path sz w }"

text \<open>
  \<^verbatim>\<open>sys_close\<close> closes the reference in the table; what the driver leaves in it is written back
  before \<^verbatim>\<open>scheduler_fremove\<close> runs.
\<close>

definition sys_close :: "(nat \<Rightarrow> 'a kworld_scheme driver) \<Rightarrow> int \<Rightarrow> 'a kworld_scheme \<Rightarrow> (int \<times> 'a kworld_scheme) option" where
  "sys_close drv fd w =
     (if fd = 0 then Some (- LINUX_EBADF, w)
      else do {
        let pid = caller w;
        r \<leftarrow> scheduler_fget (kw_sched w) pid fd;
        (case r of
           None \<Rightarrow> Some (- LINUX_EBADF, w)
         | Some i \<Rightarrow> do {
             p \<leftarrow> proc_at (kw_sched w) (pid - 1);
             (_, vref, w) \<leftarrow> vfs_close drv (ps_files p ! i) w;
             (_, s) \<leftarrow> scheduler_update (kw_sched w) pid (\<lambda>p. p\<lparr>ps_files := (ps_files p)[i := vref]\<rparr>);
             (res, s) \<leftarrow> scheduler_fremove s pid fd;
             let w = w\<lparr>kw_sched := s\<rparr>;
             if res \<noteq> 0 then Some (- LINUX_EBADF, w) else Some (0, w)
           })
      })"

subsection \<open>Removing\<close>

text \<open>The body that the three handlers repeat: open, remove, close.\<close>

definition remove_at ::
  "vnode list \<Rightarrow> (nat \<Rightarrow> 'a kworld_scheme driver) \<Rightarrow> vref \<Rightarrow> string \<Rightarrow> u32 \<Rightarrow> bool \<Rightarrow> 'a kworld_scheme \<Rightarrow> (int \<times> 'a kworld_scheme) option" where
  "remove_at nodes drv parent pathname flags dir w =
     do {
       (res, vref, w) \<leftarrow> vfs_open nodes drv parent pathname flags w;
       if res \<noteq> 0 then Some (res, w)
       else do {
         (res, w) \<leftarrow> vfs_remove drv vref dir w;
         if res \<noteq> 0 then do { (_, _, w) \<leftarrow> vfs_close drv vref w; Some (res, w) }
         else do {
           (res, _, w) \<leftarrow> vfs_close drv vref w;
           Some (if res \<noteq> 0 then (res, w) else (0, w))
         }
       }
     }"

definition sys_unlinkat ::
  "vnode list \<Rightarrow> (nat \<Rightarrow> 'a kworld_scheme driver) \<Rightarrow> int \<Rightarrow> string \<Rightarrow> int \<Rightarrow> 'a kworld_scheme \<Rightarrow> (int \<times> 'a kworld_scheme) option" where
  "sys_unlinkat nodes drv fd pathname flag w =
     do {
       parent \<leftarrow> fd_resolve fd w;
       (case parent of
          None \<Rightarrow> Some (- LINUX_EBADF, w)
        | Some parent \<Rightarrow>
            remove_at nodes drv parent pathname (OPEN_NOFOLLOW OR (if flag \<noteq> 0 then OPEN_DIRECTORY else 0)) (flag \<noteq> 0) w)
     }"

definition sys_unlink ::
  "vnode list \<Rightarrow> (nat \<Rightarrow> 'a kworld_scheme driver) \<Rightarrow> string \<Rightarrow> 'a kworld_scheme \<Rightarrow> (int \<times> 'a kworld_scheme) option" where
  "sys_unlink nodes drv pathname w = do { cwd \<leftarrow> fd_cwd w; remove_at nodes drv cwd pathname OPEN_NOFOLLOW False w }"

definition sys_rmdir ::
  "vnode list \<Rightarrow> (nat \<Rightarrow> 'a kworld_scheme driver) \<Rightarrow> string \<Rightarrow> 'a kworld_scheme \<Rightarrow> (int \<times> 'a kworld_scheme) option" where
  "sys_rmdir nodes drv pathname w =
     do { cwd \<leftarrow> fd_cwd w; remove_at nodes drv cwd pathname (OPEN_DIRECTORY OR OPEN_NOFOLLOW) True w }"

subsection \<open>The process\<close>

definition sys_chdir ::
  "vnode list \<Rightarrow> (nat \<Rightarrow> 'a kworld_scheme driver) \<Rightarrow> string \<Rightarrow> 'a kworld_scheme \<Rightarrow> (int \<times> 'a kworld_scheme) option" where
  "sys_chdir nodes drv path w =
     do {
       cwd \<leftarrow> fd_cwd w;
       (res, vref, w) \<leftarrow> vfs_open nodes drv cwd path OPEN_DIRECTORY w;
       if res \<noteq> 0 then Some (res, w)
       else do {
         (_, s) \<leftarrow> scheduler_chdir (kw_sched w) (caller w) vref;
         (_, _, w) \<leftarrow> vfs_close drv cwd (w\<lparr>kw_sched := s\<rparr>);
         Some (0, w)
       }
     }"

text \<open>The address of the buffer is returned.\<close>

definition sys_getcwd ::
  "vnode list \<Rightarrow> (nat \<Rightarrow> 'a kworld_scheme driver) \<Rightarrow> int \<Rightarrow> u32 \<Rightarrow> 'a kworld_scheme \<Rightarrow> (int \<times> string \<times> 'a kworld_scheme) option" where
  "sys_getcwd nodes drv buf sz w =
     do {
       p \<leftarrow> caller_process w;
       (out, w) \<leftarrow> vfs_trace nodes drv (ps_cwd p) (sint sz) w;
       Some (buf, out, w)
     }"

definition sys_getpid :: "'a kworld_scheme \<Rightarrow> int \<times> 'a kworld_scheme" where
  "sys_getpid w = (scheduler_get_current_pid (kw_sched w), w)"

text \<open>\<^verbatim>\<open>strcpy\<close> of a literal: it copies the characters without the terminator.\<close>

definition strcpy_lit :: "int \<Rightarrow> string \<Rightarrow> mem \<Rightarrow> mem" where
  "strcpy_lit dst s m = patch m dst (int (length s)) (\<lambda>a. of_char (s ! nat (a - dst)))"

text \<open>The fields of the structures are 9 characters wide in the oldest, 65 in the others.\<close>

definition uname_fields :: "int \<Rightarrow> int \<Rightarrow> mem \<Rightarrow> mem" where
  "uname_fields width uname m =
     (let m = strcpy_lit uname ''NEOS'' m;
          m = strcpy_lit (uname + width) ''neos'' m;
          m = strcpy_lit (uname + 2 * width) ''0.0.1'' m;
          m = strcpy_lit (uname + 3 * width) ''0.0.1'' m
      in strcpy_lit (uname + 4 * width) ''i386'' m)"

definition sys_uname :: "int \<Rightarrow> mem \<Rightarrow> int \<times> mem" where
  "sys_uname uname m = (0, uname_fields 65 uname m)"

definition sys_olduname :: "int \<Rightarrow> mem \<Rightarrow> int \<times> mem" where
  "sys_olduname uname m = (0, uname_fields 9 uname m)"

definition sys_newuname :: "int \<Rightarrow> mem \<Rightarrow> int \<times> mem" where
  "sys_newuname uname m = (0, uname_fields 65 uname m)"

text \<open>
  \<open>kmsz\<close> and \<open>krealloc\<close> are the functions of the allocator, which is assembly; both act on the
  world.  A failing \<^verbatim>\<open>krealloc\<close> is a \<^verbatim>\<open>panic\<close>: \<open>None\<close>.
\<close>

definition sys_brk ::
  "(u32 \<Rightarrow> 'a kworld_scheme \<Rightarrow> u32) \<Rightarrow> (u32 \<Rightarrow> u32 \<Rightarrow> 'a kworld_scheme \<Rightarrow> u32 \<times> 'a kworld_scheme) \<Rightarrow> u32 \<Rightarrow>
    u64 list \<Rightarrow> 'a kworld_scheme \<Rightarrow> (int \<times> u64 list \<times> 'a kworld_scheme) option" where
  "sys_brk kmsz krealloc brk gdt w =
     do {
       p \<leftarrow> caller_process w;
       let memory_address = ps_process_memory p;
       let sz = kmsz memory_address w;
       let end_address = memory_address + sz - 1;
       if end_address \<ge> brk then Some (sint end_address, gdt, w)
       else (case krealloc memory_address (sz + (brk - end_address)) w of
               (new_process_memory, w) \<Rightarrow>
                 if new_process_memory = 0 then None
                 else do {
                   let actualNewSize = kmsz new_process_memory w;
                   let gdt = gad gdt (nat (ps_processSegmentsIndex p)) new_process_memory actualNewSize;
                   (_, s) \<leftarrow> scheduler_move_process (kw_sched w) (caller w) new_process_memory;
                   Some (sint actualNewSize, gdt, w\<lparr>kw_sched := s\<rparr>)
                 })
     }"

subsection \<open>Listing a directory\<close>

text \<open>
  The first \<open>n\<close> bytes of \<^verbatim>\<open>entry.name\<close>: the name, its terminator, and then what the stack held.
\<close>

definition entry_name :: "(nat \<Rightarrow> u8) \<Rightarrow> ventry \<Rightarrow> u8 list" where
  "entry_name stack e =
     List.map (\<lambda>i. if i < length (ve_name e) then of_char (ve_name e ! i) else if i = length (ve_name e) then 0 else stack i)
       [0..<unat (ve_name_length e)]"

text \<open>
  The three formats: the size that a record is taken to need, the stores into it, and by how
  much the position moves.  The structures have 12, 20 and 12 bytes before the name is added, with
  the padding of their end; the name starts at 10, 19 and 10.
\<close>

record dirent_format =
  df_size :: "ventry \<Rightarrow> u32"
  df_store :: "(nat \<Rightarrow> u8) \<Rightarrow> ventry \<Rightarrow> int \<Rightarrow> mem \<Rightarrow> mem"
  df_step :: "ventry \<Rightarrow> int"

definition linux_dirent :: dirent_format where
  "linux_dirent =
     \<lparr>df_size = (\<lambda>e. 12 + ve_name_length e + 2),
      df_store = (\<lambda>stack e a m.
        let n = uint (ve_name_length e);
            m = store_bytes a (bytes32 0) m;
            m = store_bytes (a + 4) (bytes32 (ve_seek_offset e)) m;
            m = store_bytes (a + 8) (bytes16 (ucast (12 + ve_name_length e + 2))) m;
            m = store_bytes (a + 10) (entry_name stack e) m;
            m = store_bytes (a + 10 + n + 1) [0] m
        in store_bytes (a + 10 + n + 2) [ucast (entry_type_code (ve_type e))] m),
      df_step = (\<lambda>e. uint (ucast (12 + ve_name_length e + 2) :: u16))\<rparr>"

definition linux_dirent64 :: dirent_format where
  "linux_dirent64 =
     \<lparr>df_size = (\<lambda>e. 20 + ve_name_length e),
      df_store = (\<lambda>stack e a m.
        let m = store_bytes a (bytes32 0 @ bytes32 0) m;
            m = store_bytes (a + 8) (bytes32 (ve_seek_offset e) @ bytes32 0) m;
            m = store_bytes (a + 16) (bytes16 (ucast (12 + ve_name_length e))) m;
            m = store_bytes (a + 18) [ucast (entry_type_code (ve_type e))] m
        in store_bytes (a + 19) (entry_name stack e) m),
      df_step = (\<lambda>e. uint (ucast (12 + ve_name_length e) :: u16))\<rparr>"

definition old_linux_dirent :: dirent_format where
  "old_linux_dirent =
     \<lparr>df_size = (\<lambda>e. 12 + ve_name_length e),
      df_store = (\<lambda>stack e a m.
        let m = store_bytes a (bytes32 0) m;
            m = store_bytes (a + 4) (bytes32 (ve_seek_offset e)) m;
            m = store_bytes (a + 8) (bytes16 (ucast (ve_name_length e))) m
        in store_bytes (a + 10) (entry_name stack e) m),
      df_step = (\<lambda>e. sint (12 + ve_name_length e))\<rparr>"

text \<open>
  The loop that the three handlers repeat.  It goes on as long as the driver delivers entries and the
  buffer has room, so it need not end: \<open>None\<close> then.
\<close>

partial_function (option) getdents_loop ::
  "dirent_format \<Rightarrow> (nat \<Rightarrow> 'a kworld_scheme driver) \<Rightarrow> (nat \<Rightarrow> u8) \<Rightarrow> vref \<Rightarrow> int \<Rightarrow> u32 \<Rightarrow> int \<Rightarrow> mem \<Rightarrow>
    'a kworld_scheme \<Rightarrow> (int \<times> mem \<times> 'a kworld_scheme) option" where
  "getdents_loop fmt drv stack vref buffer sz bytes m w =
     do {
       (count, entries, w) \<leftarrow> vfs_list drv vref 1 w;
       if count = 0 then Some (bytes, m, w)
       else if count < 0 then Some (count, m, w)
       else (case entries of
               [] \<Rightarrow> None
             | entry # _ \<Rightarrow>
                 if sint (sz - word_of_int bytes) < sint (df_size fmt entry) then do {
                   (_, w) \<leftarrow> vfs_seek drv vref (sint (ve_seek_offset entry)) SEEK_SET w;
                   Some (if bytes = 0 then - LINUX_EINVAL else bytes, m, w)
                 }
                 else getdents_loop fmt drv stack vref buffer sz (i32 (bytes + df_step fmt entry))
                        (df_store fmt stack entry (buffer + bytes) m) w)
     }"

definition getdents ::
  "dirent_format \<Rightarrow> (nat \<Rightarrow> 'a kworld_scheme driver) \<Rightarrow> (nat \<Rightarrow> u8) \<Rightarrow> int \<Rightarrow> int \<Rightarrow> u32 \<Rightarrow> mem \<Rightarrow>
    'a kworld_scheme \<Rightarrow> (int \<times> mem \<times> 'a kworld_scheme) option" where
  "getdents fmt drv stack fd buffer sz m w =
     do {
       vref \<leftarrow> fd_resolve fd w;
       (case vref of
          None \<Rightarrow> Some (- LINUX_EBADF, m, w)
        | Some vref \<Rightarrow> getdents_loop fmt drv stack vref buffer sz 0 m w)
     }"

definition sys_getdents where "sys_getdents = getdents linux_dirent"
definition sys_getdents64 where "sys_getdents64 = getdents linux_dirent64"
definition sys_old_readdir where "sys_old_readdir = getdents old_linux_dirent"

subsection \<open>Dispatch\<close>

text \<open>
  A handler with its number of arguments, or a null pointer, in an entry of the generated
  \<^verbatim>\<open>sys_linux_table\<close>, which is a parameter.  The results: a panic, or the value for \<^verbatim>\<open>EAX\<close>.
\<close>

type_synonym 'w syscall = "'w \<Rightarrow> (int \<times> 'w) option"

datatype 'w syscall_entry =
    Fn0 "'w syscall option"
  | Fn1 "(int \<Rightarrow> 'w syscall) option"
  | Fn2 "(int \<Rightarrow> int \<Rightarrow> 'w syscall) option"
  | Fn3 "(int \<Rightarrow> int \<Rightarrow> int \<Rightarrow> 'w syscall) option"
  | Fn4 "(int \<Rightarrow> int \<Rightarrow> int \<Rightarrow> int \<Rightarrow> 'w syscall) option"
  | Fn5 "(int \<Rightarrow> int \<Rightarrow> int \<Rightarrow> int \<Rightarrow> int \<Rightarrow> 'w syscall) option"

datatype 'w sys_result = Panic | Result int 'w

definition call_handler :: "'w syscall option \<Rightarrow> 'w \<Rightarrow> 'w sys_result option" where
  "call_handler handler w =
     (case handler of None \<Rightarrow> Some Panic | Some h \<Rightarrow> do { (r, w) \<leftarrow> h w; Some (Result r w) })"

fun syscall_adapter :: "'w syscall_entry \<Rightarrow> int \<Rightarrow> int \<Rightarrow> int \<Rightarrow> int \<Rightarrow> int \<Rightarrow> 'w \<Rightarrow> 'w sys_result option" where
  "syscall_adapter (Fn0 h) ebx ecx edx esi edi = call_handler h"
| "syscall_adapter (Fn1 h) ebx ecx edx esi edi = call_handler (map_option (\<lambda>h. h ebx) h)"
| "syscall_adapter (Fn2 h) ebx ecx edx esi edi = call_handler (map_option (\<lambda>h. h ebx ecx) h)"
| "syscall_adapter (Fn3 h) ebx ecx edx esi edi = call_handler (map_option (\<lambda>h. h ebx ecx edx) h)"
| "syscall_adapter (Fn4 h) ebx ecx edx esi edi = call_handler (map_option (\<lambda>h. h ebx ecx edx esi) h)"
| "syscall_adapter (Fn5 h) ebx ecx edx esi edi = call_handler (map_option (\<lambda>h. h ebx ecx edx esi edi) h)"

text \<open>An index outside the table is an access outside it: \<open>None\<close>.\<close>

definition sys_linux :: "'w syscall_entry list \<Rightarrow> int \<Rightarrow> int \<Rightarrow> int \<Rightarrow> int \<Rightarrow> int \<Rightarrow> int \<Rightarrow> 'w \<Rightarrow> 'w sys_result option" where
  "sys_linux table eax ebx ecx edx esi edi w =
     (if eax \<ge> int (length table) then Some Panic
      else if eax < 0 then None
      else syscall_adapter (table ! nat eax) ebx ecx edx esi edi w)"

end
