(* ===== verification/ProcfsText.thy ===== *)
theory ProcfsText
  imports Procfs
begin

section \<open>Numbers in the process file system\<close>

text \<open>\<^verbatim>\<open>uint_to_str\<close> writes the digits of the number, and \<^verbatim>\<open>str_to_uint\<close> reads them back.\<close>

definition digit_string :: "nat \<Rightarrow> nat \<Rightarrow> string" where
  "digit_string base n = List.map (\<lambda>d. proc_digits ! d) (to_digits base n)"

lemma uint_to_str_loop_digits:
  assumes "2 \<le> unat (word_of_int base :: u32)" "k \<le> length buffer"
    and "length (digit_string (unat (word_of_int base :: u32)) (unat num)) \<le> k"
  shows "uint_to_str_loop num buffer base (int k - 1) =
    (0, take (k - length (digit_string (unat (word_of_int base :: u32)) (unat num))) buffer
          @ digit_string (unat (word_of_int base :: u32)) (unat num) @ drop k buffer,
     int k - int (length (digit_string (unat (word_of_int base :: u32)) (unat num))) - 1)"
  using assms
proof (induction k arbitrary: num buffer)
  case 0
  let ?b = "unat (word_of_int base :: u32)"
  have "to_digits ?b (unat num) = []" using 0 by (simp add: digit_string_def)
  then have "num = 0" using 0(1) by (simp add: to_digits.simps [of ?b "unat num"] unat_eq_0 split: if_splits)
  then show ?case by (simp add: uint_to_str_loop.simps [of 0] digit_string_def)
next
  case (Suc k)
  let ?b = "unat (word_of_int base :: u32)"
  show ?case
  proof (cases "num = 0")
    case True
    then show ?thesis by (simp add: uint_to_str_loop.simps [of 0] digit_string_def)
  next
    case False
    let ?d = "proc_digits ! unat (num mod word_of_int base)"
    let ?ds = "digit_string ?b (unat (num div word_of_int base))"
    have ds: "digit_string ?b (unat num) = ?ds @ [?d]"
      using False Suc.prems(1)
      by (simp add: digit_string_def to_digits.simps [of ?b "unat num"] unat_div unat_mod unat_eq_0)
    have len: "length ?ds \<le> k" using Suc.prems(3) ds by simp
    have step: "uint_to_str_loop num buffer base (int (Suc k) - 1) =
        uint_to_str_loop (num div word_of_int base) (buffer[k := ?d]) base (int k - 1)"
      using False by (simp add: uint_to_str_loop.simps [of num] word_gt_0)
    have "drop k (buffer[k := ?d]) = ?d # drop (Suc k) buffer"
      using Suc.prems(2) by (simp add: Cons_nth_drop_Suc [symmetric])
    moreover have "take (k - length ?ds) (buffer[k := ?d]) = take (k - length ?ds) buffer" by simp
    ultimately show ?thesis
      using Suc.IH [OF Suc.prems(1), of "buffer[k := ?d]" "num div word_of_int base"] Suc.prems(2) len
      unfolding step ds by simp
  qed
qed

lemma uint_to_str_shift_copies:
  assumes "j \<le> i" "i + m < length buffer" "\<forall>x < m. buffer ! (i + x) \<noteq> NUL" "buffer ! (i + m) = NUL"
  shows "\<exists>b'. uint_to_str_shift buffer i j = (b', j + m) \<and> length b' = length buffer \<and>
    (\<forall>x < j. b' ! x = buffer ! x) \<and> (\<forall>x < m. b' ! (j + x) = buffer ! (i + x))"
  using assms
proof (induction m arbitrary: buffer i j)
  case 0
  then show ?case by (simp add: uint_to_str_shift.simps [of buffer])
next
  case (Suc m)
  let ?b = "buffer[j := buffer ! i]"
  have "buffer ! i \<noteq> NUL" using Suc.prems(3) by force
  then have step: "uint_to_str_shift buffer i j = uint_to_str_shift ?b (i + 1) (j + 1)"
  proof -
    have "j < length buffer - 1" using Suc.prems(1,2) by simp
    with \<open>buffer ! i \<noteq> NUL\<close> show ?thesis by (subst uint_to_str_shift.simps) simp
  qed
  have same: "?b ! (i + 1 + x) = buffer ! (i + 1 + x)" for x using Suc.prems(1) by simp
  have "\<forall>x < m. ?b ! (i + 1 + x) \<noteq> NUL"
    using Suc.prems(3) same by (metis Suc_less_eq add_Suc_right add.assoc plus_1_eq_Suc)
  moreover have "?b ! (i + 1 + m) = NUL" using Suc.prems(4) same by simp
  ultimately obtain b' where b': "uint_to_str_shift ?b (i + 1) (j + 1) = (b', j + 1 + m)" "length b' = length buffer"
    "\<forall>x < j + 1. b' ! x = ?b ! x" "\<forall>x < m. b' ! (j + 1 + x) = buffer ! (i + 1 + x)"
    using Suc.IH [of "j + 1" "i + 1" ?b] Suc.prems(1,2) same by auto
  have "b' ! (j + x) = buffer ! (i + x)" if "x < Suc m" for x
  proof (cases x)
    case 0
    then show ?thesis using b'(3) Suc.prems(1,2) by simp
  next
    case (Suc y)
    then show ?thesis using b'(4) that by simp
  qed
  moreover have "\<forall>x < j. b' ! x = buffer ! x" using b'(3) by simp
  ultimately show ?case using step b'(1,2) by (intro exI [of _ b']) simp
qed

lemma takeWhile_prefix:
  assumes "m < length b" "\<forall>x < m. P (b ! x)" "\<not> P (b ! m)"
  shows "takeWhile P b = take m b"
proof -
  have "b = take m b @ b ! m # drop (Suc m) b" using assms(1) by (simp add: id_take_nth_drop)
  moreover have "\<forall>c \<in> set (take m b). P c" using assms(2) by (auto simp: in_set_conv_nth)
  ultimately show ?thesis using assms(3) by (metis takeWhile.simps(2) takeWhile_append2 append_Nil2)
qed

lemma proc_digit: "d < 36 \<Longrightarrow> proc_digits ! d \<noteq> NUL \<and> digit_value (proc_digits ! d) = Some (int d)"
proof -
  assume "d < 36"
  then have "d \<in> set [0..<36]" by simp
  moreover have "\<forall>d \<in> set [0..<36]. proc_digits ! d \<noteq> NUL \<and> digit_value (proc_digits ! d) = Some (int d)"
    by code_simp
  ultimately show ?thesis by blast
qed

lemma digit_string_no_nul:
  assumes "2 \<le> base" "base \<le> 36" "c \<in> set (digit_string base n)"
  shows "c \<noteq> NUL"
proof -
  obtain d where "d \<in> set (to_digits base n)" "c = proc_digits ! d"
    using assms(3) by (auto simp: digit_string_def)
  with to_digits_less [OF assms(1)] proc_digit [of d] assms(2) show ?thesis by fastforce
qed

lemma uint_to_str_digits:
  assumes "2 \<le> base" "base \<le> 36" "2 \<le> length buffer"
    and "length (digit_string (nat base) (unat num)) < length buffer"
  shows "c_string (uint_to_str num buffer base) = (if num = 0 then ''0'' else digit_string (nat base) (unat num))"
proof (cases "num = 0")
  case True
  obtain a b rest where "buffer[length buffer - 1 := NUL] = a # b # rest"
    using assms(3) by (metis Suc_le_length_iff length_list_update numeral_2_eq_2)
  with True show ?thesis by (simp add: uint_to_str_def c_string_def Let_def)
next
  case False
  let ?n = "length buffer" and ?b0 = "buffer[length buffer - 1 := NUL]"
  define ds where "ds = digit_string (nat base) (unat num)"
  have base: "unat (word_of_int base :: u32) = nat base"
    using assms(1,2) by (simp add: unat_eq_nat_uint uint_word_of_int take_bit_int_eq_self)
  define m where "m = length ds"
  define i where "i = ?n - 1 - m"
  have m: "m \<le> ?n - 1" using assms(4) by (simp add: m_def ds_def)
  define b where "b = take i ?b0 @ ds @ [NUL]"
  have last: "drop (?n - 1) ?b0 = [NUL]" using assms(3) by (simp add: Cons_nth_drop_Suc [symmetric])
  have loop: "uint_to_str_loop num ?b0 base (int ?n - 2) = (0, b, int i - 1)"
    using uint_to_str_loop_digits [of base "?n - 1" ?b0 num] base assms(1,3) m last
    by (simp add: b_def i_def m_def ds_def of_nat_diff)
  have len: "length b = ?n" "length (take i ?b0) = i" using m assms(3) by (simp_all add: b_def i_def m_def)
  have cells: "\<forall>x < m. b ! (i + x) = ds ! x" "b ! (i + m) = NUL"
    using len(2) by (simp_all add: b_def nth_append m_def)
  have no_nul: "\<forall>x < m. ds ! x \<noteq> NUL"
    using digit_string_no_nul [of "nat base" _ "unat num"] assms(1,2) by (auto simp: ds_def m_def)
  obtain b' where b': "uint_to_str_shift b i 0 = (b', m)" "length b' = length b" "\<forall>x < m. b' ! x = b ! (i + x)"
  proof -
    have "i + m < length b" using m assms(3) len(1) by (simp add: i_def)
    moreover have "\<forall>x < m. b ! (i + x) \<noteq> NUL" using cells(1) no_nul by simp
    ultimately show ?thesis using uint_to_str_shift_copies [of 0 i m b] cells(2) that by auto
  qed
  have "uint_to_str num buffer base = b'[m := NUL]"
    using False loop b'(1) by (simp add: uint_to_str_def Let_def)
  moreover have "c_string (b'[m := NUL]) = take m b'"
    unfolding c_string_def using b'(2,3) cells no_nul m len assms(3)
    by (subst takeWhile_prefix [of m]) auto
  moreover have "take m b' = ds"
    using b' cells m len assms(3) by (intro nth_equalityI) (auto simp: m_def)
  ultimately show ?thesis using False by (simp add: ds_def)
qed

lemma str_to_uint_loop_digits:
  "\<forall>d \<in> set ds. d < 36 \<and> int d < base \<Longrightarrow>
    str_to_uint_loop (List.map (\<lambda>d. proc_digits ! d) ds) base r = foldl (\<lambda>a d. a * word_of_int base + of_nat d) r ds"
  by (induction ds arbitrary: r) (auto simp: proc_digit)

lemma foldl_of_nat:
  "foldl (\<lambda>a d. a * of_nat base + of_nat d) (of_nat a :: u32) ds = of_nat (foldl (\<lambda>a d. a * base + d) a ds)"
  by (induction ds arbitrary: a) (simp_all flip: of_nat_mult of_nat_add)

lemma str_to_uint_digit_string:
  assumes "2 \<le> base" "base \<le> 36"
  shows "str_to_uint (digit_string (nat base) (unat num)) base = num"
proof -
  have "\<forall>d \<in> set (to_digits (nat base) (unat num)). d < 36 \<and> int d < base"
    using to_digits_less [of "nat base"] assms by fastforce
  from str_to_uint_loop_digits [OF this, of 0]
  have "str_to_uint (digit_string (nat base) (unat num)) base =
      foldl (\<lambda>a d. a * of_nat (nat base) + of_nat d) (of_nat 0 :: u32) (to_digits (nat base) (unat num))"
    using assms by (simp add: str_to_uint_def digit_string_def)
  also have "\<dots> = of_nat (unat num)"
    unfolding foldl_of_nat using to_digits_value [of "nat base" "unat num"] assms by simp
  finally show ?thesis by simp
qed

lemma decimal_fits: "length (digit_string 10 (unat (num :: u32))) \<le> 10"
proof -
  have "unat num < 2 ^ 32" by (rule order_less_le_trans [OF unsigned_less]) simp
  also have "\<dots> < (10 :: nat) ^ 10" by simp
  finally have "unat num < 10 ^ 10" .
  then show ?thesis using to_digits_length [of 10 "unat num" 10] by (simp add: digit_string_def)
qed

text \<open>The text of a number in a buffer of 16 bytes, and back.\<close>

lemma proc_text:
  assumes "length garbage = 16"
  shows "str_to_uint (c_string (uint_to_str num garbage 10)) 10 = num"
    and "c_string (uint_to_str num garbage 10) = (if num = 0 then ''0'' else digit_string 10 (unat num))"
proof -
  show s: "c_string (uint_to_str num garbage 10) = (if num = 0 then ''0'' else digit_string 10 (unat num))"
    using uint_to_str_digits [of 10 garbage num] decimal_fits [of num] assms by simp
  show "str_to_uint (c_string (uint_to_str num garbage 10)) 10 = num"
    using s str_to_uint_digit_string [of 10 num] by (simp add: str_to_uint_def digit_value_def)
qed

text \<open>The text of a number is none of the names with a meaning.\<close>

lemma digit_string_plain:
  assumes "n \<noteq> 0"
  shows "digit_string 10 n \<noteq> []" "hd (digit_string 10 n) \<in> set ''0123456789''"
proof -
  show ne: "digit_string 10 n \<noteq> []" using assms by (simp add: digit_string_def to_digits.simps [of 10 n])
  then obtain d where "hd (digit_string 10 n) = proc_digits ! d" "d < 10"
    using to_digits_less [of 10 _ n] by (auto simp: digit_string_def hd_map)
  then have "d \<in> set [0..<10]" by simp
  moreover have "\<forall>d \<in> set [0..<10]. proc_digits ! d \<in> set ''0123456789''" by code_simp
  ultimately show "hd (digit_string 10 n) \<in> set ''0123456789''"
    using \<open>hd (digit_string 10 n) = proc_digits ! d\<close> by simp
qed

lemma proc_text_plain:
  assumes "length garbage = 16"
  shows "c_string (uint_to_str num garbage 10) \<noteq> ''self''"
proof (cases "num = 0")
  case True
  then show ?thesis using proc_text(2) [OF assms] by simp
next
  case False
  then have "unat num \<noteq> 0" by (simp add: unat_eq_0)
  from digit_string_plain(2) [OF this] show ?thesis
    using proc_text(2) [OF assms, of num] False by auto
qed

end
