(* ===== verification/ProcfsLaws.thy ===== *)
theory ProcfsLaws
  imports ProcfsText
begin

section \<open>The process file system as a driver\<close>

text \<open>
  \<^verbatim>\<open>procfs.c\<close> keeps the contract of the file system layer, which gives what \<^verbatim>\<open>vfs_open\<close> and
  \<^verbatim>\<open>vfs_trace\<close> deliver on mounted process file systems; then the process list and the files.
\<close>

subsection \<open>The contract\<close>

definition proc_at_root :: "vref \<Rightarrow> kworld \<Rightarrow> bool" where
  "proc_at_root v w \<longleftrightarrow> (\<exists>a st. r_state v = Some a \<and> kw_states w a = Some st \<and> pr_node st = PROC_NODE_ROOT)"

lemma proc_deref_eq [simp]:
  "r_state v = Some a \<Longrightarrow> kw_states w a = Some st \<Longrightarrow> proc_deref v w = Some (a, st)"
  by (simp add: proc_deref_def)

lemma proc_derefD: "proc_deref v w = Some (a, st) \<Longrightarrow> r_state v = Some a \<and> kw_states w a = Some st"
  by (auto simp: proc_deref_def bind_eq_Some_conv)

lemma procfs_open_keeps: "procfs_open v part flags w = Some (res, v', w') \<Longrightarrow> v' = v"
proof -
  assume o: "procfs_open v part flags w = Some (res, v', w')"
  then obtain a st where d: "proc_deref v w = Some (a, st)" by (auto simp: procfs_open_def bind_eq_Some_conv)
  from o d show ?thesis
    by (cases "pr_node st") (auto simp: procfs_open_def bind_eq_Some_conv procfs_enter_def Let_def split: if_splits)
qed

interpretation pf: nav_root "\<lambda>d. procfs_load trace garbage" proc_at_root for trace garbage
proof unfold_locales
  fix d v w res v' w'
  show "d_root (procfs_load trace garbage) v w = Some (res, v', w') \<Longrightarrow> ref_keeps v v'"
    by (auto simp: procfs_load_def procfs_root_def proc_alloc_def ref_keeps_def)
next
  fix d v src w res v' w'
  show "d_clone (procfs_load trace garbage) v src w = Some (res, v', w') \<Longrightarrow> ref_keeps v v'"
    by (auto simp: procfs_load_def procfs_clone_def proc_alloc_def ref_keeps_def bind_eq_Some_conv)
next
  fix d v part flags w res v' w'
  show "d_open (procfs_load trace garbage) v part flags w = Some (res, v', w') \<Longrightarrow> ref_keeps v v'"
    using procfs_open_keeps [of v part flags w] by (simp add: procfs_load_def ref_keeps_def)
next
  fix d v w res v' w'
  show "d_close (procfs_load trace garbage) v w = Some (res, v', w') \<Longrightarrow> ref_keeps v v'"
    by (auto simp: procfs_load_def procfs_close_def ref_keeps_def bind_eq_Some_conv)
next
  fix d v w
  show "\<exists>v' w'. d_root (procfs_load trace garbage) v w = Some (0, v', w') \<and> proc_at_root v' w'"
    by (simp add: procfs_load_def procfs_root_def proc_alloc_def proc_at_root_def)
next
  fix v w d
  show "proc_at_root v w \<Longrightarrow> \<exists>v' w'. d_close (procfs_load trace garbage) v w = Some (0, v', w')"
    by (auto simp: procfs_load_def procfs_close_def proc_at_root_def)
next
  fix src w d v
  show "proc_at_root src w \<Longrightarrow> \<exists>v' w'. d_clone (procfs_load trace garbage) v src w = Some (0, v', w') \<and> proc_at_root v' w'"
    by (auto simp: procfs_load_def procfs_clone_def proc_alloc_def proc_at_root_def)
next
  fix v w d
  show "proc_at_root v w \<Longrightarrow> \<exists>res name w'. d_lookup (procfs_load trace garbage) v w = Some (res, name, w') \<and> res \<noteq> 0 \<and> proc_at_root v w'"
    by (auto simp: procfs_load_def procfs_lookup_def proc_at_root_def)
next
  fix v u w
  show "r_state v = r_state u \<Longrightarrow> proc_at_root v w = proc_at_root u w"
    by (simp add: proc_at_root_def)
qed

subsection \<open>The process list\<close>

lemma process_list_total:
  assumes "sd_count s < int (length (sd_table s))" "0 \<le> pid"
  shows "\<exists>found q. scheduler_process_list s pid = Some (found, q)"
proof -
  have "\<exists>f i. scheduler_process_list_loop s pid = Some (f, i)"
    using assms
  proof (induction s pid rule: scheduler_process_list_loop.induct)
    case (1 s i)
    show ?case
    proof (cases "i \<le> sd_count s")
      case False
      then show ?thesis by (simp add: scheduler_process_list_loop.simps [of s i])
    next
      case True
      then have p: "proc_at s i = Some (sd_table s ! nat i)" using "1.prems" by (simp add: proc_at_def)
      then show ?thesis using "1.IH" [OF True refl, of "sd_table s ! nat i"] "1.prems" True
        by (cases "ps_exists (sd_table s ! nat i)") (simp_all add: scheduler_process_list_loop.simps [of s i])
    qed
  qed
  then show ?thesis using assms(2) by (auto simp: scheduler_process_list_def)
qed

text \<open>A PID that the process file system shows: one whose entry exists, up to one beyond the count.\<close>

definition pid_listed :: "sched \<Rightarrow> int \<Rightarrow> bool" where
  "pid_listed s pid \<longleftrightarrow> 1 \<le> pid \<and> pid \<le> sd_count s + 1 \<and> slot s (pid - 1)"

lemma process_list_bound:
  assumes "scheduler_process_list s pid = Some (1, q)" "0 \<le> pid"
  shows "pid < q" "q \<le> sd_count s + 1" "pid_listed s q"
proof -
  obtain f i where l: "scheduler_process_list_loop s pid = Some (f, i)" "(if f = 1 then (1, i) else (0, pid)) = (1 :: int, q)"
    using assms by (auto simp: scheduler_process_list_def bind_eq_Some_conv)
  then have "f = 1" "i = q" by (auto split: if_splits)
  with scheduler_process_list_loop_spec [OF l(1) assms(2)] show "pid < q" "q \<le> sd_count s + 1" by auto
  with process_list_steps [OF assms] assms(2) show "pid_listed s q" by (auto simp: pid_listed_def)
qed

lemma process_list_steps':
  assumes "scheduler_process_list s pid = Some (found, q)" "0 \<le> pid"
  shows "(found = 1 \<and> pid < q \<and> pid_listed s q \<and> (\<forall>k. pid < k \<and> k < q \<longrightarrow> \<not> pid_listed s k)) \<or>
    (found = 0 \<and> (\<forall>k > pid. \<not> pid_listed s k))"
proof -
  consider "found = 1" | "found = 0" using process_list_steps [OF assms] by blast
  then show ?thesis
  proof cases
    case 1
    with process_list_steps [OF assms] process_list_bound [of s pid q] assms show ?thesis
      by (auto simp: pid_listed_def)
  next
    case 2
    with process_list_steps [OF assms] show ?thesis by (auto simp: pid_listed_def)
  qed
qed

lemma procfs_pids_listed:
  assumes "sd_count s < int (length (sd_table s))"
  shows "0 \<le> pid \<Longrightarrow> sd_count s + 1 - pid < int fuel \<Longrightarrow> 0 < fuel \<Longrightarrow>
    \<exists>pids. procfs_pids fuel s pid = Some pids \<and> set pids = {q. pid < q \<and> pid_listed s q} \<and> sorted_wrt (<) (pid # pids)"
proof (induction fuel arbitrary: pid)
  case 0
  then show ?case by simp
next
  case (Suc fuel)
  obtain found q where l: "scheduler_process_list s pid = Some (found, q)"
    using process_list_total [OF assms Suc.prems(1)] by blast
  show ?case
  proof (cases "found = 0")
    case True
    with process_list_steps' [OF l Suc.prems(1)] l show ?thesis by auto
  next
    case False
    with process_list_steps' [OF l Suc.prems(1)] have q: "found = 1" "pid < q" "pid_listed s q"
      "\<forall>k. pid < k \<and> k < q \<longrightarrow> \<not> pid_listed s k" by auto
    then have "q \<le> sd_count s + 1" by (simp add: pid_listed_def)
    with q(2) Suc.prems have fuel: "0 < fuel" "0 \<le> q" "sd_count s + 1 - q < int fuel" by auto
    obtain pids where p: "procfs_pids fuel s q = Some pids" "set pids = {k. q < k \<and> pid_listed s k}" "sorted_wrt (<) (q # pids)"
      using Suc.IH [of q] fuel by auto
    have "{k. pid < k \<and> pid_listed s k} = insert q {k. q < k \<and> pid_listed s k}"
      using q by (auto simp: not_less)
    with l p q(1,2) show ?thesis by auto
  qed
qed

lemma procfs_find_pid_listed:
  assumes "sd_count s < int (length (sd_table s))"
  shows "0 \<le> pid \<Longrightarrow> sd_count s + 1 - pid < int fuel \<Longrightarrow> 0 < fuel \<Longrightarrow>
    procfs_find_pid fuel s e pid = Some (pid < e \<and> pid_listed s e)"
proof (induction fuel arbitrary: pid)
  case 0
  then show ?case by simp
next
  case (Suc fuel)
  obtain found q where l: "scheduler_process_list s pid = Some (found, q)"
    using process_list_total [OF assms Suc.prems(1)] by blast
  show ?case
  proof (cases "found = 0")
    case True
    with process_list_steps' [OF l Suc.prems(1)] l show ?thesis by auto
  next
    case False
    with process_list_steps' [OF l Suc.prems(1)] have q: "found = 1" "pid < q" "pid_listed s q"
      "\<forall>k. pid < k \<and> k < q \<longrightarrow> \<not> pid_listed s k" by auto
    then have "q \<le> sd_count s + 1" by (simp add: pid_listed_def)
    with q(2) Suc.prems have fuel: "0 < fuel" "0 \<le> q" "sd_count s + 1 - q < int fuel" by auto
    have "pid < e \<and> pid_listed s e \<longleftrightarrow> e = q \<or> q < e \<and> pid_listed s e"
      using q by (auto simp: not_less)
    with Suc.IH [of q] fuel l q(1) show ?thesis by auto
  qed
qed

subsection \<open>The paths the kernel mounts\<close>

lemma boot_segments [simp]:
  "path_segments ''/proc/'' = [''proc'']" "path_segments ''/'' = []" "path_segments ''/proc'' = [''proc'']"
  by code_simp+

lemma boot_paths [simp]: "mount_path ''/proc/''" "mount_path ''/''" "mount_path ''/proc''"
  by (simp_all add: mount_path_def no_nul_def short_segments_def)

lemma mounted_init [simp]: "mounted vfs_init = (\<lambda>_. None)"
proof
  fix ss show "mounted vfs_init ss = None"
    by (cases ss) (simp_all add: mounted_def vfs_init_def find_child_def children_def)
qed

subsection \<open>Properties: paths and mounts\<close>

text \<open>
  C25. \<^verbatim>\<open>vfs_resolve\<close>, called until it returns 0, yields exactly the segments of the path: split at
  the slashes, without the leading and the trailing one, as long as every name is shorter than
  255 characters; and no error is reported.
\<close>

theorem resolve_segments:
  assumes "no_nul s" "short_segments s"
  shows "\<exists>q. vfs_resolve_all (vfs_path s) = (path_segments s, q) \<and> p_errno q = 0"
  using vfs_resolve_all_segments [of "vfs_path s" "path_segments s"] assms
  by (simp add: short_segments_def)

theorem resolve_segments_witness: "fst (vfs_resolve_all (vfs_path ''/some//path/'')) = [''some'', [], ''path'']"
proof -
  have "path_segments ''/some//path/'' = [''some'', [], ''path'']"
    by code_simp
  then show ?thesis
    using resolve_segments [of "''/some//path/''"] by (auto simp: no_nul_def short_segments_def)
qed

text \<open>
  C8. Mounting refines a map update: on a well-formed tree \<^verbatim>\<open>vfs_mount\<close> of an absolute path
  succeeds, keeps the tree well-formed, makes the driver the one found at the path's segments,
  and changes what is mounted at no other path, though it adds nodes for its ancestors.
\<close>

theorem mount_refines_update:
  assumes "tree_ok nodes" "mount_path path"
  shows "\<exists>nodes'. vfs_mount nodes path d = Some nodes' \<and> tree_ok nodes' \<and>
    mounted nodes' = (mounted nodes)(path_segments path \<mapsto> d)"
  by (rule vfs_mount_mounted [OF assms])

theorem mount_refines_update_witness:
  "\<exists>nodes'. vfs_mount vfs_init ''/proc/'' 1 = Some nodes' \<and> mounted nodes' [''proc''] = Some 1 \<and> mounted nodes' [] = None"
  using mount_refines_update [of vfs_init "''/proc/''" 1] by auto

text \<open>
  The order of two mounts at different paths does not matter for what is mounted where.
\<close>

theorem mount_commutes:
  assumes "tree_ok nodes" "mount_path p" "mount_path q" "path_segments p \<noteq> path_segments q"
    and "vfs_mount nodes p d = Some a" "vfs_mount a q e = Some a'"
    and "vfs_mount nodes q e = Some b" "vfs_mount b p d = Some b'"
  shows "mounted a' = mounted b'"
  by (rule mt.mount_order [OF assms])

subsection \<open>The tree of the kernel\<close>

text \<open>The mounts of \<^verbatim>\<open>start\<close> in \<^verbatim>\<open>entry.c\<close>: driver 1 at \<^verbatim>\<open>/proc/\<close>, then driver 2 at the root.\<close>

definition boot_nodes :: "nat \<Rightarrow> nat \<Rightarrow> vnode list option" where
  "boot_nodes procfs fatfs = do { nodes \<leftarrow> vfs_mount vfs_init ''/proc/'' procfs; vfs_mount nodes ''/'' fatfs }"

lemma boot_tree:
  "\<exists>nodes. boot_nodes p f = Some nodes \<and> tree_ok nodes \<and> mounted nodes = [[''proc''] \<mapsto> p, [] \<mapsto> f]"
proof -
  show ?thesis using mt.mount_two [of vfs_init "''/proc/''" "''/''" p f] by (auto simp: boot_nodes_def)
qed

lemma boot_along: "mounted nodes = [[''proc''] \<mapsto> p, [] \<mapsto> f] \<Longrightarrow> mounts_along nodes [''proc'']"
  by (auto simp: mounts_along_def le_Suc_eq)




text \<open>
  \<^verbatim>\<open>vfs_trace\<close> can write one byte past its buffer: tracing the mount point \<^verbatim>\<open>/proc\<close> of the
  kernel's tree into 6 bytes leaves 6 characters there, and the terminator goes to index 6.
\<close>

theorem trace_terminator_outside:
  "\<exists>nodes v w1 w2. boot_nodes p f = Some nodes \<and>
    vfs_open nodes (\<lambda>d. procfs_load trace garbage) vfs_root ''/proc'' flags w = Some (0, v, w1) \<and>
    vfs_trace nodes (\<lambda>d. procfs_load trace garbage) v 6 w1 = Some (''/proc/'', w2) \<and> length ''/proc/'' = 6"
proof -
  obtain nodes where n: "boot_nodes p f = Some nodes" "tree_ok nodes" "mounted nodes = [[''proc''] \<mapsto> p, [] \<mapsto> f]"
    using boot_tree by blast
  then have t: "tree_ok nodes" "mounts_along nodes [''proc'']" using boot_along by auto
  have plain: "\<forall>s \<in> set (path_segments ''/proc''). plain_name s" by (simp add: plain_name_def)
  obtain v w1 j where o: "vfs_open nodes (\<lambda>d. procfs_load trace garbage) vfs_root ''/proc'' flags w = Some (0, v, w1)"
    "walk nodes 0 [''proc''] = Some j" "pf.root_ref nodes j v w1"
    using pf.open_mounted [OF t(1) boot_paths(3) plain] t(2) by fastforce
  have "trace_path [''proc''] = ''/proc/''" by (simp add: trace_path_def)
  with pf.trace_root [OF t(1) o(2) t(2) o(3), of 6] o(1) n(1) show ?thesis by auto
qed

subsection \<open>Witnesses\<close>

definition kworld_demo :: kworld where
  "kworld_demo = \<lparr>kw_sched = sched_demo, kw_states = (\<lambda>_. None), kw_next = 0\<rparr>"

definition no_trace :: tracer where
  "no_trace = (\<lambda>vref limit w. None)"

lemma boot_open:
  "\<exists>nodes. boot_nodes 1 2 = Some nodes \<and> tree_ok nodes \<and> mount_path ''/proc'' \<and>
    (\<forall>s \<in> set (path_segments ''/proc''). plain_name s) \<and> length (path_segments ''/proc'') \<le> 64 \<and>
    mounts_along nodes (path_segments ''/proc'') \<and> mounted nodes [''proc''] = Some 1"
  using boot_tree [of 1 2] boot_along [where p = 1 and f = 2] by (auto simp: plain_name_def)

theorem mount_commutes_witness:
  "\<exists>a a' b b'. vfs_mount vfs_init ''/proc/'' 1 = Some a \<and> vfs_mount a ''/'' 2 = Some a' \<and>
    vfs_mount vfs_init ''/'' 2 = Some b \<and> vfs_mount b ''/proc/'' 1 = Some b' \<and> mounted a' = mounted b'"
proof -
  obtain a a' where a: "vfs_mount vfs_init ''/proc/'' 1 = Some a" "vfs_mount a ''/'' 2 = Some a'"
    using mt.mount_two [of vfs_init "''/proc/''" "''/''" 1 2] by auto
  obtain b b' where b: "vfs_mount vfs_init ''/'' 2 = Some b" "vfs_mount b ''/proc/'' 1 = Some b'"
    using mt.mount_two [of vfs_init "''/''" "''/proc/''" 2 1] by auto
  from a b mount_commutes [of vfs_init "''/proc/''" "''/''", OF _ _ _ _ a b] show ?thesis by auto
qed




end
