(* ===== verification/ProcfsFiles.thy ===== *)
theory ProcfsFiles
  imports ProcfsLaws
begin

section \<open>Directories and files of the process file system\<close>

text \<open>
  Opening processes by number, reading in chunks, and listing in chunks.
\<close>

subsection \<open>Opening by number\<close>

lemma procfs_open_number:
  assumes "proc_deref v w = Some (a, st)" "pr_node st = PROC_NODE_ROOT" "basename \<noteq> ''self''"
    and "0 \<le> sd_count (kw_sched w)" "sd_count (kw_sched w) < int (length (sd_table (kw_sched w)))"
  defines "pid \<equiv> sint (str_to_uint basename 10)"
  shows "procfs_open v basename flags w =
    (if pid_listed (kw_sched w) pid
     then Some (0, v, proc_store a (st\<lparr>pr_offset := 0, pr_pid := pid, pr_node := PROC_NODE_PROC\<rparr>) w)
     else Some (- LINUX_ENOENT, v, w))"
proof -
  have "procfs_find_pid (nat (sd_count (kw_sched w) + 2)) (kw_sched w) pid 0 = Some (0 < pid \<and> pid_listed (kw_sched w) pid)"
    using assms(4) by (intro procfs_find_pid_listed [OF assms(5)]) auto
  moreover have "0 < pid \<and> pid_listed (kw_sched w) pid \<longleftrightarrow> pid_listed (kw_sched w) pid"
    by (auto simp: pid_listed_def)
  ultimately show ?thesis
    using assms(1-3) by (simp add: procfs_open_def procfs_enter_def pid_def Let_def)
qed

lemma listed_pos: "pid_listed s pid \<Longrightarrow> 0 < pid"
  by (simp add: pid_listed_def)

lemma sint_of_pid: "0 \<le> pid \<Longrightarrow> pid < 2147483648 \<Longrightarrow> sint (word_of_int pid :: u32) = pid"
  by (simp add: sint_word_ariths signed_take_bit_int_eq_self signed_of_int)

lemma div_word:
  "0 \<le> x \<Longrightarrow> x < 4294967296 \<Longrightarrow> 0 \<le> y \<Longrightarrow> y < 4294967296 \<Longrightarrow>
    uint (word_of_int x div word_of_int y :: u32) = x div y"
  by (simp add: uint_div uint_word_of_int take_bit_int_eq_self)

subsection \<open>Reading in chunks\<close>

lemma proc_sread_in_range:
  assumes "0 \<le> pr_offset st" "pr_offset st \<le> int (length file)" "int (length file) < 2147483648" "0 \<le> n"
  shows "proc_sread n file st =
    (min (int (length file) - pr_offset st) n, take (nat n) (drop (nat (pr_offset st)) file),
     st\<lparr>pr_offset := pr_offset st + min (int (length file) - pr_offset st) n\<rparr>)"
proof -
  let ?o = "pr_offset st" and ?len = "int (length file)"
  have "i32 (?len - ?o) = ?len - ?o" using assms by (intro i32_id) auto
  moreover have "i32 (?o + min (?len - ?o) n) = ?o + min (?len - ?o) n" using assms by (intro i32_id) auto
  moreover have "take (nat (min (?len - ?o) n)) (drop (nat ?o) file) = take (nat n) (drop (nat ?o) file)"
    by (cases "?len - ?o \<le> n") (simp_all add: min_def nat_diff_distrib')
  ultimately show ?thesis using assms by (simp add: proc_sread_def proc_sread_range_def Let_def)
qed

lemma proc_sread_split:
  assumes "0 \<le> pr_offset st" "pr_offset st \<le> int (length file)" "int (length file) < 2147483648" "0 \<le> n" "0 \<le> m"
    and "proc_sread n file st = (r1, out1, st1)" "proc_sread m file st1 = (r2, out2, st2)"
  shows "proc_sread (n + m) file st = (r1 + r2, out1 @ out2, st2)"
proof -
  let ?o = "pr_offset st" and ?len = "int (length file)"
  have 1: "r1 = min (?len - ?o) n" "out1 = take (nat n) (drop (nat ?o) file)" "st1 = st\<lparr>pr_offset := ?o + min (?len - ?o) n\<rparr>"
    using assms(6) proc_sread_in_range [OF assms(1-4)] by auto
  have o1: "pr_offset st1 = ?o + min (?len - ?o) n" using 1(3) by simp
  have r1: "0 \<le> pr_offset st1" "pr_offset st1 \<le> ?len" using o1 assms by auto
  have 2: "r2 = min (?len - pr_offset st1) m" "out2 = take (nat m) (drop (nat (pr_offset st1)) file)"
    "st2 = st1\<lparr>pr_offset := pr_offset st1 + min (?len - pr_offset st1) m\<rparr>"
    using assms(7) proc_sread_in_range [OF r1 assms(3,5)] by auto
  have sum: "r1 + r2 = min (?len - ?o) (n + m)"
    unfolding 1(1) 2(1) o1 using assms by (auto simp: min_def)
  have "out1 @ out2 = take (nat (n + m)) (drop (nat ?o) file)"
  proof (cases "?len - ?o \<le> n")
    case True
    then have "out2 = []" using 2(2) o1 by (simp add: min_def)
    moreover have "take (nat k) (drop (nat ?o) file) = drop (nat ?o) file" if "n \<le> k" for k
      using True that assms(1) by simp
    ultimately show ?thesis using 1(2) assms(5) by simp
  next
    case False
    then have "nat (pr_offset st1) = nat n + nat ?o" using o1 assms by (simp add: min_def nat_add_distrib)
    then show ?thesis using 1(2) 2(2) assms(4,5) by (simp add: nat_add_distrib take_add)
  qed
  moreover have "st2 = st\<lparr>pr_offset := ?o + min (?len - ?o) (n + m)\<rparr>"
    using 1(3) 2(3) sum 1(1) 2(1) by (simp add: add.assoc)
  ultimately show ?thesis
    using proc_sread_in_range [OF assms(1-3), of "n + m"] assms(4,5) sum by simp
qed

subsection \<open>Listing in chunks\<close>

lemma procfs_deliver_chunk:
  assumes "pr_offset st = 268 * k" "0 \<le> k" "k \<le> int (length entries)" "int (length entries) * 268 < 2147483648"
    and "0 \<le> m" "m * 268 < 2147483648"
  shows "procfs_deliver a st m entries w =
    Some (min (int (length entries) - k) m, take (nat m) (drop (nat k) entries),
          proc_store a (st\<lparr>pr_offset := 268 * (k + min (int (length entries) - k) m)\<rparr>) w)"
proof -
  let ?n = "int (length entries)"
  define c where "c = min (?n - k) m"
  have c: "0 \<le> c" "c \<le> ?n - k" "c \<le> m" using assms by (auto simp: c_def)
  have bounds: "268 * c < 2147483648" "268 * (k + c) < 2147483648" "268 * k < 2147483648" using c assms by auto
  have m: "i32 (m * 268) = m * 268" using assms by simp
  have left: "i32 (?n * 268 - 268 * k) = 268 * (?n - k)" using assms by (subst i32_id) auto
  have bytes: "min_c (268 * (?n - k)) (m * 268) = 268 * c" by (simp add: c_def min_def)
  have off: "i32 (268 * k + 268 * c) = 268 * (k + c)" using bounds c assms by (subst i32_id) auto
  have range: "proc_sread_range (i32 (m * 268)) (?n * 268) st = (268 * k, 268 * c, st\<lparr>pr_offset := 268 * (k + c)\<rparr>)"
  proof -
    have pos: "(268 * k < 0) = False" using assms(2) by simp
    show ?thesis unfolding proc_sread_range_def Let_def m assms(1) by (simp only: pos if_False left bytes off)
  qed
  have word: "sint (word_of_int (268 * c) div word_of_int 268 :: u32) = c"
  proof -
    have "uint (word_of_int (268 * c) div 268 :: u32) = c"
      using div_word [of "268 * c" 268] bounds(1) c by simp
    then have "word_of_int (268 * c) div 268 = (word_of_int c :: u32)" by (metis word_of_int_uint)
    then show ?thesis using sint_of_pid [of c] c bounds(1) by simp
  qed
  have "take (nat c) (drop (nat k) entries) = take (nat m) (drop (nat k) entries)"
    unfolding c_def by (cases "?n - k \<le> m") (simp_all add: min_def nat_diff_distrib')
  with word range show ?thesis by (simp add: procfs_deliver_def c_def [symmetric] mult.commute [of 268])
qed

subsection \<open>Properties\<close>

text \<open>
  The two number routines of the process file system are inverse: for every 32-bit number, the
  text that \<^verbatim>\<open>uint_to_str\<close> leaves in a 16 byte buffer, whatever was in the buffer before, reads
  back with \<^verbatim>\<open>str_to_uint\<close> as that number.
\<close>

theorem number_text_roundtrip:
  assumes "length garbage = 16"
  shows "str_to_uint (c_string (uint_to_str num garbage 10)) 10 = num"
  by (rule proc_text(1) [OF assms])

text \<open>
  Opening by number in the root of \<^verbatim>\<open>/proc\<close>: any name but \<^verbatim>\<open>self\<close> is read as a number, the open
  succeeds exactly for the PIDs that exist and leads to that process, and is refused with
  \<^verbatim>\<open>ENOENT\<close> otherwise, without a change of state.
\<close>

theorem open_by_number:
  assumes "proc_deref v w = Some (a, st)" "pr_node st = PROC_NODE_ROOT" "basename \<noteq> ''self''"
    and "0 \<le> sd_count (kw_sched w)" "sd_count (kw_sched w) < int (length (sd_table (kw_sched w)))"
  defines "pid \<equiv> sint (str_to_uint basename 10)"
  shows "procfs_open v basename flags w =
    (if pid_listed (kw_sched w) pid
     then Some (0, v, proc_store a (st\<lparr>pr_offset := 0, pr_pid := pid, pr_node := PROC_NODE_PROC\<rparr>) w)
     else Some (- LINUX_ENOENT, v, w))"
  unfolding pid_def by (rule procfs_open_number [OF assms(1-5)])


text \<open>
  A file of the process file system can be read in pieces: two reads that follow each other
  deliver together what one read of the summed size delivers, and leave the same state.
\<close>

theorem sread_pieces:
  assumes "0 \<le> pr_offset st" "pr_offset st \<le> int (length file)" "int (length file) < 2147483648" "0 \<le> n" "0 \<le> m"
    and "proc_sread n file st = (r1, out1, st1)" "proc_sread m file st1 = (r2, out2, st2)"
  shows "proc_sread (n + m) file st = (r1 + r2, out1 @ out2, st2)"
  by (rule proc_sread_split [OF assms])

text \<open>
  Reading behind the end does not report the end of the file: after a seek to \<open>k\<close> bytes
  behind the end the count returned is \<open>- k\<close>, which callers take for an error number.
\<close>

theorem sread_behind_end:
  assumes "pr_offset st = int (length file) + k" "0 < k" "0 \<le> n" "int (length file) + k < 2147483648"
  shows "proc_sread n file st = (- k, [], st\<lparr>pr_offset := int (length file)\<rparr>)"
  using assms by (simp add: proc_sread_def proc_sread_range_def Let_def)

text \<open>
  Directories are listed in pieces without a gap: from an offset that is a multiple of the
  entry size, \<^verbatim>\<open>procfs_list\<close> returns the next entries, at most \<open>m\<close>, and moves the offset by exactly
  their number of entries.
\<close>

theorem list_pieces:
  assumes "proc_deref v w = Some (a, st)" "pr_node st = PROC_NODE_PROC" "pr_offset st = 268 * k"
    and "0 \<le> k" "k \<le> 5" "0 \<le> m" "m < 8000000"
  shows "\<exists>es. procfs_list garbage v m w = Some (min (5 - k) m, es,
      proc_store a (st\<lparr>pr_offset := 268 * (k + min (5 - k) m)\<rparr>) w) \<and>
    List.map ve_name es = take (nat m) (drop (nat k) [''.'', ''..'', ''exe'', ''cwd'', ''fd''])"
proof -
  define es where "es = procfs_entries [(''.'', 1, DT_DIR), (''..'', 2, DT_DIR), (''exe'', 3, DT_LNK), (''cwd'', 3, DT_LNK), (''fd'', 2, DT_DIR)]"
  have len: "length es = 5" "List.map ve_name es = [''.'', ''..'', ''exe'', ''cwd'', ''fd'']"
    by (simp_all add: es_def procfs_entries_def)
  have "procfs_deliver a st m es w = Some (min (int (length es) - k) m, take (nat m) (drop (nat k) es),
      proc_store a (st\<lparr>pr_offset := 268 * (k + min (int (length es) - k) m)\<rparr>) w)"
    by (rule procfs_deliver_chunk) (use assms len in auto)
  then have "procfs_list garbage v m w = Some (min (5 - k) m, take (nat m) (drop (nat k) es),
      proc_store a (st\<lparr>pr_offset := 268 * (k + min (5 - k) m)\<rparr>) w)"
    unfolding procfs_list_def es_def using assms(1,2) len(1) by (simp add: es_def)
  then show ?thesis using len(2) by (simp flip: take_map drop_map)
qed

subsection \<open>Witnesses\<close>

definition proc_demo_ref :: vref where
  "proc_demo_ref = \<lparr>r_node = 1, r_offset = 0, r_driver = Some 1, r_state = Some 0\<rparr>"

definition proc_demo :: "proc_node \<Rightarrow> int \<Rightarrow> kworld" where
  "proc_demo node off = kworld_demo\<lparr>kw_states := [0 \<mapsto> \<lparr>pr_pid = 0, pr_node = node, pr_offset = off\<rparr>], kw_next := 1\<rparr>"

lemma proc_demo_simps [simp]:
  "proc_deref proc_demo_ref (proc_demo node off) = Some (0, \<lparr>pr_pid = 0, pr_node = node, pr_offset = off\<rparr>)"
  "sd_count (kw_sched (proc_demo node off)) = 3" "length (sd_table (kw_sched (proc_demo node off))) = 4"
  by (simp_all add: proc_deref_def proc_demo_ref_def proc_demo_def kworld_demo_def sched_demo_def)

theorem number_text_roundtrip_witness:
  "str_to_uint (c_string (uint_to_str 4294967295 (replicate 16 NUL) 10)) 10 = 4294967295"
  by (rule number_text_roundtrip) simp

theorem open_by_number_witness:
  "procfs_open proc_demo_ref ''2'' 0 (proc_demo PROC_NODE_ROOT 0) = Some (- 2, proc_demo_ref, proc_demo PROC_NODE_ROOT 0)"
proof -
  have "sint (str_to_uint ''2'' 10) = 2" by (simp add: str_to_uint_def digit_value_def)
  moreover have "\<not> pid_listed (kw_sched (proc_demo PROC_NODE_ROOT 0)) 2"
    by (simp add: pid_listed_def slot_def proc_demo_def kworld_demo_def sched_demo_def no_process_def)
  ultimately show ?thesis
    using open_by_number [of proc_demo_ref "proc_demo PROC_NODE_ROOT 0" 0 _ "''2''" 0] by simp
qed


theorem sread_pieces_witness:
  "proc_sread 5 ''abcdefg'' \<lparr>pr_pid = 1, pr_node = PROC_LEAF_SELF, pr_offset = 1\<rparr> =
    (5, ''bcdef'', \<lparr>pr_pid = 1, pr_node = PROC_LEAF_SELF, pr_offset = 6\<rparr>)"
  using sread_pieces [of "\<lparr>pr_pid = 1, pr_node = PROC_LEAF_SELF, pr_offset = 1\<rparr>" "''abcdefg''" 2 3]
  by (simp add: proc_sread_def proc_sread_range_def)

theorem sread_behind_end_witness:
  "fst (proc_sread 10 ''abc'' \<lparr>pr_pid = 1, pr_node = PROC_LEAF_SELF, pr_offset = 5\<rparr>) = - 2"
  using sread_behind_end [of "\<lparr>pr_pid = 1, pr_node = PROC_LEAF_SELF, pr_offset = 5\<rparr>" "''abc''" 2 10] by simp

theorem list_pieces_witness:
  "\<exists>es w'. procfs_list [] proc_demo_ref 2 (proc_demo PROC_NODE_PROC 268) = Some (2, es, w') \<and>
     List.map ve_name es = [''..'', ''exe'']"
  using list_pieces [of proc_demo_ref "proc_demo PROC_NODE_PROC 268" 0 _ 1 2 "[]"] by auto

end
