(* ===== verification/SyscallLaws.thy ===== *)
theory SyscallLaws
  imports Syscall ProcfsFiles
begin

section \<open>System calls: what they do to the descriptor table and to buffers\<close>

text \<open>
  The handlers rely on drivers that leave the process table alone; that interface is a locale, the
  process file system provides it.  On top of it: opening, using and closing descriptors, and the
  directory entries that are written into a buffer.
\<close>

subsection \<open>Drivers and the process table\<close>

locale quiet_nav =
  fixes drv :: "('a kworld_scheme, 'z) drivers"
  assumes root_quiet: "d_root (drv d) v w = Some (res, v', w') \<Longrightarrow> kw_sched w' = kw_sched w"
    and clone_quiet: "d_clone (drv d) v src w = Some (res, v', w') \<Longrightarrow> kw_sched w' = kw_sched w"
    and open_quiet: "d_open (drv d) v part flags w = Some (res, v', w') \<Longrightarrow> kw_sched w' = kw_sched w"
    and close_quiet: "d_close (drv d) v w = Some (res, v', w') \<Longrightarrow> kw_sched w' = kw_sched w"
    and lookup_quiet: "d_lookup (drv d) v w = Some (res, name, w') \<Longrightarrow> kw_sched w' = kw_sched w"
begin

lemma update_quiet: "vfs_update nodes drv v w = Some (res, v', w') \<Longrightarrow> kw_sched w' = kw_sched w"
  by (auto simp: vfs_update_def vfs_enable_def bind_eq_Some_conv split: option.splits if_splits
      dest!: root_quiet close_quiet)

lemma refcpy_quiet: "vfs_refcpy drv v w = Some (v', w') \<Longrightarrow> kw_sched w' = kw_sched w"
  by (auto simp: vfs_refcpy_def Let_def bind_eq_Some_conv split: option.splits dest!: clone_quiet)

lemma update_open_quiet: "vfs_update_open nodes drv v part flags w = Some (res, v', w') \<Longrightarrow> kw_sched w' = kw_sched w"
  by (auto simp: vfs_update_open_def vfs_driver_open_def bind_eq_Some_conv split: option.splits if_splits
      dest!: update_quiet open_quiet)

lemma enter_quiet: "vfs_enter nodes drv v part flags w = Some (res, v', w') \<Longrightarrow> kw_sched w' = kw_sched w"
  by (auto simp: vfs_enter_def bind_eq_Some_conv split: if_splits dest!: update_quiet update_open_quiet)

lemma vfs_close_quiet: "vfs_close drv v w = Some (res, v', w') \<Longrightarrow> kw_sched w' = kw_sched w"
  by (auto simp: vfs_close_def split: option.splits dest!: close_quiet)

lemma open_loop_quiet:
  "vfs_open_loop nodes drv p prev flags v w = Some (res, v', w') \<Longrightarrow> kw_sched w' = kw_sched w"
proof (induction "length (p_string p) - p_offset p" arbitrary: p prev v w rule: less_induct)
  case less
  obtain more front p' where r: "vfs_resolve p = (more, front, p')" by (cases "vfs_resolve p")
  show ?case
  proof (cases "more \<and> p_errno p' = 0")
    case False
    with less.prems r show ?thesis
      by (cases more) (auto simp: vfs_open_loop.simps [of nodes drv p] dest!: enter_quiet split: option.splits)
  next
    case True
    let ?step = "case prev of None \<Rightarrow> Some (0, v, w)
      | Some b \<Rightarrow> vfs_enter nodes drv v b (OPEN_DIRECTORY OR (flags AND OPEN_NOFOLLOW)) w"
    from less.prems r True obtain res1 v1 w1 where s: "?step = Some (res1, v1, w1)"
      "(if res1 \<noteq> 0 then Some (res1, v1, w1) else if p_resolves p' > PATH_MAX_RESOLVES then Some (LINUX_ELOOP, v1, w1)
        else vfs_open_loop nodes drv p' (Some front) flags v1 w1) = Some (res, v', w')"
      by (auto simp: vfs_open_loop.simps [of nodes drv p] bind_eq_Some_conv)
    have "kw_sched w1 = kw_sched w" using s(1) by (auto dest!: enter_quiet split: option.splits)
    moreover have "kw_sched w' = kw_sched w1"
      using s(2) less.hyps [of p' "Some front" v1 w1] r True by (auto dest: vfs_resolve_measure [OF sym] split: if_splits)
    ultimately show ?thesis by simp
  qed
qed

lemma vfs_open_quiet: "vfs_open nodes drv rel path flags w = Some (res, v', w') \<Longrightarrow> kw_sched w' = kw_sched w"
  by (auto simp: vfs_open_def bind_eq_Some_conv dest!: refcpy_quiet update_quiet open_loop_quiet)

lemma trace_loop_quiet:
  "vfs_trace_loop nodes drv n names v w = Some (names', v', w') \<Longrightarrow> kw_sched w' = kw_sched w"
proof (induction n arbitrary: names v w)
  case (Suc n)
  from Suc.prems show ?case
    by (auto simp: bind_eq_Some_conv split: if_splits option.splits dest!: Suc.IH enter_quiet lookup_quiet)
qed simp

lemma trace_quiet: "vfs_trace nodes drv v limit w = Some (out, w') \<Longrightarrow> kw_sched w' = kw_sched w"
  by (auto simp: vfs_trace_def bind_eq_Some_conv dest!: refcpy_quiet update_quiet trace_loop_quiet vfs_close_quiet)

end

lemma fput_running: "scheduler_fput s pid v = Some (fd, s') \<Longrightarrow> sd_running s' = sd_running s"
  by (auto simp: scheduler_fput_def proc_put_def bind_eq_Some_conv split: if_splits option.splits)

lemma caller_cong: "sd_running (kw_sched w') = sd_running (kw_sched w) \<Longrightarrow> caller w' = caller w"
  by (simp add: caller_def scheduler_get_current_pid_def)

text \<open>The rest of a driver's functions.\<close>

locale quiet_drivers = quiet_nav drv for drv :: "nat \<Rightarrow> 'a kworld_scheme driver" +
  assumes read_quiet: "d_read (drv d) v n w = Some (res, out, w') \<Longrightarrow> kw_sched w' = kw_sched w"
    and write_quiet: "d_write (drv d) v buffer w = Some (res, w') \<Longrightarrow> kw_sched w' = kw_sched w"
    and seek_quiet: "d_seek (drv d) v offset whence w = Some (res, w') \<Longrightarrow> kw_sched w' = kw_sched w"
    and list_quiet: "d_list (drv d) v k w = Some (res, es, w') \<Longrightarrow> kw_sched w' = kw_sched w"
    and stat_quiet: "d_stat (drv d) v w = Some (res, st, w') \<Longrightarrow> kw_sched w' = kw_sched w"
begin

text \<open>
  What opening does to the table: an error leaves it, and so does a full table; otherwise the lowest
  free descriptor gets the reference that \<^verbatim>\<open>vfs_open\<close> delivers.
\<close>

lemma fd_open_table:
  assumes "fd_inv (caller w) (kw_sched w)" "vfs_open nodes drv parent filename flags w = Some (res, v, w1)"
  shows "\<exists>fd w2. fd_open nodes drv parent filename flags w = Some (fd, w2) \<and> caller w2 = caller w \<and>
    fd_inv (caller w) (kw_sched w2) \<and>
    (if res < 0 then fd = res \<and> w2 = w1
     else if fd = - LINUX_EMFILE then w2 = w1 \<and> (\<forall>k. 1 \<le> k \<and> k \<le> 1024 \<longrightarrow> open_files (caller w) (kw_sched w) k \<noteq> None)
     else 1 \<le> fd \<and> fd \<le> 1024 \<and> open_files (caller w) (kw_sched w) fd = None \<and>
       (\<forall>k. 1 \<le> k \<and> k < fd \<longrightarrow> open_files (caller w) (kw_sched w) k \<noteq> None) \<and>
       open_files (caller w) (kw_sched w2) = (open_files (caller w) (kw_sched w))(fd \<mapsto> v))"
proof -
  have sched: "kw_sched w1 = kw_sched w" by (rule vfs_open_quiet [OF assms(2)])
  then have call: "caller w1 = caller w" by (intro caller_cong) simp
  show ?thesis
  proof (cases "res < 0")
    case True
    then show ?thesis using assms sched call by (auto simp: fd_open_def)
  next
    case False
    obtain r s' where put: "scheduler_fput (kw_sched w) (caller w) v = Some (r, s')" "fd_inv (caller w) s'"
      and step: "if r = 0 then s' = kw_sched w \<and> (\<forall>k. 1 \<le> k \<and> k \<le> 1024 \<longrightarrow> open_files (caller w) (kw_sched w) k \<noteq> None)
        else 1 \<le> r \<and> r \<le> 1024 \<and> open_files (caller w) (kw_sched w) r = None \<and>
          (\<forall>k. 1 \<le> k \<and> k < r \<longrightarrow> open_files (caller w) (kw_sched w) k \<noteq> None) \<and>
          open_files (caller w) s' = (open_files (caller w) (kw_sched w))(r \<mapsto> v)"
      using scheduler_fput_step [OF assms(1), of v] by blast
    let ?w2 = "w1\<lparr>kw_sched := s'\<rparr>"
    have c2: "caller ?w2 = caller w" using fput_running [OF put(1)] by (intro caller_cong) simp
    have o: "fd_open nodes drv parent filename flags w = Some (if r = 0 then - LINUX_EMFILE else r, ?w2)"
      using assms(2) False put(1) sched call by (simp add: fd_open_def)
    show ?thesis
    proof (cases "r = 0")
      case True
      then have "?w2 = w1" using step sched by simp
      with o True step False c2 put(2) sched show ?thesis by auto
    next
      case rn: False
      then have "r \<noteq> - LINUX_EMFILE" using step by auto
      with o rn step False c2 put(2) show ?thesis by auto
    qed
  qed
qed

end

subsection \<open>The process file system\<close>

text \<open>Tracing, as the driver calls it, goes through the same file system.\<close>

definition procfs_tracer :: "vnode list \<Rightarrow> string \<Rightarrow> tracer" where
  "procfs_tracer nodes garbage = vfs_trace nodes (\<lambda>d. procfs_nav garbage)"

lemma enter_sched: "procfs_enter v a w st = Some (res, v', w') \<Longrightarrow> kw_sched w' = kw_sched w"
  by (auto simp: procfs_enter_def proc_store_def)

lemma deliver_sched: "procfs_deliver a st k entries w = Some (res, out, w') \<Longrightarrow> kw_sched w' = kw_sched w"
  by (auto simp: procfs_deliver_def proc_store_def split: prod.splits if_splits)

lemma procfs_open_sched:
  assumes "procfs_open v part flags w = Some (res, v', w')"
  shows "kw_sched w' = kw_sched w"
proof -
  from assms obtain a st where d: "proc_deref v w = Some (a, st)" by (auto simp: procfs_open_def bind_eq_Some_conv)
  with assms show ?thesis
    by (cases "pr_node st") (auto simp: procfs_open_def bind_eq_Some_conv Let_def dest: enter_sched split: if_splits)
qed

lemma procfs_lookup_sched:
  assumes "procfs_lookup garbage v w = Some (res, name, w')"
  shows "kw_sched w' = kw_sched w"
proof -
  from assms obtain a st where "proc_deref v w = Some (a, st)" by (auto simp: procfs_lookup_def bind_eq_Some_conv)
  with assms show ?thesis by (cases "pr_node st") (auto simp: procfs_lookup_def)
qed

lemmas procfs_walk_defs = procfs_root_def procfs_clone_def procfs_close_def proc_alloc_def bind_eq_Some_conv

interpretation pn: quiet_nav "\<lambda>d. procfs_nav garbage" for garbage
  by unfold_locales
    (auto simp: procfs_nav_def procfs_walk_defs dest: procfs_open_sched procfs_lookup_sched)

lemma tracer_quiet: "procfs_tracer nodes garbage v n w = Some (out, w') \<Longrightarrow> kw_sched w' = kw_sched w"
  unfolding procfs_tracer_def by (rule pn.trace_quiet)

lemma procfs_read_sched:
  assumes "procfs_read (procfs_tracer nodes garbage) garbage v n w = Some (res, out, w')"
  shows "kw_sched w' = kw_sched w"
proof -
  from assms obtain a st where "proc_deref v w = Some (a, st)" by (auto simp: procfs_read_def bind_eq_Some_conv)
  with assms show ?thesis
    by (cases "pr_node st")
      (auto simp: procfs_read_def bind_eq_Some_conv proc_store_def dest!: tracer_quiet split: prod.splits)
qed

lemma procfs_list_sched:
  assumes "procfs_list garbage v k w = Some (res, out, w')"
  shows "kw_sched w' = kw_sched w"
proof -
  from assms obtain a st where "proc_deref v w = Some (a, st)" by (auto simp: procfs_list_def bind_eq_Some_conv)
  with assms show ?thesis
    by (cases "pr_node st") (auto simp: procfs_list_def bind_eq_Some_conv dest: deliver_sched)
qed

lemma procfs_seek_sched:
  "procfs_seek v offset whence w = Some (res, w') \<Longrightarrow> kw_sched w' = kw_sched w"
  by (auto simp: procfs_seek_def bind_eq_Some_conv proc_store_def Let_def split: if_splits)

interpretation pd: quiet_drivers "\<lambda>d. procfs_load (procfs_tracer nodes garbage) garbage" for nodes garbage
  by unfold_locales
    (auto simp: procfs_load_def procfs_walk_defs procfs_write_def procfs_stat_def Let_def
      dest: procfs_open_sched procfs_lookup_sched procfs_read_sched procfs_seek_sched procfs_list_sched)

subsection \<open>Descriptors\<close>

lemma fd_resolve_files:
  assumes "fd_inv (caller w) (kw_sched w)"
  shows "fd_resolve fd w = Some (open_files (caller w) (kw_sched w) fd)"
proof -
  have live: "proc_live (kw_sched w) (caller w)" using assms by (simp add: fd_inv_def)
  obtain flags where f: "ps_fileExists (proc_of (kw_sched w) (caller w)) = Some flags"
    using assms by (auto simp: fd_inv_def fd_ok_def)
  show ?thesis
    using live f by (auto simp: fd_resolve_def open_files_flags [OF assms f] scheduler_fget_def proc_of_def)
qed

lemma close_breaks:
  assumes "quiet_drivers drv" "fd_inv (caller w) (kw_sched w)" "open_files (caller w) (kw_sched w) fd = Some v"
    and "vfs_close drv v w = Some (r, v', w1)"
  shows "\<exists>w2. sys_close drv fd w = Some (0, w2) \<and> caller w2 = caller w \<and> proc_live (kw_sched w2) (caller w) \<and>
    ps_fileExists (proc_of (kw_sched w2) (caller w)) = None"
proof -
  let ?s = "kw_sched w" and ?pid = "caller w"
  let ?p = "proc_of ?s ?pid"
  have live: "proc_live ?s ?pid" using assms(2) by (simp add: fd_inv_def)
  obtain flags where f: "ps_fileExists ?p = Some flags" using assms(2) by (auto simp: fd_inv_def fd_ok_def)
  have fd: "1 \<le> fd" "fd \<le> 1024" "flags ! nat (fd - 1)" "ps_files ?p ! nat (fd - 1) = v"
    using assms(3) open_files_flags [OF assms(2) f, of fd] by (auto split: if_splits)
  have sched: "kw_sched w1 = ?s"
    by (rule quiet_nav.vfs_close_quiet [OF quiet_drivers.axioms(1) [OF assms(1)] assms(4)])
  let ?q = "?p\<lparr>ps_files := (ps_files ?p)[nat (fd - 1) := v']\<rparr>"
  let ?s1 = "proc_set ?s ?pid ?q"
  let ?s2 = "proc_set ?s1 ?pid (?q\<lparr>ps_fileExists := None\<rparr>)"
  have ex: "ps_exists ?p" using live by (simp add: proc_live_def proc_of_def)
  have live1: "proc_live ?s1 ?pid" using live ex by simp
  have up: "scheduler_update ?s ?pid (\<lambda>p. p\<lparr>ps_files := (ps_files p)[nat (fd - 1) := v']\<rparr>) = Some (0, ?s1)"
    using live by (simp add: scheduler_update_def proc_set_def)
  have rm: "scheduler_fremove ?s1 ?pid fd = Some (0, ?s2)"
    using live1 live f fd by (simp add: scheduler_fremove_def proc_set_def [of ?s1])
  have get: "scheduler_fget ?s ?pid fd = Some (Some (nat (fd - 1)))"
    using live f fd by (simp add: scheduler_fget_def)
  have "sys_close drv fd w = Some (0, w1\<lparr>kw_sched := ?s2\<rparr>)"
    using fd(1) get live assms(4) fd(4) sched up rm by (simp add: sys_close_def Let_def)
  moreover have "caller (w1\<lparr>kw_sched := ?s2\<rparr>) = ?pid" by (rule caller_cong) (simp add: proc_set_def)
  moreover have "proc_live ?s2 ?pid" "ps_fileExists (proc_of ?s2 ?pid) = None" using live1 ex by simp_all
  ultimately show ?thesis by auto
qed

text \<open>A name of 255 characters or more ends the path with \<^verbatim>\<open>ENAMETOOLONG\<close>.\<close>

lemma resolve_long:
  assumes "length buffer \<le> 255" "\<forall>i < 255 - length buffer. off + i < length s \<and> s ! (off + i) \<noteq> CHR ''/'' \<and> s ! (off + i) \<noteq> CHR 0x00"
  shows "snd (snd (vfs_resolve_loop s off buffer e)) = LINUX_ENAMETOOLONG"
  using assms
proof (induction "255 - length buffer" arbitrary: buffer off)
  case 0
  then show ?case by (simp add: vfs_resolve_loop.simps)
next
  case (Suc n)
  then have lt: "length buffer < 255" by simp
  have c: "off < length s" "s ! off \<noteq> CHR ''/''" "s ! off \<noteq> CHR 0x00" using Suc.prems(2) lt by (auto dest: spec [of _ 0])
  have "snd (snd (vfs_resolve_loop s (off + 1) (buffer @ [s ! off]) e)) = LINUX_ENAMETOOLONG"
  proof (rule Suc.hyps(1))
    show "n = 255 - length (buffer @ [s ! off])" "length (buffer @ [s ! off]) \<le> 255" using Suc.hyps(2) lt by simp_all
    show "\<forall>i < 255 - length (buffer @ [s ! off]). off + 1 + i < length s \<and> s ! (off + 1 + i) \<noteq> CHR ''/'' \<and> s ! (off + 1 + i) \<noteq> CHR 0x00"
    proof (intro allI impI)
      fix i assume "i < 255 - length (buffer @ [s ! off])"
      then have "Suc i < 255 - length buffer" by simp
      with Suc.prems(2) show "off + 1 + i < length s \<and> s ! (off + 1 + i) \<noteq> CHR ''/'' \<and> s ! (off + 1 + i) \<noteq> CHR 0x00"
        by (auto dest!: spec [of _ "Suc i"])
    qed
  qed
  with lt c show ?case by (simp add: vfs_resolve_loop.simps [of s off] string_at_def Let_def)
qed

lemma open_long:
  assumes "no_nul name" "CHR ''/'' \<notin> set name" "255 \<le> length name"
    and "vfs_update nodes drv vfs_root w = Some (r, v, w1)"
  shows "vfs_open nodes drv rel (CHR ''/'' # name) flags w = Some (LINUX_ENAMETOOLONG, v, w1)"
proof -
  let ?s = "CHR ''/'' # name"
  have ch: "\<forall>i < 255 - length []. 1 + i < length ?s \<and> ?s ! (1 + i) \<noteq> CHR ''/'' \<and> ?s ! (1 + i) \<noteq> CHR 0x00"
    using assms(1-3) by (auto simp: no_nul_def) (metis less_le_trans nth_mem)+
  obtain b o' e where l: "vfs_resolve_loop ?s 1 [] 0 = (b, o', e)" by (cases "vfs_resolve_loop ?s 1 [] 0")
  have e: "e = LINUX_ENAMETOOLONG" using resolve_long [OF _ ch, of 0] l by simp
  have "string_at ?s 1 \<noteq> CHR 0x00" using ch by (auto simp: string_at_def dest!: spec [of _ 0])
  then have res: "\<exists>b p. vfs_resolve (vfs_path ?s) = (True, b, p) \<and> p_errno p = LINUX_ENAMETOOLONG"
    using l e by (auto simp: vfs_resolve_def vfs_path_def Let_def string_at_def)
  then show ?thesis
    using assms(4) by (auto simp: vfs_open_def vfs_refcpy_def vfs_root_def string_at_def vfs_open_loop.simps)
qed

subsection \<open>Properties\<close>


text \<open>A path with a name that is too long is opened all the same.  \<^verbatim>\<open>vfs_open\<close> reports the error as a
  positive number, which \<^verbatim>\<open>fd_open\<close> does not take for an error: as long as a descriptor is free the call
  returns one, and it stands for the reference at which the walk stopped.\<close>

theorem sys_open_long_name:
  assumes "quiet_drivers drv" "fd_inv (caller w) (kw_sched w)" "fd_cwd w = Some cwd"
    and "vfs_update nodes drv vfs_root w = Some (r, v, w1)"
    and "no_nul name" "CHR ''/'' \<notin> set name" "255 \<le> length name"
    and "1 \<le> k" "k \<le> 1024" "fd_resolve k w = Some None"
  shows "\<exists>fd w2. sys_open nodes drv (CHR ''/'' # name) flags mode w = Some (fd, w2) \<and> 1 \<le> fd \<and>
    fd_resolve fd w2 = Some (Some v)"
proof -
  have o: "vfs_open nodes drv cwd (CHR ''/'' # name) flags w = Some (LINUX_ENAMETOOLONG, v, w1)"
    by (rule open_long [OF assms(5-7,4)])
  have free: "open_files (caller w) (kw_sched w) k = None" using assms(10) by (simp add: fd_resolve_files [OF assms(2)])
  obtain fd w2 where f: "fd_open nodes drv cwd (CHR ''/'' # name) flags w = Some (fd, w2)" "caller w2 = caller w"
    "fd_inv (caller w) (kw_sched w2)"
    "fd = - LINUX_EMFILE \<longrightarrow> (\<forall>k. 1 \<le> k \<and> k \<le> 1024 \<longrightarrow> open_files (caller w) (kw_sched w) k \<noteq> None)"
    "fd \<noteq> - LINUX_EMFILE \<longrightarrow> 1 \<le> fd \<and> open_files (caller w) (kw_sched w2) = (open_files (caller w) (kw_sched w))(fd \<mapsto> v)"
    using quiet_drivers.fd_open_table [OF assms(1,2) o] by (auto split: if_splits)
  have "fd \<noteq> - LINUX_EMFILE" using f(4) free assms(8,9) by blast
  with f(5) have fd: "1 \<le> fd" "open_files (caller w) (kw_sched w2) fd = Some v" by auto
  have "fd_resolve fd w2 = Some (Some v)" using fd_resolve_files [of w2 fd] f(2,3) fd(2) by simp
  with f(1) fd(1) assms(3) show ?thesis by (simp add: sys_open_def)
qed

text \<open>C38. \<^verbatim>\<open>close\<close> ends every use of descriptors.  Closing an open one succeeds, and then the pointer to the
  flags of the process is null: resolving any descriptor in range, open or not, dereferences it, and
  so does the installation of a new one.\<close>

theorem sys_close_breaks:
  assumes "quiet_drivers drv" "fd_inv (caller w) (kw_sched w)" "fd_resolve fd w = Some (Some v)"
    and "vfs_close drv v w = Some (r, v', w1)"
  shows "\<exists>w2. sys_close drv fd w = Some (0, w2) \<and> (\<forall>k. 1 \<le> k \<and> k \<le> 1024 \<longrightarrow> fd_resolve k w2 = None) \<and>
    scheduler_fput (kw_sched w2) (caller w2) u = None"
proof -
  have "open_files (caller w) (kw_sched w) fd = Some v" using assms(3) by (simp add: fd_resolve_files [OF assms(2)])
  from close_breaks [OF assms(1,2) this assms(4)] obtain w2 where c: "sys_close drv fd w = Some (0, w2)"
    "caller w2 = caller w" "proc_live (kw_sched w2) (caller w)"
    "ps_fileExists (proc_of (kw_sched w2) (caller w)) = None" by blast
  have "fd_resolve k w2 = None" if "1 \<le> k" "k \<le> 1024" for k
    using that c(2-4) by (simp add: fd_resolve_def scheduler_fget_def)
  moreover have "scheduler_fput (kw_sched w2) (caller w2) u = None" using c(2-4) by (simp add: scheduler_fput_def)
  ultimately show ?thesis using c(1) by blast
qed

text \<open>A descriptor that is not open is refused with \<^verbatim>\<open>EBADF\<close> by every call that takes one, and nothing
  changes; this covers zero, negative numbers and those above the limit.\<close>

theorem bad_descriptor:
  assumes "fd_inv (caller w) (kw_sched w)" "open_files (caller w) (kw_sched w) fd = None"
  shows "sys_read drv fd n w = Some (- LINUX_EBADF, [], w) \<and> sys_write drv fd buffer w = Some (- LINUX_EBADF, w) \<and>
    sys_lseek drv fd offset whence w = Some (- LINUX_EBADF, w) \<and> sys_close drv fd w = Some (- LINUX_EBADF, w) \<and>
    sys_openat nodes drv fd path flags mode w = Some (- LINUX_EBADF, w) \<and>
    sys_mkdirat drv fd path mode w = Some (- LINUX_EBADF, w) \<and>
    sys_unlinkat nodes drv fd path flag w = Some (- LINUX_EBADF, w) \<and>
    sys_fstat drv fd w = Some (- LINUX_EBADF, None, w) \<and> sys_newfstat drv fd w = Some (- LINUX_EBADF, None, w) \<and>
    sys_fstat64 drv fd w = Some (- LINUX_EBADF, None, w) \<and>
    getdents fmt drv stack fd buf sz m w = Some (- LINUX_EBADF, m, w)"
proof -
  have r: "fd_resolve fd w = Some None" using assms(2) by (simp add: fd_resolve_files [OF assms(1)])
  have live: "proc_live (kw_sched w) (caller w)" using assms(1) by (simp add: fd_inv_def)
  obtain flags where f: "ps_fileExists (proc_of (kw_sched w) (caller w)) = Some flags"
    using assms(1) by (auto simp: fd_inv_def fd_ok_def)
  have g: "scheduler_fget (kw_sched w) (caller w) fd = Some None"
    using assms(2) open_files_flags [OF assms(1) f, of fd] live f by (auto simp: scheduler_fget_def split: if_splits)
  show ?thesis
    by (simp add: sys_read_def sys_write_def sys_lseek_def sys_openat_def sys_mkdirat_def sys_unlinkat_def sys_fstat_def
        sys_newfstat_def sys_fstat64_def fstat_c_def getdents_def r sys_close_def Let_def g)
qed

text \<open>The mode that the three \<^verbatim>\<open>stat\<close> structures report carries no file type: the four bits that hold it are
  clear for every type, because \<^verbatim>\<open>mkmode\<close> shifts the type by 4 bits and not by 12.\<close>

theorem stat_mode_no_type:
  "os_mode (vstat_to_linux_old st) AND 0xF000 = 0 \<and> ls_mode (vstat_to_linux_32 st) AND 0xF000 = 0 \<and>
    ls_mode (vstat_to_linux_64 st) AND 0xF000 = 0"
proof -
  have "mkmode t p p p False False AND 0xF000 = 0" if "p = 5 \<or> p = 7" for t p
    using that by (cases t) (auto simp: mkmode_def)
  then show ?thesis by (simp add: vstat_to_linux_old_def vstat_to_linux_32_def vstat_to_linux_64_def Let_def)
qed

text \<open>The number of a system call is only compared with the upper bound: one beyond the table
  stops the kernel, a negative one reads a handler from the memory before the table.\<close>

theorem sys_linux_bounds:
  "sys_linux table (int (length table) + int n) b c d s i w = Some Panic \<and>
    sys_linux table (- 1 - int n) b c d s i w = None"
  by (simp add: sys_linux_def)

subsection \<open>Witnesses\<close>

text \<open>Process 1 of the demo table runs on the two mounts of the kernel, with its root as directory.\<close>

definition demo_driver :: "nat \<Rightarrow> kworld driver" where
  "demo_driver = (\<lambda>d. procfs_load (procfs_tracer vfs_init (replicate 16 NUL)) (replicate 16 NUL))"

definition demo_nodes :: "vnode list" where
  "demo_nodes = [\<lparr>n_sibling = None, n_child = None, n_parent = 0, n_driver = Some 1, n_name = ''root''\<rparr>]"

lemma demo_quiet: "quiet_drivers demo_driver"
  unfolding demo_driver_def by (rule pd.quiet_drivers_axioms)

lemma demo_caller: "caller kworld_demo = 1"
  by (simp add: caller_def scheduler_get_current_pid_def kworld_demo_def sched_demo_def)

lemma demo_sched: "kw_sched kworld_demo = sched_demo"
  by (simp add: kworld_demo_def)

lemma demo_inv: "fd_inv (caller kworld_demo) (kw_sched kworld_demo)"
  by (simp add: demo_caller demo_sched)

lemma demo_cwd: "fd_cwd kworld_demo = Some vfs_root"
proof -
  have "scheduler_load_process_info sched_demo no_process 1 = Some (0, demo_process\<lparr>ps_exists := False, ps_stack := 0\<rparr>)"
    using live_valid(1,2) [OF sched_demo_simps(1)]
    by (simp add: scheduler_load_process_info_def no_process_def del: diff_self)
  then show ?thesis
    by (simp add: fd_cwd_def caller_process_def demo_caller demo_sched) (simp add: demo_process_def no_process_def)
qed

lemma demo_free: "open_files (caller kworld_demo) (kw_sched kworld_demo) k = None"
proof -
  have "ps_fileExists (proc_of sched_demo 1) = Some (replicate 1024 False)" by (simp add: demo_process_def)
  from open_files_flags [OF sched_demo_simps(2) this, of k] show ?thesis
    by (simp add: demo_caller demo_sched del: One_nat_def)
qed

lemma demo_resolve: "fd_resolve k kworld_demo = Some None"
  by (simp add: fd_resolve_files [OF demo_inv] demo_free)

definition demo_ref :: vref where
  "demo_ref = \<lparr>r_node = 0, r_offset = 0, r_driver = Some 1, r_state = Some 0\<rparr>"

definition demo_opened :: kworld where
  "demo_opened = kworld_demo\<lparr>kw_states := [0 \<mapsto> \<lparr>pr_pid = 0, pr_node = PROC_NODE_ROOT, pr_offset = 0\<rparr>], kw_next := 1\<rparr>"

lemma demo_update: "vfs_update demo_nodes demo_driver vfs_root kworld_demo = Some (0, demo_ref, demo_opened)"
  by (simp add: vfs_update_def vfs_root_def vfs_enable_def demo_nodes_def demo_driver_def procfs_load_def procfs_root_def
      proc_alloc_def kworld_demo_def demo_ref_def demo_opened_def)

lemma demo_open: "vfs_open demo_nodes demo_driver vfs_root ''/'' flags kworld_demo = Some (0, demo_ref, demo_opened)"
proof -
  have "vfs_refcpy demo_driver vfs_root kworld_demo = Some (vfs_root, kworld_demo)"
    by (simp add: vfs_refcpy_def vfs_root_def)
  moreover have "vfs_resolve (vfs_path ''/'') = (False, [], (vfs_path ''/'')\<lparr>p_offset := 1\<rparr>)"
    by (simp add: vfs_resolve_def vfs_path_def string_at_def Let_def)
  ultimately show ?thesis by (simp add: vfs_open_def string_at_def demo_update vfs_open_loop.simps)
qed


theorem sys_open_long_name_witness:
  "\<exists>fd w2. sys_open demo_nodes demo_driver (CHR ''/'' # replicate 300 (CHR ''a'')) 0 0 kworld_demo = Some (fd, w2) \<and> 1 \<le> fd"
proof -
  have "no_nul (replicate 300 (CHR ''a''))" "CHR ''/'' \<notin> set (replicate 300 (CHR ''a''))" "255 \<le> length (replicate 300 (CHR ''a''))"
    by (simp_all add: no_nul_def)
  from sys_open_long_name [OF demo_quiet demo_inv demo_cwd demo_update this, of 1 0 0] demo_resolve [of 1]
  show ?thesis by auto
qed

theorem sys_close_breaks_witness:
  "\<exists>w w2. sys_open demo_nodes demo_driver ''/'' 0 0 kworld_demo = Some (1, w) \<and> sys_close demo_driver 1 w = Some (0, w2) \<and>
     fd_resolve 7 w2 = None"
proof -
  obtain fd w2 where o: "fd_open demo_nodes demo_driver vfs_root ''/'' 0 kworld_demo = Some (fd, w2)" "caller w2 = caller kworld_demo"
    "fd_inv (caller kworld_demo) (kw_sched w2)"
    using quiet_drivers.fd_open_table [OF demo_quiet demo_inv demo_open] by blast
  obtain s where s: "scheduler_fput sched_demo 1 demo_ref = Some (1, s)" using fput_demo [of demo_ref] by blast
  have sched: "kw_sched demo_opened = sched_demo" "caller demo_opened = 1"
    using demo_caller by (simp_all add: demo_opened_def kworld_demo_def caller_def)
  have w2: "fd = 1" "w2 = demo_opened\<lparr>kw_sched := s\<rparr>"
    using o(1) demo_open s sched by (simp_all add: fd_open_def)
  have inv: "fd_inv (caller w2) (kw_sched w2)" using o(2,3) by simp
  obtain r' s' where "scheduler_fput sched_demo 1 demo_ref = Some (r', s')"
    "r' \<noteq> 0 \<longrightarrow> open_files 1 s' = (open_files 1 sched_demo)(r' \<mapsto> demo_ref)"
    using scheduler_fput_step [of 1 sched_demo demo_ref] by (auto split: if_splits)
  with s have "open_files 1 s 1 = Some demo_ref" by simp
  then have res: "fd_resolve 1 w2 = Some (Some demo_ref)"
    using fd_resolve_files [OF inv, of 1] o(2) demo_caller w2(2) by simp
  have "proc_deref demo_ref w2 = Some (0, \<lparr>pr_pid = 0, pr_node = PROC_NODE_ROOT, pr_offset = 0\<rparr>)"
    by (simp add: w2(2) proc_deref_def demo_ref_def demo_opened_def)
  then have "\<exists>w3. vfs_close demo_driver demo_ref w2 = Some (0, demo_ref, w3)"
    by (simp add: vfs_close_def demo_ref_def demo_driver_def procfs_load_def procfs_close_def)
  then obtain w3 where "vfs_close demo_driver demo_ref w2 = Some (0, demo_ref, w3)" by blast
  from sys_close_breaks [OF demo_quiet inv res this, of vfs_root] obtain w4 where
    "sys_close demo_driver 1 w2 = Some (0, w4)" "\<forall>k. 1 \<le> k \<and> k \<le> 1024 \<longrightarrow> fd_resolve k w4 = None"
    by blast
  moreover have "sys_open demo_nodes demo_driver ''/'' 0 0 kworld_demo = Some (1, w2)"
    using o(1) w2(1) demo_cwd by (simp add: sys_open_def)
  ultimately show ?thesis by (intro exI [of _ w2] exI [of _ w4]) simp
qed

theorem bad_descriptor_witness:
  "sys_read demo_driver (- 3) 10 kworld_demo = Some (- LINUX_EBADF, [], kworld_demo) \<and>
    sys_close demo_driver 5 kworld_demo = Some (- LINUX_EBADF, kworld_demo)"
proof (rule conjI)
  show "sys_read demo_driver (- 3) 10 kworld_demo = Some (- LINUX_EBADF, [], kworld_demo)"
    by (rule bad_descriptor [OF demo_inv demo_free, THEN conjunct1])
  show "sys_close demo_driver 5 kworld_demo = Some (- LINUX_EBADF, kworld_demo)"
    by (rule bad_descriptor [OF demo_inv demo_free, THEN conjunct2, THEN conjunct2, THEN conjunct2, THEN conjunct1])
qed

end
