(* ===== verification/SyscallDir.thy ===== *)
theory SyscallDir
  imports SyscallLaws
begin

section \<open>System calls: listing directories\<close>

text \<open>
  The loop of the three calls against two interfaces: a directory that delivers entries with
  bounded names, and a record format whose stores stay inside the size it is tested with.  Together
  they give that the calls return and stay inside the caller's buffer.
\<close>

subsection \<open>The interfaces\<close>

locale directory =
  fixes drv :: "nat \<Rightarrow> 'a kworld_scheme driver" and vref :: vref and inv :: "'a kworld_scheme \<Rightarrow> bool"
  assumes list_step: "inv w \<Longrightarrow> \<exists>c es w'. vfs_list drv vref 1 w = Some (c, es, w') \<and> inv w' \<and>
      (c > 0 \<longrightarrow> es \<noteq> [] \<and> uint (ve_name_length (hd es)) \<le> 256)"
    and seek_step: "inv w \<Longrightarrow> \<exists>r w'. vfs_seek drv vref offset SEEK_SET w = Some (r, w')"

locale record_format =
  fixes fmt :: dirent_format
  assumes size_small: "uint (ve_name_length e) \<le> 256 \<Longrightarrow> uint (df_size fmt e) < 300"
    and step_bounds: "uint (ve_name_length e) \<le> 256 \<Longrightarrow> 0 < df_step fmt e \<and> df_step fmt e \<le> uint (df_size fmt e)"
    and store_inside: "uint (ve_name_length e) \<le> 256 \<Longrightarrow> x < a \<or> a + uint (df_size fmt e) \<le> x \<Longrightarrow> df_store fmt stack e a m x = m x"

declare getdents_loop.simps [simp del]

lemma sint_left:
  assumes "0 \<le> bytes" "bytes \<le> uint sz" "uint (sz :: u32) < 2147483648"
  shows "sint (sz - word_of_int bytes) = uint sz - bytes"
proof -
  have "sz - word_of_int bytes = word_of_int (uint sz - bytes)" by simp
  then show ?thesis using sint_of_pid [of "uint sz - bytes"] assms by (simp only:)
qed

lemma sint_of_small: "uint (s :: u32) < 2147483648 \<Longrightarrow> sint s = uint s"
  using sint_of_pid [of "uint s"] by simp

text \<open>One client of the two interfaces.\<close>

locale listing = directory drv vref inv + record_format fmt
  for drv :: "nat \<Rightarrow> 'a kworld_scheme driver" and vref inv and fmt :: dirent_format
begin

lemma loop_returns:
  assumes "uint sz < 2147483648"
  shows "inv w \<Longrightarrow> 0 \<le> bytes \<Longrightarrow> bytes \<le> uint sz \<Longrightarrow>
    \<exists>r m' w'. getdents_loop fmt drv stack vref buffer sz bytes m w = Some (r, m', w') \<and> r \<le> uint sz \<and>
      (\<forall>x. x < buffer + bytes \<or> buffer + uint sz \<le> x \<longrightarrow> m' x = m x)"
proof (induction "nat (uint sz - bytes)" arbitrary: bytes m w rule: less_induct)
  case less
  obtain c es w1 where l: "vfs_list drv vref 1 w = Some (c, es, w1)" "inv w1"
    "c > 0 \<longrightarrow> es \<noteq> [] \<and> uint (ve_name_length (hd es)) \<le> 256"
    using list_step [OF less.prems(1)] by blast
  show ?case
  proof (cases "c > 0")
    case False
    then show ?thesis using l less.prems assms by (auto simp: getdents_loop.simps [of fmt drv stack vref buffer sz bytes])
  next
    case True
    then obtain e es' where es: "es = e # es'" "uint (ve_name_length e) \<le> 256" using l(3) by (cases es) auto
    note small = size_small [OF es(2)] and st = step_bounds [OF es(2)]
    have left: "sint (sz - word_of_int bytes) = uint sz - bytes" by (rule sint_left [OF less.prems(2,3) assms])
    have esz: "sint (df_size fmt e) = uint (df_size fmt e)" by (rule sint_of_small) (use small in simp)
    show ?thesis
    proof (cases "uint sz - bytes < uint (df_size fmt e)")
      case full: True
      obtain r w2 where "vfs_seek drv vref (sint (ve_seek_offset e)) SEEK_SET w1 = Some (r, w2)"
        using seek_step [OF l(2)] by blast
      then show ?thesis using l True es full left esz less.prems(2,3)
        by (auto simp: getdents_loop.simps [of fmt drv stack vref buffer sz bytes])
    next
      case room: False
      let ?m = "df_store fmt stack e (buffer + bytes) m" and ?b = "bytes + df_step fmt e"
      have b: "0 \<le> ?b" "?b \<le> uint sz" "nat (uint sz - ?b) < nat (uint sz - bytes)" using st room less.prems(2,3) by linarith+
      have i: "i32 ?b = ?b" using b assms by simp
      have step: "getdents_loop fmt drv stack vref buffer sz bytes m w = getdents_loop fmt drv stack vref buffer sz ?b ?m w1"
        using l True es room left esz by (simp add: getdents_loop.simps [of fmt drv stack vref buffer sz bytes] i)
      have frame: "?m x = m x" if "x < buffer + bytes \<or> buffer + uint sz \<le> x" for x
        by (rule store_inside [OF es(2)]) (use that room in linarith)
      show ?thesis
        using less.hyps [OF b(3) l(2) b(1,2), of ?m] frame st unfolding step by fastforce
    qed
  qed
qed

end

subsection \<open>The three formats\<close>

lemma length_entry_name [simp]: "length (entry_name stack e) = unat (ve_name_length e)"
  by (simp add: entry_name_def)

lemma uint_small_add:
  assumes "uint (n :: u32) \<le> 256" "0 \<le> k" "k < 1000"
  shows "uint (word_of_int k + n) = k + uint n" "uint (ucast (word_of_int k + n) :: u16) = k + uint n"
proof -
  have k: "uint (word_of_int k :: u32) = k" using assms by (simp add: uint_word_of_int)
  show 1: "uint (word_of_int k + n) = k + uint n" using assms k by (simp add: uint_word_ariths(1))
  have "uint (ucast (word_of_int k + n) :: u16) = uint (word_of_int k + n) mod 65536"
    by (simp only: unsigned_ucast_eq unsigned_take_bit_eq take_bit_eq_mod) simp
  then show "uint (ucast (word_of_int k + n) :: u16) = k + uint n" using 1 assms uint_ge_0 [of n] by simp
qed

lemma name_sums:
  "12 + n + 2 = word_of_int 14 + (n :: u32)" "12 + n = word_of_int 12 + (n :: u32)" "20 + n = word_of_int 20 + (n :: u32)"
  by simp_all

lemma format_sizes:
  assumes "uint (ve_name_length e) \<le> 256"
  shows "uint (df_size linux_dirent e) = 14 + uint (ve_name_length e)" "df_step linux_dirent e = 14 + uint (ve_name_length e)"
    "uint (df_size linux_dirent64 e) = 20 + uint (ve_name_length e)" "df_step linux_dirent64 e = 12 + uint (ve_name_length e)"
    "uint (df_size old_linux_dirent e) = 12 + uint (ve_name_length e)" "df_step old_linux_dirent e = 12 + uint (ve_name_length e)"
  using uint_small_add [OF assms, of 12] uint_small_add [OF assms, of 14] uint_small_add [OF assms, of 20]
    sint_of_small [of "word_of_int 12 + ve_name_length e"] assms
  unfolding linux_dirent_def linux_dirent64_def old_linux_dirent_def dirent_format.simps name_sums by simp_all

interpretation ld: record_format linux_dirent
proof
  fix e :: ventry and x a :: int and stack m
  assume n: "uint (ve_name_length e) \<le> 256"
  note s = format_sizes(1,2) [OF n] and u = uint_ge_0 [of "ve_name_length e"]
  show "uint (df_size linux_dirent e) < 300" unfolding s using n by linarith
  show "0 < df_step linux_dirent e \<and> df_step linux_dirent e \<le> uint (df_size linux_dirent e)" unfolding s using u by linarith
  assume "x < a \<or> a + uint (df_size linux_dirent e) \<le> x"
  then have "x < a \<or> a + 14 + uint (ve_name_length e) \<le> x" unfolding s by linarith
  then show "df_store linux_dirent stack e a m x = m x"
    using u unfolding linux_dirent_def dirent_format.simps Let_def
    by (subst store_bytes_other, simp, linarith?)+ simp
qed

interpretation ld64: record_format linux_dirent64
proof
  fix e :: ventry and x a :: int and stack m
  assume n: "uint (ve_name_length e) \<le> 256"
  note s = format_sizes(3,4) [OF n] and u = uint_ge_0 [of "ve_name_length e"]
  show "uint (df_size linux_dirent64 e) < 300" unfolding s using n by linarith
  show "0 < df_step linux_dirent64 e \<and> df_step linux_dirent64 e \<le> uint (df_size linux_dirent64 e)" unfolding s using u by linarith
  assume "x < a \<or> a + uint (df_size linux_dirent64 e) \<le> x"
  then have "x < a \<or> a + 20 + uint (ve_name_length e) \<le> x" unfolding s by linarith
  then show "df_store linux_dirent64 stack e a m x = m x"
    using u unfolding linux_dirent64_def dirent_format.simps Let_def
    by (subst store_bytes_other, simp, linarith?)+ simp
qed

interpretation old: record_format old_linux_dirent
proof
  fix e :: ventry and x a :: int and stack m
  assume n: "uint (ve_name_length e) \<le> 256"
  note s = format_sizes(5,6) [OF n] and u = uint_ge_0 [of "ve_name_length e"]
  show "uint (df_size old_linux_dirent e) < 300" unfolding s using n by linarith
  show "0 < df_step old_linux_dirent e \<and> df_step old_linux_dirent e \<le> uint (df_size old_linux_dirent e)" unfolding s using u by linarith
  assume "x < a \<or> a + uint (df_size old_linux_dirent e) \<le> x"
  then have "x < a \<or> a + 12 + uint (ve_name_length e) \<le> x" unfolding s by linarith
  then show "df_store old_linux_dirent stack e a m x = m x"
    using u unfolding old_linux_dirent_def dirent_format.simps Let_def
    by (subst store_bytes_other, simp, linarith?)+ simp
qed

subsection \<open>The directories of the process file system\<close>

text \<open>The directory of a process, or its empty \<^verbatim>\<open>fd\<close>, at an entry boundary.\<close>

definition proc_dir :: "vref \<Rightarrow> kworld \<Rightarrow> bool" where
  "proc_dir v w \<longleftrightarrow> (\<exists>a st k. proc_deref v w = Some (a, st) \<and> pr_offset st = 268 * k \<and> 0 \<le> k \<and>
     (pr_node st = PROC_NODE_PROC \<and> k \<le> 5 \<or> pr_node st = PROC_NODE_FD \<and> k \<le> 2))"

lemma deref_store: "r_state v = Some a \<Longrightarrow> proc_deref v (proc_store a st w) = Some (a, st)"
  by (simp add: proc_store_def)

lemma deliver_dir:
  assumes "proc_deref v w = Some (a, st)" "pr_offset st = 268 * k" "0 \<le> k" "k \<le> int (length es)" "length es \<le> 5"
    and "\<forall>e\<in>set es. uint (ve_name_length e) \<le> 256"
  shows "\<exists>c out w' k'. procfs_deliver a st 1 es w = Some (c, out, w') \<and> 0 \<le> k' \<and> k' \<le> int (length es) \<and>
    proc_deref v w' = Some (a, st\<lparr>pr_offset := 268 * k'\<rparr>) \<and>
    (c > 0 \<longrightarrow> out \<noteq> [] \<and> uint (ve_name_length (hd out)) \<le> 256)"
proof -
  have d: "procfs_deliver a st 1 es w = Some (min (int (length es) - k) 1, take (nat 1) (drop (nat k) es),
      proc_store a (st\<lparr>pr_offset := 268 * (k + min (int (length es) - k) 1)\<rparr>) w)"
    by (rule procfs_deliver_chunk) (use assms in auto)
  have "take (nat 1) (drop (nat k) es) \<noteq> [] \<and> uint (ve_name_length (hd (take (nat 1) (drop (nat k) es)))) \<le> 256"
    if "min (int (length es) - k) 1 > 0"
  proof -
    have "nat k < length es" using that assms(3) by linarith
    then show ?thesis using assms(6) by (simp add: hd_drop_conv_nth)
  qed
  moreover have "proc_deref v (proc_store a (st\<lparr>pr_offset := 268 * (k + min (int (length es) - k) 1)\<rparr>) w) =
      Some (a, st\<lparr>pr_offset := 268 * (k + min (int (length es) - k) 1)\<rparr>)"
    using proc_derefD [OF assms(1)] by (intro deref_store) blast
  moreover have "0 \<le> k + min (int (length es) - k) 1" "k + min (int (length es) - k) 1 \<le> int (length es)"
    using assms(3,4) by auto
  ultimately show ?thesis using d by blast
qed

interpretation pdir: directory "\<lambda>d. procfs_load trace garbage" "v\<lparr>r_driver := Some d\<rparr>" "proc_dir v" for trace garbage v d
proof
  fix w assume "proc_dir v w"
  then obtain a st k where d: "proc_deref v w = Some (a, st)" "pr_offset st = 268 * k" "0 \<le> k"
    "pr_node st = PROC_NODE_PROC \<and> k \<le> 5 \<or> pr_node st = PROC_NODE_FD \<and> k \<le> 2" by (auto simp: proc_dir_def)
  define es where "es = (if pr_node st = PROC_NODE_PROC
      then procfs_entries [(''.'', 1, DT_DIR), (''..'', 2, DT_DIR), (''exe'', 3, DT_LNK), (''cwd'', 3, DT_LNK), (''fd'', 2, DT_DIR)]
      else procfs_entries [(''.'', 1, DT_DIR), (''..'', 2, DT_DIR)])"
  have es: "k \<le> int (length es)" "length es \<le> 5" "\<forall>e\<in>set es. uint (ve_name_length e) \<le> 256"
    using d(4) by (auto simp: es_def procfs_entries_def)
  have deref: "proc_deref (v\<lparr>r_driver := Some d\<rparr>) u = proc_deref v u" for u by (simp add: proc_deref_def)
  have list_eq: "vfs_list (\<lambda>d. procfs_load trace garbage) (v\<lparr>r_driver := Some d\<rparr>) 1 w = procfs_deliver a st 1 es w"
    using d(1,4) by (auto simp: vfs_list_def procfs_load_def procfs_list_def deref es_def)
  obtain c out w' k' where o: "procfs_deliver a st 1 es w = Some (c, out, w')" "0 \<le> k'" "k' \<le> int (length es)"
    "proc_deref v w' = Some (a, st\<lparr>pr_offset := 268 * k'\<rparr>)" "c > 0 \<longrightarrow> out \<noteq> [] \<and> uint (ve_name_length (hd out)) \<le> 256"
    using deliver_dir [OF d(1-3) es] by blast
  have "proc_dir v w'" unfolding proc_dir_def using o(2-4) d(4)
    by (intro exI [of _ a] exI [of _ "st\<lparr>pr_offset := 268 * k'\<rparr>"] exI [of _ k']) (auto simp: es_def procfs_entries_def)
  with o(1,5) show "\<exists>c es w'. vfs_list (\<lambda>d. procfs_load trace garbage) (v\<lparr>r_driver := Some d\<rparr>) 1 w = Some (c, es, w') \<and>
      proc_dir v w' \<and> (c > 0 \<longrightarrow> es \<noteq> [] \<and> uint (ve_name_length (hd es)) \<le> 256)"
    unfolding list_eq by blast
  fix offset
  show "\<exists>r w'. vfs_seek (\<lambda>d. procfs_load trace garbage) (v\<lparr>r_driver := Some d\<rparr>) offset SEEK_SET w = Some (r, w')"
    using d(1) by (simp add: vfs_seek_def procfs_load_def procfs_seek_def deref)
qed

text \<open>The first eight bytes of a record are its inode number, zero.\<close>

lemma dirent64_ino:
  assumes "b \<le> x" "x < b + 8"
  shows "df_store linux_dirent64 stack e b m x = 0"
proof -
  have zero: "store_bytes b (bytes32 0 @ bytes32 0) m x = 0"
  proof -
    have "nat (x - b) < 8" using assms by linarith
    then have "(bytes32 0 @ bytes32 0) ! nat (x - b) = 0"
      by (auto simp: bytes32_def numeral_eq_Suc less_Suc_eq)
    then show ?thesis using assms by (simp add: store_bytes_def)
  qed
  have other: "store_bytes c bs m' x = m' x" if "b + 8 \<le> c" for c bs m'
    using that assms by (intro store_bytes_other) linarith
  show ?thesis by (simp add: linux_dirent64_def Let_def other zero)
qed

subsection \<open>Properties\<close>

text \<open>C18. Listing a directory into a buffer.  For a directory whose entries have names of at most 256 bytes,
  each of the three calls returns, for every size below 2 GB and every state of the directory; it
  reports at most the size of the buffer, and no byte outside the buffer is written.\<close>

theorem getdents_in_buffer:
  assumes "directory drv vref ready" "ready w" "fd_resolve fd w = Some (Some vref)" "uint sz < 2147483648"
    and "call \<in> {sys_getdents, sys_getdents64, sys_old_readdir}"
  shows "\<exists>r m' w'. call drv stack fd buffer sz m w = Some (r, m', w') \<and> r \<le> uint sz \<and>
    (\<forall>x. x < buffer \<or> buffer + uint sz \<le> x \<longrightarrow> m' x = m x)"
proof -
  obtain fmt where f: "call = getdents fmt" "record_format fmt"
    using assms(5) ld.record_format_axioms ld64.record_format_axioms old.record_format_axioms
    by (auto simp: sys_getdents_def sys_getdents64_def sys_old_readdir_def)
  have "listing drv vref ready fmt" using assms(1) f(2) by (rule listing.intro)
  from listing.loop_returns [OF this assms(4,2), of 0 stack buffer m] assms(3)
  show ?thesis by (simp add: f(1) getdents_def)
qed

text \<open>\<^verbatim>\<open>getdents64\<close> destroys the names it delivers.  It moves on by the size of the other structure, 8 bytes
  less than the record takes, so that the inode number of each record, which is 0, lands on the end
  of the name before it: the last seven bytes of that name are zero (all of a shorter one).\<close>

theorem getdents64_destroys_name:
  assumes "uint (ve_name_length e) \<le> 256" "uint (ve_name_length e) - 7 \<le> i" "0 \<le> i" "i < uint (ve_name_length e)"
  shows "df_store linux_dirent64 stack e' (a + df_step linux_dirent64 e) (df_store linux_dirent64 stack e a m) (a + 19 + i) = 0"
proof -
  have "df_step linux_dirent64 e = 12 + uint (ve_name_length e)" by (rule format_sizes(4) [OF assms(1)])
  then show ?thesis using assms(2,4) by (intro dirent64_ino) linarith+
qed

text \<open>The directory of process 0 in the demo world, listed through a descriptor.\<close>

definition demo_listing :: kworld where
  "demo_listing = (proc_demo PROC_NODE_PROC 0)\<lparr>kw_sched := proc_set sched_demo 1
     (demo_process\<lparr>ps_files := (replicate 1024 vfs_root)[0 := proc_demo_ref\<lparr>r_driver := Some 1\<rparr>],
                   ps_fileExists := Some ((replicate 1024 False)[0 := True])\<rparr>)\<rparr>"

theorem getdents_in_buffer_witness:
  "\<exists>r m' w'. sys_getdents64 demo_driver (\<lambda>_. 0) 1 4096 100 (\<lambda>_. 7) demo_listing = Some (r, m', w') \<and> m' 4196 = 7"
proof -
  let ?s = "kw_sched demo_listing" and ?v = "proc_demo_ref\<lparr>r_driver := Some 1\<rparr>"
  have put: "scheduler_fput sched_demo 1 ?v = Some (1, ?s)" using fput_demo [of ?v] by (simp add: demo_listing_def)
  obtain r' s' where s': "scheduler_fput sched_demo 1 ?v = Some (r', s')" "fd_inv 1 s'"
    "r' \<noteq> 0 \<longrightarrow> open_files 1 s' = (open_files 1 sched_demo)(r' \<mapsto> ?v)"
    using scheduler_fput_step [of 1 sched_demo ?v] by (auto split: if_splits)
  have call: "caller demo_listing = 1"
    using fput_running [OF put] by (simp add: caller_def scheduler_get_current_pid_def sched_demo_def)
  have res: "fd_resolve 1 demo_listing = Some (Some ?v)"
    using fd_resolve_files [of demo_listing 1] s' put call by simp
  have "proc_dir proc_demo_ref demo_listing"
    unfolding proc_dir_def by (rule exI [of _ 0]) (simp add: proc_deref_def proc_demo_ref_def demo_listing_def proc_demo_def)
  from getdents_in_buffer [OF pdir.directory_axioms this res, of 100 sys_getdents64 "procfs_tracer vfs_init (replicate 16 NUL)" "replicate 16 NUL" "\<lambda>_. 0" 4096 "\<lambda>_. 7"]
  show ?thesis unfolding demo_driver_def by fastforce
qed

theorem getdents64_destroys_name_witness:
  "df_store linux_dirent64 (\<lambda>_. 1) \<lparr>ve_seek_offset = 268, ve_name_length = 2, ve_name = ''fd'', ve_type = DT_DIR\<rparr>
     (0 + df_step linux_dirent64 \<lparr>ve_seek_offset = 0, ve_name_length = 3, ve_name = ''exe'', ve_type = DT_LNK\<rparr>)
     (df_store linux_dirent64 (\<lambda>_. 1) \<lparr>ve_seek_offset = 0, ve_name_length = 3, ve_name = ''exe'', ve_type = DT_LNK\<rparr> 0 (\<lambda>_. 9))
     (0 + 19 + 2) = 0"
  by (rule getdents64_destroys_name) simp_all

end
