(* ===== verification/Elf.thy ===== *)
theory Elf
  imports Vfs CMath CMemory Bytes
begin

section \<open>The ELF loader (rivendell.c)\<close>

text \<open>
  The loader reads a file through the virtual file system into memory that it allocates.  A
  read may deliver less than it was asked for; what it does not fill of a local structure is what
  the stack held, an argument here.  \<^verbatim>\<open>kmalloc\<close> is assembly; it is a parameter that gives the
  address of a block of the size.  The diagnostic output is left out.  The lemmas of the locale \<open>reader\<close> say what
  the copies write; \<open>Exec\<close> draws the consequences.
\<close>

abbreviation (input) ELF_SUCCESS :: int where "ELF_SUCCESS \<equiv> 0"
abbreviation (input) ELF_READ_ERROR :: int where "ELF_READ_ERROR \<equiv> - 1"
abbreviation (input) ELF_IDENT_ERROR :: int where "ELF_IDENT_ERROR \<equiv> - 2"
abbreviation (input) ELF_WRONG_MACHINE_ERROR :: int where "ELF_WRONG_MACHINE_ERROR \<equiv> - 3"
abbreviation (input) ELF_HEADER_ERROR :: int where "ELF_HEADER_ERROR \<equiv> - 4"

abbreviation (input) EM_NONE :: u16 where "EM_NONE \<equiv> 0"
abbreviation (input) EM_386 :: u16 where "EM_386 \<equiv> 3"
abbreviation (input) PT_LOAD :: u32 where "PT_LOAD \<equiv> 1"
abbreviation (input) sizeof_Ehdr :: nat where "sizeof_Ehdr \<equiv> 52"
abbreviation (input) sizeof_Phdr :: nat where "sizeof_Phdr \<equiv> 32"

subsection \<open>Structures\<close>

record image_segment =
  is_file_offset :: u32
  is_mem_offset :: u32
  is_file_size :: u32
  is_mem_size :: u32

record elf_ehdr =
  eh_ident :: "u8 list"
  eh_type :: u16
  eh_machine :: u16
  eh_version :: u32
  eh_entry :: u32
  eh_phoff :: u32
  eh_shoff :: u32
  eh_flags :: u32
  eh_ehsize :: u16
  eh_phentsize :: u16
  eh_phnum :: u16
  eh_shentsize :: u16
  eh_shnum :: u16
  eh_shstrndx :: u16

definition ehdr_of_bytes :: "u8 list \<Rightarrow> elf_ehdr" where
  "ehdr_of_bytes bs =
     \<lparr>eh_ident = take 16 bs, eh_type = le16 bs 16, eh_machine = le16 bs 18, eh_version = le32 bs 20, eh_entry = le32 bs 24,
      eh_phoff = le32 bs 28, eh_shoff = le32 bs 32, eh_flags = le32 bs 36, eh_ehsize = le16 bs 40,
      eh_phentsize = le16 bs 42, eh_phnum = le16 bs 44, eh_shentsize = le16 bs 46, eh_shnum = le16 bs 48,
      eh_shstrndx = le16 bs 50\<rparr>"

record elf_phdr =
  ph_type :: u32
  ph_offset :: u32
  ph_vaddr :: u32
  ph_paddr :: u32
  ph_filesz :: u32
  ph_memsz :: u32
  ph_flags :: u32
  ph_align :: u32

definition phdr_of_bytes :: "u8 list \<Rightarrow> elf_phdr" where
  "phdr_of_bytes bs =
     \<lparr>ph_type = le32 bs 0, ph_offset = le32 bs 4, ph_vaddr = le32 bs 8, ph_paddr = le32 bs 12, ph_filesz = le32 bs 16,
      ph_memsz = le32 bs 20, ph_flags = le32 bs 24, ph_align = le32 bs 28\<rparr>"

record program_image =
  pi_prefix :: u32
  pi_sufix :: u32
  pi_entry :: u32
  pi_mount :: u32
  pi_image :: u32

definition elf_phtypestr :: "u32 \<Rightarrow> string" where
  "elf_phtypestr t =
     (if t = 0 then ''NULL'' else if t = PT_LOAD then ''LOAD'' else if t = 2 then ''DYNM'' else if t = 3 then ''INTR''
      else if t = 4 then ''NOTE'' else if t = 5 then ''SLIB'' else if t = 5 then ''PHDR'' else ''????'')"

definition elf_err :: "int \<Rightarrow> string" where
  "elf_err err =
     (if err = ELF_READ_ERROR then ''read error''
      else if err = ELF_IDENT_ERROR then ''invalid file identification''
      else if err = ELF_WRONG_MACHINE_ERROR then ''not a Intel 383 file''
      else if err = ELF_HEADER_ERROR then ''invalid data in header''
      else [])"

definition elf_checkident :: "u8 list \<Rightarrow> int" where
  "elf_checkident ident =
     (if ident ! 0 \<noteq> 0x7F then 1
      else if ident ! 1 \<noteq> 0x45 then 1
      else if ident ! 2 \<noteq> 0x4C then 1
      else if ident ! 3 \<noteq> 0x46 then 1
      else if ident ! 4 \<noteq> 1 then 1
      else if ident ! 5 \<noteq> 1 then 1
      else if ident ! 6 \<noteq> 1 then 1
      else 0)"

subsection \<open>Reading\<close>

text \<open>A structure of the size of \<open>stack\<close> on the stack after a read that delivered \<open>out\<close>.\<close>

definition read_into :: "u8 list \<Rightarrow> u8 list \<Rightarrow> u8 list" where
  "read_into stack out = take (length stack) (out @ drop (length out) stack)"

definition elf_segcpy ::
  "(nat \<Rightarrow> 'w driver) \<Rightarrow> vref \<Rightarrow> u32 \<Rightarrow> u32 \<Rightarrow> image_segment \<Rightarrow> mem \<Rightarrow> 'w \<Rightarrow> (int \<times> mem \<times> 'w) option" where
  "elf_segcpy drv vref img mount segment m w =
     do {
       (_, w) \<leftarrow> vfs_seek drv vref (sint (is_file_offset segment)) SEEK_SET w;
       let address = is_mem_offset segment - mount;
       let content = word_of_int (min_c (sint (is_file_size segment)) (sint (is_mem_size segment)));
       let padding = (word_of_int (max_c 0 (i32 (sint (is_mem_size segment) - sint (is_file_size segment)))) :: u32);
       (res, out, w) \<leftarrow> vfs_read drv vref content w;
       let m = store_bytes (uint (img + address)) out m;
       if res = 0 then Some (ELF_READ_ERROR, m, w)
       else Some (ELF_SUCCESS, snd (memset m (uint (img + address)) 0 (sint padding)), w)
     }"

text \<open>The loop over the program headers: \<open>n\<close> are left, starting with number \<open>i\<close>.  The left result is an error.\<close>

fun elf_phdr_loop ::
  "(nat \<Rightarrow> 'w driver) \<Rightarrow> vref \<Rightarrow> elf_ehdr \<Rightarrow> u8 list \<Rightarrow> nat \<Rightarrow> nat \<Rightarrow> image_segment list \<Rightarrow> u32 \<Rightarrow> u32 \<Rightarrow> 'w \<Rightarrow>
    ((int + image_segment list \<times> u32 \<times> u32) \<times> 'w) option" where
  "elf_phdr_loop drv vref header stack 0 i phl low high w = Some (Inr (phl, low, high), w)"
| "elf_phdr_loop drv vref header stack (Suc n) i phl low high w =
     do {
       (_, w) \<leftarrow> vfs_seek drv vref (sint (eh_phoff header + of_nat i * ucast (eh_phentsize header))) SEEK_SET w;
       (res, out, w) \<leftarrow> vfs_read drv vref (of_nat sizeof_Phdr) w;
       if res = 0 then Some (Inl ELF_READ_ERROR, w)
       else
         (let entry = phdr_of_bytes (read_into stack out) in
          if ph_type entry = PT_LOAD then
            (let seg = \<lparr>is_file_offset = ph_offset entry, is_mem_offset = ph_vaddr entry,
                        is_file_size = ph_filesz entry, is_mem_size = ph_memsz entry\<rparr>;
                 from_addr = ph_vaddr entry;
                 to_addr = from_addr + ph_memsz entry
             in elf_phdr_loop drv vref header stack n (i + 1) (phl @ [seg])
                  (if from_addr < low then from_addr else low) (if to_addr > high then to_addr else high) w)
          else elf_phdr_loop drv vref header stack n (i + 1) phl low high w)
     }"

fun elf_copy_loop ::
  "(nat \<Rightarrow> 'w driver) \<Rightarrow> vref \<Rightarrow> u32 \<Rightarrow> u32 \<Rightarrow> image_segment list \<Rightarrow> mem \<Rightarrow> 'w \<Rightarrow> (int \<times> mem \<times> 'w) option" where
  "elf_copy_loop drv vref img low [] m w = Some (ELF_SUCCESS, m, w)"
| "elf_copy_loop drv vref img low (seg # segs) m w =
     do {
       (err, m, w) \<leftarrow> elf_segcpy drv vref img low seg m w;
       if err \<noteq> ELF_SUCCESS then Some (err, m, w) else elf_copy_loop drv vref img low segs m w
     }"

definition elf_segments ::
  "(u32 \<Rightarrow> u32) \<Rightarrow> (nat \<Rightarrow> 'w driver) \<Rightarrow> u8 list \<Rightarrow> vref \<Rightarrow> elf_ehdr \<Rightarrow> program_image \<Rightarrow> mem \<Rightarrow> 'w \<Rightarrow>
    (int \<times> program_image \<times> mem \<times> 'w) option" where
  "elf_segments kmalloc drv stack vref header program m w =
     do {
       (r, w) \<leftarrow> elf_phdr_loop drv vref header stack (unat (eh_phnum header)) 0 [] (-1) 0 w;
       (case r of
          Inl err \<Rightarrow> Some (err, program, m, w)
        | Inr (phl, low, high) \<Rightarrow> do {
            let bytes = high - low;
            let img = kmalloc (bytes + pi_prefix program + pi_sufix program);
            (err, m, w) \<leftarrow> elf_copy_loop drv vref (img + pi_prefix program) low phl m w;
            if err \<noteq> ELF_SUCCESS then Some (err, program, m, w)
            else Some (ELF_SUCCESS, program\<lparr>pi_image := img, pi_mount := low\<rparr>, m, w)
          })
     }"

text \<open>\<open>hstack\<close> and \<open>pstack\<close> are what the stack holds in the place of the two local headers.\<close>

definition elf_load ::
  "(u32 \<Rightarrow> u32) \<Rightarrow> (nat \<Rightarrow> 'w driver) \<Rightarrow> u8 list \<Rightarrow> u8 list \<Rightarrow> vref \<Rightarrow> program_image \<Rightarrow> mem \<Rightarrow> 'w \<Rightarrow>
    (int \<times> program_image \<times> mem \<times> 'w) option" where
  "elf_load kmalloc drv hstack pstack vref img m w =
     do {
       (res, out, w) \<leftarrow> vfs_read drv vref (of_nat sizeof_Ehdr) w;
       if res = 0 then Some (ELF_READ_ERROR, img, m, w)
       else
         (let header = ehdr_of_bytes (read_into hstack out) in
          if elf_checkident (eh_ident header) = 1 then Some (ELF_IDENT_ERROR, img, m, w)
          else if eh_machine header \<noteq> EM_386 \<and> eh_machine header \<noteq> EM_NONE then Some (ELF_WRONG_MACHINE_ERROR, img, m, w)
          else if eh_version header \<noteq> 1 then Some (ELF_HEADER_ERROR, img, m, w)
          else if unat (eh_ehsize header) < sizeof_Ehdr then Some (ELF_HEADER_ERROR, img, m, w)
          else if unat (eh_phentsize header) < sizeof_Phdr then Some (ELF_HEADER_ERROR, img, m, w)
          else do {
            (err, img, m, w) \<leftarrow> elf_segments kmalloc drv pstack vref header img m w;
            if err \<noteq> ELF_SUCCESS then Some (err, img, m, w)
            else Some (ELF_SUCCESS, img\<lparr>pi_entry := eh_entry header\<rparr>, m, w)
          })
     }"

subsection \<open>Where the loader writes\<close>

text \<open>
  What the loader relies on: a read delivers at most the bytes asked for.  The locale is the
  interface of the drivers that it uses.
\<close>

locale reader =
  fixes drv :: "nat \<Rightarrow> 'w driver"
  assumes read_bound: "vfs_read drv v n w = Some (res, out, w') \<Longrightarrow> length out \<le> unat n"

text \<open>The bounds that the header loop finds enclose the segments, with ends that may have wrapped.\<close>

definition encloses :: "u32 \<Rightarrow> u32 \<Rightarrow> image_segment \<Rightarrow> bool" where
  "encloses low high seg \<longleftrightarrow> low \<le> is_mem_offset seg \<and> is_mem_offset seg + is_mem_size seg \<le> high"

lemma phdr_loop_bounds:
  assumes "elf_phdr_loop drv vref header stack n i phl low high w = Some (Inr (phl', low', high'), w')"
    and "\<forall>seg\<in>set phl. encloses low high seg"
  shows "low' \<le> low \<and> high \<le> high' \<and> (\<forall>seg\<in>set phl'. encloses low' high' seg)"
  using assms
proof (induction n arbitrary: i phl low high w)
  case (Suc n)
  from Suc.prems(1) obtain r1 w1 res out w2 where
    s: "vfs_seek drv vref (sint (eh_phoff header + of_nat i * ucast (eh_phentsize header))) SEEK_SET w = Some (r1, w1)"
    "vfs_read drv vref (of_nat sizeof_Phdr) w1 = Some (res, out, w2)" "res \<noteq> 0"
    by (auto simp: bind_eq_Some_conv split: if_splits)
  let ?e = "phdr_of_bytes (read_into stack out)"
  let ?lo = "if ph_vaddr ?e < low then ph_vaddr ?e else low"
  let ?hi = "if ph_vaddr ?e + ph_memsz ?e > high then ph_vaddr ?e + ph_memsz ?e else high"
  let ?seg = "\<lparr>is_file_offset = ph_offset ?e, is_mem_offset = ph_vaddr ?e, is_file_size = ph_filesz ?e, is_mem_size = ph_memsz ?e\<rparr>"
  show ?case
  proof (cases "ph_type ?e = PT_LOAD")
    case False
    with s Suc.prems Suc.IH [of "i + 1" phl low high w2] show ?thesis by (simp add: Let_def)
  next
    case True
    have l: "elf_phdr_loop drv vref header stack n (i + 1) (phl @ [?seg]) ?lo ?hi w2 = Some (Inr (phl', low', high'), w')"
      using s Suc.prems(1) True by (simp add: Let_def split del: if_split)
    have lo: "?lo \<le> low" "?lo \<le> ph_vaddr ?e" and hi: "high \<le> ?hi" "ph_vaddr ?e + ph_memsz ?e \<le> ?hi" by auto
    have "encloses ?lo ?hi seg" if "encloses low high seg" for seg
      using that lo(1) hi(1) unfolding encloses_def by (blast intro: order_trans)
    moreover have "encloses ?lo ?hi ?seg" using lo(2) hi(2) by (simp add: encloses_def)
    ultimately have "\<forall>seg\<in>set (phl @ [?seg]). encloses ?lo ?hi seg" using Suc.prems(2) by auto
    from Suc.IH [OF l this] lo(1) hi(1) show ?thesis by (blast intro: order_trans)
  qed
qed auto

text \<open>
  Segments that the signed comparison of the sizes and the 32-bit sum of address and size treat
  as they are meant to.
\<close>

definition segment_ok :: "image_segment \<Rightarrow> bool" where
  "segment_ok seg \<longleftrightarrow> uint (is_file_size seg) < 2147483648 \<and> uint (is_mem_size seg) < 2147483648 \<and>
     uint (is_mem_offset seg) + uint (is_mem_size seg) < 4294967296"

lemma word_small:
  assumes "0 \<le> k" "k < 2147483648"
  shows "uint (word_of_int k :: u32) = k" "sint (word_of_int k :: u32) = k"
  using assms by (simp_all add: sint_word_ariths signed_take_bit_int_eq_self signed_of_int uint_word_of_int)

lemma sint_low: "uint (w :: u32) < 2147483648 \<Longrightarrow> sint w = uint w"
  using word_small(2) [of "uint w"] by simp

text \<open>The two sizes that \<^verbatim>\<open>elf_segcpy\<close> computes.\<close>

lemma segment_sizes:
  assumes "segment_ok seg"
  shows "uint (word_of_int (min_c (sint (is_file_size seg)) (sint (is_mem_size seg))) :: u32) = min (uint (is_file_size seg)) (uint (is_mem_size seg))"
    and "sint (word_of_int (max_c 0 (i32 (sint (is_mem_size seg) - sint (is_file_size seg)))) :: u32) = max 0 (uint (is_mem_size seg) - uint (is_file_size seg))"
proof -
  let ?f = "uint (is_file_size seg)" and ?m = "uint (is_mem_size seg)"
  have b: "0 \<le> ?f" "?f < 2147483648" "0 \<le> ?m" "?m < 2147483648" using assms by (auto simp: segment_ok_def)
  have s: "sint (is_file_size seg) = ?f" "sint (is_mem_size seg) = ?m" using b by (simp_all only: sint_low)
  show "uint (word_of_int (min_c (sint (is_file_size seg)) (sint (is_mem_size seg))) :: u32) = min ?f ?m"
    unfolding s min_c_min using word_small(1) [of "min ?f ?m"] b by auto
  have d: "i32 (?m - ?f) = ?m - ?f" by (rule i32_id) (use b in linarith)+
  show "sint (word_of_int (max_c 0 (i32 (sint (is_mem_size seg) - sint (is_file_size seg)))) :: u32) = max 0 (?m - ?f)"
    unfolding s max_c_max d by (intro word_small(2)) (use b in linarith)+
qed

text \<open>Where a segment lies in a block that starts at \<open>base\<close> and has the size of the bounds.\<close>

lemma segment_place:
  assumes "encloses low high seg" "segment_ok seg" "uint base + uint (high - low) < 4294967296"
  shows "uint (base + (is_mem_offset seg - low)) = uint base + (uint (is_mem_offset seg) - uint low)"
    "uint base + (uint (is_mem_offset seg) - uint low) + uint (is_mem_size seg) \<le> uint base + uint (high - low)"
    "uint low \<le> uint (is_mem_offset seg)"
proof -
  let ?v = "uint (is_mem_offset seg)" and ?m = "uint (is_mem_size seg)"
  have v: "uint low \<le> ?v" using assms(1) by (simp add: encloses_def word_le_def)
  have "uint (is_mem_offset seg + is_mem_size seg) = ?v + ?m" using assms(2) by (simp add: segment_ok_def uint_word_ariths(1))
  then have e: "?v + ?m \<le> uint high" using assms(1) by (simp add: encloses_def word_le_def)
  have m: "0 \<le> ?m" by simp
  have hl: "uint (high - low) = uint high - uint low" by (subst uint_sub_lem [symmetric]) (use v e m in linarith)
  have a: "uint (is_mem_offset seg - low) = ?v - uint low" by (subst uint_sub_lem [symmetric]) (rule v)
  have "uint base + uint (is_mem_offset seg - low) < 4294967296" using assms(3) v e m unfolding a hl by linarith
  then show "uint (base + (is_mem_offset seg - low)) = uint base + (?v - uint low)"
    unfolding a [symmetric] by (simp only: uint_add_lem [symmetric]) simp
  show "uint base + (?v - uint low) + ?m \<le> uint base + uint (high - low)" "uint low \<le> ?v" using hl e v by simp_all
qed

context reader
begin

lemma segcpy_effect:
  assumes "elf_segcpy drv vref img mount seg m w = Some (err, m', w')" "segment_ok seg"
  shows "\<exists>out. int (length out) \<le> min (uint (is_file_size seg)) (uint (is_mem_size seg)) \<and>
    (\<exists>r w1 n res. vfs_seek drv vref (sint (is_file_offset seg)) SEEK_SET w = Some (r, w1) \<and>
      vfs_read drv vref n w1 = Some (res, out, w') \<and>
      uint n = min (uint (is_file_size seg)) (uint (is_mem_size seg)) \<and> (err = 0 \<longleftrightarrow> res \<noteq> 0)) \<and>
    (err = 0 \<or> err = ELF_READ_ERROR) \<and>
    m' = (if err = 0 then patch (store_bytes (uint (img + (is_mem_offset seg - mount))) out m)
            (uint (img + (is_mem_offset seg - mount))) (max 0 (uint (is_mem_size seg) - uint (is_file_size seg))) (\<lambda>_. 0)
          else store_bytes (uint (img + (is_mem_offset seg - mount))) out m)"
proof -
  let ?content = "word_of_int (min_c (sint (is_file_size seg)) (sint (is_mem_size seg))) :: u32"
  obtain r w1 res out where k: "vfs_seek drv vref (sint (is_file_offset seg)) SEEK_SET w = Some (r, w1)"
    and r: "vfs_read drv vref ?content w1 = Some (res, out, w')"
    and e: "(if res = 0 then (ELF_READ_ERROR, store_bytes (uint (img + (is_mem_offset seg - mount))) out m)
       else (ELF_SUCCESS, snd (memset (store_bytes (uint (img + (is_mem_offset seg - mount))) out m)
         (uint (img + (is_mem_offset seg - mount))) 0
         (sint (word_of_int (max_c 0 (i32 (sint (is_mem_size seg) - sint (is_file_size seg)))) :: u32))))) = (err, m')"
    using assms(1) unfolding elf_segcpy_def Let_def by (auto simp: bind_eq_Some_conv simp del: max_c_max min_c_min split: if_splits)
  have "int (length out) \<le> uint ?content" using read_bound [OF r] by (simp only: uint_nat of_nat_le_iff)
  then have len: "int (length out) \<le> min (uint (is_file_size seg)) (uint (is_mem_size seg))" by (simp only: segment_sizes(1) [OF assms(2)])
  have "\<exists>r w1 n res. vfs_seek drv vref (sint (is_file_offset seg)) SEEK_SET w = Some (r, w1) \<and>
      vfs_read drv vref n w1 = Some (res, out, w') \<and>
      uint n = min (uint (is_file_size seg)) (uint (is_mem_size seg)) \<and> (err = 0 \<longleftrightarrow> res \<noteq> 0)"
    using k r e by (intro exI [of _ r] exI [of _ w1] exI [of _ ?content] exI [of _ res] conjI segment_sizes(1) [OF assms(2)])
      (auto split: if_splits)
  with len show ?thesis using e unfolding segment_sizes(2) [OF assms(2)] memset_eq by (intro exI [of _ out]) (auto split: if_splits)
qed

lemma segcpy_inside:
  assumes "elf_segcpy drv vref img low seg m w = Some (err, m', w')" "segment_ok seg" "encloses low high seg"
    and "uint img + uint (high - low) < 4294967296" "x < uint img \<or> uint img + uint (high - low) \<le> x"
  shows "m' x = m x"
proof -
  let ?a = "uint (img + (is_mem_offset seg - low))"
  obtain out where out: "int (length out) \<le> min (uint (is_file_size seg)) (uint (is_mem_size seg))"
    "m' = (if err = 0 then patch (store_bytes ?a out m) ?a (max 0 (uint (is_mem_size seg) - uint (is_file_size seg))) (\<lambda>_. 0)
      else store_bytes ?a out m)"
    using segcpy_effect [OF assms(1,2)] by blast
  note pl = segment_place [OF assms(3,2,4)]
  have f: "0 \<le> uint (is_file_size seg)" by simp
  have x: "x < ?a \<or> ?a + uint (is_mem_size seg) \<le> x" using assms(5) pl by linarith
  have "store_bytes ?a out m x = m x" by (rule store_bytes_other) (use x out(1) in linarith)
  moreover have "x < ?a \<or> ?a + max 0 (uint (is_mem_size seg) - uint (is_file_size seg)) \<le> x" using x f by linarith
  ultimately show ?thesis unfolding out(2) by simp
qed

lemma copy_inside:
  assumes "uint img + uint (high - low) < 4294967296" "x < uint img \<or> uint img + uint (high - low) \<le> x"
  shows "elf_copy_loop drv vref img low phl m w = Some (err, m', w') \<Longrightarrow>
    \<forall>seg\<in>set phl. segment_ok seg \<and> encloses low high seg \<Longrightarrow> m' x = m x"
proof (induction phl arbitrary: m w)
  case (Cons seg phl)
  from Cons.prems(1) obtain err1 m1 w1 where c: "elf_segcpy drv vref img low seg m w = Some (err1, m1, w1)"
    "(if err1 \<noteq> ELF_SUCCESS then Some (err1, m1, w1) else elf_copy_loop drv vref img low phl m1 w1) = Some (err, m', w')"
    by (auto simp: bind_eq_Some_conv)
  have "m1 x = m x" by (rule segcpy_inside [OF c(1) _ _ assms]) (use Cons.prems(2) in auto)
  with c(2) Cons.IH [of m1 w1] Cons.prems(2) show ?case by (auto split: if_splits)
qed simp

end

end
