(* ===== verification/Exec.thy ===== *)
theory Exec
  imports Elf Scheduler Fatfs
begin

section \<open>Starting a process (scheduler.c) and what the loader puts into memory\<close>

text \<open>
  \<^verbatim>\<open>scheduler_create_process\<close> joins the loader and the process table.  \<^verbatim>\<open>kmalloc\<close>, \<^verbatim>\<open>kmsz\<close> and
  \<^verbatim>\<open>isr_stub_stack\<close> are assembly and parameters; the last one builds a frame below the stack pointer
  it is given and returns the new one.  The boolean is the interrupt flag, which \<^verbatim>\<open>cli\<close> clears and
  \<^verbatim>\<open>sti\<close> sets.  The driver of the FAT file system is shown to be a reader in the sense of the loader.
\<close>

abbreviation (input) INITIAL_STACK_SIZE :: u32 where "INITIAL_STACK_SIZE \<equiv> 1024 * 32"

text \<open>
  \<open>image\<close> is what the local structure holds before it is set, \<open>hstack\<close> and \<open>pstack\<close> are the
  stack of the loader, \<open>grown\<close> and \<open>files\<close> the memory that the new entry takes.
\<close>

definition scheduler_create_process ::
  "(u32 \<Rightarrow> u32) \<Rightarrow> (u32 \<Rightarrow> u32) \<Rightarrow> (u32 \<Rightarrow> u32 \<Rightarrow> int \<Rightarrow> int \<Rightarrow> int \<Rightarrow> mem \<Rightarrow> u32 \<times> mem) \<Rightarrow> (nat \<Rightarrow> 'w driver) \<Rightarrow>
    u8 list \<Rightarrow> u8 list \<Rightarrow> program_image \<Rightarrow> process list \<Rightarrow> vref list \<Rightarrow> int \<Rightarrow> vref \<Rightarrow>
    sched \<Rightarrow> bool \<Rightarrow> mem \<Rightarrow> 'w \<Rightarrow> (int \<times> sched \<times> bool \<times> mem \<times> 'w) option" where
  "scheduler_create_process kmalloc kmsz isr_stub_stack drv hstack pstack img grown files parent_pid processFile s iflag m w =
     do {
       let iflag = False;
       bad \<leftarrow> (if parent_pid \<noteq> - 1 then scheduler_pid_invalid s parent_pid else Some False);
       if bad then Some (1, s, iflag, m, w)
       else do {
         let img = img\<lparr>pi_prefix := 0, pi_sufix := INITIAL_STACK_SIZE\<rparr>;
         (errorCode, img, m, w) \<leftarrow> elf_load kmalloc drv hstack pstack processFile img m w;
         let img = img\<lparr>pi_entry := pi_entry img - pi_mount img\<rparr>;
         let img = img\<lparr>pi_mount := 0\<rparr>;
         if errorCode \<noteq> 0 then Some (1, s, iflag, m, w)
         else do {
           let sz = kmsz (pi_image img);
           let stack = pi_image img + sz;
           let entrypoint = pi_image img + pi_entry img + pi_prefix img;
           let segment = 1;
           let (stack, m) = isr_stub_stack stack entrypoint (segment + 1) segment 0 m;
           s \<leftarrow> scheduler_new_entry grown files s parent_pid stack (pi_image img) processFile (pi_mount img) segment;
           Some (0, s, True, m, w)
         }
       }
     }"

subsection \<open>The FAT driver as a reader\<close>

lemma read_part_length: "fat_read_part disk fl n c passed moved out w = Some (moved', out', w') \<Longrightarrow> length out' = length out"
  by (auto simp: fat_read_part_def Let_def bind_eq_Some_conv dest: length_store_at split: prod.splits if_splits)

lemma fread_loop_length:
  assumes "fat_fread_loop disk fl n c passed moved out w = Some res"
  shows "length (fst (snd res)) = length out"
proof (rule fat_fread_loop.raw_induct [where P = "\<lambda>disk fl n c passed moved out w res. length (fst (snd res)) = length out", OF _ assms], goal_cases)
  case (1 loop disk fl n c passed moved out w res)
  from 1(2) show ?case
    by (auto simp: bind_eq_Some_conv dest!: 1(1) dest: read_part_length split: if_splits)
qed

lemma fatfs_read_length:
  assumes "fatfs_read vref n w = Some (res, out, w')"
  shows "length out \<le> unat n"
proof -
  have len: "length out' = unat n" if "fat_fread disk (replicate (unat n) 0) 1 n fl f = Some (out', fl', f')" for disk out' fl fl' f f'
    using that fread_loop_length by (fastforce simp: fat_fread_def bind_eq_Some_conv)
  show ?thesis
    using assms by (auto simp: fatfs_read_def Let_def bind_eq_Some_conv dest!: len split: if_splits)
qed

interpretation ff: reader "\<lambda>d. fatfs_load io garbage (old d)" for io garbage old
  by unfold_locales (auto simp: vfs_read_def fatfs_load_def dest: fatfs_read_length split: option.splits)

subsection \<open>The image of a program\<close>

text \<open>
  The address of the block that the loader allocates for the segments between \<open>low\<close> and \<open>high\<close>.
\<close>

definition image_block :: "(u32 \<Rightarrow> u32) \<Rightarrow> program_image \<Rightarrow> u32 \<Rightarrow> u32 \<Rightarrow> u32" where
  "image_block kmalloc img low high = kmalloc (high - low + pi_prefix img + pi_sufix img) + pi_prefix img"

lemma phdr_loop_error: "elf_phdr_loop drv vref header stack n i phl low high w = Some (Inl err, w') \<Longrightarrow> err = ELF_READ_ERROR"
  by (induction n arbitrary: i phl low high w) (auto simp: bind_eq_Some_conv Let_def split: if_splits)

lemma copy_result: "elf_copy_loop drv vref img low phl m w = Some (err, m', w') \<Longrightarrow> err = 0 \<or> err = ELF_READ_ERROR"
  by (induction phl arbitrary: m w) (auto simp: elf_segcpy_def Let_def bind_eq_Some_conv split: if_splits)



subsection \<open>The new process\<close>

lemma proc_put_step:
  assumes "proc_put s i p = Some s'"
  shows "proc_at s' i = Some p" "j \<noteq> i \<Longrightarrow> proc_at s' j = proc_at s j" "sd_running s' = sd_running s" "sd_count s' = sd_count s"
  using assms by (auto simp: proc_put_def proc_at_def nth_list_update split: if_splits)

lemma proc_at_count [simp]: "proc_at (s\<lparr>sd_count := n\<rparr>) j = proc_at s j"
  by (simp add: proc_at_def)

lemma new_entry_fills:
  assumes "scheduler_new_entry grown files s parent stack mem exe mnt seg = Some s'"
  shows "\<exists>i p. scheduler_free_loop s 0 = Some i \<and> proc_at s' i = Some p \<and>
    ps_exists p \<and> ps_stack p = stack \<and> ps_parent_index p = parent \<and> ps_process_memory p = mem \<and> ps_files p = files \<and>
    ps_fileExists p = Some (replicate 1024 False) \<and> ps_exe p = exe \<and> ps_mount p = mnt \<and>
    ps_processSegmentsIndex p = seg \<and> ps_cwd p = vfs_root \<and> ps_state p = RUNNABLE \<and>
    (\<forall>j. j \<noteq> i \<and> j < int (length (sd_table s)) \<longrightarrow> proc_at s' j = proc_at s j) \<and> sd_running s' = sd_running s \<and>
    sd_count s' = sd_count s + (if i = sd_count s then 2 else 1)"
proof -
  obtain i where i: "scheduler_free_loop s 0 = Some i" using assms by (auto simp: scheduler_new_entry_def bind_eq_Some_conv)
  define s1 where "s1 = (if i = sd_count s then
      (let s = (if sd_size s = sd_count s then s\<lparr>sd_size := i32 (sd_size s * 2), sd_table := sd_table s @ grown\<rparr> else s)
       in s\<lparr>sd_count := sd_count s + 1\<rparr>) else s)"
  have old: "proc_at s1 j = proc_at s j" if "j < int (length (sd_table s))" for j
    using that by (simp add: s1_def proc_at_def nth_append Let_def nat_less_iff)
  have c: "sd_count s1 = sd_count s + (if i = sd_count s then 1 else 0)" "sd_running s1 = sd_running s"
    by (simp_all add: s1_def Let_def)
  let ?fill = "\<lambda>q. q\<lparr>ps_exists := True, ps_stack := stack, ps_parent_index := parent,
      ps_process_memory := mem, ps_files := files, ps_fileExists := Some (replicate MAX_FILES_PER_PROCESS False),
      ps_exe := exe, ps_mount := mnt, ps_processSegmentsIndex := seg, ps_cwd := vfs_root, ps_state := RUNNABLE\<rparr>"
  have "do { p \<leftarrow> proc_at s1 i; s2 \<leftarrow> proc_put s1 i (?fill p); Some (s2\<lparr>sd_count := sd_count s2 + 1\<rparr>) } = Some s'"
    using assms unfolding scheduler_new_entry_def i s1_def by (simp add: Let_def del: replicate.simps)
  then obtain q s2 where q: "proc_put s1 i (?fill q) = Some s2" "s' = s2\<lparr>sd_count := sd_count s2 + 1\<rparr>"
    by (auto simp: bind_eq_Some_conv simp del: replicate.simps)
  show ?thesis
    using i proc_put_step [OF q(1)] old c unfolding q(2) by (intro exI [of _ i] exI) auto
qed

lemma free_loop_first:
  assumes "scheduler_free_loop s i = Some k" "0 \<le> i"
  shows "i \<le> k \<and> (k = sd_count s \<or> (\<exists>p. proc_at s k = Some p \<and> \<not> ps_exists p)) \<and>
    (\<forall>j. i \<le> j \<and> j < k \<longrightarrow> (\<exists>p. proc_at s j = Some p \<and> ps_exists p))"
  using assms
proof (induction s i rule: scheduler_free_loop.induct)
  case (1 s i)
  show ?case
  proof (cases "i \<noteq> sd_count s \<and> i < int (length (sd_table s)) \<and> ps_exists (sd_table s ! nat i)")
    case True
    with "1.prems" have "scheduler_free_loop s (i + 1) = Some k" by (simp add: scheduler_free_loop.simps [of s i])
    with "1.IH" True "1.prems"(2) have IH: "i + 1 \<le> k"
      "k = sd_count s \<or> (\<exists>p. proc_at s k = Some p \<and> \<not> ps_exists p)"
      "\<And>j. i + 1 \<le> j \<Longrightarrow> j < k \<Longrightarrow> \<exists>p. proc_at s j = Some p \<and> ps_exists p" by auto
    have "\<exists>p. proc_at s j = Some p \<and> ps_exists p" if "i \<le> j" "j < k" for j
      using that True "1.prems"(2) IH(3) [of j] by (cases "j = i") (auto simp: proc_at_def)
    with IH(1,2) show ?thesis by auto
  next
    case False
    with "1.prems" show ?thesis by (auto simp: scheduler_free_loop.simps [of s i] proc_at_def split: if_splits)
  qed
qed

lemma create_process_parts:
  assumes "scheduler_create_process kmalloc kmsz stub drv hstack pstack img grown files pid vref s iflag m w =
    Some (r, s', iflag', m', w')"
  obtains (failed) "r = 1" "\<not> iflag'" "s' = s"
  | (started) im m1 sp where "r = 0" "iflag'"
      "elf_load kmalloc drv hstack pstack vref (img\<lparr>pi_prefix := 0, pi_sufix := INITIAL_STACK_SIZE\<rparr>) m w = Some (0, im, m1, w')"
      "stub (pi_image im + kmsz (pi_image im)) (pi_image im + (pi_entry im - pi_mount im) + pi_prefix im) 2 1 0 m1 = (sp, m')"
      "scheduler_new_entry grown files s pid sp (pi_image im) vref 0 1 = Some s'"
proof -
  obtain bad where b: "(if pid \<noteq> - 1 then scheduler_pid_invalid s pid else Some False) = Some bad"
    using assms by (auto simp: scheduler_create_process_def bind_eq_Some_conv)
  show thesis
  proof (cases bad)
    case True
    with assms b failed show thesis by (simp add: scheduler_create_process_def)
  next
    case False
    with assms b obtain err im m1 w1 where
      l: "elf_load kmalloc drv hstack pstack vref (img\<lparr>pi_prefix := 0, pi_sufix := INITIAL_STACK_SIZE\<rparr>) m w = Some (err, im, m1, w1)"
      by (auto simp: scheduler_create_process_def bind_eq_Some_conv)
    obtain sp m2 where st: "stub (pi_image im + kmsz (pi_image im)) (pi_image im + (pi_entry im - pi_mount im) + pi_prefix im) 2 1 0 m1 = (sp, m2)"
      by fastforce
    show thesis
    proof (cases "err = 0")
      case True
      with assms b False l st have "r = 0" "iflag'" "m2 = m'" "w1 = w'" "scheduler_new_entry grown files s pid sp (pi_image im) vref 0 1 = Some s'"
        by (auto simp: scheduler_create_process_def bind_eq_Some_conv)
      with l st True started show thesis by blast
    next
      case err: False
      with assms b False l have "r = 1" "\<not> iflag'" "s' = s" by (auto simp: scheduler_create_process_def)
      then show thesis by (rule failed)
    qed
  qed
qed

text \<open>
  C37. The interrupt flag of \<^verbatim>\<open>scheduler_create_process\<close>: it disables interrupts and enables them at its
  end only, so that every error returns with interrupts disabled.  An error leaves the table as it was.
\<close>

theorem create_process_masks:
  assumes "scheduler_create_process kmalloc kmsz stub drv hstack pstack img grown files pid vref s iflag m w =
    Some (r, s', iflag', m', w')"
  shows "(r = 0 \<and> iflag') \<or> (r = 1 \<and> \<not> iflag' \<and> s' = s)"
  using assms by (rule create_process_parts) simp_all

text \<open>What the loader accepts: the header of a file for the 386, of a known version, with entries of the full size.\<close>

definition header_ok :: "elf_ehdr \<Rightarrow> bool" where
  "header_ok header \<longleftrightarrow> elf_checkident (eh_ident header) = 0 \<and> (eh_machine header = EM_386 \<or> eh_machine header = EM_NONE) \<and>
     eh_version header = 1 \<and> 52 \<le> unat (eh_ehsize header) \<and> 32 \<le> unat (eh_phentsize header)"

lemma segments_success:
  assumes "elf_segments kmalloc drv stack vref header img m w = Some (0, im, m', w')"
  shows "\<exists>w1 phl low high. elf_phdr_loop drv vref header stack (unat (eh_phnum header)) 0 [] (- 1) 0 w = Some (Inr (phl, low, high), w1) \<and>
    im = img\<lparr>pi_image := kmalloc (high - low + pi_prefix img + pi_sufix img), pi_mount := low\<rparr>"
proof -
  obtain r w1 where l: "elf_phdr_loop drv vref header stack (unat (eh_phnum header)) 0 [] (- 1) 0 w = Some (r, w1)"
    using assms by (auto simp: elf_segments_def bind_eq_Some_conv)
  show ?thesis
  proof (cases r)
    case (Inl err)
    have "err = ELF_READ_ERROR" by (rule phdr_loop_error [OF l [unfolded Inl]])
    with assms l Inl show ?thesis by (simp add: elf_segments_def)
  next
    case (Inr b)
    obtain phl low high where b: "b = (phl, low, high)" by (cases b)
    with assms l Inr show ?thesis by (auto simp: elf_segments_def bind_eq_Some_conv Let_def split: if_splits)
  qed
qed

lemma load_success:
  assumes "elf_load kmalloc drv hstack pstack vref img m w = Some (0, im, m', w')"
  shows "\<exists>res out w1 w2 header phl low high. vfs_read drv vref 52 w = Some (res, out, w1) \<and> res \<noteq> 0 \<and>
    header = ehdr_of_bytes (read_into hstack out) \<and> header_ok header \<and>
    elf_phdr_loop drv vref header pstack (unat (eh_phnum header)) 0 [] (- 1) 0 w1 = Some (Inr (phl, low, high), w2) \<and>
    im = img\<lparr>pi_entry := eh_entry header, pi_mount := low, pi_image := kmalloc (high - low + pi_prefix img + pi_sufix img)\<rparr>"
proof -
  obtain res out w1 where r: "vfs_read drv vref 52 w = Some (res, out, w1)" "res \<noteq> 0"
    using assms by (auto simp: elf_load_def bind_eq_Some_conv split: if_splits)
  let ?h = "ehdr_of_bytes (read_into hstack out)"
  have "elf_checkident bs = 1 \<or> elf_checkident bs = 0" for bs by (simp add: elf_checkident_def)
  then have ok: "header_ok ?h"
    and "do { (err, img, m, w) \<leftarrow> elf_segments kmalloc drv pstack vref ?h img m w1;
              if err \<noteq> 0 then Some (err, img, m, w) else Some (0, img\<lparr>pi_entry := eh_entry ?h\<rparr>, m, w) } = Some (0, im, m', w')"
    using assms r by (auto simp: elf_load_def header_ok_def Let_def split: if_splits)
  then obtain im1 where s: "elf_segments kmalloc drv pstack vref ?h img m w1 = Some (0, im1, m', w')"
    "im = im1\<lparr>pi_entry := eh_entry ?h\<rparr>" by (auto simp: bind_eq_Some_conv split: if_splits)
  from segments_success [OF s(1)] r ok s(2) show ?thesis by auto
qed

text \<open>
  C12. A process that \<^verbatim>\<open>scheduler_create_process\<close> starts: the program was loaded from a valid header; the first
  free place of the table holds it, runnable, with no open file; its stack pointer is the frame that
  \<^verbatim>\<open>isr_stub_stack\<close> builds at the end of the block, and its entry point is the one of the header moved
  to where the lowest segment lies.  The other entries stay.
\<close>

theorem create_process_starts:
  assumes "scheduler_create_process kmalloc kmsz stub drv hstack pstack img grown files pid vref s iflag m w =
    Some (0, s', iflag', m', w')"
  shows "\<exists>res out w1 w2 header phl low high block m1 sp i p.
    vfs_read drv vref 52 w = Some (res, out, w1) \<and> header = ehdr_of_bytes (read_into hstack out) \<and> header_ok header \<and>
    elf_phdr_loop drv vref header pstack (unat (eh_phnum header)) 0 [] (- 1) 0 w1 = Some (Inr (phl, low, high), w2) \<and>
    block = kmalloc (high - low + 32768) \<and>
    stub (block + kmsz block) (block + (eh_entry header - low)) 2 1 0 m1 = (sp, m') \<and>
    (i = sd_count s \<or> (\<exists>q. proc_at s i = Some q \<and> \<not> ps_exists q)) \<and>
    (\<forall>j. 0 \<le> j \<and> j < i \<longrightarrow> (\<exists>q. proc_at s j = Some q \<and> ps_exists q)) \<and>
    proc_at s' i = Some p \<and> ps_exists p \<and> ps_state p = RUNNABLE \<and> ps_stack p = sp \<and> ps_process_memory p = block \<and>
    ps_fileExists p = Some (replicate 1024 False) \<and> ps_exe p = vref \<and> ps_parent_index p = pid \<and>
    (\<forall>j. j \<noteq> i \<and> j < int (length (sd_table s)) \<longrightarrow> proc_at s' j = proc_at s j)"
  using assms
proof (cases rule: create_process_parts)
  case (started im m1 sp)
  from load_success [OF started(3)] obtain res out w1 w2 header phl low high where l:
    "vfs_read drv vref 52 w = Some (res, out, w1)" "header = ehdr_of_bytes (read_into hstack out)" "header_ok header"
    "elf_phdr_loop drv vref header pstack (unat (eh_phnum header)) 0 [] (- 1) 0 w1 = Some (Inr (phl, low, high), w2)"
    "pi_image im = kmalloc (high - low + 32768)" "pi_entry im = eh_entry header" "pi_mount im = low" "pi_prefix im = 0" by auto
  from new_entry_fills [OF started(5)] obtain i p where p: "scheduler_free_loop s 0 = Some i" "proc_at s' i = Some p"
    "ps_exists p" "ps_state p = RUNNABLE" "ps_stack p = sp" "ps_process_memory p = pi_image im"
    "ps_fileExists p = Some (replicate 1024 False)" "ps_exe p = vref" "ps_parent_index p = pid"
    "\<forall>j. j \<noteq> i \<and> j < int (length (sd_table s)) \<longrightarrow> proc_at s' j = proc_at s j" by blast
  show ?thesis
    using l p free_loop_first [OF p(1)] started(4) by (intro exI conjI) (auto simp del: replicate.simps)
qed simp

subsection \<open>A program in memory\<close>

text \<open>
  A driver for one file that is a list of bytes and is found under every name; its cursor is a part of the
  world, which \<open>get\<close> reads and \<open>put\<close> sets.  The file is a program of one segment at \<open>0x1000\<close>, of
  which four bytes are in the file and eight in memory.
\<close>

definition ram_driver :: "('w \<Rightarrow> nat) \<Rightarrow> (nat \<Rightarrow> 'w \<Rightarrow> 'w) \<Rightarrow> u8 list \<Rightarrow> 'w driver" where
  "ram_driver get put bs = \<lparr>d_identifier = ''ram'', d_root = (\<lambda>v w. Some (0, v, w)), d_clone = (\<lambda>dst src w. Some (0, dst, w)),
     d_open = (\<lambda>v s f w. Some (0, v, w)), d_close = (\<lambda>v w. Some (0, v, w)), d_lookup = (\<lambda>v w. Some (0, [], w)),
     d_read = (\<lambda>v n w. Some (int (min (unat n) (length bs - get w)), take (unat n) (drop (get w) bs),
                             put (get w + min (unat n) (length bs - get w)) w)),
     d_write = (\<lambda>v b w. Some (0, w)), d_seek = (\<lambda>v k whence w. Some (k, put (nat k) w)), d_list = (\<lambda>v n w. Some (0, [], w)),
     d_mkdir = (\<lambda>v s w. Some (- LINUX_EIO, w)), d_remove = (\<lambda>v b w. Some (- LINUX_EIO, w)), d_stat = (\<lambda>v w. Some (0, None, w)),
     d_readlink = (\<lambda>v s n w. Some (0, [], w))\<rparr>"

definition cursor_of :: "('w \<Rightarrow> nat) \<Rightarrow> (nat \<Rightarrow> 'w \<Rightarrow> 'w) \<Rightarrow> bool" where
  "cursor_of get put \<longleftrightarrow> (\<forall>n w. get (put n w) = n) \<and> (\<forall>n n' w. put n (put n' w) = put n w)"

lemma cursor_nat: "cursor_of (\<lambda>n. n) (\<lambda>n _. n)"
  by (simp add: cursor_of_def)

definition demo_elf :: "u8 list" where
  "demo_elf = [0x7F, 0x45, 0x4C, 0x46, 1, 1, 1, 0, 0, 0, 0, 0, 0, 0, 0, 0, 2, 0, 3, 0, 1, 0, 0, 0, 4, 0x10, 0, 0,
     52, 0, 0, 0, 0, 0, 0, 0, 0, 0, 0, 0, 52, 0, 32, 0, 1, 0, 40, 0, 0, 0, 0, 0] @
   [1, 0, 0, 0, 84, 0, 0, 0, 0, 0x10, 0, 0, 0, 0x10, 0, 0, 4, 0, 0, 0, 8, 0, 0, 0, 5, 0, 0, 0, 0, 0x10, 0, 0] @
   [0xDE, 0xAD, 0xBE, 0xEF]"

abbreviation (input) demo_drv :: "nat \<Rightarrow> nat driver" where "demo_drv \<equiv> \<lambda>_. ram_driver (\<lambda>n. n) (\<lambda>n _. n) demo_elf"
abbreviation (input) elf_ref :: vref where "elf_ref \<equiv> vfs_root\<lparr>r_driver := Some 0\<rparr>"
abbreviation (input) demo_stack :: "nat \<Rightarrow> u8 list" where "demo_stack n \<equiv> replicate n 0"
abbreviation (input) demo_image :: program_image where
  "demo_image \<equiv> \<lparr>pi_prefix = 0, pi_sufix = 32768, pi_entry = 0, pi_mount = 0, pi_image = 0\<rparr>"

definition demo_header :: elf_ehdr where
  "demo_header = ehdr_of_bytes (read_into (demo_stack 52) (take 52 demo_elf))"

definition demo_segment :: image_segment where
  "demo_segment = \<lparr>is_file_offset = 84, is_mem_offset = 0x1000, is_file_size = 4, is_mem_size = 8\<rparr>"

lemma demo_reader: "reader (\<lambda>_. ram_driver get put demo_elf)"
  by unfold_locales (auto simp: vfs_read_def ram_driver_def split: option.splits)

lemma demo_length: "length demo_elf = 88"
  by (simp add: demo_elf_def)

lemma demo_header_fields: "unat (eh_phnum demo_header) = Suc 0" "eh_phoff demo_header = 52" "eh_phentsize demo_header = 32"
  by code_simp+

lemma demo_phdr: "phdr_of_bytes (read_into (demo_stack 32) (take 32 (drop 52 demo_elf))) =
    \<lparr>ph_type = 1, ph_offset = 84, ph_vaddr = 0x1000, ph_paddr = 0x1000, ph_filesz = 4, ph_memsz = 8, ph_flags = 5, ph_align = 0x1000\<rparr>"
  by code_simp

lemma demo_ok: "segment_ok demo_segment" "header_ok demo_header" "eh_entry demo_header = 0x1004"
  by code_simp+

lemma ram_read:
  assumes "cursor_of get put" "r_driver v = Some d"
  shows "vfs_read (\<lambda>_. ram_driver get put demo_elf) v n (put k w) =
    Some (int (min (unat n) (88 - k)), take (unat n) (drop k demo_elf), put (k + min (unat n) (88 - k)) w)"
  using assms by (simp add: vfs_read_def ram_driver_def cursor_of_def demo_length)

lemma ram_seek:
  assumes "cursor_of get put" "r_driver v = Some d"
  shows "vfs_seek (\<lambda>_. ram_driver get put demo_elf) v k SEEK_SET (put k' w) = Some (k, put (nat k) w)"
  using assms by (simp add: vfs_seek_def ram_driver_def cursor_of_def)

lemma demo_phdrs:
  assumes "cursor_of get put" "r_driver v = Some d"
  shows "elf_phdr_loop (\<lambda>_. ram_driver get put demo_elf) v demo_header (demo_stack 32) (unat (eh_phnum demo_header)) 0 [] (- 1) 0 (put 52 w) =
    Some (Inr ([demo_segment], 0x1000, 0x1008), put 84 w)"
proof -
  have "sint (52 :: u32) = 52" "min (unat (word_of_nat 32 :: u32)) (88 - 52) = 32" "unat (word_of_nat 32 :: u32) = 32" by simp_all
  then show ?thesis
    unfolding demo_header_fields
    by (simp add: demo_header_fields ram_seek [OF assms] ram_read [OF assms] demo_phdr Let_def demo_segment_def del: replicate.simps)
qed

lemma demo_segcpy:
  assumes "cursor_of get put" "r_driver v = Some d"
  shows "\<exists>m'. elf_segcpy (\<lambda>_. ram_driver get put demo_elf) v img 0x1000 demo_segment m (put k w) = Some (0, m', put 88 w)"
proof -
  have "(4 :: int) = int 4" "min_c 4 8 = 4" by simp_all
  then show ?thesis
    by (simp add: elf_segcpy_def demo_segment_def ram_seek [OF assms] ram_read [OF assms])
qed

lemma demo_segments:
  assumes "cursor_of get put" "r_driver v = Some d"
  shows "\<exists>m'. elf_segments (\<lambda>_. 0x100000) (\<lambda>_. ram_driver get put demo_elf) (demo_stack 32) v demo_header demo_image m (put 52 w) =
    Some (0, demo_image\<lparr>pi_image := 0x100000, pi_mount := 0x1000\<rparr>, m', put 88 w)"
proof -
  obtain m' where "elf_segcpy (\<lambda>_. ram_driver get put demo_elf) v 0x100000 0x1000 demo_segment m (put 84 w) = Some (0, m', put 88 w)"
    using demo_segcpy [OF assms] by blast
  then show ?thesis by (simp add: elf_segments_def demo_phdrs [OF assms] del: replicate.simps)
qed

lemma demo_load:
  assumes "cursor_of get put" "r_driver v = Some d"
  shows "\<exists>m'. elf_load (\<lambda>_. 0x100000) (\<lambda>_. ram_driver get put demo_elf) (demo_stack 52) (demo_stack 32) v demo_image m (put 0 w) =
    Some (0, demo_image\<lparr>pi_image := 0x100000, pi_mount := 0x1000, pi_entry := 0x1004\<rparr>, m', put 88 w)"
proof -
  obtain m' where s: "elf_segments (\<lambda>_. 0x100000) (\<lambda>_. ram_driver get put demo_elf) (demo_stack 32) v demo_header demo_image m (put 52 w) =
    Some (0, demo_image\<lparr>pi_image := 0x100000, pi_mount := 0x1000\<rparr>, m', put 88 w)" using demo_segments [OF assms] by blast
  have r: "vfs_read (\<lambda>_. ram_driver get put demo_elf) v 52 (put 0 w) = Some (52, take 52 demo_elf, put 52 w)"
    by (simp add: ram_read [OF assms])
  note ok = demo_ok(2) [unfolded header_ok_def] demo_ok(3)
  have h: "ehdr_of_bytes (read_into (demo_stack 52) (take 52 demo_elf)) = demo_header" by (simp only: demo_header_def)
  show ?thesis
    unfolding elf_load_def of_nat_numeral r bind.bind_lunit prod.case h Let_def
    using ok s by (auto simp del: replicate.simps)
qed

abbreviation (input) demo_stub :: "u32 \<Rightarrow> u32 \<Rightarrow> int \<Rightarrow> int \<Rightarrow> int \<Rightarrow> mem \<Rightarrow> u32 \<times> mem" where
  "demo_stub \<equiv> \<lambda>sp ip d c v m. (sp - 72, m)"

lemma demo_create:
  assumes "cursor_of get put" "r_driver v = Some d"
  shows "\<exists>s' m'. scheduler_create_process (\<lambda>_. 0x100000) (\<lambda>_. 0x10000) demo_stub (\<lambda>_. ram_driver get put demo_elf)
    (demo_stack 52) (demo_stack 32) demo_image [] [] (- 1) v sched_fresh iflag m (put 0 w) = Some (0, s', True, m', put 88 w)"
proof -
  obtain m' where l: "elf_load (\<lambda>_. 0x100000) (\<lambda>_. ram_driver get put demo_elf) (demo_stack 52) (demo_stack 32) v demo_image m (put 0 w) =
    Some (0, demo_image\<lparr>pi_image := 0x100000, pi_mount := 0x1000, pi_entry := 0x1004\<rparr>, m', put 88 w)" using demo_load [OF assms] by blast
  obtain p where p: "scheduler_new_entry [] [] sched_fresh (- 1) 0x10FFB8 0x100000 v 0 1 =
    Some (sched_fresh\<lparr>sd_table := [p, no_process], sd_count := 2\<rparr>)" using first_entry by blast
  have i: "demo_image\<lparr>pi_prefix := 0, pi_sufix := 1024 * 32\<rparr> = demo_image" by simp
  show ?thesis unfolding scheduler_create_process_def Let_def i by (simp add: l p del: replicate.simps)
qed

lemma elf_ref_driver: "r_driver elf_ref = Some 0"
  by simp



theorem create_process_masks_witness:
  "scheduler_create_process (\<lambda>_. 0x100000) (\<lambda>_. 0x10000) demo_stub demo_drv (demo_stack 52) (demo_stack 32) demo_image
    [] [] 7 elf_ref sched_fresh True (\<lambda>_. 0) 0 = Some (1, sched_fresh, False, \<lambda>_. 0, 0) \<and>
    (\<exists>r s' iflag' m' w'. scheduler_create_process (\<lambda>_. 0x100000) (\<lambda>_. 0x10000) demo_stub demo_drv (demo_stack 52) (demo_stack 32)
       demo_image [] [] 7 elf_ref sched_fresh True (\<lambda>_. 0) 0 = Some (r, s', iflag', m', w') \<and> r = 1 \<and> \<not> iflag')"
proof -
  have s: "scheduler_create_process (\<lambda>_. 0x100000) (\<lambda>_. 0x10000) demo_stub demo_drv (demo_stack 52) (demo_stack 32) demo_image
    [] [] 7 elf_ref sched_fresh True (\<lambda>_. 0) 0 = Some (1, sched_fresh, False, \<lambda>_. 0, 0)"
    by (simp add: scheduler_create_process_def scheduler_pid_invalid_def sched_fresh_def scheduler_init_def sched_static_def)
  with create_process_masks [OF s] show ?thesis by auto
qed

theorem create_process_starts_witness:
  "\<exists>s' m' p. scheduler_create_process (\<lambda>_. 0x100000) (\<lambda>_. 0x10000) demo_stub demo_drv (demo_stack 52) (demo_stack 32) demo_image
    [] [] (- 1) elf_ref sched_fresh True (\<lambda>_. 0) 0 = Some (0, s', True, m', 88) \<and>
    proc_at s' 0 = Some p \<and> ps_exists p \<and> ps_state p = RUNNABLE \<and> ps_parent_index p = - 1"
proof -
  obtain s' m' where s: "scheduler_create_process (\<lambda>_. 0x100000) (\<lambda>_. 0x10000) demo_stub demo_drv (demo_stack 52) (demo_stack 32)
    demo_image [] [] (- 1) elf_ref sched_fresh True (\<lambda>_. 0) 0 = Some (0, s', True, m', 88)" using demo_create [OF cursor_nat elf_ref_driver] by blast
  from create_process_starts [OF s] obtain i p where p: "i = sd_count sched_fresh \<or> (\<exists>q. proc_at sched_fresh i = Some q \<and> \<not> ps_exists q)"
    "\<forall>j. 0 \<le> j \<and> j < i \<longrightarrow> (\<exists>q. proc_at sched_fresh j = Some q \<and> ps_exists q)"
    "proc_at s' i = Some p" "ps_exists p" "ps_state p = RUNNABLE" "ps_parent_index p = - 1" by blast
  have "proc_at sched_fresh 0 = Some no_process" "\<not> ps_exists no_process"
    by (simp_all add: proc_at_def sched_fresh_def scheduler_init_def no_process_def)
  then have "\<not> 0 < i" using p(2) by fastforce
  moreover have "0 \<le> i" using p(3) by (simp add: proc_at_def split: if_splits)
  ultimately show ?thesis using s p(3-6) by auto
qed

end
