(* ===== verification/Interrupt.thy ===== *)
theory Interrupt
  imports Prelude
begin

section \<open>Interrupt dispatch and the wait subsystem (interrupt.c)\<close>

text \<open>
  Two parts.  The table of handlers, as \<^verbatim>\<open>int_init\<close> fills it, with what the common tail of the service
  routines does with it.  And the wait subsystem: \<^verbatim>\<open>int_lock\<close>, \<^verbatim>\<open>int_wait\<close> and the call from the service
  routines run interleaved, so that the waiting code is a step relation in which an interrupt can
  arrive before every instruction.  The processor leaves \<^verbatim>\<open>hlt\<close> at the next interrupt, whichever it is.
\<close>

subsection \<open>Handlers\<close>

datatype int_handler = Int_debug_handle | Int_linux_handle | Context_switch

text \<open>\<^verbatim>\<open>service_table\<close>; the null pointer is \<open>None\<close>.\<close>

type_synonym service_table = "int_handler option list"

definition isr_register :: "service_table \<Rightarrow> nat \<Rightarrow> int_handler option \<Rightarrow> service_table" where
  "isr_register table interrupt handler = table[interrupt := handler]"

fun int_init_loop :: "nat \<Rightarrow> service_table \<Rightarrow> service_table" where
  "int_init_loop 0 table = table"
| "int_init_loop (Suc i) table = isr_register (int_init_loop i table) i (Some Int_debug_handle)"

record int_state =
  in_key :: int
  in_locked :: bool
  in_table :: service_table

definition int_static :: int_state where
  "int_static = \<lparr>in_key = 0, in_locked = False, in_table = replicate 256 None\<rparr>"

definition int_init :: "int_state \<Rightarrow> int_state" where
  "int_init s =
     (let table = int_init_loop (0x80 + 1) (in_table s);
          table = isr_register table 0x80 (Some Int_linux_handle);
          table = isr_register table 0x20 (Some Context_switch);
          table = isr_register table 0x26 None
      in s\<lparr>in_locked := False, in_key := 0xFF, in_table := table\<rparr>)"

subsection \<open>Locking\<close>

definition int_common_handle :: "int \<Rightarrow> int_state \<Rightarrow> int_state" where
  "int_common_handle number s = (if in_locked s \<and> number = in_key s then s\<lparr>in_locked := False\<rparr> else s)"

definition int_lock :: "int \<Rightarrow> int_state \<Rightarrow> int_state" where
  "int_lock interrupt s = s\<lparr>in_key := interrupt, in_locked := True\<rparr>"

text \<open>
  What an interrupt does: a spurious one is dropped by the service routine, any other calls
  \<^verbatim>\<open>int_common_handle\<close> and then its handler, when it has one.
\<close>

definition isr_tail :: "bool \<Rightarrow> nat \<Rightarrow> int_state \<Rightarrow> int_handler option \<times> int_state" where
  "isr_tail spurious number s =
     (if spurious then (None, s) else (in_table s ! number, int_common_handle (int number) s))"

subsection \<open>Waiting\<close>

text \<open>
  Where the caller stands: between \<^verbatim>\<open>int_lock\<close> and \<^verbatim>\<open>int_wait\<close> (it starts the device there), before the
  \<^verbatim>\<open>hlt\<close>, halted in it, before the test of \<^verbatim>\<open>locked\<close>, and behind the call.
\<close>

datatype wait_pc = Locked | Wait_hlt | Halted | Wait_test | Returned

datatype wait_event = Run | Irq nat

inductive wait_step :: "wait_pc \<times> int_state \<Rightarrow> wait_event \<Rightarrow> wait_pc \<times> int_state \<Rightarrow> bool" where
  call: "wait_step (Locked, s) Run (Wait_hlt, s)"
| hlt: "wait_step (Wait_hlt, s) Run (Halted, s)"
| again: "in_locked s \<Longrightarrow> wait_step (Wait_test, s) Run (Wait_hlt, s)"
| leave: "\<not> in_locked s \<Longrightarrow> wait_step (Wait_test, s) Run (Returned, s)"
| wake: "wait_step (Halted, s) (Irq n) (Wait_test, int_common_handle (int n) s)"
| irq: "pc \<noteq> Halted \<Longrightarrow> wait_step (pc, s) (Irq n) (pc, int_common_handle (int n) s)"

code_pred (modes: i \<Rightarrow> i \<Rightarrow> o \<Rightarrow> bool as wait_next) wait_step .

inductive_cases run_cases: "wait_step (pc, s) Run c"
inductive_cases irq_cases: "wait_step (pc, s) (Irq n) c"
inductive_simps halted_run: "wait_step (Halted, s) Run c"

lemmas wait_simps = int_common_handle_def

subsection \<open>Executions\<close>

inductive wait_steps :: "wait_pc \<times> int_state \<Rightarrow> wait_event list \<Rightarrow> wait_pc \<times> int_state \<Rightarrow> bool" where
  none: "wait_steps c [] c"
| one: "wait_step c e c' \<Longrightarrow> wait_steps c' es c'' \<Longrightarrow> wait_steps c (e # es) c''"

inductive_cases steps_nil: "wait_steps c [] c'"
inductive_cases steps_cons: "wait_steps c (e # es) c'"

text \<open>The lock is open exactly when the interrupt it waits for has arrived.\<close>

lemma step_locked:
  assumes "wait_step c e c'" "in_key (snd c) = int key"
  shows "in_key (snd c') = int key" "in_locked (snd c') \<longleftrightarrow> in_locked (snd c) \<and> e \<noteq> Irq key"
  using assms by (induction rule: wait_step.induct) (auto simp: wait_simps)

lemma steps_locked:
  assumes "wait_steps c es c'" "in_key (snd c) = int key"
  shows "in_key (snd c') = int key \<and> (in_locked (snd c') \<longleftrightarrow> in_locked (snd c) \<and> Irq key \<notin> set es)"
  using assms by (induction rule: wait_steps.induct) (auto simp: step_locked)

lemma returned_unlocked:
  assumes "wait_steps c es c'" "fst c = Returned \<longrightarrow> \<not> in_locked (snd c)" "fst c' = Returned"
  shows "\<not> in_locked (snd c')"
  using assms
proof (induction rule: wait_steps.induct)
  case (one c e c' es c'')
  from one.hyps(1) one.prems(1) have "fst c' = Returned \<longrightarrow> \<not> in_locked (snd c')"
    by (induction rule: wait_step.induct) (auto simp: wait_simps)
  with one show ?case by blast
qed simp

text \<open>
  An endless execution.  It is fair: code that can go on does so at some time, and interrupts keep
  arriving (the timer does).
\<close>

definition wait_run :: "(nat \<Rightarrow> wait_pc \<times> int_state) \<Rightarrow> (nat \<Rightarrow> wait_event) \<Rightarrow> bool" where
  "wait_run run ev \<longleftrightarrow> (\<forall>i. wait_step (run i) (ev i) (run (Suc i)))"

definition wait_fair :: "(nat \<Rightarrow> wait_pc \<times> int_state) \<Rightarrow> (nat \<Rightarrow> wait_event) \<Rightarrow> bool" where
  "wait_fair run ev \<longleftrightarrow>
     (\<forall>i. \<exists>j\<ge>i. ev j = Run \<or> fst (run j) \<in> {Halted, Returned}) \<and> (\<forall>i. \<exists>j\<ge>i. ev j \<noteq> Run)"

fun wait_rank :: "wait_pc \<Rightarrow> nat" where
  "wait_rank Returned = 0"
| "wait_rank Wait_test = 1"
| "wait_rank Halted = 2"
| "wait_rank Wait_hlt = 3"
| "wait_rank Locked = 4"

lemma rank_eq: "wait_rank a = wait_rank b \<Longrightarrow> a = b"
  by (cases a; cases b) simp_all

text \<open>Once the lock is open, no step moves back, and the ones that must come move on.\<close>

lemma step_rank:
  assumes "wait_step c e c'" "\<not> in_locked (snd c)"
  shows "wait_rank (fst c') \<le> wait_rank (fst c)"
    and "e = Run \<or> fst c = Halted \<Longrightarrow> wait_rank (fst c') < wait_rank (fst c)"
  using assms by (induction rule: wait_step.induct) auto

lemma run_unlocked:
  assumes "wait_run run ev" "in_key (snd (run 0)) = int key" "ev k = Irq key" "k < i"
  shows "in_key (snd (run i)) = int key \<and> \<not> in_locked (snd (run i))"
proof -
  have st: "wait_step (run i) (ev i) (run (Suc i))" for i using assms(1) by (simp add: wait_run_def)
  have key: "in_key (snd (run i)) = int key" for i
    by (induction i) (use assms(2) step_locked(1) [OF st] in auto)
  have "\<not> in_locked (snd (run (Suc k + n)))" for n
    by (induction n) (use step_locked(2) [OF st key] assms(3) in auto)
  with assms(4) key show ?thesis by (metis less_iff_Suc_add add_Suc)
qed

lemma run_descends:
  assumes run: "wait_run run ev" "wait_fair run ev" and opened: "\<And>j. i \<le> j \<Longrightarrow> \<not> in_locked (snd (run j))"
    and "fst (run i) \<noteq> Returned"
  shows "\<exists>j>i. wait_rank (fst (run j)) < wait_rank (fst (run i))"
proof (rule ccontr)
  assume no: "\<not> ?thesis"
  have st: "wait_step (run j) (ev j) (run (Suc j))" for j using run(1) by (simp add: wait_run_def)
  have le: "wait_rank (fst (run (i + n))) \<le> wait_rank (fst (run i))" for n
  proof (induction n)
    case (Suc n)
    with step_rank(1) [OF st opened, of "i + n"] show ?case by simp
  qed simp
  have pc: "fst (run j) = fst (run i)" if "i \<le> j" for j
  proof (cases "j = i")
    case False
    with that no have "\<not> wait_rank (fst (run j)) < wait_rank (fst (run i))" by simp
    with le [of "j - i"] that show ?thesis by (intro rank_eq) simp
  qed simp
  have stay: False if "i \<le> j" "ev j = Run \<or> fst (run j) = Halted" for j
    using step_rank(2) [OF st opened [OF that(1)] that(2)] pc [OF that(1)] pc [of "Suc j"] that(1) by simp
  obtain j where "i \<le> j" "ev j = Run \<or> fst (run j) \<in> {Halted, Returned}"
    using run(2) unfolding wait_fair_def by blast
  with stay [of j] pc [of j] assms(4) show False by auto
qed

lemma run_returns:
  assumes "wait_run run ev" "wait_fair run ev" "\<And>j. i \<le> j \<Longrightarrow> \<not> in_locked (snd (run j))"
  shows "\<exists>j\<ge>i. fst (run j) = Returned"
  using assms(3)
proof (induction "wait_rank (fst (run i))" arbitrary: i rule: less_induct)
  case less
  show ?case
  proof (cases "fst (run i) = Returned")
    case False
    with run_descends [OF assms(1,2) less.prems] obtain j where "i < j" "wait_rank (fst (run j)) < wait_rank (fst (run i))"
      by blast
    with less.hyps [of j] less.prems obtain m where "j \<le> m" "fst (run m) = Returned" by force
    with \<open>i < j\<close> show ?thesis using le_trans less_imp_le by blast
  qed blast
qed

subsection \<open>Properties\<close>


text \<open>The code starts to wait, the timer wakes it once in vain, and the awaited interrupt ends the wait.\<close>

fun demo_event :: "nat \<Rightarrow> wait_event" where
  "demo_event i = (if i \<in> {2, 5} then (if i = 2 then Irq 0x20 else Irq 0x26) else if i < 7 then Run else Irq 0x20)"

definition demo_run :: "int_state \<Rightarrow> nat \<Rightarrow> wait_pc \<times> int_state" where
  "demo_run s i =
     (if i < 7 then [Locked, Wait_hlt, Halted, Wait_test, Wait_hlt, Halted, Wait_test] ! i else Returned,
      if i < 6 then int_lock 0x26 s else (int_lock 0x26 s)\<lparr>in_locked := False\<rparr>)"

lemma demo_run_steps: "wait_run (demo_run s) demo_event"
proof -
  have "wait_step (demo_run s i) (demo_event i) (demo_run s (Suc i))" for i
  proof (cases "i < 7")
    case True
    then have "i \<in> {0, 1, 2, 3, 4, 5, 6}" by auto
    then show ?thesis
      by (auto simp: demo_run_def int_lock_def wait_simps wait_step.simps)
  next
    case False
    then show ?thesis by (auto simp: demo_run_def int_lock_def wait_simps wait_step.simps)
  qed
  then show ?thesis by (simp add: wait_run_def)
qed

lemma demo_run_fair: "wait_fair (demo_run s) demo_event"
proof -
  have "fst (demo_run s (i + 7)) = Returned" "demo_event (i + 7) \<noteq> Run" for i by (simp_all add: demo_run_def)
  then show ?thesis unfolding wait_fair_def by (metis insert_iff le_add1)
qed


text \<open>C40. A lost wake-up.  The awaited interrupt may arrive between \<^verbatim>\<open>int_lock\<close> and \<^verbatim>\<open>int_wait\<close>, as that of
  a fast device does; \<^verbatim>\<open>int_wait\<close> halts before it looks at \<^verbatim>\<open>locked\<close>, and then stands in the \<^verbatim>\<open>hlt\<close> with
  the lock open: no step of its own leaves it, it depends on another interrupt.\<close>

theorem int_wait_lost_wakeup:
  "\<exists>s'. wait_steps (Locked, int_lock (int key) s) [Irq key, Run, Run] (Halted, s') \<and> \<not> in_locked s' \<and>
     (\<nexists>c. wait_step (Halted, s') Run c)"
proof -
  let ?s = "int_common_handle (int key) (int_lock (int key) s)"
  have "wait_steps (Locked, int_lock (int key) s) [Irq key, Run, Run] (Halted, ?s)"
    by (rule wait_steps.one [OF wait_step.irq], simp) (rule wait_steps.one [OF wait_step.call] wait_steps.one [OF wait_step.hlt] wait_steps.none)+
  moreover have "\<not> in_locked ?s" by (simp add: wait_simps int_lock_def)
  ultimately show ?thesis by (auto simp: halted_run)
qed

lemma int_init_loop_nth:
  "i < length table \<Longrightarrow> n \<le> length table \<Longrightarrow> int_init_loop n table ! i = (if i < n then Some Int_debug_handle else table ! i)"
  "length (int_init_loop n table) = length table"
  by (induction n) (auto simp: isr_register_def nth_list_update less_Suc_eq)

text \<open>The dispatch after \<^verbatim>\<open>int_init\<close>.  The timer goes to the context switch, 0x80 to the system calls, the
  floppy's interrupt to no handler (its arrival still opens a lock on it), every other one up to 0x80
  to the handler that stops the kernel; those above are ignored.\<close>

theorem int_init_dispatch:
  assumes "n < 256"
  shows "fst (isr_tail False n (int_init int_static)) =
      (if n = 0x20 then Some Context_switch else if n = 0x80 then Some Int_linux_handle
       else if n = 0x26 \<or> n > 0x80 then None else Some Int_debug_handle) \<and>
    \<not> in_locked (snd (isr_tail False n (int_lock (int n) (int_init int_static))))"
  using assms by (auto simp: isr_tail_def int_init_def int_static_def Let_def isr_register_def nth_list_update
      int_init_loop_nth int_lock_def wait_simps simp del: int_init_loop.simps)

theorem int_init_dispatch_witness:
  "fst (isr_tail False 0x26 (int_init int_static)) = None"
  using int_init_dispatch [where n = "0x26"] by simp

end
