(* ===== verification/Mem.thy ===== *)
theory Mem
  imports CMemory
begin

section \<open>The memory map (mem.c)\<close>

text \<open>
  The boot loader leaves the memory map of the BIOS at \<^verbatim>\<open>MEMORY_MAP_RAM\<close>: the number of entries, then the
  packed entries of 20 bytes.  \<^verbatim>\<open>mem_init\<close> reads it, sets up the allocator and erases it.  The
  allocator is assembly; what the C code asks of it is the list of its calls, in order, with the
  64-bit values cut to the 32 bits of its parameters.
\<close>

abbreviation (input) MEMORY_MAP_RAM :: int where "MEMORY_MAP_RAM \<equiv> 0x500"
abbreviation (input) ENTRY_FREE :: u32 where "ENTRY_FREE \<equiv> 1"
abbreviation (input) sizeof_MemoryEntry :: int where "sizeof_MemoryEntry \<equiv> 20"

definition mem_load32 :: "mem \<Rightarrow> int \<Rightarrow> u32" where
  "mem_load32 m a = ucast (m a) OR push_bit 8 (ucast (m (a + 1))) OR push_bit 16 (ucast (m (a + 2))) OR push_bit 24 (ucast (m (a + 3)))"

definition mem_load64 :: "mem \<Rightarrow> int \<Rightarrow> u64" where
  "mem_load64 m a = ucast (mem_load32 m a) OR push_bit 32 (ucast (mem_load32 m (a + 4)))"

record memory_entry =
  me_base :: u64
  me_length :: u64
  me_type :: u32

record memory_map =
  mm_length :: u32
  mm_bytes :: u32
  mm_array :: int

definition mem_loadmap :: "mem \<Rightarrow> memory_map" where
  "mem_loadmap m =
     (let len = mem_load32 m MEMORY_MAP_RAM
      in \<lparr>mm_length = len, mm_bytes = len * word_of_int sizeof_MemoryEntry + 4, mm_array = MEMORY_MAP_RAM + 4\<rparr>)"

text \<open>\<^verbatim>\<open>map.array[i]\<close>; the address has 32 bits.\<close>

definition mem_entry :: "mem \<Rightarrow> memory_map \<Rightarrow> nat \<Rightarrow> memory_entry" where
  "mem_entry m mmap i =
     (let a = (mm_array mmap + sizeof_MemoryEntry * int i) mod 4294967296
      in \<lparr>me_base = mem_load64 m a, me_length = mem_load64 m (a + 8), me_type = mem_load32 m (a + 16)\<rparr>)"

definition mem_entries :: "mem \<Rightarrow> memory_map \<Rightarrow> memory_entry list" where
  "mem_entries m mmap = List.map (mem_entry m mmap) [0..<unat (mm_length mmap)]"

fun mem_bounds_loop :: "memory_entry list \<Rightarrow> u64 \<Rightarrow> u64 \<Rightarrow> u64 \<times> u64" where
  "mem_bounds_loop [] low high = (low, high)"
| "mem_bounds_loop (e # es) low high =
     (if me_type e = ENTRY_FREE then
        let from_addr = me_base e; to_addr = me_base e + me_length e
        in mem_bounds_loop es (if from_addr < low then from_addr else low) (if to_addr > high then to_addr else high)
      else mem_bounds_loop es low high)"

datatype alloc_call = Kset u32 u32 | Kmres u32 u32

text \<open>The second loop: the calls, and the size that is printed.\<close>

fun mem_reserve_loop :: "memory_entry list \<Rightarrow> u64 \<Rightarrow> alloc_call list \<times> u64" where
  "mem_reserve_loop [] sz = ([], sz)"
| "mem_reserve_loop (e # es) sz =
     (if me_type e \<noteq> ENTRY_FREE then
        (case mem_reserve_loop es (sz - me_length e) of
           (calls, sz) \<Rightarrow> (Kmres (ucast (me_base e)) (ucast (me_length e)) # calls, sz))
      else mem_reserve_loop es sz)"

definition mem_init :: "u32 \<Rightarrow> mem \<Rightarrow> alloc_call list \<times> u64 \<times> mem" where
  "mem_init offset m =
     (let mmap = mem_loadmap m; es = mem_entries m mmap in
      case mem_bounds_loop es 0xFFFFFFFF 0 of (low, high) \<Rightarrow>
        let low = (if low < ucast offset then ucast offset else low);
            high = (if high > 0xFFFFFFFF then 0xFFFFFFFF else high);
            sz = high - low
        in case mem_reserve_loop es sz of (calls, usable) \<Rightarrow>
             (Kset (ucast sz) (ucast low) # calls, usable, snd (memset m MEMORY_MAP_RAM 0 (sint (mm_bytes mmap)))))"

subsection \<open>The regions of a map\<close>

text \<open>The free bytes that a map describes, as numbers; an entry beyond \<open>2 ^ 64\<close> has none there.\<close>

definition region :: "memory_entry \<Rightarrow> int set" where
  "region e = {uint (me_base e) ..< uint (me_base e) + uint (me_length e)}"

definition free_memory :: "memory_entry list \<Rightarrow> int set" where
  "free_memory es = (\<Union>e \<in> {e \<in> set es. me_type e = ENTRY_FREE}. region e)"

definition map_ok :: "memory_entry list \<Rightarrow> bool" where
  "map_ok es \<longleftrightarrow> (\<forall>e\<in>set es. uint (me_base e) + uint (me_length e) < 18446744073709551616)"

lemma end_exact: "uint b + uint l < 18446744073709551616 \<Longrightarrow> uint (b + l :: u64) = uint b + uint l"
  by (simp add: uint_word_ariths)

text \<open>The bounds enclose the free bytes below 4 GB, and are attained by them.\<close>

lemma bounds_loop:
  assumes "map_ok es" "mem_bounds_loop es low high = (low', high')"
  shows "low' \<le> low \<and> high \<le> high' \<and> (\<forall>a\<in>free_memory es. uint low' \<le> a \<and> a < uint high')"
  using assms
proof (induction es arbitrary: low high)
  case (Cons e es)
  have ok: "map_ok es" and e: "uint (me_base e + me_length e) = uint (me_base e) + uint (me_length e)"
    using Cons.prems(1) by (simp_all add: map_ok_def end_exact)
  show ?case
  proof (cases "me_type e = ENTRY_FREE")
    case True
    define lo hi where "lo = (if me_base e < low then me_base e else low)" and
      "hi = (if me_base e + me_length e > high then me_base e + me_length e else high)"
    have r: "mem_bounds_loop es lo hi = (low', high')" using Cons.prems(2) True unfolding lo_def hi_def by (simp add: Let_def split del: if_split)
    note IH = Cons.IH [OF ok r]
    have "lo \<le> low" "high \<le> hi" by (auto simp: lo_def hi_def)
    moreover have "uint lo \<le> uint (me_base e)" "uint (me_base e) + uint (me_length e) \<le> uint hi"
      by (auto simp: lo_def hi_def e [symmetric] word_less_def word_le_def)
    moreover have "uint low' \<le> uint lo" "uint hi \<le> uint high'" using IH by (simp_all add: word_le_def)
    ultimately show ?thesis using IH True
      by (auto simp: free_memory_def region_def)
  next
    case False
    with Cons.prems(2) Cons.IH [OF ok, of low high] show ?thesis by (auto simp: free_memory_def)
  qed
qed (simp add: free_memory_def)

lemma bounds_attained:
  assumes "map_ok es" "mem_bounds_loop es low high = (low', high')"
  shows "(low' = low \<or> (\<exists>e\<in>set es. me_type e = ENTRY_FREE \<and> low' = me_base e)) \<and>
    (high' = high \<or> (\<exists>e\<in>set es. me_type e = ENTRY_FREE \<and> uint high' = uint (me_base e) + uint (me_length e)))"
  using assms
proof (induction es arbitrary: low high)
  case (Cons e es)
  have ok: "map_ok es" and e: "uint (me_base e + me_length e) = uint (me_base e) + uint (me_length e)"
    using Cons.prems(1) by (simp_all add: map_ok_def end_exact)
  show ?case
    using Cons.prems(2) Cons.IH [OF ok] e by (fastforce simp: Let_def split: if_splits)
qed simp

lemma reserve_loop:
  "fst (mem_reserve_loop es sz) =
    List.map (\<lambda>e. Kmres (ucast (me_base e)) (ucast (me_length e))) (filter (\<lambda>e. me_type e \<noteq> ENTRY_FREE) es)"
  by (induction es arbitrary: sz) (auto simp: case_prod_beta)

text \<open>What \<^verbatim>\<open>mem_init\<close> hands to the allocator, before the bounds are known.\<close>

abbreviation map_entries :: "mem \<Rightarrow> memory_entry list" where
  "map_entries m \<equiv> mem_entries m (mem_loadmap m)"

definition reserved :: "memory_entry list \<Rightarrow> alloc_call list" where
  "reserved es = List.map (\<lambda>e. Kmres (ucast (me_base e)) (ucast (me_length e))) (filter (\<lambda>e. me_type e \<noteq> ENTRY_FREE) es)"

lemma ucast_minus: "word_of_int (uint (x - y :: u64)) = (word_of_int (uint x - uint y) :: u32)"
proof -
  have "uint (x - y) = (uint x - uint y) mod 2 ^ 64" by (subst uint_word_arith_bintrs(2)) (simp add: take_bit_eq_mod)
  moreover have "(uint x - uint y) mod 2 ^ 64 mod 2 ^ 32 = (uint x - uint y) mod 2 ^ 32"
    by (rule mod_mod_cancel) simp
  ultimately show ?thesis by (simp only: word_of_int_eq_iff take_bit_eq_mod len_bit0 len_num1) simp
qed

text \<open>The limits of the arena in terms of the free bytes: \<open>lo\<close> and \<open>hi\<close> are exact numbers.\<close>

lemma mem_init_bounds:
  assumes "map_ok (map_entries m)"
  obtains lo hi where "fst (mem_init offset m) = Kset (word_of_int (hi - lo)) (word_of_int lo) # reserved (map_entries m)"
    "uint offset \<le> lo" "lo < 4294967296" "0 \<le> hi" "hi \<le> 4294967295"
    "\<And>a. a \<in> free_memory (map_entries m) \<Longrightarrow> uint offset \<le> a \<Longrightarrow> a < 4294967295 \<Longrightarrow> lo \<le> a \<and> a < hi"
    "lo = uint offset \<or> lo = 4294967295 \<or> (\<exists>e\<in>set (map_entries m). me_type e = ENTRY_FREE \<and> lo = uint (me_base e))"
    "hi = 0 \<or> hi = 4294967295 \<or> (\<exists>e\<in>set (map_entries m). me_type e = ENTRY_FREE \<and> hi = uint (me_base e) + uint (me_length e))"
proof -
  let ?es = "map_entries m" and ?off = "ucast offset :: u64"
  obtain low high where b: "mem_bounds_loop ?es 0xFFFFFFFF 0 = (low, high)" by fastforce
  define lw hw where "lw = (if low < ?off then ?off else low)" and "hw = (if high > 0xFFFFFFFF then 0xFFFFFFFF else high)"
  note B = bounds_loop [OF assms b] and A = bounds_attained [OF assms b]
  have off: "uint ?off = uint offset" by (rule uint_up_ucast) (simp add: is_up)
  have off_lt: "uint offset < 4294967296" using unsigned_less [of offset] by simp
  have lw: "uint lw = max (uint low) (uint offset)" by (auto simp: lw_def off [symmetric] word_less_def max_def)
  have hw: "uint hw = min (uint high) 4294967295" by (auto simp: hw_def word_less_def min_def)
  have low: "uint low \<le> 4294967295" using B by (simp add: word_le_def)
  have call: "fst (mem_init offset m) = Kset (ucast (hw - lw)) (ucast lw) # reserved ?es"
  proof -
    obtain calls usable where r: "mem_reserve_loop ?es (hw - lw) = (calls, usable)" by fastforce
    then have "calls = reserved ?es" using reserve_loop [of ?es "hw - lw"] by (simp add: reserved_def)
    then show ?thesis
      by (simp add: mem_init_def Let_def b lw_def [symmetric] hw_def [symmetric] r split del: if_split)
  qed
  have c: "(ucast (hw - lw) :: u32) = word_of_int (uint hw - uint lw)" "(ucast lw :: u32) = word_of_int (uint lw)"
    by (simp_all only: ucast_eq ucast_minus)
  have 1: "fst (mem_init offset m) = Kset (word_of_int (uint hw - uint lw)) (word_of_int (uint lw)) # reserved ?es"
    using call by (simp only: c)
  have 2: "uint offset \<le> uint lw" "uint lw < 4294967296" "0 \<le> uint hw" "uint hw \<le> 4294967295"
    unfolding lw hw using low off_lt by auto
  have 3: "uint lw \<le> a \<and> a < uint hw" if "a \<in> free_memory ?es" "uint offset \<le> a" "a < 4294967295" for a
  proof -
    have "uint low \<le> a \<and> a < uint high" using B that(1) by blast
    with that(2,3) show ?thesis unfolding lw hw by simp
  qed
  have 4: "uint lw = uint offset \<or> uint lw = 4294967295 \<or> (\<exists>e\<in>set ?es. me_type e = ENTRY_FREE \<and> uint lw = uint (me_base e))"
  proof (cases "uint low \<le> uint offset")
    case False
    then have "uint lw = uint low" by (simp add: lw)
    moreover have "low = 0xFFFFFFFF \<or> (\<exists>e\<in>set ?es. me_type e = ENTRY_FREE \<and> low = me_base e)" using A by blast
    ultimately show ?thesis by force
  qed (simp add: lw)
  have 5: "uint hw = 0 \<or> uint hw = 4294967295 \<or>
      (\<exists>e\<in>set ?es. me_type e = ENTRY_FREE \<and> uint hw = uint (me_base e) + uint (me_length e))"
  proof (cases "uint high \<le> 4294967295")
    case True
    then have "uint hw = uint high" by (simp add: hw)
    moreover have "high = 0 \<or> (\<exists>e\<in>set ?es. me_type e = ENTRY_FREE \<and> uint high = uint (me_base e) + uint (me_length e))" using A by blast
    ultimately show ?thesis by force
  qed (simp add: hw)
  show ?thesis by (rule that [OF 1 2 3 4 5])
qed

lemma mem_init_erases:
  assumes "unat (mm_length (mem_loadmap m)) < 1000"
  shows "snd (snd (mem_init offset m)) = patch m MEMORY_MAP_RAM (4 + sizeof_MemoryEntry * int (length (map_entries m))) (\<lambda>_. 0)"
proof -
  let ?n = "mm_length (mem_loadmap m)"
  have lt: "uint ?n < 1000" and n: "uint ?n = int (unat ?n)" using assms by (simp_all only: uint_nat)
  have "mm_bytes (mem_loadmap m) = ?n * 20 + 4" by (simp add: mem_loadmap_def Let_def)
  then have u: "uint (mm_bytes (mem_loadmap m)) = 4 + 20 * uint ?n"
    using lt by (simp add: uint_word_ariths(1,3))
  have s: "sint (mm_bytes (mem_loadmap m)) = 4 + 20 * int (unat ?n)"
    using lt u unfolding n by (simp only: sint_uint) (simp add: signed_take_bit_int_eq_self)
  have "length (map_entries m) = unat ?n" by (simp add: mem_entries_def)
  then show ?thesis by (simp add: mem_init_def Let_def case_prod_beta memset_eq s)
qed

subsection \<open>Properties\<close>

text \<open>C30. The arena.  When some free byte lies at or above the offset and below 4 GB, \<^verbatim>\<open>mem_init\<close> gives the
  allocator a non-empty arena that starts at the offset or at a free region above it, ends with a free
  region or at the last address, and holds every free byte in that range; it then reserves exactly the other entries of the map,
  in order (cut to 32 bits), and erases the bytes of the map and nothing else.\<close>

theorem mem_init_arena:
  assumes "map_ok (map_entries m)" "unat (mm_length (mem_loadmap m)) < 1000"
    and "\<exists>a\<in>free_memory (map_entries m). uint offset \<le> a \<and> a < 4294967295"
  shows "\<exists>lo hi usable. mem_init offset m =
        (Kset (word_of_int (hi - lo)) (word_of_int lo) # reserved (map_entries m), usable,
         patch m MEMORY_MAP_RAM (4 + sizeof_MemoryEntry * int (length (map_entries m))) (\<lambda>_. 0)) \<and>
      uint offset \<le> lo \<and> lo < hi \<and> hi \<le> 4294967295 \<and>
      (lo = uint offset \<or> (\<exists>e\<in>set (map_entries m). me_type e = ENTRY_FREE \<and> lo = uint (me_base e))) \<and>
      (hi = 4294967295 \<or> (\<exists>e\<in>set (map_entries m). me_type e = ENTRY_FREE \<and> hi = uint (me_base e) + uint (me_length e))) \<and>
      (\<forall>a\<in>free_memory (map_entries m). uint offset \<le> a \<and> a < 4294967295 \<longrightarrow> lo \<le> a \<and> a < hi)"
proof -
  obtain lo hi where b: "fst (mem_init offset m) = Kset (word_of_int (hi - lo)) (word_of_int lo) # reserved (map_entries m)"
    "uint offset \<le> lo" "lo < 4294967296" "0 \<le> hi" "hi \<le> 4294967295"
    "\<And>a. a \<in> free_memory (map_entries m) \<Longrightarrow> uint offset \<le> a \<Longrightarrow> a < 4294967295 \<Longrightarrow> lo \<le> a \<and> a < hi"
    "lo = uint offset \<or> lo = 4294967295 \<or> (\<exists>e\<in>set (map_entries m). me_type e = ENTRY_FREE \<and> lo = uint (me_base e))"
    "hi = 0 \<or> hi = 4294967295 \<or> (\<exists>e\<in>set (map_entries m). me_type e = ENTRY_FREE \<and> hi = uint (me_base e) + uint (me_length e))"
    by (rule mem_init_bounds [OF assms(1), of offset]) (rule that)
  obtain a where a: "a \<in> free_memory (map_entries m)" "uint offset \<le> a" "a < 4294967295" using assms(3) by blast
  obtain calls usable m' where i: "mem_init offset m = (calls, usable, m')" by (cases "mem_init offset m")
  have "lo < hi" "lo \<noteq> 4294967295" using b(6) [OF a] a(3) by linarith+
  moreover have "0 \<le> lo" using b(2) uint_ge_0 [of offset] by linarith
  with \<open>lo < hi\<close> have "hi \<noteq> 0" by linarith
  moreover have "m' = patch m MEMORY_MAP_RAM (4 + sizeof_MemoryEntry * int (length (map_entries m))) (\<lambda>_. 0)"
    using mem_init_erases [OF assms(2), of offset] i by simp
  moreover have "calls = Kset (word_of_int (hi - lo)) (word_of_int lo) # reserved (map_entries m)"
    using b(1) unfolding i fst_conv .
  ultimately show ?thesis using b(2,5,6,7,8) i by blast
qed

text \<open>A machine with 32 MB: conventional memory, a ROM region, and extended memory above 1 MB.\<close>

definition demo_map_bytes :: "u8 list" where
  "demo_map_bytes =
     [3, 0, 0, 0,
      0, 0, 0, 0, 0, 0, 0, 0,  0x00, 0xFC, 0x09, 0, 0, 0, 0, 0,  1, 0, 0, 0,
      0, 0, 0x0F, 0, 0, 0, 0, 0,  0, 0, 1, 0, 0, 0, 0, 0,  2, 0, 0, 0,
      0, 0, 0x10, 0, 0, 0, 0, 0,  0, 0, 0xEE, 1, 0, 0, 0, 0,  1, 0, 0, 0]"

definition demo_map :: mem where
  "demo_map a = (if 0x500 \<le> a \<and> a < 0x500 + int (length demo_map_bytes) then demo_map_bytes ! nat (a - 0x500) else 7)"

lemma demo_map_entries:
  "mm_length (mem_loadmap demo_map) = 3"
  "map_entries demo_map =
     [\<lparr>me_base = 0, me_length = 0x9FC00, me_type = 1\<rparr>, \<lparr>me_base = 0xF0000, me_length = 0x10000, me_type = 2\<rparr>,
      \<lparr>me_base = 0x100000, me_length = 0x1EE0000, me_type = 1\<rparr>]"
proof -
  show n: "mm_length (mem_loadmap demo_map) = 3"
    by (simp add: mem_loadmap_def Let_def mem_load32_def demo_map_def demo_map_bytes_def)
  have a: "mm_array (mem_loadmap demo_map) = 0x504" by (simp add: mem_loadmap_def Let_def)
  show "map_entries demo_map =
     [\<lparr>me_base = 0, me_length = 0x9FC00, me_type = 1\<rparr>, \<lparr>me_base = 0xF0000, me_length = 0x10000, me_type = 2\<rparr>,
      \<lparr>me_base = 0x100000, me_length = 0x1EE0000, me_type = 1\<rparr>]"
    by (simp add: mem_entries_def n upt_rec mem_entry_def a Let_def mem_load32_def mem_load64_def demo_map_def demo_map_bytes_def)
qed

theorem mem_init_arena_witness:
  "\<exists>lo hi. Kset (word_of_int (hi - lo)) (word_of_int lo) = hd (fst (mem_init 0xFFFFF demo_map)) \<and>
     0xFFFFF \<le> lo \<and> lo \<le> 0x100000 \<and> 0x1FE0000 \<le> hi"
proof -
  have free: "free_memory (map_entries demo_map) = {0 ..< 0x9FC00} \<union> {0x100000 ..< 0x1FE0000}"
  proof -
    have "{e \<in> set (map_entries demo_map). me_type e = ENTRY_FREE} =
        {\<lparr>me_base = 0, me_length = 0x9FC00, me_type = 1\<rparr>, \<lparr>me_base = 0x100000, me_length = 0x1EE0000, me_type = 1\<rparr>}"
      unfolding demo_map_entries(2) by auto
    then show ?thesis unfolding free_memory_def by (simp add: region_def)
  qed
  have ok: "map_ok (map_entries demo_map)" by (simp add: demo_map_entries map_ok_def)
  have "\<exists>a\<in>free_memory (map_entries demo_map). uint (0xFFFFF :: u32) \<le> a \<and> a < 4294967295"
    unfolding free by (rule bexI [of _ "0x100000"]) auto
  moreover have "unat (mm_length (mem_loadmap demo_map)) < 1000" by (simp add: demo_map_entries(1))
  ultimately obtain lo hi usable m' where
    i: "mem_init 0xFFFFF demo_map = (Kset (word_of_int (hi - lo)) (word_of_int lo) # reserved (map_entries demo_map), usable, m')"
    and "uint (0xFFFFF :: u32) \<le> lo"
    and all: "\<forall>a\<in>free_memory (map_entries demo_map). uint (0xFFFFF :: u32) \<le> a \<and> a < 4294967295 \<longrightarrow> lo \<le> a \<and> a < hi"
    using mem_init_arena [OF ok, where offset = "0xFFFFF"] by blast
  moreover have "lo \<le> 0x100000" using bspec [OF all, of "0x100000"] by (simp add: free)
  moreover have "0x1FDFFFF < hi" using bspec [OF all, of "0x1FDFFFF"] by (simp add: free)
  moreover have "hd (fst (mem_init 0xFFFFF demo_map)) = Kset (word_of_int (hi - lo)) (word_of_int lo)"
    unfolding i fst_conv list.sel ..
  ultimately show ?thesis by (intro exI [of _ lo] exI [of _ hi]) (simp only: add1_zle_eq, simp)
qed

end
