(* ===== verification/Boot.thy ===== *)
theory Boot
  imports Exec SyscallLaws Print Gdt Interrupt Mem
begin

section \<open>Starting the kernel (entry.c)\<close>

text \<open>
  \<^verbatim>\<open>start\<close> brings the components up and loads the first program.  Its drivers live in one world: the
  kernel's world of \<open>Procfs\<close> extended by that of the FAT driver; \<open>lift_driver\<close> lets a driver work on its
  part.  The driver numbers are 1 for the process file system and 2 for the FAT file system.  The console output
  is that of \<^verbatim>\<open>start\<close> itself and of \<^verbatim>\<open>vfs_print\<close>; what the other components print on the way is left out, as it is
  in their theories, and so is the set-up of the hardware cursor and of the interrupt controller.
\<close>

subsection \<open>One world for all drivers\<close>

definition lift_driver :: "('k \<Rightarrow> 'w) \<Rightarrow> ('w \<Rightarrow> 'k \<Rightarrow> 'k) \<Rightarrow> 'w driver \<Rightarrow> 'k driver" where
  "lift_driver get put d =
     (let lift2 = (\<lambda>k. map_option (\<lambda>(a, w). (a, put w k)))
      in \<lparr>d_identifier = d_identifier d, d_root = (\<lambda>v k. map_option (\<lambda>(a, b, w). (a, b, put w k)) (d_root d v (get k))),
          d_clone = (\<lambda>dst src k. map_option (\<lambda>(a, b, w). (a, b, put w k)) (d_clone d dst src (get k))),
          d_open = (\<lambda>v part flags k. map_option (\<lambda>(a, b, w). (a, b, put w k)) (d_open d v part flags (get k))),
          d_close = (\<lambda>v k. map_option (\<lambda>(a, b, w). (a, b, put w k)) (d_close d v (get k))),
          d_lookup = (\<lambda>v k. map_option (\<lambda>(a, b, w). (a, b, put w k)) (d_lookup d v (get k))),
          d_read = (\<lambda>v n k. map_option (\<lambda>(a, b, w). (a, b, put w k)) (d_read d v n (get k))),
          d_write = (\<lambda>v buffer k. lift2 k (d_write d v buffer (get k))),
          d_seek = (\<lambda>v offset whence k. lift2 k (d_seek d v offset whence (get k))),
          d_list = (\<lambda>v n k. map_option (\<lambda>(a, b, w). (a, b, put w k)) (d_list d v n (get k))),
          d_mkdir = (\<lambda>v name k. lift2 k (d_mkdir d v name (get k))),
          d_remove = (\<lambda>v rmdir k. lift2 k (d_remove d v rmdir (get k))),
          d_stat = (\<lambda>v k. map_option (\<lambda>(a, b, w). (a, b, put w k)) (d_stat d v (get k))),
          d_readlink = (\<lambda>v name n k. map_option (\<lambda>(a, b, w). (a, b, put w k)) (d_readlink d v name n (get k)))\<rparr>)"

record 'p kernel_world = kworld +
  kn_fat :: "'p fatfs_world"

definition put_proc :: "kworld \<Rightarrow> 'p kernel_world \<Rightarrow> 'p kernel_world" where
  "put_proc w k = kworld.extend w (kworld.more k)"

definition put_fat :: "'p fatfs_world \<Rightarrow> 'p kernel_world \<Rightarrow> 'p kernel_world" where
  "put_fat w k = k\<lparr>kn_fat := w\<rparr>"

text \<open>
  The two drivers of \<^verbatim>\<open>start\<close>: \<open>old\<close> is what the local structure of the second held, \<open>garbage\<close> and \<open>sector\<close>
  what buffers on the stack hold, \<open>trace\<close> stands for \<^verbatim>\<open>vfs_trace\<close>, which the first calls when a link is read.
\<close>

definition kernel_drivers ::
  "tracer \<Rightarrow> string \<Rightarrow> 'p ports \<Rightarrow> u8 list \<Rightarrow> 'p fatfs_world driver \<Rightarrow> nat \<Rightarrow> 'p kernel_world driver" where
  "kernel_drivers trace garbage io sector old d =
     (if d = 1 then lift_driver kworld.truncate put_proc (procfs_load trace garbage)
      else lift_driver kn_fat put_fat (fatfs_load io sector old))"

subsection \<open>Printing the tree\<close>

abbreviation (input) kprintf_text :: "pr_state \<Rightarrow> string \<Rightarrow> print_arg list \<Rightarrow> u8 list option" where
  "kprintf_text g pattern args \<equiv> kprintf_on g (ascii pattern) args"

text \<open>A character array as an argument: the bytes before its terminator.\<close>

definition string_arg :: "string \<Rightarrow> print_arg" where
  "string_arg s = Arg_string (Some (takeWhile (\<lambda>b. b \<noteq> 0) (ascii s)))"

fun vfs_print_bars :: "pr_state \<Rightarrow> nat \<Rightarrow> u8 list option" where
  "vfs_print_bars g 0 = Some []"
| "vfs_print_bars g (Suc n) = do { a \<leftarrow> kprintf_text g ''%c '' [Arg_int 0xB3]; b \<leftarrow> vfs_print_bars g n; Some (a @ b) }"

definition vfs_print_line :: "pr_state \<Rightarrow> vnode list \<Rightarrow> (nat \<Rightarrow> string) \<Rightarrow> nat \<Rightarrow> nat \<Rightarrow> u8 list option" where
  "vfs_print_line g nodes ident node depth =
     do {
       a \<leftarrow> vfs_print_bars g depth;
       b \<leftarrow> (if depth > 0 then kprintf_on g ([8, 8] @ ascii ''%c '') [Arg_int 0xC3] else Some []);
       d \<leftarrow> n_driver (nodes ! node);
       c \<leftarrow> kprintf_on g (ascii ''%s at '' @ [0x27] @ ascii ''%s'' @ [0x27] @ ascii '' (child of: %s)'' @ [10])
              [string_arg (n_name (nodes ! node)), string_arg (ident d), string_arg (n_name (nodes ! n_parent (nodes ! node)))];
       Some (a @ b @ c)
     }"

text \<open>A node, what is below it, and its further siblings; \<^verbatim>\<open>vfs_print\<close> starts at one node.\<close>

partial_function (option) vfs_print_loop ::
  "pr_state \<Rightarrow> vnode list \<Rightarrow> (nat \<Rightarrow> string) \<Rightarrow> nat option \<Rightarrow> nat \<Rightarrow> u8 list option" where
  "vfs_print_loop g nodes ident node depth =
     (case node of
        None \<Rightarrow> Some []
      | Some n \<Rightarrow> do {
          line \<leftarrow> vfs_print_line g nodes ident n depth;
          below \<leftarrow> vfs_print_loop g nodes ident (n_child (nodes ! n)) (depth + 1);
          rest \<leftarrow> vfs_print_loop g nodes ident (n_sibling (nodes ! n)) depth;
          Some (line @ below @ rest)
        })"

definition vfs_print :: "pr_state \<Rightarrow> vnode list \<Rightarrow> (nat \<Rightarrow> string) \<Rightarrow> nat option \<Rightarrow> nat \<Rightarrow> u8 list option" where
  "vfs_print g nodes ident node depth =
     (let n = (case node of None \<Rightarrow> 0 | Some n \<Rightarrow> n) in
      do {
        line \<leftarrow> vfs_print_line g nodes ident n depth;
        below \<leftarrow> vfs_print_loop g nodes ident (n_child (nodes ! n)) (depth + 1);
        Some (line @ below)
      })"

subsection \<open>The entry point\<close>

record 'w kernel =
  kn_console :: console
  kn_int :: int_state
  kn_gdt :: "u64 list"
  kn_arena :: "alloc_call list"
  kn_nodes :: "vnode list"
  kn_iflag :: bool
  kn_world :: "'w"

text \<open>
  The parameters of the process creation are as there, \<open>table\<close> is the memory of the process table.  The
  result is the state in which the processor halts.
\<close>

definition start ::
  "(u32 \<Rightarrow> u32) \<Rightarrow> (u32 \<Rightarrow> u32) \<Rightarrow> (u32 \<Rightarrow> u32 \<Rightarrow> int \<Rightarrow> int \<Rightarrow> int \<Rightarrow> mem \<Rightarrow> u32 \<times> mem) \<Rightarrow>
    (nat \<Rightarrow> 'a kworld_scheme driver) \<Rightarrow> pr_state \<Rightarrow> u8 list \<Rightarrow> u8 list \<Rightarrow> program_image \<Rightarrow>
    process list \<Rightarrow> process list \<Rightarrow> vref list \<Rightarrow> 'a kworld_scheme kernel \<Rightarrow> 'a kworld_scheme kernel option" where
  "start kmalloc kmsz isr_stub_stack drv g hstack pstack img table grown files k =
     do {
       let c = con_init (kn_console k) 80 25;
       (arena, _, m) \<leftarrow> Some (mem_init 0xFFFFF (c_mem c));
       let c = c\<lparr>c_mem := m\<rparr>;
       let gdt = ginit;
       let ints = int_init (kn_int k);
       let nodes = vfs_init;
       nodes \<leftarrow> vfs_mount nodes ''/proc/'' 1;
       nodes \<leftarrow> vfs_mount nodes ''/'' 2;
       tree \<leftarrow> vfs_print g nodes (\<lambda>d. d_identifier (drv d)) None 0;
       let c = con_puts c tree;
       ready \<leftarrow> kprintf_on g (ascii ''System ready!'' @ [10]) [];
       let c = con_puts c ready;
       (_, elf, w) \<leftarrow> vfs_open nodes drv vfs_root ''/executable/tiny'' 0 (kn_world k);
       let s = scheduler_init (kw_sched w) table;
       (_, s, iflag, m, w) \<leftarrow> scheduler_create_process kmalloc kmsz isr_stub_stack drv hstack pstack img grown files
                                (- 1) elf s (kn_iflag k) (c_mem c) w;
       Some \<lparr>kn_console = c\<lparr>c_mem := m\<rparr>, kn_int = ints, kn_gdt = gdt, kn_arena = arena, kn_nodes = nodes,
             kn_iflag = iflag, kn_world = w\<lparr>kw_sched := s\<rparr>\<rparr>
     }"

subsection \<open>The drivers leave the process table alone\<close>

lemma kernel_world_parts [simp]:
  "kw_sched (put_fat f k) = kw_sched k" "kw_sched (put_proc w k) = kw_sched w" "kw_sched (kworld.truncate k) = kw_sched k"
  by (simp_all add: put_fat_def put_proc_def kworld.defs)

lemma lift_fat_sched:
  fixes d :: "'p fatfs_world driver"
  shows "d_root (lift_driver kn_fat put_fat d) v k = Some (res, v', k') \<Longrightarrow> kw_sched k' = kw_sched k"
    "d_clone (lift_driver kn_fat put_fat d) v src k = Some (res, v', k') \<Longrightarrow> kw_sched k' = kw_sched k"
    "d_open (lift_driver kn_fat put_fat d) v part flags k = Some (res, v', k') \<Longrightarrow> kw_sched k' = kw_sched k"
    "d_close (lift_driver kn_fat put_fat d) v k = Some (res, v', k') \<Longrightarrow> kw_sched k' = kw_sched k"
    "d_lookup (lift_driver kn_fat put_fat d) v k = Some (res, name, k') \<Longrightarrow> kw_sched k' = kw_sched k"
  by (auto simp: lift_driver_def)

lemma lift_proc_sched:
  fixes trace :: tracer and garbage :: string
  defines "d \<equiv> lift_driver kworld.truncate put_proc (procfs_load trace garbage)"
  shows "d_root d v k = Some (res, v', k') \<Longrightarrow> kw_sched k' = kw_sched k"
    "d_clone d v src k = Some (res, v', k') \<Longrightarrow> kw_sched k' = kw_sched k"
    "d_open d v part flags k = Some (res, v', k') \<Longrightarrow> kw_sched k' = kw_sched k"
    "d_close d v k = Some (res, v', k') \<Longrightarrow> kw_sched k' = kw_sched k"
    "d_lookup d v k = Some (res, name, k') \<Longrightarrow> kw_sched k' = kw_sched k"
  unfolding d_def
  by (auto simp: lift_driver_def procfs_load_def procfs_walk_defs dest!: procfs_open_sched procfs_lookup_sched split: option.splits)

interpretation kd: quiet_nav "kernel_drivers trace garbage io sector old" for trace garbage io sector old
  by unfold_locales
    (auto simp: kernel_drivers_def dest: lift_fat_sched lift_proc_sched split: if_splits)

text \<open>
  With tracing as the kernel does it, the remaining operations are quiet too, so that what is shown
  of the system calls on quiet drivers holds for the two drivers together.
\<close>

lemma lift_fat_rest:
  fixes d :: "'p fatfs_world driver"
  shows "d_read (lift_driver kn_fat put_fat d) v n k = Some (res, out, k') \<Longrightarrow> kw_sched k' = kw_sched k"
    "d_write (lift_driver kn_fat put_fat d) v buffer k = Some (r, k') \<Longrightarrow> kw_sched k' = kw_sched k"
    "d_seek (lift_driver kn_fat put_fat d) v offset whence k = Some (r, k') \<Longrightarrow> kw_sched k' = kw_sched k"
    "d_list (lift_driver kn_fat put_fat d) v m k = Some (res, es, k') \<Longrightarrow> kw_sched k' = kw_sched k"
    "d_stat (lift_driver kn_fat put_fat d) v k = Some (res, st, k') \<Longrightarrow> kw_sched k' = kw_sched k"
  by (auto simp: lift_driver_def)

lemma lift_proc_rest:
  fixes nodes :: "vnode list" and garbage :: string
  defines "p \<equiv> procfs_load (procfs_tracer nodes garbage) garbage"
  defines "d \<equiv> lift_driver kworld.truncate put_proc p"
  shows "d_read d v n k = Some (res, out, k') \<Longrightarrow> kw_sched k' = kw_sched k"
    "d_write d v buffer k = Some (r, k') \<Longrightarrow> kw_sched k' = kw_sched k"
    "d_seek d v offset whence k = Some (r, k') \<Longrightarrow> kw_sched k' = kw_sched k"
    "d_list d v m k = Some (res, es, k') \<Longrightarrow> kw_sched k' = kw_sched k"
    "d_stat d v k = Some (res, st, k') \<Longrightarrow> kw_sched k' = kw_sched k"
  unfolding d_def p_def
  by (auto simp: lift_driver_def dest: pd.read_quiet pd.write_quiet pd.seek_quiet pd.list_quiet pd.stat_quiet)

interpretation kq: quiet_drivers "kernel_drivers (procfs_tracer nodes garbage) garbage io sector old" for nodes garbage io sector old
  by unfold_locales
    (auto simp: kernel_drivers_def dest: lift_fat_rest lift_proc_rest split: if_splits)

subsection \<open>What starting leads to\<close>

lemma start_parts:
  assumes "start kmalloc kmsz stub drv g hstack pstack img table grown files k = Some k'"
  obtains nodes res elf w r s iflag m m' w' where
    "boot_nodes 1 2 = Some nodes" "vfs_open nodes drv vfs_root ''/executable/tiny'' 0 (kn_world k) = Some (res, elf, w)"
    "scheduler_create_process kmalloc kmsz stub drv hstack pstack img grown files (- 1) elf
       (scheduler_init (kw_sched w) table) (kn_iflag k) m w = Some (r, s, iflag, m', w')"
    "kn_nodes k' = nodes" "kn_iflag k' = iflag" "kw_sched (kn_world k') = s"
proof -
  have "\<exists>nodes res elf w r s iflag m m' w'. boot_nodes 1 2 = Some nodes \<and>
    vfs_open nodes drv vfs_root ''/executable/tiny'' 0 (kn_world k) = Some (res, elf, w) \<and>
    scheduler_create_process kmalloc kmsz stub drv hstack pstack img grown files (- 1) elf
       (scheduler_init (kw_sched w) table) (kn_iflag k) m w = Some (r, s, iflag, m', w') \<and>
    kn_nodes k' = nodes \<and> kn_iflag k' = iflag \<and> kw_sched (kn_world k') = s"
    using assms by (auto simp: start_def boot_nodes_def bind_eq_Some_conv Let_def split: prod.splits) blast
  with that show thesis by blast
qed

text \<open>
  C14. Where the kernel stands when \<^verbatim>\<open>start\<close> halts, on a process table that is empty before: both file systems are mounted, and
  either the program was not started, the table is empty and interrupts are disabled, so that nothing runs any more; or the
  program is in the first place of the table and interrupts are enabled, and then the first context switch
  saves the stack in entry \<open>-1\<close>, outside the table, as no process is the running one.  The drivers are any that leave the
  process table alone, as those of the kernel do (the interpretation \<open>kd\<close>).
\<close>

theorem boot_outcome:
  assumes "quiet_nav drv" "start kmalloc kmsz stub drv g hstack pstack img table grown files k = Some k'"
    and "kw_sched (kn_world k) = sched_static"
  shows "tree_ok (kn_nodes k') \<and> mounted (kn_nodes k') = [[''proc''] \<mapsto> 1, [] \<mapsto> 2] \<and>
    (if kn_iflag k'
     then (\<exists>p. proc_at (kw_sched (kn_world k')) 0 = Some p \<and> ps_exists p \<and> ps_state p = RUNNABLE) \<and>
       (\<forall>stack. scheduler_context_switch (kw_sched (kn_world k')) stack = None)
     else sd_count (kw_sched (kn_world k')) = 0 \<and>
       (\<forall>stack. scheduler_context_switch (kw_sched (kn_world k')) stack = Some (stack, kw_sched (kn_world k'))))"
  using assms(2)
proof (rule start_parts)
  fix nodes res elf w r s iflag m m' w'
  assume n: "boot_nodes 1 2 = Some nodes" and o: "vfs_open nodes drv vfs_root ''/executable/tiny'' 0 (kn_world k) = Some (res, elf, w)"
    and c: "scheduler_create_process kmalloc kmsz stub drv hstack pstack img grown files (- 1) elf
       (scheduler_init (kw_sched w) table) (kn_iflag k) m w = Some (r, s, iflag, m', w')"
    and k: "kn_nodes k' = nodes" "kn_iflag k' = iflag" "kw_sched (kn_world k') = s"
  have tree: "tree_ok nodes \<and> mounted nodes = [[''proc''] \<mapsto> 1, [] \<mapsto> 2]" using boot_tree [of 1 2] n by auto
  have s0: "scheduler_init (kw_sched w) table = \<lparr>sd_table = table, sd_count = 0, sd_size = 2, sd_running = - 1\<rparr>"
    using quiet_nav.vfs_open_quiet [OF assms(1) o] assms(3) by (simp add: scheduler_init_def sched_static_def)
  from c have "if iflag then (\<exists>p. proc_at s 0 = Some p \<and> ps_exists p \<and> ps_state p = RUNNABLE) \<and> sd_running s = - 1 \<and> sd_count s = 2
    else s = \<lparr>sd_table = table, sd_count = 0, sd_size = 2, sd_running = - 1\<rparr>"
  proof (cases rule: create_process_parts)
    case failed
    then show ?thesis by (simp add: s0)
  next
    case (started im m1 sp)
    from new_entry_fills [OF started(5)] started(2) show ?thesis
      unfolding s0 by (auto simp: scheduler_free_loop.simps [of _ 0] split: if_splits)
  qed
  then show ?thesis using tree k by (auto simp: scheduler_context_switch_def proc_at_def split: if_splits)
qed

lemma boot_nodes_value:
  "boot_nodes 1 2 = Some
    [\<lparr>n_sibling = None, n_child = Some 1, n_parent = 0, n_driver = Some 2, n_name = ''root''\<rparr>,
     \<lparr>n_sibling = None, n_child = None, n_parent = 0, n_driver = Some 1, n_name = ''proc''\<rparr>]"
  by code_simp

text \<open>The patterns of \<^verbatim>\<open>vfs_print\<close>.\<close>

lemmas pattern_simps = ascii_def kprintf_on_def kprintf_char_def kprintf_specifier_def kprint_string_def kprint_padding_def Let_def

lemma print_line_pattern:
  "kprintf_on g (ascii ''%s at '' @ [0x27] @ ascii ''%s'' @ [0x27] @ ascii '' (child of: %s)'' @ [10])
     [Arg_string (Some a), Arg_string (Some b), Arg_string (Some c)] =
   Some (a @ ascii '' at '' @ [0x27] @ b @ [0x27] @ ascii '' (child of: '' @ c @ [0x29, 10])"
  by (simp add: pattern_simps)

lemma print_bar_patterns:
  "kprintf_on g (ascii ''%c '') [Arg_int 0xB3] = Some [0xB3, 0x20]"
  "kprintf_on g ([8, 8] @ ascii ''%c '') [Arg_int 0xC3] = Some [8, 8, 0xC3, 0x20]"
  by (simp_all add: pattern_simps)

lemmas print_patterns = print_line_pattern [unfolded append_Cons append_Nil] print_bar_patterns [unfolded append_Cons append_Nil]

lemma string_args:
  "string_arg ''root'' = Arg_string (Some (ascii ''root''))" "string_arg ''proc'' = Arg_string (Some (ascii ''proc''))"
  "string_arg ''ProcFS'' = Arg_string (Some (ascii ''ProcFS''))"
  "string_arg (''FatFS'' @ s) = Arg_string (Some (ascii ''FatFS'' @ takeWhile (\<lambda>b. b \<noteq> 0) (ascii s)))"
  by (simp_all add: string_arg_def ascii_def)

text \<open>
  The tree that \<^verbatim>\<open>start\<close> prints: the root with the FAT file system, and below it the process file system.  The
  FAT driver stores its name without a terminator, so that what its structure held before is printed behind it.
\<close>

theorem boot_listing:
  "\<exists>nodes. boot_nodes 1 2 = Some nodes \<and>
    vfs_print g nodes (\<lambda>d. d_identifier (kernel_drivers trace garbage io sector old d)) None 0 =
      Some (ascii ''root at '' @ [0x27] @ ascii ''FatFS'' @ takeWhile (\<lambda>b. b \<noteq> 0) (ascii (drop 5 (d_identifier old))) @ [0x27] @
        ascii '' (child of: root)'' @ [10, 0xB3, 0x20, 8, 8, 0xC3, 0x20] @
        ascii ''proc at '' @ [0x27] @ ascii ''ProcFS'' @ [0x27] @ ascii '' (child of: root)'' @ [10])"
proof -
  have "d_identifier (kernel_drivers trace garbage io sector old 1) = ''ProcFS''"
    "d_identifier (kernel_drivers trace garbage io sector old 2) = ''FatFS'' @ drop 5 (d_identifier old)"
    by (simp_all add: kernel_drivers_def lift_driver_def procfs_load_def fatfs_load_def)
  then show ?thesis
    unfolding boot_nodes_value vfs_print_def
    by (simp add: vfs_print_loop.simps vfs_print_line_def print_patterns string_args [simplified] Let_def) (simp add: ascii_def)
qed

subsection \<open>A start\<close>

definition boot_world :: kworld where
  "boot_world = \<lparr>kw_sched = sched_static, kw_states = (\<lambda>_. None), kw_next = 0\<rparr>"

definition boot_kernel :: "kworld kernel" where
  "boot_kernel = \<lparr>kn_console = con_80x25, kn_int = int_static, kn_gdt = [], kn_arena = [], kn_nodes = [], kn_iflag = True,
     kn_world = boot_world\<rparr>"

definition boot_drivers :: "nat \<Rightarrow> kworld driver" where
  "boot_drivers d = ram_driver kw_next (\<lambda>n w. w\<lparr>kw_next := n\<rparr>) demo_elf"

lemma boot_quiet: "quiet_nav boot_drivers"
  by unfold_locales (auto simp: boot_drivers_def ram_driver_def)

lemma boot_open_program:
  "\<exists>v w. vfs_open [\<lparr>n_sibling = None, n_child = Some 1, n_parent = 0, n_driver = Some 2, n_name = ''root''\<rparr>,
     \<lparr>n_sibling = None, n_child = None, n_parent = 0, n_driver = Some 1, n_name = ''proc''\<rparr>] boot_drivers vfs_root ''/executable/tiny'' 0 boot_world =
     Some (0, v, w) \<and> r_driver v = Some 2 \<and> kw_next w = 0 \<and> kw_sched w = sched_static"
proof -
  let ?nodes = "[\<lparr>n_sibling = None, n_child = Some 1, n_parent = 0, n_driver = Some 2, n_name = ''root''\<rparr>,
     \<lparr>n_sibling = None, n_child = None, n_parent = 0, n_driver = Some 1, n_name = ''proc''\<rparr>] :: vnode list"
  have "map_option (\<lambda>(r, v, w). (r, r_driver v, kw_next w)) (vfs_open ?nodes boot_drivers vfs_root ''/executable/tiny'' 0 boot_world) =
    Some (0, Some 2, 0)" by code_simp
  then obtain v w where o: "vfs_open ?nodes boot_drivers vfs_root ''/executable/tiny'' 0 boot_world = Some (0, v, w)"
    "r_driver v = Some 2" "kw_next w = 0" by auto
  moreover have "kw_sched w = sched_static" using quiet_nav.vfs_open_quiet [OF boot_quiet o(1)] by (simp add: boot_world_def)
  ultimately show ?thesis by blast
qed

lemma boot_print:
  "\<exists>out. vfs_print g [\<lparr>n_sibling = None, n_child = Some 1, n_parent = 0, n_driver = Some 2, n_name = ''root''\<rparr>,
     \<lparr>n_sibling = None, n_child = None, n_parent = 0, n_driver = Some 1, n_name = ''proc''\<rparr>] (\<lambda>d. d_identifier (boot_drivers d)) None 0 = Some out"
  unfolding vfs_print_def
  by (simp add: vfs_print_loop.simps vfs_print_line_def string_arg_def print_patterns Let_def boot_drivers_def ram_driver_def)

theorem boot_outcome_witness:
  "\<exists>k'. start (\<lambda>_. 0x100000) (\<lambda>_. 0x10000) demo_stub boot_drivers print_garbage (demo_stack 52) (demo_stack 32) demo_image
      [no_process, no_process] [] [] boot_kernel = Some k' \<and> kn_iflag k' \<and>
    scheduler_context_switch (kw_sched (kn_world k')) 0 = None"
proof -
  let ?nodes = "[\<lparr>n_sibling = None, n_child = Some 1, n_parent = 0, n_driver = Some 2, n_name = ''root''\<rparr>,
     \<lparr>n_sibling = None, n_child = None, n_parent = 0, n_driver = Some 1, n_name = ''proc''\<rparr>] :: vnode list"
  have cur: "cursor_of kw_next (\<lambda>n (w :: kworld). w\<lparr>kw_next := n\<rparr>)" by (simp add: cursor_of_def)
  obtain v w where o: "vfs_open ?nodes boot_drivers vfs_root ''/executable/tiny'' 0 boot_world = Some (0, v, w)"
    "r_driver v = Some 2" "kw_next w = 0" "kw_sched w = sched_static" using boot_open_program by blast
  have w: "w\<lparr>kw_next := 0\<rparr> = w" using o(3) by simp
  have "boot_drivers = (\<lambda>_. ram_driver kw_next (\<lambda>n w. w\<lparr>kw_next := n\<rparr>) demo_elf)" by (simp add: boot_drivers_def fun_eq_iff)
  then have c: "\<exists>s' m' w'. scheduler_create_process (\<lambda>_. 0x100000) (\<lambda>_. 0x10000) demo_stub boot_drivers (demo_stack 52) (demo_stack 32)
      demo_image [] [] (- 1) v sched_fresh iflag m w = Some (0, s', True, m', w')" for iflag m
    using demo_create [OF cur o(2), of iflag m w] unfolding w by auto
  obtain nodes1 where n: "vfs_mount vfs_init ''/proc/'' 1 = Some nodes1" "vfs_mount nodes1 ''/'' 2 = Some ?nodes"
    using boot_nodes_value by (auto simp: boot_nodes_def bind_eq_Some_conv)
  obtain out where p: "vfs_print print_garbage ?nodes (\<lambda>d. d_identifier (boot_drivers d)) None 0 = Some out" using boot_print by blast
  have r: "kprintf_on print_garbage (ascii ''System ready!'' @ [10]) [] = Some (ascii ''System ready!'' @ [10])"
    by (simp add: pattern_simps)
  let ?c = "con_puts (con_puts ((con_init con_80x25 80 25)\<lparr>c_mem := snd (snd (mem_init 0xFFFFF (c_mem (con_init con_80x25 80 25))))\<rparr>) out)
    (ascii ''System ready!'' @ [10])"
  obtain s' m' w' where c1: "scheduler_create_process (\<lambda>_. 0x100000) (\<lambda>_. 0x10000) demo_stub boot_drivers (demo_stack 52) (demo_stack 32)
      demo_image [] [] (- 1) v sched_fresh True (c_mem ?c) w = Some (0, s', True, m', w')" using c by blast
  have s: "scheduler_init (kw_sched w) [no_process, no_process] = sched_fresh" by (simp add: o(4) sched_fresh_def)
  have "\<exists>k'. start (\<lambda>_. 0x100000) (\<lambda>_. 0x10000) demo_stub boot_drivers print_garbage (demo_stack 52) (demo_stack 32) demo_image
      [no_process, no_process] [] [] boot_kernel = Some k' \<and> kn_iflag k'"
    unfolding start_def Let_def boot_kernel_def kernel.select_convs n bind.bind_lunit case_prod_beta p r o(1) fst_conv snd_conv s c1
    by simp
  then obtain k' where k: "start (\<lambda>_. 0x100000) (\<lambda>_. 0x10000) demo_stub boot_drivers print_garbage (demo_stack 52) (demo_stack 32) demo_image
      [no_process, no_process] [] [] boot_kernel = Some k'" "kn_iflag k'" by blast
  with boot_outcome [OF boot_quiet k(1)] show ?thesis by (auto simp: boot_kernel_def boot_world_def)
qed

end
