(* ===== verification/FatPrint.thy ===== *)
theory FatPrint
  imports Print Fat
begin

section \<open>The diagnostic output of the FAT file system (fat.c)\<close>

text \<open>
  The functions at the end of \<^verbatim>\<open>fat.c\<close> that print its structures, as the bytes they hand to the console
  through \<^verbatim>\<open>kprintf\<close>, with the debug output of \<^verbatim>\<open>floppy.c\<close> and the line that \<^verbatim>\<open>sys_exit\<close> prints; \<open>g\<close> is the uninitialised state of the printer.  The results are \<open>None\<close> when an array is read
  beyond its end.
\<close>

subsection \<open>Sequences of output\<close>

fun outputs :: "u8 list option list \<Rightarrow> u8 list option" where
  "outputs [] = Some []"
| "outputs (x # xs) = do { a \<leftarrow> x; b \<leftarrow> outputs xs; Some (a @ b) }"

subsection \<open>Buffers\<close>

definition fat_print_char :: "pr_state \<Rightarrow> u8 \<Rightarrow> u8 list option" where
  "fat_print_char g b =
     (if b \<ge> 32 \<and> b \<le> 126 then kprintf_on g (ascii ''%c'') [Arg_int (uint b)] else kprintf_on g (ascii ''.'') [])"

definition fat_print_buffer :: "pr_state \<Rightarrow> u8 list \<Rightarrow> nat \<Rightarrow> u8 list option" where
  "fat_print_buffer g buffer n =
     (if n > length buffer then None
      else outputs (concat (List.map (\<lambda>i.
        kprintf_on g (ascii ''%x '') [Arg_int (uint (buffer ! i))] #
        (if (i + 1) mod 16 = 0 \<or> i = n - 1
         then kprintf_on g (ascii ''    '') [] # List.map (\<lambda>j. fat_print_char g (buffer ! j)) [i - i mod 16 ..< i + 1] @ [kprintf_on g [10] []]
         else [])) [0 ..< n])))"

text \<open>The same function in \<^verbatim>\<open>floppy.c\<close>, with the test for printable bytes in the loop.\<close>

definition print_buffer :: "pr_state \<Rightarrow> u8 list \<Rightarrow> nat \<Rightarrow> u8 list option" where
  "print_buffer g buffer n =
     (if n > length buffer then None
      else outputs (concat (List.map (\<lambda>i.
        kprintf_on g (ascii ''%x '') [Arg_int (uint (buffer ! i))] #
        (if (i + 1) mod 16 = 0 \<or> i = n - 1
         then kprintf_on g (ascii ''    '') [] #
              List.map (\<lambda>j. if buffer ! j \<ge> 32 \<and> buffer ! j \<le> 126 then kprintf_on g (ascii ''%c'') [Arg_int (uint (buffer ! j))]
                               else kprintf_on g (ascii ''.'') []) [i - i mod 16 ..< i + 1] @
              [kprintf_on g [10] []]
         else [])) [0 ..< n])))"

lemma print_buffers_agree: "print_buffer g buffer n = fat_print_buffer g buffer n"
  unfolding print_buffer_def fat_print_buffer_def fat_print_char_def by (rule refl)

text \<open>What \<^verbatim>\<open>sys_exit\<close> of \<^verbatim>\<open>syscall.c\<close> prints before it halts the machine.\<close>

definition sys_exit :: "pr_state \<Rightarrow> int \<Rightarrow> u8 list option" where
  "sys_exit g error_code = kprintf_on g (ascii ''Exited with code: %d'' @ [10]) [Arg_int error_code]"

subsection \<open>Structures\<close>

definition fat_field :: "pr_state \<Rightarrow> string \<Rightarrow> string \<Rightarrow> int \<Rightarrow> u8 list option" where
  "fat_field g name spec v = kprintf_on g (ascii name @ ascii '': '' @ ascii spec @ [10]) [Arg_int v]"

definition fat_label :: "pr_state \<Rightarrow> string \<Rightarrow> u8 list option" where
  "fat_label g name = kprintf_on g (ascii name @ ascii '': '') []"

definition fat_print_bpb :: "pr_state \<Rightarrow> fat_bpb \<Rightarrow> u8 list option" where
  "fat_print_bpb g bpb = outputs
     [fat_label g ''BS_jmpBoot'', fat_print_buffer g (BS_jmpBoot bpb) 3,
      fat_label g ''BS_OEMName'', fat_print_buffer g (BS_OEMName bpb) 8,
      fat_field g ''BPB_BytsPerSec'' ''%d'' (uint (BPB_BytsPerSec bpb)),
      fat_field g ''BPB_SecPerClus'' ''%d'' (uint (BPB_SecPerClus bpb)),
      fat_field g ''BPB_RsvdSecCnt'' ''%d'' (uint (BPB_RsvdSecCnt bpb)),
      fat_field g ''BPB_NumFATs'' ''%d'' (uint (BPB_NumFATs bpb)),
      fat_field g ''BPB_RootEntCnt'' ''%d'' (uint (BPB_RootEntCnt bpb)),
      fat_field g ''BPB_TotSec16'' ''%d'' (uint (BPB_TotSec16 bpb)),
      fat_field g ''BPB_Media'' ''%x'' (uint (BPB_Media bpb)),
      fat_field g ''BPB_FATSz16'' ''%d'' (uint (BPB_FATSz16 bpb)),
      fat_field g ''BPB_SecPerTrk'' ''%d'' (uint (BPB_SecPerTrk bpb)),
      fat_field g ''BPB_NumHeads'' ''%d'' (uint (BPB_NumHeads bpb)),
      fat_field g ''BPB_HiddSec'' ''%d'' (sint (BPB_HiddSec bpb)),
      fat_field g ''BPB_TotSec32'' ''%d'' (sint (BPB_TotSec32 bpb)),
      fat_field g ''BPB_FATSz32'' ''%d'' (sint (BPB_FATSz32 bpb)),
      fat_field g ''BPB_ExtFlags'' ''%d'' (uint (BPB_ExtFlags bpb)),
      fat_field g ''BPB_FSVer'' ''%d'' (uint (BPB_FSVer bpb)),
      fat_field g ''BPB_RootClus'' ''%d'' (sint (BPB_RootClus bpb)),
      fat_field g ''BPB_FSInfo'' ''%d'' (uint (BPB_FSInfo bpb)),
      fat_field g ''BPB_BkBootSec'' ''%d'' (uint (BPB_BkBootSec bpb)),
      fat_label g ''BPB_Reserved'', fat_print_buffer g (BPB_Reserved bpb) 12,
      fat_field g ''BS_DrvNum'' ''%x'' (uint (BS_DrvNum bpb)),
      fat_field g ''BS_Reserved1'' ''%x'' (uint (BS_Reserved1 bpb)),
      fat_field g ''BS_BootSig'' ''%x'' (uint (BS_BootSig bpb)),
      fat_field g ''BS_VolID'' ''%d'' (sint (BS_VolID bpb)),
      fat_label g ''BS_VolLab'', fat_print_buffer g (BS_VolLab bpb) 11,
      fat_label g ''BS_FilSysType'', fat_print_buffer g (BS_FilSysType bpb) 8]"

text \<open>The bit fields of a date and a time.\<close>

definition fat_print_date :: "pr_state \<Rightarrow> u16 \<Rightarrow> u8 list option" where
  "fat_print_date g date =
     (let day = date AND 0x1F;
          month = drop_bit 5 date AND 0x0F;
          year = uint (drop_bit 9 date AND 0x7F) + 1980
      in kprintf_on g (ascii ''%d/%d/%d'') [Arg_int (uint day), Arg_int (uint month), Arg_int year])"

definition fat_print_time :: "pr_state \<Rightarrow> u16 \<Rightarrow> u8 list option" where
  "fat_print_time g time =
     (let second = uint (time AND 0x1F) * 2;
          minute = drop_bit 5 time AND 0x3F;
          hour = drop_bit 11 time AND 0x1F
      in kprintf_on g (ascii ''%d:%d:%d'') [Arg_int (uint hour), Arg_int (uint minute), Arg_int second])"

definition fat_print_dir :: "pr_state \<Rightarrow> fat_dir_entry \<Rightarrow> u8 list option" where
  "fat_print_dir g dir = outputs
     [fat_label g ''DIR_Name'', fat_print_buffer g (DIR_Name dir) 11,
      fat_field g ''DIR_Attr'' ''%x'' (uint (DIR_Attr dir)),
      fat_field g ''DIR_NTRes'' ''%x'' (uint (DIR_NTRes dir)),
      fat_field g ''DIR_CrtTimeTenth'' ''%x'' (uint (DIR_CrtTimeTenth dir)),
      fat_label g ''DIR_CrtTime'', fat_print_time g (DIR_CrtTime dir), kprintf_on g [10] [],
      fat_label g ''DIR_CrtDate'', fat_print_date g (DIR_CrtDate dir), kprintf_on g [10] [],
      fat_label g ''DIR_LstAccDate'', fat_print_date g (DIR_LstAccDate dir), kprintf_on g [10] [],
      fat_field g ''DIR_FstClusHI'' ''%d'' (uint (DIR_FstClusHI dir)),
      fat_label g ''DIR_WrtTime'', fat_print_time g (DIR_WrtTime dir), kprintf_on g [10] [],
      fat_label g ''DIR_WrtDate'', fat_print_date g (DIR_WrtDate dir), kprintf_on g [10] [],
      fat_field g ''DIR_FstClusLO'' ''%d'' (uint (DIR_FstClusLO dir)),
      fat_field g ''DIR_FileSize'' ''%d'' (sint (DIR_FileSize dir))]"

text \<open>The name up to its terminator, at most 260 characters.\<close>

definition fat_print_longname :: "pr_state \<Rightarrow> u16 list \<Rightarrow> u8 list option" where
  "fat_print_longname g longname =
     (let name = takeWhile (\<lambda>c. c \<noteq> 0) (take 260 longname) in
      if length name = length longname \<and> length longname < 260 then None
      else outputs (List.map (\<lambda>c. kprintf_on g (ascii ''%c'') [Arg_int (uint c)]) name))"

subsection \<open>What is printed\<close>

lemma kprintf_char_only: "kprintf_on g (ascii ''%c'') [Arg_int v] = Some [word_of_int v AND 0xFF]"
  by (simp add: ascii_def kprintf_on_def kprintf_char_def kprintf_specifier_def Let_def)

lemma fat_print_char_value: "fat_print_char g b = Some [if b \<ge> 32 \<and> b \<le> 126 then b else 0x2E]"
proof -
  have "(0xFF :: u8) = mask 8" by (simp add: mask_eq_exp_minus_1)
  then have "b AND 0xFF = b" by (simp only: take_bit_eq_mask [symmetric]) (simp add: take_bit_word_eq_self)
  moreover have "kprintf_on g (ascii ''.'') [] = Some [0x2E]" by (simp add: ascii_def kprintf_on_def kprintf_char_def)
  ultimately show ?thesis by (simp add: fat_print_char_def kprintf_char_only)
qed

text \<open>Three numbers with a character between them.\<close>

lemma kprintf_three:
  assumes "0 \<le> x" "x < 2147483648" "0 \<le> y" "y < 2147483648" "0 \<le> z" "z < 2147483648" "c \<noteq> 0" "c \<noteq> 0x25"
  shows "kprintf_on g [0x25, 0x64, c, 0x25, 0x64, c, 0x25, 0x64] [Arg_int x, Arg_int y, Arg_int z] =
    Some (dec_bytes x @ [c] @ dec_bytes y @ [c] @ dec_bytes z)"
proof -
  let ?g = "g\<lparr>p_mode := PRINT_DEFAULT\<rparr>"
  obtain g1 where g1: "p_mode g1 = PRINT_DEFAULT"
    "kprintf_loop ?g (0x25 # 0x64 # [c, 0x25, 0x64, c, 0x25, 0x64]) (Arg_int x # [Arg_int y, Arg_int z]) =
      map_option (\<lambda>rest. dec_bytes x @ rest) (kprintf_loop g1 [c, 0x25, 0x64, c, 0x25, 0x64] [Arg_int y, Arg_int z])"
    using kprintf_loop_decimal [of ?g x "[c, 0x25, 0x64, c, 0x25, 0x64]" "[Arg_int y, Arg_int z]"] assms(1,2) by auto
  obtain g2 where g2: "p_mode g2 = PRINT_DEFAULT"
    "kprintf_loop g1 (0x25 # 0x64 # [c, 0x25, 0x64]) (Arg_int y # [Arg_int z]) =
      map_option (\<lambda>rest. dec_bytes y @ rest) (kprintf_loop g2 [c, 0x25, 0x64] [Arg_int z])"
    using kprintf_loop_decimal [of g1 y "[c, 0x25, 0x64]" "[Arg_int z]"] g1(1) assms(3,4) by auto
  obtain g3 where g3: "p_mode g3 = PRINT_DEFAULT"
    "kprintf_loop g2 (0x25 # 0x64 # []) (Arg_int z # []) = map_option (\<lambda>rest. dec_bytes z @ rest) (kprintf_loop g3 [] [])"
    using kprintf_loop_decimal [of g2 z "[]" "[]"] g2(1) assms(5,6) by auto
  show ?thesis
    unfolding kprintf_on_def
    using g1 g2 g3 kprintf_loop_text [of g1 "[c]" "[0x25, 0x64, c, 0x25, 0x64]"]
      kprintf_loop_text [of g2 "[c]" "[0x25, 0x64]"] assms(7,8) by simp
qed

lemma u16_bound: "uint (w :: u16) < 65536"
  using uint_lt2p [of w] by simp

lemma bit_field: "uint (drop_bit k w AND (2 ^ n - 1) :: u16) = uint w div 2 ^ k mod 2 ^ n" if "n < 16"
proof -
  have w: "take_bit 16 (uint w) = uint w" by (rule bintr_uint) simp
  then have w: "uint w mod 65536 = uint w" by (simp add: take_bit_eq_mod)
  have "(2 ^ n - 1 :: u16) = mask n" by (simp add: mask_eq_exp_minus_1)
  then show ?thesis
    by (simp only: take_bit_eq_mask [symmetric] unsigned_take_bit_eq unsigned_drop_bit_eq)
      (simp add: w take_bit_eq_mod drop_bit_eq_div)
qed

lemma div_word_nonneg: "0 < k \<Longrightarrow> 0 \<le> uint w div k"
  by (simp add: pos_imp_zdiv_nonneg_iff)

text \<open>The date and the time of a directory entry are printed as the numbers that their bit fields hold.\<close>

theorem fat_print_date_fields:
  "fat_print_date g date = Some (dec_bytes (uint date mod 32) @ [0x2F] @ dec_bytes (uint date div 32 mod 16) @ [0x2F] @
     dec_bytes (uint date div 512 + 1980))"
proof -
  have f: "uint (date AND 0x1F) = uint date mod 32" "uint (drop_bit 5 date AND 0x0F) = uint date div 32 mod 16"
    "uint (drop_bit 9 date AND 0x7F) = uint date div 512 mod 128"
    using bit_field [of 5 0 date] bit_field [of 4 5 date] bit_field [of 7 9 date] by simp_all
  have y: "uint date div 512 mod 128 = uint date div 512" using u16_bound [of date] by (intro mod_pos_pos_trivial div_word_nonneg) auto
  have b: "0 \<le> uint date mod 32" "uint date mod 32 < 32" "0 \<le> uint date div 32 mod 16" "uint date div 32 mod 16 < 16"
    "uint date div 512 < 128" using u16_bound [of date] by auto
  have n: "0 \<le> uint date div 512" by (rule div_word_nonneg) simp
  have p: "ascii ''%d/%d/%d'' = [0x25, 0x64, 0x2F, 0x25, 0x64, 0x2F, 0x25, 0x64]" by (simp add: ascii_def)
  show ?thesis unfolding fat_print_date_def Let_def f y p by (rule kprintf_three) (use b n in linarith | simp)+
qed

theorem fat_print_time_fields:
  "fat_print_time g time = Some (dec_bytes (uint time div 2048) @ [0x3A] @ dec_bytes (uint time div 32 mod 64) @ [0x3A] @
     dec_bytes (uint time mod 32 * 2))"
proof -
  have f: "uint (time AND 0x1F) = uint time mod 32" "uint (drop_bit 5 time AND 0x3F) = uint time div 32 mod 64"
    "uint (drop_bit 11 time AND 0x1F) = uint time div 2048 mod 32"
    using bit_field [of 5 0 time] bit_field [of 6 5 time] bit_field [of 5 11 time] by simp_all
  have y: "uint time div 2048 mod 32 = uint time div 2048" using u16_bound [of time] by (intro mod_pos_pos_trivial div_word_nonneg) auto
  have b: "0 \<le> uint time mod 32" "uint time mod 32 < 32" "0 \<le> uint time div 32 mod 64" "uint time div 32 mod 64 < 64"
    "uint time div 2048 < 32" using u16_bound [of time] by auto
  have n: "0 \<le> uint time div 2048" by (rule div_word_nonneg) simp
  have p: "ascii ''%d:%d:%d'' = [0x25, 0x64, 0x3A, 0x25, 0x64, 0x3A, 0x25, 0x64]" by (simp add: ascii_def)
  show ?thesis unfolding fat_print_time_def Let_def f y p by (rule kprintf_three) (use b n in linarith | simp)+
qed

end
