(* ===== verification/SchedReach.thy ===== *)
theory SchedReach
  imports Scheduler
begin

section \<open>The process table as a state machine\<close>

text \<open>
  The states that the process table takes from its initialisation on, in a step relation with one rule
  for each operation that changes it.  An operation that leaves the table has no step.  The invariant
  says how far the table as written gets.
\<close>

text \<open>The memory for the files of a process has room for all descriptors.\<close>

inductive sched_step :: "('w, 'z) drivers \<Rightarrow> sched \<Rightarrow> sched \<Rightarrow> bool" for drv where
  step_create: "scheduler_new_entry grown files s parent stack mem exe mount segments = Some s' \<Longrightarrow>
     length files = MAX_FILES_PER_PROCESS \<Longrightarrow> sched_step drv s s'"
| step_kill: "scheduler_kill_process drv s pid w = Some (res, s', w') \<Longrightarrow> sched_step drv s s'"
| step_switch: "scheduler_context_switch s old_stack = Some (new_stack, s') \<Longrightarrow> sched_step drv s s'"
| step_chdir: "scheduler_chdir s pid cwd = Some (res, s') \<Longrightarrow> sched_step drv s s'"
| step_move: "scheduler_move_process s pid address = Some (res, s') \<Longrightarrow> sched_step drv s s'"
| step_fput: "scheduler_fput s pid vref = Some (res, s') \<Longrightarrow> sched_step drv s s'"
| step_fremove: "scheduler_fremove s pid fd = Some (res, s') \<Longrightarrow> sched_step drv s s'"

inductive sched_reach :: "('w, 'z) drivers \<Rightarrow> sched \<Rightarrow> bool" for drv where
  reach_init: "length table = 2 \<Longrightarrow> \<forall>p\<in>set table. \<not> ps_exists p \<Longrightarrow> sched_reach drv (scheduler_init sched_static table)"
| reach_step: "sched_reach drv s \<Longrightarrow> sched_step drv s s' \<Longrightarrow> sched_reach drv s'"

text \<open>The arrays of an existing process have their full length; the one of flags may be gone.\<close>

definition arrays_ok :: "process \<Rightarrow> bool" where
  "arrays_ok p \<longleftrightarrow> (ps_exists p \<longrightarrow> length (ps_files p) = MAX_FILES_PER_PROCESS \<and>
     (case ps_fileExists p of None \<Rightarrow> True | Some flags \<Rightarrow> length flags = MAX_FILES_PER_PROCESS))"

definition table_inv :: "sched \<Rightarrow> bool" where
  "table_inv s \<longleftrightarrow> (\<exists>p q. sd_table s = [p, q] \<and> arrays_ok p \<and> arrays_ok q \<and> sd_size s = 2 \<and> sd_running s = - 1 \<and>
     (if sd_count s = 0 then \<not> ps_exists p \<and> \<not> ps_exists q else 2 \<le> sd_count s) \<and>
     (ps_exists p \<and> ps_exists q \<longrightarrow> 3 \<le> sd_count s))"

lemma table_inv_free:
  assumes "table_inv s" "sd_table s = [p, q]"
  shows "scheduler_free_loop s 0 = (if \<not> ps_exists p then Some 0 else if \<not> ps_exists q then Some 1 else None)"
  using assms unfolding table_inv_def
  by (auto simp: scheduler_free_loop.simps [of s 0] scheduler_free_loop.simps [of s 1] scheduler_free_loop.simps [of s 2] split: if_splits)

text \<open>Replacing an entry that exists by one with the same or less existence and full arrays.\<close>

lemma table_inv_put:
  assumes "table_inv s" "proc_put s i p' = Some s'" "proc_at s i = Some p" "ps_exists p' \<longrightarrow> ps_exists p" "arrays_ok p'"
  shows "table_inv s'"
proof -
  obtain a b where t: "sd_table s = [a, b]" using assms(1) by (auto simp: table_inv_def)
  have "i = 0 \<or> i = 1" using assms(2) t by (auto simp: proc_put_def split: if_splits)
  then show ?thesis using assms t by (auto simp: table_inv_def proc_put_def proc_at_def split: if_splits)
qed

lemma table_inv_arrays:
  assumes "table_inv s" "proc_at s i = Some p"
  shows "arrays_ok p"
proof -
  obtain a b where t: "sd_table s = [a, b]" "arrays_ok a" "arrays_ok b" using assms(1) by (auto simp: table_inv_def)
  have "i = 0 \<or> i = 1" using assms(2) t by (auto simp: proc_at_def split: if_splits)
  then show ?thesis using assms(2) t by (auto simp: proc_at_def)
qed

lemma table_inv_create:
  assumes "table_inv s" "scheduler_new_entry grown files s parent stack mem exe mount segments = Some s'" "length files = 1024"
  shows "table_inv s'"
proof -
  obtain p q where t: "sd_table s = [p, q]" "sd_size s = 2" "sd_running s = - 1"
    "if sd_count s = 0 then \<not> ps_exists p \<and> \<not> ps_exists q else 2 \<le> sd_count s" "arrays_ok p" "arrays_ok q"
    using assms(1) by (auto simp: table_inv_def)
  consider (first) "\<not> ps_exists p" | (second) "ps_exists p" "\<not> ps_exists q"
    using assms(2) table_inv_free [OF assms(1) t(1)] by (auto simp: scheduler_new_entry_def split: if_splits)
  then show ?thesis
  proof cases
    case first
    then show ?thesis using assms(2,3) t table_inv_free [OF assms(1) t(1)]
      by (auto simp: scheduler_new_entry_def Let_def proc_at_def proc_put_def table_inv_def arrays_ok_def simp del: replicate.simps split: if_splits)
  next
    case second
    then show ?thesis using assms(2,3) t table_inv_free [OF assms(1) t(1)]
      by (auto simp: scheduler_new_entry_def Let_def proc_at_def proc_put_def table_inv_def arrays_ok_def simp del: replicate.simps split: if_splits)
  qed
qed

lemma table_inv_update:
  assumes "table_inv s" "scheduler_update s pid f = Some (res, s')" "\<And>p. ps_exists (f p) = ps_exists p"
    "\<And>p. arrays_ok p \<Longrightarrow> arrays_ok (f p)"
  shows "table_inv s'"
  using assms(1,2) table_inv_put [OF assms(1)] table_inv_arrays [OF assms(1)] assms(3,4)
  by (fastforce simp: scheduler_update_def Option.bind_eq_Some_conv split: if_splits)

lemma table_inv_switch: "table_inv s \<Longrightarrow> scheduler_context_switch s old = Some (new, s') \<Longrightarrow> s' = s \<and> sd_count s = 0"
  by (auto simp: table_inv_def scheduler_context_switch_def proc_at_def split: if_splits)

lemma table_inv_step: "sched_step drv s s' \<Longrightarrow> table_inv s \<Longrightarrow> table_inv s'"
proof (induction rule: sched_step.induct)
  case step_create
  then show ?case using table_inv_create by blast
next
  case (step_kill s pid w res s' w')
  obtain bad where bad: "scheduler_pid_invalid s pid = Some bad" using step_kill(1) by (auto simp: scheduler_kill_process_def Option.bind_eq_Some_conv)
  show ?case
  proof (cases bad)
    case True
    then show ?thesis using step_kill bad by (simp add: scheduler_kill_process_def)
  next
    case False
    obtain p x cwd w1 s1 p1 where k: "proc_at s (pid - 1) = Some p" "proc_put s (pid - 1) (p\<lparr>ps_cwd := cwd\<rparr>) = Some s1"
      "proc_at s1 (pid - 1) = Some p1" "proc_put s1 (pid - 1) (p1\<lparr>ps_exists := False\<rparr>) = Some s'"
      using step_kill(1) bad False by (auto simp: scheduler_kill_process_def scheduler_remove_entry_def Option.bind_eq_Some_conv)
    have "arrays_ok (p\<lparr>ps_cwd := cwd\<rparr>)" using table_inv_arrays [OF step_kill(2) k(1)] by (simp add: arrays_ok_def)
    then have s1: "table_inv s1" using table_inv_put [OF step_kill(2) k(2,1)] by simp
    show ?thesis by (rule table_inv_put [OF s1 k(4,3)]) (simp_all add: arrays_ok_def)
  qed
next
  case step_switch
  then show ?case using table_inv_switch by blast
next
  case (step_chdir s pid cwd res s')
  show ?case by (rule table_inv_update [OF step_chdir(2) step_chdir(1) [unfolded scheduler_chdir_def]]) (simp_all add: arrays_ok_def)
next
  case (step_move s pid address res s')
  show ?case by (rule table_inv_update [OF step_move(2) step_move(1) [unfolded scheduler_move_process_def]]) (simp_all add: arrays_ok_def)
next
  case (step_fput s pid vref res s')
  obtain bad where bad: "scheduler_pid_invalid s pid = Some bad" using step_fput(1) by (auto simp: scheduler_fput_def Option.bind_eq_Some_conv)
  show ?case
  proof (cases bad)
    case True
    then show ?thesis using step_fput bad by (simp add: scheduler_fput_def)
  next
    case False
    obtain p flags where p: "proc_at s (pid - 1) = Some p" "ps_fileExists p = Some flags"
      "(case first_clear 0 (take 1024 flags) of None \<Rightarrow> Some (0, s)
        | Some i \<Rightarrow> do { s \<leftarrow> proc_put s (pid - 1) (p\<lparr>ps_files := (ps_files p)[i := vref], ps_fileExists := Some (flags[i := True])\<rparr>);
              Some (int i + 1, s) }) = Some (res, s')"
      using step_fput(1) bad False by (auto simp: scheduler_fput_def Option.bind_eq_Some_conv)
    have a: "arrays_ok (p\<lparr>ps_files := (ps_files p)[i := vref], ps_fileExists := Some (flags[i := True])\<rparr>)" for i
      using table_inv_arrays [OF step_fput(2) p(1)] p(2) by (simp add: arrays_ok_def)
    show ?thesis using p(3) step_fput(2) table_inv_put [OF step_fput(2) _ p(1) _ a]
      by (auto simp: Option.bind_eq_Some_conv split: option.splits)
  qed
next
  case (step_fremove s pid fd res s')
  obtain bad where bad: "scheduler_pid_invalid s pid = Some bad" using step_fremove(1) by (auto simp: scheduler_fremove_def Option.bind_eq_Some_conv)
  show ?case
  proof (cases "s' = s")
    case True
    then show ?thesis using step_fremove by simp
  next
    case False
    then obtain p where p: "proc_at s (pid - 1) = Some p" "proc_put s (pid - 1) (p\<lparr>ps_fileExists := None\<rparr>) = Some s'"
      using step_fremove(1) bad by (auto simp: scheduler_fremove_def Option.bind_eq_Some_conv split: if_splits)
    have "arrays_ok (p\<lparr>ps_fileExists := None\<rparr>)" using table_inv_arrays [OF step_fremove(2) p(1)] by (simp add: arrays_ok_def)
    then show ?thesis using table_inv_put [OF step_fremove(2) p(2,1)] by simp
  qed
qed

lemma reach_inv: "sched_reach drv s \<Longrightarrow> table_inv s"
proof (induction rule: sched_reach.induct)
  case (reach_init table)
  then obtain p q where "table = [p, q]" by (auto simp: length_Suc_conv numeral_2_eq_2)
  then show ?case using reach_init by (simp add: table_inv_def scheduler_init_def sched_static_def arrays_ok_def)
next
  case reach_step
  then show ?case using table_inv_step by blast
qed



end
