(* ===== verification/FatFind.thy ===== *)
theory FatFind
  imports FatProps
begin

section \<open>Finding files by name\<close>

text \<open>
  What a directory lists, as a pure function of its entries, and the walk along a path through the
  listings.  The search of \<^verbatim>\<open>fat_find_full\<close> is shown to be this walk, on every volume whose
  directories form a closed set; reading the directory entry by entry enumerates the listing.
\<close>

subsection \<open>The listing of a directory\<close>

text \<open>
  An item is the position of the entry in its directory, whether it has a long name, the
  array that holds its name, and the entry itself.
\<close>

record named_entry =
  nm_index :: nat
  nm_long :: bool
  nm_chars :: "u16 list"
  nm_entry :: fat_dir_entry

definition dir_entries :: "u8 list \<Rightarrow> fat_dir_entry list" where
  "dir_entries bs = List.map (\<lambda>i. dir_of_bytes (take 32 (drop (32 * i) bs))) [0..<length bs div 32]"

definition piece_index :: "fat_dir_entry \<Rightarrow> nat" where
  "piece_index e = unat (DIR_Name e ! 0 AND 0x0F)"

definition last_piece :: "fat_dir_entry \<Rightarrow> bool" where
  "last_piece e \<longleftrightarrow> DIR_Name e ! 0 AND 0x40 \<noteq> 0"

definition replace_at :: "nat \<Rightarrow> 'a list \<Rightarrow> 'a list \<Rightarrow> 'a list" where
  "replace_at i ys xs = take i xs @ ys @ drop (i + length ys) xs"

text \<open>A piece of a long name is put into the array; the piece marked as the last one also ends the name.\<close>

definition join_piece :: "fat_dir_entry \<Rightarrow> u16 list \<Rightarrow> u16 list" where
  "join_piece e chars =
     (let chars = replace_at ((piece_index e - 1) * 13) (fat_lfn_chars (lfn_of_bytes (bytes_of_dir e))) chars
      in if last_piece e then replace_at ((piece_index e - 1) * 13 + 13) [0] chars else chars)"

definition short_chars :: "u8 list \<Rightarrow> u16 list" where
  "short_chars shortname =
     (let name = takeWhile (\<lambda>c. c \<noteq> 0x20) (take 8 shortname);
          extension = takeWhile (\<lambda>c. c \<noteq> 0x20) (take 3 (drop 8 shortname))
      in List.map scast name @ (if extension = [] then [0, 0] else 0x2E # List.map scast extension @ [0]))"

fun listing :: "nat \<Rightarrow> bool \<Rightarrow> u16 list \<Rightarrow> fat_dir_entry list \<Rightarrow> named_entry list" where
  "listing k long chars [] = []"
| "listing k long chars (e # es) =
     (if DIR_Name e ! 0 = 0 then []
      else if DIR_Name e ! 0 = 0xE5 then listing (k + 1) long chars es
      else if DIR_Attr e = 0x0F then listing (k + 1) (long \<or> last_piece e) (join_piece e chars) es
      else (let chars = (if long then chars else replace_at 0 (short_chars (DIR_Name e)) chars)
            in \<lparr>nm_index = k, nm_long = long, nm_chars = chars, nm_entry = e\<rparr> # listing (k + 1) False chars es))"

definition dir_listing :: "fat_dir_entry list \<Rightarrow> named_entry list" where
  "dir_listing es = listing 0 False (f_long_filename fat_file_default) es"

text \<open>Pieces count from 1; the code would write before the array for a piece 0.\<close>

definition live_entries :: "fat_dir_entry list \<Rightarrow> fat_dir_entry list" where
  "live_entries es = takeWhile (\<lambda>e. DIR_Name e ! 0 \<noteq> 0) es"

definition pieces_ok :: "fat_dir_entry list \<Rightarrow> bool" where
  "pieces_ok es \<longleftrightarrow> list_all (\<lambda>e. DIR_Name e ! 0 \<noteq> 0xE5 \<and> DIR_Attr e = 0x0F \<longrightarrow> piece_index e \<noteq> 0) (live_entries es)"

subsection \<open>The walk along a path\<close>

function path_parts :: "u8 list \<Rightarrow> u8 list list" where
  "path_parts path =
     (case dropWhile (\<lambda>c. c \<noteq> 0x2F) path of
        [] \<Rightarrow> [path]
      | _ # rest \<Rightarrow> takeWhile (\<lambda>c. c \<noteq> 0x2F) path # path_parts rest)"
  by pat_completeness auto
termination
proof (relation "measure length")
  show "\<And>path x rest. dropWhile (\<lambda>c. c \<noteq> 0x2F) path = x # rest \<Longrightarrow> (rest, path) \<in> measure length"
    by (metis dropWhile_eq_drop impossible_Cons in_measure length_drop linorder_not_less diff_le_self list.size(4) le_add1 le_less_trans less_add_one less_le_trans not_less_eq Suc_eq_plus1)
qed simp

declare path_parts.simps [simp del]

definition name_text :: "named_entry \<Rightarrow> u8 list" where
  "name_text x = takeWhile (\<lambda>c. c \<noteq> 0) (List.map ucast (nm_chars x))"

definition is_dir :: "fat_dir_entry \<Rightarrow> bool" where
  "is_dir e \<longleftrightarrow> DIR_Attr e AND 0x10 \<noteq> 0"

text \<open>Long names are compared as they are, short ones regardless of case; nothing has the empty name.\<close>

definition has_name :: "u8 list \<Rightarrow> named_entry \<Rightarrow> bool" where
  "has_name part x \<longleftrightarrow> part \<noteq> [] \<and> List.map (fat_fold (nm_long x)) part = List.map (fat_fold (nm_long x)) (name_text x)"

definition first_cluster_of :: "fat_dir_entry \<Rightarrow> u16" where
  "first_cluster_of e = (if DIR_FstClusLO e < 2 then 2 else DIR_FstClusLO e)"

fun dir_walk :: "(u16 \<Rightarrow> fat_dir_entry list) \<Rightarrow> bool \<Rightarrow> u16 \<Rightarrow> u8 list list \<Rightarrow> (u16 \<times> named_entry) option" where
  "dir_walk dirs is_file c [] = None"
| "dir_walk dirs is_file c [part] =
     map_option (Pair c) (List.find (\<lambda>x. has_name part x \<and> is_dir (nm_entry x) \<noteq> is_file) (dir_listing (dirs c)))"
| "dir_walk dirs is_file c (part # parts) =
     (case List.find (\<lambda>x. has_name part x \<and> is_dir (nm_entry x)) (dir_listing (dirs c)) of
        None \<Rightarrow> None
      | Some x \<Rightarrow> dir_walk dirs is_file (first_cluster_of (nm_entry x)) parts)"

subsection \<open>Names and paths\<close>

lemma path_compare_text:
  assumes "0 \<notin> set path"
  shows "path_compare_loop cs path name i =
    (if List.map (fat_fold cs) (takeWhile (\<lambda>c. c \<noteq> 0x2F) path) = List.map (fat_fold cs) (takeWhile (\<lambda>c. c \<noteq> 0) name)
     then i + length (takeWhile (\<lambda>c. c \<noteq> 0) name) else 0)"
  using assms
proof (induction path arbitrary: name i)
  case Nil
  then show ?case by (cases name) (auto simp: path_compare_loop.simps [of cs "[]"] byte_at_def)
next
  case (Cons p path)
  show ?case
  proof (cases name)
    case Nil
    then show ?thesis using Cons.prems by (simp add: path_compare_loop.simps [of cs "p # path"] byte_at_def)
  next
    case (Cons d name')
    then show ?thesis using Cons.prems Cons.IH [of name' "i + 1"]
      by (auto simp: path_compare_loop.simps [of cs "p # path"] byte_at_def fat_fold_def Let_def to_lowercase_slash)
  qed
qed

lemma path_compare_named:
  assumes "0 \<notin> set path"
  shows "path_compare path (List.map ucast (nm_chars x)) (nm_long x) > 0 \<longleftrightarrow> has_name (takeWhile (\<lambda>c. c \<noteq> 0x2F) path) x"
    "has_name (takeWhile (\<lambda>c. c \<noteq> 0x2F) path) x \<Longrightarrow>
       path_compare path (List.map ucast (nm_chars x)) (nm_long x) = length (takeWhile (\<lambda>c. c \<noteq> 0x2F) path)"
  unfolding path_compare_def path_compare_text [OF assms] has_name_def name_text_def
  by (auto dest: map_eq_imp_length_eq)

lemma byte_at_component: "byte_at path (length (takeWhile (\<lambda>c. c \<noteq> 0x2F) path)) = (if 0x2F \<in> set path then 0x2F else 0)"
  by (induction path) (auto simp: byte_at_def)

lemma path_parts_last: "path_parts path = [path] \<and> takeWhile (\<lambda>c. c \<noteq> 0x2F) path = path"
  if n: "0x2F \<notin> set path"
proof -
  have "dropWhile (\<lambda>c. c \<noteq> 0x2F) path = []" using n by (auto simp: dropWhile_eq_Nil_conv)
  then have "path_parts path = [path]" by (subst path_parts.simps) (simp only: list.case)
  moreover have "takeWhile (\<lambda>c. c \<noteq> 0x2F) path = path" using n by (auto simp: takeWhile_eq_all_conv)
  ultimately show ?thesis by simp
qed

lemma path_parts_more:
  assumes "0x2F \<in> set path"
  shows "path_parts path = takeWhile (\<lambda>c. c \<noteq> 0x2F) path # path_parts (drop (length (takeWhile (\<lambda>c. c \<noteq> 0x2F) path) + 1) path)"
proof -
  have "dropWhile (\<lambda>c. c \<noteq> 0x2F) path \<noteq> []" using assms by (auto simp: dropWhile_eq_Nil_conv)
  then obtain x rest where r: "dropWhile (\<lambda>c. c \<noteq> 0x2F) path = x # rest" by (meson neq_Nil_conv)
  moreover have "dropWhile (\<lambda>c. c \<noteq> 0x2F) path = drop (length (takeWhile (\<lambda>c. c \<noteq> 0x2F) path)) path" by (rule dropWhile_eq_drop)
  ultimately have "drop (length (takeWhile (\<lambda>c. c \<noteq> 0x2F) path) + 1) path = rest"
    by (metis Suc_eq_plus1 drop_Suc list.sel(3) tl_drop)
  then show ?thesis by (subst path_parts.simps) (simp only: r list.case)
qed

lemma path_parts_nonempty: "path_parts path \<noteq> []"
  by (simp add: path_parts.simps [of path] split: list.splits)

subsection \<open>One entry of the search\<close>

lemma store_replace: "i + length ys \<le> length xs \<Longrightarrow> store_at xs i ys = Some (replace_at i ys xs)"
  by (simp add: store_at_def replace_at_def)

lemma length_replace_at: "i + length ys \<le> length xs \<Longrightarrow> length (replace_at i ys xs) = length xs"
  by (simp add: replace_at_def)

lemma length_lfn_chars [simp]: "length (fat_lfn_chars (lfn_of_bytes bs)) = 13"
  by (simp add: fat_lfn_chars_def lfn_of_bytes_def)

lemma piece_index_bound: "piece_index e < 16"
proof -
  have "DIR_Name e ! 0 AND 0x0F \<le> (0x0F :: u8)" by (rule word_and_le1)
  then show ?thesis unfolding piece_index_def word_le_nat_alt by simp
qed

lemma length_join_piece: "length chars = 260 \<Longrightarrow> length (join_piece e chars) = 260"
  using piece_index_bound [of e] by (auto simp: join_piece_def Let_def length_replace_at)

lemma find_lfn_join:
  assumes "piece_index (f_dir sub) \<noteq> 0" "length (f_long_filename sub) = 260"
  shows "fat_find_lfn sub = Some (sub\<lparr>f_long_filename := join_piece (f_dir sub) (f_long_filename sub)\<rparr>)"
proof -
  let ?p = "(piece_index (f_dir sub) - 1) * 13"
  have p: "?p + 14 \<le> 260" using piece_index_bound [of "f_dir sub"] by simp
  have 1: "store_at (f_long_filename sub) ?p (fat_lfn_chars (lfn_of_bytes (bytes_of_dir (f_dir sub)))) =
      Some (replace_at ?p (fat_lfn_chars (lfn_of_bytes (bytes_of_dir (f_dir sub)))) (f_long_filename sub))"
    using p assms(2) by (intro store_replace) simp
  have 2: "store_at (replace_at ?p (fat_lfn_chars (lfn_of_bytes (bytes_of_dir (f_dir sub)))) (f_long_filename sub)) (?p + 13) [0] =
      Some (replace_at (?p + 13) [0] (replace_at ?p (fat_lfn_chars (lfn_of_bytes (bytes_of_dir (f_dir sub)))) (f_long_filename sub)))"
    using p assms(2) by (intro store_replace) (simp add: length_replace_at)
  show ?thesis unfolding fat_find_lfn_def piece_index_def [symmetric] last_piece_def [symmetric] Let_def 1
    using assms(1) 2 by (simp add: join_piece_def last_piece_def [symmetric])
qed

lemma length_short_chars: "length (short_chars name) \<le> 13"
  using length_takeWhile_le [of "\<lambda>c. c \<noteq> 0x20" "take 8 name"] length_takeWhile_le [of "\<lambda>c. c \<noteq> 0x20" "take 3 (drop 8 name)"]
  by (auto simp: short_chars_def Let_def)

lemma shortname_chars: "length chars = 260 \<Longrightarrow> shortname_to_longname name chars = Some (replace_at 0 (short_chars name) chars)"
  using length_short_chars [of name] unfolding shortname_to_longname_def Let_def short_chars_def
  by (intro store_replace) simp

lemma length_listing_chars:
  "length chars = 260 \<Longrightarrow> x \<in> set (listing k long chars es) \<Longrightarrow> length (nm_chars x) = 260"
  using length_short_chars
  by (induction k long chars es rule: listing.induct)
    (auto simp: Let_def length_join_piece length_replace_at le_trans [OF length_short_chars] split: if_splits)

lemma nth_dir_entries: "k < length bs div 32 \<Longrightarrow> dir_entries bs ! k = dir_of_bytes (take 32 (drop (32 * k) bs))"
  by (simp add: dir_entries_def)

lemma length_dir_entries [simp]: "length (dir_entries bs) = length bs div 32"
  by (simp add: dir_entries_def)

lemma length_dir_entry_name: "k < length bs div 32 \<Longrightarrow> length (DIR_Name (dir_entries bs ! k)) = 11"
  by (simp add: nth_dir_entries dir_of_bytes_def)

subsection \<open>The search on a volume\<close>

text \<open>What the search does with an entry that has a name, whatever came before it.\<close>

definition handle_entry ::
  "'p fat_disk \<Rightarrow> bool \<Rightarrow> bool \<Rightarrow> fat_file \<Rightarrow> u8 list \<Rightarrow> u32 \<Rightarrow> u32 \<Rightarrow> named_entry \<Rightarrow> fat_file option \<Rightarrow>
     'p fat_world \<Rightarrow> (int \<times> fat_file \<times> fat_file option \<times> u32 \<times> 'p fat_world) option" where
  "handle_entry disk is_file read_at_cursor directory_file path cursor entries x out w =
     (let sub = fat_file_default\<lparr>f_dir := nm_entry x, f_long_filename := nm_chars x\<rparr>;
          dir_offset = word_of_nat (32 * (nm_index x + 1));
          found = fat_found directory_file dir_offset (nm_long x);
          n = path_compare path (List.map ucast (nm_chars x)) (nm_long x)
      in if read_at_cursor \<and> entries = cursor then
           (if is_dir (nm_entry x) then Some (fat_FOUND_DIR, found sub, out, cursor + 1, w)
            else (case out of
                    None \<Rightarrow> None
                  | Some file_out \<Rightarrow>
                      Some (fat_FOUND_FILE, sub, Some (found (file_out\<lparr>f_dir := nm_entry x, f_long_filename := nm_chars x\<rparr>)), cursor + 1, w)))
         else if \<not> read_at_cursor \<and> n > 0 \<and> is_dir (nm_entry x) \<and> byte_at path n = 0 \<and> \<not> is_file then
           Some (fat_FOUND_DIR, found sub, out, cursor, w)
         else if \<not> read_at_cursor \<and> n > 0 \<and> is_dir (nm_entry x) \<and> byte_at path n \<noteq> 0 then do {
           (directory_file, new_root_dir, w) \<leftarrow> fat_find_start disk sub w;
           fat_find_loop disk is_file read_at_cursor False directory_file (drop (n + 1) path) cursor 0 0 False
             fat_file_default (map_option (\<lambda>_. fat_file_default) out) w
         }
         else if \<not> read_at_cursor \<and> n > 0 \<and> \<not> is_dir (nm_entry x) \<and> is_file \<and> byte_at path n = 0 then
           Some (fat_FOUND_FILE, sub, map_option (\<lambda>file_out. found (file_out\<lparr>f_dir := nm_entry x, f_long_filename := nm_chars x\<rparr>)) out, cursor, w)
         else
           fat_find_loop disk is_file read_at_cursor False directory_file path cursor dir_offset (entries + 1) False sub out w)"

text \<open>A directory as the search sees it: an open file over its chain, of the size of the chain.\<close>

definition dir_file :: "'p fat_disk \<Rightarrow> nat \<Rightarrow> (nat \<Rightarrow> u8) \<Rightarrow> fat_file \<Rightarrow> fat_dir_entry list \<Rightarrow> bool" where
  "dir_file disk clusters m d es \<longleftrightarrow> (\<exists>cs. chain (table_entry disk m) clusters (first_cluster d) cs \<and>
     DIR_FileSize (f_dir d) = word_of_nat (length cs * cluster_bytes disk) \<and> es = dir_entries (file_bytes disk m cs))"

lemma dir_file_cursor [simp]: "dir_file disk clusters m (d\<lparr>f_cursor := c\<rparr>) es = dir_file disk clusters m d es"
  by (simp add: dir_file_def)

lemma seek_set: "fat_fseek d (uint (off :: u32)) fat_SEEK_SET = d\<lparr>f_cursor := off\<rparr>"
  by (simp add: fat_fseek_def)

context fat_volume
begin

lemma dir_file_size:
  assumes "dir_file disk clusters m d es" "32 dvd cluster_bytes disk" "k \<le> length es"
  shows "unat (word_of_nat (32 * k) :: u32) = 32 * k" "unat (DIR_FileSize (f_dir d)) = 32 * length es"
    "DIR_FileSize (f_dir d) \<le> word_of_nat (32 * k) \<longleftrightarrow> k = length es"
proof -
  obtain cs where c: "chain (table_entry disk m) clusters (first_cluster d) cs"
    "DIR_FileSize (f_dir d) = word_of_nat (length cs * cluster_bytes disk)" "es = dir_entries (file_bytes disk m cs)"
    using assms(1) by (auto simp: dir_file_def)
  note r = chain_room [OF c(1)]
  have n: "32 * length es = length cs * cluster_bytes disk" using assms(2) by (simp add: c(3))
  have "32 * k \<le> 32 * length es" using assms(3) by simp
  then have "32 * k < 2 ^ 32" using r(1) unfolding n by (rule le_less_trans)
  then show k: "unat (word_of_nat (32 * k) :: u32) = 32 * k" by (simp add: unat_of_nat del: of_nat_mult)
  show s: "unat (DIR_FileSize (f_dir d)) = 32 * length es" unfolding c(2) r(2) n ..
  show "DIR_FileSize (f_dir d) \<le> word_of_nat (32 * k) \<longleftrightarrow> k = length es"
    unfolding word_le_nat_alt k s using assms(3) by auto
qed

lemma read_dir_entry:
  assumes d: "dir_file disk clusters m d es" "32 dvd cluster_bytes disk" "k < length es" and w: "on w m" and out: "length out = 32"
  shows "\<exists>bytes c w'. fat_fread disk out 32 1 (fat_fseek d (uint (word_of_nat (32 * k) :: u32)) fat_SEEK_SET) w =
      Some (bytes, d\<lparr>f_cursor := c\<rparr>, w') \<and> dir_of_bytes bytes = es ! k \<and> on w' m"
proof -
  obtain cs where c: "chain (table_entry disk m) clusters (first_cluster d) cs"
    "DIR_FileSize (f_dir d) = word_of_nat (length cs * cluster_bytes disk)" "es = dir_entries (file_bytes disk m cs)"
    using d(1) by (auto simp: dir_file_def)
  note r = chain_room [OF c(1)] and s = dir_file_size [OF d(1,2) less_imp_le [OF d(3)]]
  let ?d = "d\<lparr>f_cursor := word_of_nat (32 * k)\<rparr>"
  have m: "world_ok ready w" "content (w_dev w) = m" using w by (simp_all add: on_world)
  have "word_of_nat (32 * k) \<le> DIR_FileSize (f_dir d)" unfolding word_le_nat_alt s(1,2) using d(3) by simp
  then obtain moved w' where f: "fat_fread disk out 32 1 ?d w =
      Some (take (unat moved) (drop (unat (f_cursor ?d)) (file_bytes disk (content (w_dev w)) cs)) @ drop (unat moved) out,
            ?d\<lparr>f_cursor := f_cursor ?d + moved\<rparr>, w')"
    "unat moved = min (unat (32 * 1 :: u32)) (unat (DIR_FileSize (f_dir ?d)) - unat (f_cursor ?d))"
    "world_ok ready w'" "content (w_dev w') = content (w_dev w)"
    using fread_file [OF m(1), of ?d cs 32 1 out] c(1,2) r(2) out unfolding m(2) by (auto simp: diff_mult_distrib)
  have "32 * k + 32 \<le> 32 * length es" using d(3) by simp
  then have "unat moved = 32" using f(2) s(1,2) by (simp del: of_nat_mult)
  then have "dir_of_bytes (take (unat moved) (drop (unat (f_cursor ?d)) (file_bytes disk m cs)) @ drop (unat moved) out) = es ! k"
    using d(3) out s(1) by (simp add: c(3) nth_dir_entries del: of_nat_mult)
  then show ?thesis using f(1,3,4) unfolding seek_set m(2) by (auto simp: on_world m(2))
qed

lemma file_swap: "(fl :: fat_file)\<lparr>f_long_filename := chars, f_dir := e\<rparr> = fl\<lparr>f_dir := e, f_long_filename := chars\<rparr>"
  by simp

text \<open>From any place in a directory the search goes on to the next item of the listing, or reports
  that there is none.\<close>

lemma find_next:
  assumes "32 dvd cluster_bytes disk" "dir_file disk clusters m d es" "on w m" "k \<le> length es" "pieces_ok (drop k es)"
    "length (DIR_Name e) = 11" "length chars = 260"
    "r = fat_find_loop disk is_file read_at_cursor False d path cursor (word_of_nat (32 * k)) entries long
           (fat_file_default\<lparr>f_dir := e, f_long_filename := chars\<rparr>) out w"
  shows "\<exists>d' w'. on w' m \<and> f_dir d' = f_dir d \<and> (case listing k long chars (drop k es) of
      [] \<Rightarrow> (\<exists>sub. r = Some (fat_NOT_FOUND, sub, out, cursor, w'))
    | x # xs \<Rightarrow> r = handle_entry disk is_file read_at_cursor d' path cursor entries x out w' \<and>
        nm_index x < length es \<and> nm_entry x = es ! nm_index x \<and> length (nm_chars x) = 260 \<and> pieces_ok (drop (nm_index x + 1) es) \<and>
        length (DIR_Name (nm_entry x)) = 11 \<and> xs = listing (nm_index x + 1) False (nm_chars x) (drop (nm_index x + 1) es))"
  using assms
proof (induction "length es - k" arbitrary: k d w e chars long r)
  case 0
  then have "k = length es" by simp
  then show ?case using 0 dir_file_size(3) [OF 0(3,2), of k] by (auto simp: fat_find_loop.simps [of _ _ _ _ d])
next
  case (Suc n)
  then have k: "k < length es" by simp
  let ?e = "es ! k" and ?sub = "fat_file_default\<lparr>f_dir := e, f_long_filename := chars\<rparr>"
  have drop: "drop k es = ?e # drop (k + 1) es" using Cons_nth_drop_Suc [OF k] by simp
  obtain bytes c w1 where b: "fat_fread disk (bytes_of_dir e) 32 1 (fat_fseek d (uint (word_of_nat (32 * k) :: u32)) fat_SEEK_SET) w =
      Some (bytes, d\<lparr>f_cursor := c\<rparr>, w1)" "dir_of_bytes bytes = ?e" "on w1 m"
    using read_dir_entry [OF Suc.prems(2,1) k Suc.prems(3) length_bytes_of_dir [OF Suc.prems(6)]] by blast
  have l: "length (DIR_Name ?e) = 11" using length_dir_entry_name k Suc.prems(2) by (auto simp: dir_file_def)
  have step: "(word_of_nat (32 * k) :: u32) + 32 = word_of_nat (32 * (k + 1))" by simp
  have n: "\<not> DIR_FileSize (f_dir d) \<le> word_of_nat (32 * k)" using dir_file_size(3) [OF Suc.prems(2,1,4)] k by simp
  note unfolded = fat_find_loop.simps [of disk is_file read_at_cursor False d path cursor "word_of_nat (32 * k)" entries long ?sub out w]
  have d: "dir_file disk clusters m (d\<lparr>f_cursor := c\<rparr>) es" and k': "k + 1 \<le> length es" using Suc.prems(2) k by simp_all
  note IH = Suc.hyps(1) [of "k + 1" "d\<lparr>f_cursor := c\<rparr>" w1 ?e]
  consider (stop) "DIR_Name ?e ! 0 = 0" | (free) "DIR_Name ?e ! 0 \<noteq> 0" "DIR_Name ?e ! 0 = 0xE5"
    | (piece) "DIR_Name ?e ! 0 \<noteq> 0" "DIR_Name ?e ! 0 \<noteq> 0xE5" "DIR_Attr ?e = 0x0F"
    | (item) "DIR_Name ?e ! 0 \<noteq> 0" "DIR_Name ?e ! 0 \<noteq> 0xE5" "DIR_Attr ?e \<noteq> 0x0F" by blast
  then show ?case
  proof cases
    case stop
    then show ?thesis using b n Suc.prems(8) unfolding drop unfolded by auto
  next
    case free
    have "pieces_ok (drop (k + 1) es)" using Suc.prems(5) free unfolding drop by (simp add: pieces_ok_def live_entries_def)
    moreover have "r = fat_find_loop disk is_file read_at_cursor False (d\<lparr>f_cursor := c\<rparr>) path cursor (word_of_nat (32 * (k + 1)))
        entries long (fat_file_default\<lparr>f_dir := ?e, f_long_filename := chars\<rparr>) out w1"
      using b n free Suc.prems(8) unfolding unfolded step [symmetric] by (simp add: file_swap del: of_nat_mult)
    moreover have "listing k long chars (drop k es) = listing (k + 1) long chars (drop (k + 1) es)" unfolding drop using free by simp
    ultimately show ?thesis using IH [OF _ Suc.prems(1) d b(3) k' _ l Suc.prems(7)] Suc.hyps(2) by simp
  next
    case piece
    have p: "piece_index ?e \<noteq> 0" and "pieces_ok (drop (k + 1) es)"
      using Suc.prems(5) piece unfolding drop by (simp_all add: pieces_ok_def live_entries_def)
    moreover have "r = fat_find_loop disk is_file read_at_cursor False (d\<lparr>f_cursor := c\<rparr>) path cursor (word_of_nat (32 * (k + 1)))
        entries (long \<or> last_piece ?e) (fat_file_default\<lparr>f_dir := ?e, f_long_filename := join_piece ?e chars\<rparr>) out w1"
      using b n piece Suc.prems(7,8) find_lfn_join [of "fat_file_default\<lparr>f_dir := ?e, f_long_filename := chars\<rparr>"] p
      unfolding unfolded step [symmetric] by (simp add: last_piece_def file_swap del: of_nat_mult)
    moreover have "listing k long chars (drop k es) = listing (k + 1) (long \<or> last_piece ?e) (join_piece ?e chars) (drop (k + 1) es)"
      unfolding drop using piece by simp
    ultimately show ?thesis using IH [OF _ Suc.prems(1) d b(3) k' _ l length_join_piece [OF Suc.prems(7)]] Suc.hyps(2) by simp
  next
    case item
    define chars' where "chars' = (if long then chars else replace_at 0 (short_chars (DIR_Name ?e)) chars)"
    define x where "x = \<lparr>nm_index = k, nm_long = long, nm_chars = chars', nm_entry = ?e\<rparr>"
    have name: "(if long then Some chars else shortname_to_longname (DIR_Name ?e) chars) = Some chars'"
      using shortname_chars [OF Suc.prems(7)] by (simp add: chars'_def)
    have "length chars' = 260" using Suc.prems(7) length_short_chars [of "DIR_Name ?e"] by (simp add: chars'_def length_replace_at)
    moreover have "pieces_ok (drop (k + 1) es)" using Suc.prems(5) item unfolding drop by (simp add: pieces_ok_def live_entries_def)
    moreover have "listing k long chars (drop k es) = x # listing (k + 1) False chars' (drop (k + 1) es)"
      unfolding drop using item by (simp add: x_def chars'_def Let_def)
    moreover have step': "(word_of_nat (32 * (nm_index x + 1)) :: u32) = word_of_nat (32 * k) + 32" by (simp add: x_def)
    moreover have "r = handle_entry disk is_file read_at_cursor (d\<lparr>f_cursor := c\<rparr>) path cursor entries x out w1"
      using b(1,2) n item Suc.prems(8) name unfolding unfolded handle_entry_def Let_def step' is_dir_def
      by (simp add: x_def file_swap del: of_nat_mult cong: if_cong option.case_cong)
    ultimately show ?thesis using b(3) k l by (intro exI [of _ "d\<lparr>f_cursor := c\<rparr>"] exI [of _ w1]) (auto simp: x_def)
  qed
qed

lemma find_start:
  assumes "on w m" "chain (table_entry disk m) clusters (ucast (first_cluster_of (f_dir root))) cs"
  shows "\<exists>d w'. fat_find_start disk root w =
      Some (d, root\<lparr>f_dir := (f_dir root)\<lparr>DIR_FstClusLO := first_cluster_of (f_dir root)\<rparr>\<rparr>, w') \<and> on w' m \<and>
    DIR_FstClusLO (f_dir d) = first_cluster_of (f_dir root) \<and> dir_file disk clusters m d (dir_entries (file_bytes disk m cs))"
proof -
  let ?root = "root\<lparr>f_dir := (f_dir root)\<lparr>DIR_FstClusLO := first_cluster_of (f_dir root)\<rparr>\<rparr>"
  have r: "(if DIR_FstClusLO (f_dir root) < 2 then root\<lparr>f_dir := (f_dir root)\<lparr>DIR_FstClusLO := 2\<rparr>\<rparr> else root) = ?root"
    by (auto simp: first_cluster_of_def)
  define d where "d = \<lparr>f_dir = f_dir ?root, f_entry_position = 0, f_first_parent_cluster = 0, f_lfn_present = 0, f_cursor = 0,
    f_long_filename = replicate 260 0\<rparr>"
  have "chain (table_entry disk m) clusters (first_cluster d) cs" using assms(2) by (simp add: d_def)
  then obtain w' where "fat_chain_size disk d w =
      Some (d\<lparr>f_dir := (f_dir d)\<lparr>DIR_FileSize := word_of_nat (length cs * cluster_bytes disk)\<rparr>\<rparr>, w')" "on w' m"
    using chain_size [OF assms(1)] by blast
  then show ?thesis using assms(2) unfolding fat_find_start_def r Let_def d_def [symmetric]
    by (auto simp: dir_file_def d_def simp del: replicate.simps)
qed

end

text \<open>What the search looks for in one directory.\<close>

definition selects :: "bool \<Rightarrow> u8 list \<Rightarrow> named_entry \<Rightarrow> bool" where
  "selects is_file path x \<longleftrightarrow> has_name (takeWhile (\<lambda>c. c \<noteq> 0x2F) path) x \<and>
     (if 0x2F \<in> set path then is_dir (nm_entry x) else is_dir (nm_entry x) \<noteq> is_file)"

text \<open>The file, or directory, that the search returns for an item of the directory at cluster \<open>c\<close>.\<close>

definition found_at :: "u16 \<Rightarrow> named_entry \<Rightarrow> fat_file" where
  "found_at c x = fat_file_default\<lparr>f_dir := nm_entry x, f_entry_position := word_of_nat (32 * nm_index x),
     f_first_parent_cluster := ucast c, f_lfn_present := (if nm_long x then 1 else 0), f_long_filename := nm_chars x\<rparr>"

lemma fat_found_at: "fat_found d (word_of_nat (32 * (nm_index x + 1))) (nm_long x) (fat_file_default\<lparr>f_dir := nm_entry x, f_long_filename := nm_chars x\<rparr>) =
    found_at (DIR_FstClusLO (f_dir d)) x"
  by (simp add: fat_found_def found_at_def)

lemma handle_unselected:
  assumes "0 \<notin> set path" "\<not> selects is_file path x"
  shows "handle_entry disk is_file False d path cursor entries x out w =
    fat_find_loop disk is_file False False d path cursor (word_of_nat (32 * (nm_index x + 1))) (entries + 1) False
      (fat_file_default\<lparr>f_dir := nm_entry x, f_long_filename := nm_chars x\<rparr>) out w"
  using path_compare_named [OF assms(1), of x] assms(2) byte_at_component [of path]
  by (auto simp: handle_entry_def selects_def Let_def simp del: of_nat_mult of_nat_add split: if_splits)

lemma handle_selected:
  assumes "0 \<notin> set path" "selects is_file path x" "out = (if with_file then Some fat_file_default else None)"
  shows "handle_entry disk is_file False d path cursor entries x out w =
    (if 0x2F \<in> set path then do {
       (d', new_root, w) \<leftarrow> fat_find_start disk (fat_file_default\<lparr>f_dir := nm_entry x, f_long_filename := nm_chars x\<rparr>) w;
       fat_find_loop disk is_file False False d' (drop (length (takeWhile (\<lambda>c. c \<noteq> 0x2F) path) + 1) path) cursor 0 0 False
         fat_file_default out w
     }
     else if is_file then
       Some (fat_FOUND_FILE, fat_file_default\<lparr>f_dir := nm_entry x, f_long_filename := nm_chars x\<rparr>,
             map_option (\<lambda>_. found_at (DIR_FstClusLO (f_dir d)) x) out, cursor, w)
     else Some (fat_FOUND_DIR, found_at (DIR_FstClusLO (f_dir d)) x, out, cursor, w))"
proof -
  have h: "has_name (takeWhile (\<lambda>c. c \<noteq> 0x2F) path) x" using assms(2) by (simp add: selects_def)
  note n = path_compare_named(2) [OF assms(1) h] and b = byte_at_component [of path]
  have p: "0 < length (takeWhile (\<lambda>c. c \<noteq> 0x2F) path)" using h by (auto simp: has_name_def)
  show ?thesis using assms(2) p fat_found_at [of d x] unfolding handle_entry_def n b Let_def assms(3)
    by (auto simp: selects_def simp del: of_nat_mult of_nat_add length_greater_0_conv split: if_splits)
qed

context fat_volume
begin

lemma find_in_dir:
  assumes "32 dvd cluster_bytes disk" "dir_file disk clusters m d es" "on w m" "k \<le> length es" "pieces_ok (drop k es)"
    "length (DIR_Name e) = 11" "length chars = 260" "0 \<notin> set path" "xs = listing k long chars (drop k es)"
    "r = fat_find_loop disk is_file False False d path cursor (word_of_nat (32 * k)) entries long
           (fat_file_default\<lparr>f_dir := e, f_long_filename := chars\<rparr>) out w"
  shows "\<exists>d' w'. on w' m \<and> f_dir d' = f_dir d \<and> (case List.find (selects is_file path) xs of
      None \<Rightarrow> (\<exists>sub. r = Some (fat_NOT_FOUND, sub, out, cursor, w'))
    | Some x \<Rightarrow> (\<exists>entries. r = handle_entry disk is_file False d' path cursor entries x out w'))"
  using assms
proof (induction xs arbitrary: k d w e chars long r entries)
  case Nil
  then show ?case using find_next [OF Nil(1-7,10)] by auto
next
  case (Cons x xs)
  obtain d' w' where f: "on w' m" "f_dir d' = f_dir d" "r = handle_entry disk is_file False d' path cursor entries x out w'"
    "nm_index x < length es" "length (nm_chars x) = 260" "pieces_ok (drop (nm_index x + 1) es)" "length (DIR_Name (nm_entry x)) = 11"
    "xs = listing (nm_index x + 1) False (nm_chars x) (drop (nm_index x + 1) es)"
    using find_next [OF Cons.prems(1-7,10)] unfolding Cons.prems(9) [symmetric] by auto
  show ?case
  proof (cases "selects is_file path x")
    case True
    then show ?thesis using f(1,2,3) by auto
  next
    case False
    have d': "dir_file disk clusters m d' es" using Cons.prems(2) f(2) by (simp add: dir_file_def)
    have k': "nm_index x + 1 \<le> length es" using f(4) by simp
    show ?thesis using Cons.IH [OF Cons.prems(1) d' f(1) k' f(6,7,5) Cons.prems(8) f(8)] False f(2,3)
      unfolding handle_unselected [OF Cons.prems(8) False] by (auto split: option.splits)
  qed
qed

end

text \<open>
  A set of directories, by their first clusters, that is closed under going into a subdirectory;
  the root directory, which \<^verbatim>\<open>..\<close> names with the cluster 0, is at cluster 2.
\<close>

definition dir_set :: "'p fat_disk \<Rightarrow> nat \<Rightarrow> (nat \<Rightarrow> u8) \<Rightarrow> (u16 \<Rightarrow> fat_dir_entry list) \<Rightarrow> u16 set \<Rightarrow> bool" where
  "dir_set disk clusters m dirs D \<longleftrightarrow> 32 dvd cluster_bytes disk \<and>
     (\<forall>c\<in>D. \<exists>cs. chain (table_entry disk m) clusters (ucast c) cs \<and> dirs c = dir_entries (file_bytes disk m cs)) \<and>
     (\<forall>c\<in>D. pieces_ok (dirs c)) \<and>
     (\<forall>c\<in>D. \<forall>x\<in>set (dir_listing (dirs c)). is_dir (nm_entry x) \<longrightarrow> first_cluster_of (nm_entry x) \<in> D)"

lemma default_parts: "fat_file_default = fat_file_default\<lparr>f_dir := fat_dir_empty, f_long_filename := f_long_filename fat_file_default\<rparr>"
  "length (DIR_Name fat_dir_empty) = 11" "length (f_long_filename fat_file_default) = 260"
  by (simp_all add: fat_file_default_def fat_dir_empty_def)

lemma walk_more: "parts \<noteq> [] \<Longrightarrow> dir_walk dirs is_file c (part # parts) =
    (case List.find (\<lambda>x. has_name part x \<and> is_dir (nm_entry x)) (dir_listing (dirs c)) of
       None \<Rightarrow> None | Some x \<Rightarrow> dir_walk dirs is_file (first_cluster_of (nm_entry x)) parts)"
  by (auto simp: neq_Nil_conv split: option.splits)

lemma walk_path:
  "dir_walk dirs is_file c (path_parts path) =
    (case List.find (selects is_file path) (dir_listing (dirs c)) of
       None \<Rightarrow> None
     | Some x \<Rightarrow>
         if 0x2F \<in> set path
         then dir_walk dirs is_file (first_cluster_of (nm_entry x)) (path_parts (drop (length (takeWhile (\<lambda>c. c \<noteq> 0x2F) path) + 1) path))
         else Some (c, x))"
proof (cases "0x2F \<in> set path")
  case True
  then show ?thesis unfolding path_parts_more [OF True] walk_more [OF path_parts_nonempty] selects_def by (simp cong: option.case_cong)
next
  case False
  have t: "takeWhile (\<lambda>c. c \<noteq> 0x2F) path = path" and p: "path_parts path = [path]" using path_parts_last [OF False] by blast+
  show ?thesis using False unfolding selects_def t p by (simp split: option.splits)
qed

lemma find_in_set: "List.find P xs = Some x \<Longrightarrow> x \<in> set xs \<and> P x"
  by (auto simp: find_Some_iff in_set_conv_nth)

context fat_volume
begin

lemma find_walk_loop:
  assumes "dir_set disk clusters m dirs D" "DIR_FstClusLO (f_dir d) \<in> D" "dir_file disk clusters m d (dirs (DIR_FstClusLO (f_dir d)))" "on w m"
    "0 \<notin> set path" "out = (if with_file then Some fat_file_default else None)"
  shows "\<exists>sub w'. on w' m \<and> fat_find_loop disk is_file False False d path cursor 0 0 False fat_file_default out w =
    (case dir_walk dirs is_file (DIR_FstClusLO (f_dir d)) (path_parts path) of
       None \<Rightarrow> Some (fat_NOT_FOUND, sub, out, cursor, w')
     | Some (c, x) \<Rightarrow>
         if is_file then Some (fat_FOUND_FILE, sub, map_option (\<lambda>_. found_at c x) out, cursor, w')
         else Some (fat_FOUND_DIR, found_at c x, out, cursor, w'))"
  using assms(2-5)
proof (induction "length path" arbitrary: path d w rule: less_induct)
  case less
  let ?c = "DIR_FstClusLO (f_dir d)" and ?rest = "drop (length (takeWhile (\<lambda>c. c \<noteq> 0x2F) path) + 1) path"
  let ?r = "fat_find_loop disk is_file False False d path cursor 0 0 False fat_file_default out w"
  have dvd: "32 dvd cluster_bytes disk" and p: "pieces_ok (drop 0 (dirs ?c))" using assms(1) less.prems(1) by (simp_all add: dir_set_def)
  note W = walk_path [of dirs is_file ?c path]
  have "?r = fat_find_loop disk is_file False False d path cursor (word_of_nat (32 * 0)) 0 False
      (fat_file_default\<lparr>f_dir := fat_dir_empty, f_long_filename := f_long_filename fat_file_default\<rparr>) out w"
    by (simp only: default_parts(1) [symmetric] mult_0_right) simp
  from find_in_dir [OF dvd less.prems(2,3) le0 p default_parts(2,3) less.prems(4) refl this]
  obtain d' w' where f: "on w' m" "f_dir d' = f_dir d"
    "case List.find (selects is_file path) (dir_listing (dirs ?c)) of
      None \<Rightarrow> (\<exists>sub. ?r = Some (fat_NOT_FOUND, sub, out, cursor, w'))
    | Some x \<Rightarrow> (\<exists>entries. ?r = handle_entry disk is_file False d' path cursor entries x out w')"
    by (auto simp: dir_listing_def)
  show ?case
  proof (cases "List.find (selects is_file path) (dir_listing (dirs ?c))")
    case None
    then show ?thesis using f unfolding W by auto
  next
    case (Some x)
    then obtain entries where r: "?r = handle_entry disk is_file False d' path cursor entries x out w'" using f(3) by auto
    have x: "x \<in> set (dir_listing (dirs ?c))" "selects is_file path x" using find_in_set [OF Some] by simp_all
    note h = handle_selected [OF less.prems(4) x(2) assms(6), of disk d' cursor entries w', folded r, unfolded f(2)]
    show ?thesis
    proof (cases "0x2F \<in> set path")
      case False
      then show ?thesis using f(1) h unfolding W Some by auto
    next
      case True
      let ?sub = "fat_file_default\<lparr>f_dir := nm_entry x, f_long_filename := nm_chars x\<rparr>"
      have D: "first_cluster_of (nm_entry x) \<in> D" using assms(1) less.prems(1) x True by (auto simp: dir_set_def selects_def)
      then obtain cs where cs: "chain (table_entry disk m) clusters (ucast (first_cluster_of (f_dir ?sub))) cs"
        "dirs (first_cluster_of (nm_entry x)) = dir_entries (file_bytes disk m cs)" using assms(1) unfolding dir_set_def by auto
      obtain e w1 root where e: "fat_find_start disk ?sub w' = Some (e, root, w1)" "on w1 m"
        "DIR_FstClusLO (f_dir e) = first_cluster_of (nm_entry x)" "dir_file disk clusters m e (dirs (first_cluster_of (nm_entry x)))"
        using find_start [OF f(1) cs(1)] cs(2) by auto
      have "?r = fat_find_loop disk is_file False False e ?rest cursor 0 0 False fat_file_default out w1"
        using h True e(1) by simp
      moreover have "length ?rest < length path" using True by (cases path) auto
      moreover have "0 \<notin> set ?rest" using less.prems(4) by (auto dest: in_set_dropD)
      ultimately show ?thesis using less.hyps [of ?rest e w1] D e(2-4) True unfolding W Some by simp
    qed
  qed
qed

lemma find_walk:
  assumes "dir_set disk clusters (content (w_dev w)) dirs D" "first_cluster_of (f_dir root) \<in> D" "world_ok ready w" "0 \<notin> set path"
    "out = (if with_file then Some fat_file_default else None)"
    "root' = root\<lparr>f_dir := (f_dir root)\<lparr>DIR_FstClusLO := first_cluster_of (f_dir root)\<rparr>\<rparr>"
  shows "\<exists>sub w'. world_ok ready w' \<and> content (w_dev w') = content (w_dev w) \<and>
    fat_find disk with_file root path is_file False w =
    (case dir_walk dirs is_file (first_cluster_of (f_dir root)) (path_parts path) of
       None \<Rightarrow> Some (fat_NOT_FOUND, sub, out, root', w')
     | Some (c, x) \<Rightarrow>
         if is_file then Some (fat_FOUND_FILE, sub, map_option (\<lambda>_. found_at c x) out, root', w')
         else Some (fat_FOUND_DIR, found_at c x, out, root', w'))"
proof -
  let ?m = "content (w_dev w)"
  have o: "on w ?m" using assms(3) by (simp add: on_world)
  obtain cs where cs: "chain (table_entry disk ?m) clusters (ucast (first_cluster_of (f_dir root))) cs"
    "dirs (first_cluster_of (f_dir root)) = dir_entries (file_bytes disk ?m cs)" using assms(1,2) unfolding dir_set_def by auto
  obtain d w1 where d: "fat_find_start disk root w = Some (d, root', w1)" "on w1 ?m"
    "DIR_FstClusLO (f_dir d) = first_cluster_of (f_dir root)" "dir_file disk clusters ?m d (dirs (first_cluster_of (f_dir root)))"
    using find_start [OF o cs(1)] cs(2) unfolding assms(6) by auto
  have D: "DIR_FstClusLO (f_dir d) \<in> D" using assms(2) d(3) by simp
  have c: "f_cursor root' = f_cursor root" "root'\<lparr>f_cursor := f_cursor root'\<rparr> = root'" by (simp_all add: assms(6))
  let ?walk = "dir_walk dirs is_file (first_cluster_of (f_dir root)) (path_parts path)"
  obtain sub w' where f: "on w' ?m" "fat_find_loop disk is_file False False d path (f_cursor root') 0 0 False fat_file_default out w1 =
    (case ?walk of
       None \<Rightarrow> Some (fat_NOT_FOUND, sub, out, f_cursor root', w')
     | Some (c, x) \<Rightarrow>
         if is_file then Some (fat_FOUND_FILE, sub, map_option (\<lambda>_. found_at c x) out, f_cursor root', w')
         else Some (fat_FOUND_DIR, found_at c x, out, f_cursor root', w'))"
    using find_walk_loop [OF assms(1) D d(4) [folded d(3)] d(2) assms(4,5), of is_file "f_cursor root'"] unfolding d(3) by blast
  have "fat_find disk with_file root path is_file False w =
      do {
        (found, sub, out, cursor, w) \<leftarrow> fat_find_loop disk is_file False False d path (f_cursor root') 0 0 False fat_file_default out w1;
        Some (found, sub, out, root'\<lparr>f_cursor := cursor\<rparr>, w)
      }"
    unfolding fat_find_def fat_find_full_def assms(5) by (simp add: d(1))
  then show ?thesis using f(1) c(2) unfolding f(2) on_world
    by (cases ?walk) (auto intro!: exI [of _ sub] exI [of _ w'])
qed

text \<open>With both out parameters.\<close>

lemma find_path:
  assumes "world_ok ready w" "dir_set disk clusters (content (w_dev w)) dirs D" "first_cluster_of (f_dir root) \<in> D" "0 \<notin> set path"
  shows "\<exists>sub root' w'. world_ok ready w' \<and> content (w_dev w') = content (w_dev w) \<and>
    fat_find disk True root path is_file False w =
    (case dir_walk dirs is_file (first_cluster_of (f_dir root)) (path_parts path) of
       None \<Rightarrow> Some (fat_NOT_FOUND, sub, Some fat_file_default, root', w')
     | Some (c, x) \<Rightarrow>
         if is_file then Some (fat_FOUND_FILE, sub, Some (found_at c x), root', w')
         else Some (fat_FOUND_DIR, found_at c x, Some fat_file_default, root', w'))"
proof -
  define root' where "root' = root\<lparr>f_dir := (f_dir root)\<lparr>DIR_FstClusLO := first_cluster_of (f_dir root)\<rparr>\<rparr>"
  obtain sub w' where "world_ok ready w'" "content (w_dev w') = content (w_dev w)" "fat_find disk True root path is_file False w =
    (case dir_walk dirs is_file (first_cluster_of (f_dir root)) (path_parts path) of
       None \<Rightarrow> Some (fat_NOT_FOUND, sub, Some fat_file_default, root', w')
     | Some (c, x) \<Rightarrow>
         if is_file then Some (fat_FOUND_FILE, sub, map_option (\<lambda>_. found_at c x) (Some fat_file_default), root', w')
         else Some (fat_FOUND_DIR, found_at c x, Some fat_file_default, root', w'))"
    using find_walk [OF assms(2,3,1,4) _ root'_def, of "Some fat_file_default" True is_file] by auto
  then show ?thesis by - (rule exI [of _ sub], rule exI [of _ root'], rule exI [of _ w'], auto split: option.splits)
qed

subsection \<open>Reading a directory\<close>

lemma length_listing: "length (listing k long chars es) \<le> length es"
  by (induction k long chars es rule: listing.induct) (auto simp: Let_def)

lemma handle_other_cursor:
  assumes "entries \<noteq> cursor"
  shows "handle_entry disk is_file True d path cursor entries x out w =
    fat_find_loop disk is_file True False d path cursor (word_of_nat (32 * (nm_index x + 1))) (entries + 1) False
      (fat_file_default\<lparr>f_dir := nm_entry x, f_long_filename := nm_chars x\<rparr>) out w"
  using assms by (simp add: handle_entry_def Let_def del: of_nat_mult of_nat_add)

lemma find_nth:
  assumes "32 dvd cluster_bytes disk" "dir_file disk clusters m d es" "on w m" "k \<le> length es" "pieces_ok (drop k es)"
    "length (DIR_Name e) = 11" "length chars = 260" "xs = listing k long chars (drop k es)"
    "r = fat_find_loop disk is_file True False d path cursor (word_of_nat (32 * k)) (word_of_nat j) long
           (fat_file_default\<lparr>f_dir := e, f_long_filename := chars\<rparr>) out w"
    "j \<le> unat cursor" "j + length xs < 2 ^ 32"
  shows "\<exists>d' w'. on w' m \<and> f_dir d' = f_dir d \<and>
    (if unat cursor < j + length xs then r = handle_entry disk is_file True d' path cursor cursor (xs ! (unat cursor - j)) out w'
     else \<exists>sub. r = Some (fat_NOT_FOUND, sub, out, cursor, w'))"
  using assms
proof (induction xs arbitrary: k d w e chars long r j)
  case Nil
  then show ?case using find_next [OF Nil(1-7,9)] by auto
next
  case (Cons x xs)
  obtain d' w' where f: "on w' m" "f_dir d' = f_dir d" "r = handle_entry disk is_file True d' path cursor (word_of_nat j) x out w'"
    "nm_index x < length es" "length (nm_chars x) = 260" "pieces_ok (drop (nm_index x + 1) es)" "length (DIR_Name (nm_entry x)) = 11"
    "xs = listing (nm_index x + 1) False (nm_chars x) (drop (nm_index x + 1) es)"
    using find_next [OF Cons.prems(1-7,9)] unfolding Cons.prems(8) [symmetric] by auto
  have j: "unat (word_of_nat j :: u32) = j" using Cons.prems(11) by (simp add: unat_of_nat)
  show ?case
  proof (cases "j = unat cursor")
    case True
    then have "word_of_nat j = cursor" by simp
    then show ?thesis using f(1-3) True by (intro exI [of _ d'] exI [of _ w']) simp
  next
    case False
    then have "word_of_nat j \<noteq> cursor" using j by auto
    note r = f(3) [unfolded handle_other_cursor [OF this]]
    have d': "dir_file disk clusters m d' es" using Cons.prems(2) f(2) by (simp add: dir_file_def)
    have k': "nm_index x + 1 \<le> length es" and j': "j + 1 \<le> unat cursor" "j + 1 + length xs < 2 ^ 32"
      using f(4) Cons.prems(10,11) False by simp_all
    have "r = fat_find_loop disk is_file True False d' path cursor (word_of_nat (32 * (nm_index x + 1))) (word_of_nat (j + 1)) False
      (fat_file_default\<lparr>f_dir := nm_entry x, f_long_filename := nm_chars x\<rparr>) out w'" using r by (simp add: add.commute)
    note IH = Cons.IH [OF Cons.prems(1) d' f(1) k' f(6,7,5,8) this j']
    have n: "(x # xs) ! (unat cursor - j) = xs ! (unat cursor - (j + 1))" using j' by (simp add: nth_Cons')
    show ?thesis using IH f(2) unfolding n by simp
  qed
qed

lemma readdir_nth:
  assumes "32 dvd cluster_bytes disk" "chain (table_entry disk (content (w_dev w))) clusters (ucast c) cs"
    "es = dir_entries (file_bytes disk (content (w_dev w)) cs)" "pieces_ok es" "world_ok ready w" "c = first_cluster_of (f_dir dir)"
    "dir' = dir\<lparr>f_dir := (f_dir dir)\<lparr>DIR_FstClusLO := c\<rparr>\<rparr>" "i = unat (f_cursor dir)"
  shows "\<exists>sub w'. world_ok ready w' \<and> content (w_dev w') = content (w_dev w) \<and> fat_readdir disk dir w =
    (if i < length (dir_listing es) then
       (if is_dir (nm_entry (dir_listing es ! i))
        then Some (fat_FOUND_DIR, found_at c (dir_listing es ! i), Some fat_file_default, dir'\<lparr>f_cursor := f_cursor dir + 1\<rparr>, w')
        else Some (fat_FOUND_FILE, sub, Some (found_at c (dir_listing es ! i)), dir'\<lparr>f_cursor := f_cursor dir + 1\<rparr>, w'))
     else Some (fat_NOT_FOUND, sub, Some fat_file_default, dir', w'))"
proof -
  let ?m = "content (w_dev w)" and ?x = "dir_listing es ! i"
  have o: "on w ?m" using assms(5) by (simp add: on_world)
  obtain d w1 where d: "fat_find_start disk dir w = Some (d, dir', w1)" "on w1 ?m"
    "DIR_FstClusLO (f_dir d) = c" "dir_file disk clusters ?m d es"
    using find_start [OF o assms(2) [unfolded assms(6)]] unfolding assms(3,6,7) by auto
  have cur: "f_cursor dir' = f_cursor dir" "dir'\<lparr>f_cursor := f_cursor dir\<rparr> = dir'" by (simp_all add: assms(7))
  let ?r = "fat_find_loop disk False True False d [] (f_cursor dir) 0 0 False fat_file_default (Some fat_file_default) w1"
  have r: "?r = fat_find_loop disk False True False d [] (f_cursor dir) (word_of_nat (32 * 0)) (word_of_nat 0) False
      (fat_file_default\<lparr>f_dir := fat_dir_empty, f_long_filename := f_long_filename fat_file_default\<rparr>) (Some fat_file_default) w1"
    by (simp only: default_parts(1) [symmetric] mult_0_right) simp
  have p: "pieces_ok (drop 0 es)" using assms(4) by simp
  have "unat (DIR_FileSize (f_dir d)) = 32 * length es" using dir_file_size(2) [OF d(4) assms(1) le0] .
  then have "32 * length es < 2 ^ 32" using unat_bound [of "DIR_FileSize (f_dir d)"] by simp
  then have n: "0 + length (dir_listing es) < 2 ^ 32" using length_listing [of 0 False "f_long_filename fat_file_default" es] by (simp add: dir_listing_def)
  have l: "dir_listing es = listing 0 False (f_long_filename fat_file_default) (drop 0 es)" by (simp add: dir_listing_def)
  obtain d' w' where f: "on w' ?m" "f_dir d' = f_dir d"
    "if i < length (dir_listing es) then ?r = handle_entry disk False True d' [] (f_cursor dir) (f_cursor dir) ?x (Some fat_file_default) w'
     else \<exists>sub. ?r = Some (fat_NOT_FOUND, sub, Some fat_file_default, f_cursor dir, w')"
    using find_nth [OF assms(1) d(4,2) le0 p default_parts(2,3) l r le0 n] unfolding assms(8) by auto
  have h: "handle_entry disk False True d' [] (f_cursor dir) (f_cursor dir) ?x (Some fat_file_default) w' =
      (if is_dir (nm_entry ?x) then Some (fat_FOUND_DIR, found_at c ?x, Some fat_file_default, f_cursor dir + 1, w')
       else Some (fat_FOUND_FILE, fat_file_default\<lparr>f_dir := nm_entry ?x, f_long_filename := nm_chars ?x\<rparr>,
                  Some (found_at c ?x), f_cursor dir + 1, w'))"
    unfolding handle_entry_def Let_def fat_found_at using fat_found_at [of d' ?x] f(2) d(3) by (simp del: of_nat_mult of_nat_add)
  have "fat_readdir disk dir w = do { (found, sub, out, cursor, w) \<leftarrow> ?r; Some (found, sub, out, dir'\<lparr>f_cursor := cursor\<rparr>, w) }"
    unfolding fat_readdir_def fat_find_def fat_find_full_def by (simp add: d(1) cur)
  then show ?thesis using f(1,3) cur(2) unfolding h on_world
    by (cases "i < length (dir_listing es)"; cases "is_dir (nm_entry ?x)") (auto intro!: exI [of _ w'])
qed

lemma readdir_item:
  assumes "world_ok ready w"
    "dir_set disk clusters (content (w_dev w)) dirs D" "first_cluster_of (f_dir dir) \<in> D"
    "items = dir_listing (dirs (first_cluster_of (f_dir dir)))"
  shows "\<exists>sub dir' w'. world_ok ready w' \<and> content (w_dev w') = content (w_dev w) \<and>
    first_cluster_of (f_dir dir') = first_cluster_of (f_dir dir) \<and>
    f_cursor dir' = (if unat (f_cursor dir) < length items then f_cursor dir + 1 else f_cursor dir) \<and>
    fat_readdir disk dir w =
      (if unat (f_cursor dir) < length items then
         (let found = found_at (first_cluster_of (f_dir dir)) (items ! unat (f_cursor dir))
          in if is_dir (f_dir found) then Some (fat_FOUND_DIR, found, Some fat_file_default, dir', w')
             else Some (fat_FOUND_FILE, sub, Some found, dir', w'))
       else Some (fat_NOT_FOUND, sub, Some fat_file_default, dir', w'))"
proof -
  let ?c = "first_cluster_of (f_dir dir)"
  let ?dir = "dir\<lparr>f_dir := (f_dir dir)\<lparr>DIR_FstClusLO := ?c\<rparr>\<rparr>"
  obtain cs where cs: "chain (table_entry disk (content (w_dev w))) clusters (ucast ?c) cs"
    "dirs ?c = dir_entries (file_bytes disk (content (w_dev w)) cs)" "pieces_ok (dirs ?c)" "32 dvd cluster_bytes disk"
    using assms(2,3) unfolding dir_set_def by blast
  obtain sub w' where r: "world_ok ready w'" "content (w_dev w') = content (w_dev w)" "fat_readdir disk dir w =
    (if unat (f_cursor dir) < length items then
       (if is_dir (nm_entry (items ! unat (f_cursor dir)))
        then Some (fat_FOUND_DIR, found_at ?c (items ! unat (f_cursor dir)), Some fat_file_default, ?dir\<lparr>f_cursor := f_cursor dir + 1\<rparr>, w')
        else Some (fat_FOUND_FILE, sub, Some (found_at ?c (items ! unat (f_cursor dir))), ?dir\<lparr>f_cursor := f_cursor dir + 1\<rparr>, w'))
     else Some (fat_NOT_FOUND, sub, Some fat_file_default, ?dir, w'))"
    using readdir_nth [OF cs(4,1,2,3) assms(1) refl refl refl] unfolding assms(4) by blast
  have "f_dir (found_at ?c x) = nm_entry x" for x by (simp add: found_at_def)
  moreover have "first_cluster_of (f_dir ?dir) = ?c" by (simp add: first_cluster_of_def)
  ultimately show ?thesis using r
    by (intro exI [of _ sub] exI [of _ "if unat (f_cursor dir) < length items then ?dir\<lparr>f_cursor := f_cursor dir + 1\<rparr> else ?dir"] exI [of _ w'])
      (simp add: Let_def)
qed

lemma listing_small:
  assumes "dir_set disk clusters m dirs D" "c \<in> D" "items = dir_listing (dirs c)"
  shows "length items < 2 ^ 32"
proof -
  obtain cs where cs: "chain (table_entry disk m) clusters (ucast c) cs" "dirs c = dir_entries (file_bytes disk m cs)"
    using assms(1,2) unfolding dir_set_def by blast
  have "length items \<le> length (dirs c)" unfolding assms(3) dir_listing_def by (rule length_listing)
  also have "\<dots> \<le> length cs * cluster_bytes disk" using cs(2) by simp
  also have "\<dots> < 2 ^ 32" by (rule chain_room(1) [OF cs(1)])
  finally show ?thesis .
qed

end

end
