(* ===== verification/FatLookup.thy ===== *)
theory FatLookup
  imports FatFind
begin

section \<open>Lookup by name, on any volume and through the stack\<close>

text \<open>
  The results of \<open>FatFind\<close> for every volume, a volume with a directory tree for the witnesses, long
  names as they are written into a directory, and opening and reading a file by its path from the
  function table of the driver down to the controller.
\<close>

subsection \<open>A volume with directories\<close>

text \<open>
  The root directory, at cluster 2, has a subdirectory \<^verbatim>\<open>DOCS\<close> at cluster 3 and a file \<^verbatim>\<open>A.TXT\<close> at
  cluster 7; the subdirectory has a file with the long name \<^verbatim>\<open>Notes of May\<close> of 700 bytes, at the
  clusters 5 and 6.
\<close>

definition docs_entry :: fat_dir_entry where
  "docs_entry = fat_dir_empty\<lparr>DIR_Name := [0x44, 0x4F, 0x43, 0x53] @ replicate 7 0x20, DIR_Attr := 0x10, DIR_FstClusLO := 3\<rparr>"

definition notes_text :: "u8 list" where
  "notes_text = [0x4E, 0x6F, 0x74, 0x65, 0x73, 0x20, 0x6F, 0x66, 0x20, 0x4D, 0x61, 0x79]"

definition notes_piece :: fat_lfn_entry where
  "notes_piece = \<lparr>LDIR_Ord = 0x41, LDIR_Name1 = [0x4E, 0x6F, 0x74, 0x65, 0x73], LDIR_Attr = 0x0F, LDIR_Type = 0, LDIR_Chksum = 0,
     LDIR_Name2 = [0x20, 0x6F, 0x66, 0x20, 0x4D, 0x61], LDIR_FstClusLO = 0, LDIR_Name3 = [0x79, 0]\<rparr>"

definition notes_entry :: fat_dir_entry where
  "notes_entry = fat_dir_empty\<lparr>DIR_Name := [0x4E, 0x4F, 0x54, 0x45, 0x53, 0x4F, 0x7E, 0x31, 0x20, 0x20, 0x20], DIR_Attr := 0x20,
     DIR_FstClusLO := 5, DIR_FileSize := 700\<rparr>"

definition text_entry :: fat_dir_entry where
  "text_entry = fat_dir_empty\<lparr>DIR_Name := [0x41, 0x20, 0x20, 0x20, 0x20, 0x20, 0x20, 0x20, 0x54, 0x58, 0x54], DIR_Attr := 0x20,
     DIR_FstClusLO := 7, DIR_FileSize := 3\<rparr>"

definition fdc_tree :: fdc where
  "fdc_tree = fdc_zero\<lparr>fdc_disk := (\<lambda>n.
     if n = 0 then bytes_of_bpb floppy_bpb @ replicate 422 0
     else if n = 32 then replicate 8 0 @ bytes32 0x0FFFFFFF @ bytes32 0x0FFFFFFF @ bytes32 0 @ bytes32 6 @ bytes32 0x0FFFFFFF @ bytes32 0x0FFFFFFF @ replicate 480 0
     else if n = 76 then bytes_of_dir docs_entry @ bytes_of_dir text_entry @ replicate 448 0
     else if n = 77 then bytes_of_lfn notes_piece @ bytes_of_dir notes_entry @ replicate 448 0
     else if n = 79 \<or> n = 80 then replicate 512 (word_of_nat n) else replicate 512 0)\<rparr>"

definition tree_world :: "fdc fat_world" where
  "tree_world = \<lparr>w_dev = fdc_tree, w_cache = replicate 512 0, w_cache_sector = 0xFFFFFFFF\<rparr>"

lemma tree_lengths: "length (bytes_of_dir docs_entry) = 32" "length (bytes_of_dir text_entry) = 32" "length (bytes_of_dir notes_entry) = 32" "length (bytes_of_lfn notes_piece) = 32"
  by (simp_all add: bytes_of_dir_def docs_entry_def text_entry_def notes_entry_def fat_dir_empty_def bytes_of_lfn_def notes_piece_def)

lemma tree_idle: "fdc_idle fdc_tree"
  using fdc_zero_idle by (simp add: fdc_idle_def fdc_tree_def fdc_zero_def length_floppy_bpb tree_lengths)

lemma tree_world_ok: "world_ok fdc_idle tree_world"
  using tree_idle by (simp add: world_ok_def tree_world_def)

lemma tree_entry:
  "table_entry volume (disk_byte fdc_tree) 2 = 0x0FFFFFFF" "table_entry volume (disk_byte fdc_tree) 3 = 0x0FFFFFFF"
  "table_entry volume (disk_byte fdc_tree) 5 = 6" "table_entry volume (disk_byte fdc_tree) 6 = 0x0FFFFFFF"
  "table_entry volume (disk_byte fdc_tree) 7 = 0x0FFFFFFF"
  by (simp_all add: table_entry_def le32_def range_of_def upt_rec disk_byte_def fdc_tree_def nth_append bytes32_def)

lemma tree_chains:
  "chain (table_entry volume (disk_byte fdc_tree)) 2803 2 [2]" "chain (table_entry volume (disk_byte fdc_tree)) 2803 3 [3]"
  "chain (table_entry volume (disk_byte fdc_tree)) 2803 5 [5, 6]" "chain (table_entry volume (disk_byte fdc_tree)) 2803 7 [7]"
  by (simp_all add: tree_entry valid_cluster_def fat_no_cluster_def fat_last_cluster_def)

lemma tree_bytes:
  "file_bytes volume (disk_byte fdc_tree) [2] = bytes_of_dir docs_entry @ bytes_of_dir text_entry @ replicate 448 0"
  "file_bytes volume (disk_byte fdc_tree) [3] = bytes_of_lfn notes_piece @ bytes_of_dir notes_entry @ replicate 448 0"
  "file_bytes volume (disk_byte fdc_tree) [5, 6] = replicate 512 79 @ replicate 512 80"
proof -
  have "range_of (disk_byte fdc_tree) (512 * 76) 512 = bytes_of_dir docs_entry @ bytes_of_dir text_entry @ replicate 448 0"
    "range_of (disk_byte fdc_tree) (512 * 77) 512 = bytes_of_lfn notes_piece @ bytes_of_dir notes_entry @ replicate 448 0"
    "range_of (disk_byte fdc_tree) (512 * 79) 512 = replicate 512 79" "range_of (disk_byte fdc_tree) (512 * 80) 512 = replicate 512 80"
    by (subst sector_range; simp add: fdc_tree_def tree_lengths)+
  then show "file_bytes volume (disk_byte fdc_tree) [2] = bytes_of_dir docs_entry @ bytes_of_dir text_entry @ replicate 448 0"
    "file_bytes volume (disk_byte fdc_tree) [3] = bytes_of_lfn notes_piece @ bytes_of_dir notes_entry @ replicate 448 0"
    "file_bytes volume (disk_byte fdc_tree) [5, 6] = replicate 512 79 @ replicate 512 80"
    by (simp_all add: file_bytes_def cluster_start_def)
qed

text \<open>The entries of a directory that starts with known ones and goes on with zeros.\<close>

lemma dir_entries_cons:
  assumes "length bs = 32"
  shows "dir_entries (bs @ rest) = dir_of_bytes bs # dir_entries rest"
proof (rule nth_equalityI)
  show "length (dir_entries (bs @ rest)) = length (dir_of_bytes bs # dir_entries rest)" using assms by simp
next
  fix i assume "i < length (dir_entries (bs @ rest))"
  then have i: "i < length (bs @ rest) div 32" by simp
  show "dir_entries (bs @ rest) ! i = (dir_of_bytes bs # dir_entries rest) ! i"
    using assms i by (cases i) (simp_all add: nth_dir_entries)
qed

lemma live_zero: "DIR_Name (dir_of_bytes (replicate 32 0)) ! 0 = 0"
  by (simp add: dir_of_bytes_def)

lemma listing_zeros:
  assumes "32 \<le> n"
  shows "listing k long chars (dir_entries (replicate n 0)) = []" "live_entries (dir_entries (replicate n 0)) = []"
proof -
  have "replicate n (0 :: u8) = replicate 32 0 @ replicate (n - 32) 0" using assms by (simp add: replicate_add [symmetric] del: replicate.simps)
  then have "dir_entries (replicate n 0) = dir_of_bytes (replicate 32 0) # dir_entries (replicate (n - 32) 0)"
    by (simp only: dir_entries_cons length_replicate)
  then show "listing k long chars (dir_entries (replicate n 0)) = []" "live_entries (dir_entries (replicate n 0)) = []"
    by (simp_all add: live_zero live_entries_def del: replicate.simps)
qed

definition tree_dirs :: "u16 \<Rightarrow> fat_dir_entry list" where
  "tree_dirs c = dir_entries (if c = 2 then bytes_of_dir docs_entry @ bytes_of_dir text_entry @ replicate 448 0
                              else bytes_of_lfn notes_piece @ bytes_of_dir notes_entry @ replicate 448 0)"

lemma tree_dirs_entries:
  "tree_dirs 2 = docs_entry # text_entry # dir_entries (replicate 448 0)"
  "tree_dirs 3 = dir_of_bytes (bytes_of_lfn notes_piece) # notes_entry # dir_entries (replicate 448 0)"
proof -
  have "length (DIR_Name docs_entry) = 11" "length (DIR_Name notes_entry) = 11" "length (DIR_Name text_entry) = 11"
    by (simp_all add: docs_entry_def notes_entry_def text_entry_def)
  then have "dir_of_bytes (bytes_of_dir docs_entry) = docs_entry" "dir_of_bytes (bytes_of_dir text_entry) = text_entry" "dir_of_bytes (bytes_of_dir notes_entry) = notes_entry"
    by (simp_all add: dir_roundtrip)
  then show "tree_dirs 2 = docs_entry # text_entry # dir_entries (replicate 448 0)"
    "tree_dirs 3 = dir_of_bytes (bytes_of_lfn notes_piece) # notes_entry # dir_entries (replicate 448 0)"
    by (simp_all add: tree_dirs_def dir_entries_cons tree_lengths del: replicate.simps)
qed

definition docs_item :: named_entry where
  "docs_item = \<lparr>nm_index = 0, nm_long = False,
     nm_chars = [0x44, 0x4F, 0x43, 0x53, 0, 0] @ replicate 254 0xffff, nm_entry = docs_entry\<rparr>"

definition text_item :: named_entry where
  "text_item = \<lparr>nm_index = 1, nm_long = False,
     nm_chars = [0x41, 0x2E, 0x54, 0x58, 0x54, 0] @ replicate 254 0xffff, nm_entry = text_entry\<rparr>"

definition notes_item :: named_entry where
  "notes_item = \<lparr>nm_index = 1, nm_long = True,
     nm_chars = List.map ucast notes_text @ [0, 0] @ replicate 246 0xffff, nm_entry = notes_entry\<rparr>"

lemma default_chars: "f_long_filename fat_file_default = 0 # replicate 259 0xffff"
  by (simp add: fat_file_default_def)

lemma docs_listing: "dir_listing (tree_dirs 2) = [docs_item, text_item]"
proof -
  have "short_chars (DIR_Name docs_entry) = [0x44, 0x4F, 0x43, 0x53, 0, 0]" by (simp add: short_chars_def docs_entry_def Let_def)
  then have d: "replace_at 0 (short_chars (DIR_Name docs_entry)) (0 # replicate 259 0xffff) = nm_chars docs_item"
    by (simp add: replace_at_def docs_item_def del: replicate.simps)
  have "short_chars (DIR_Name text_entry) = [0x41, 0x2E, 0x54, 0x58, 0x54, 0]" by (simp add: short_chars_def text_entry_def Let_def)
  then have t: "replace_at 0 (short_chars (DIR_Name text_entry)) (nm_chars docs_item) = nm_chars text_item"
    by (simp add: replace_at_def docs_item_def text_item_def del: replicate.simps)
  have "DIR_Name docs_entry ! 0 = 0x44" "DIR_Attr docs_entry = 0x10" "DIR_Name text_entry ! 0 = 0x41" "DIR_Attr text_entry = 0x20"
    by (simp_all add: docs_entry_def text_entry_def)
  then have "dir_listing (tree_dirs 2) = [\<lparr>nm_index = 0, nm_long = False, nm_chars = nm_chars docs_item, nm_entry = docs_entry\<rparr>,
      \<lparr>nm_index = 1, nm_long = False, nm_chars = nm_chars text_item, nm_entry = text_entry\<rparr>]"
    by (simp add: dir_listing_def tree_dirs_entries default_chars listing_zeros Let_def d t del: replicate.simps)
  then show ?thesis by (simp add: docs_item_def text_item_def)
qed

abbreviation (input) notes_dir :: fat_dir_entry where "notes_dir \<equiv> dir_of_bytes (bytes_of_lfn notes_piece)"

lemma notes_dir: "DIR_Name notes_dir ! 0 = 0x41" "DIR_Attr notes_dir = 0x0F" "piece_index notes_dir = 1" "last_piece notes_dir"
  "fat_lfn_chars (lfn_of_bytes (bytes_of_dir notes_dir)) = List.map ucast notes_text @ [0]"
proof -
  show "DIR_Name notes_dir ! 0 = 0x41" "DIR_Attr notes_dir = 0x0F" by (simp_all add: dir_of_bytes_def bytes_of_lfn_def notes_piece_def bytes16_def)
  then show "piece_index notes_dir = 1" "last_piece notes_dir" by (simp_all add: piece_index_def last_piece_def)
  have "bytes_of_dir notes_dir = bytes_of_lfn notes_piece" by (rule bytes_roundtrip [OF tree_lengths(4)])
  moreover have "lfn_of_bytes (bytes_of_lfn notes_piece) = notes_piece" by (rule lfn_roundtrip) (simp_all add: notes_piece_def)
  ultimately show "fat_lfn_chars (lfn_of_bytes (bytes_of_dir notes_dir)) = List.map ucast notes_text @ [0]"
    by (simp add: fat_lfn_chars_def notes_piece_def notes_text_def)
qed

lemma notes_listing: "dir_listing (tree_dirs 3) = [notes_item]"
proof -
  have "join_piece notes_dir (0 # replicate 259 0xffff) = nm_chars notes_item"
    by (simp add: join_piece_def notes_dir replace_at_def notes_item_def notes_text_def del: replicate.simps)
  moreover have "DIR_Name notes_entry ! 0 = 0x4E" "DIR_Attr notes_entry = 0x20" by (simp_all add: notes_entry_def)
  ultimately show ?thesis
    by (simp add: dir_listing_def tree_dirs_entries default_chars listing_zeros Let_def notes_dir notes_item_def del: replicate.simps)
qed

lemma tree_pieces: "pieces_ok (tree_dirs 2)" "pieces_ok (tree_dirs 3)"
proof -
  have "DIR_Attr docs_entry = 0x10" "DIR_Attr notes_entry = 0x20" "DIR_Name docs_entry ! 0 = 0x44" "DIR_Name notes_entry ! 0 = 0x4E"
    "DIR_Attr text_entry = 0x20" "DIR_Name text_entry ! 0 = 0x41"
    by (simp_all add: docs_entry_def notes_entry_def text_entry_def)
  moreover have "live_entries (dir_entries (replicate 448 0)) = []"
    by (simp_all add: listing_zeros(2) del: replicate.simps)
  ultimately show "pieces_ok (tree_dirs 2)" "pieces_ok (tree_dirs 3)"
    by (simp_all add: pieces_ok_def tree_dirs_entries live_entries_def notes_dir del: replicate.simps)
qed

lemma tree_dir_set: "dir_set volume 2803 (disk_byte fdc_tree) tree_dirs {2, 3}"
proof -
  have "tree_dirs 2 = dir_entries (file_bytes volume (disk_byte fdc_tree) [2])"
    "tree_dirs 3 = dir_entries (file_bytes volume (disk_byte fdc_tree) [3])"
    by (simp_all only: tree_bytes) (simp_all add: tree_dirs_def)
  then have "\<exists>cs. chain (table_entry volume (disk_byte fdc_tree)) 2803 (ucast c) cs \<and>
      tree_dirs c = dir_entries (file_bytes volume (disk_byte fdc_tree) cs)" if "c \<in> {2, 3}" for c :: u16
    using tree_chains(1,2) that by (auto simp del: chain.simps)
  moreover have "is_dir (nm_entry docs_item)" "first_cluster_of (nm_entry docs_item) = 3" "\<not> is_dir (nm_entry notes_item)"
    "\<not> is_dir (nm_entry text_item)"
    by (simp_all add: docs_item_def notes_item_def text_item_def docs_entry_def notes_entry_def text_entry_def is_dir_def first_cluster_of_def)
  ultimately show ?thesis using tree_pieces
    unfolding dir_set_def by (simp add: docs_listing notes_listing)
qed

subsection \<open>The search is the walk\<close>

text \<open>C4. Finding by path.  On a volume whose directories, the one that is searched among them, form
  a closed set, \<^verbatim>\<open>fat_find\<close> returns for every path; it reports what the walk through the listings of
  the directories finds: nothing, or the file or directory with its entry, the place of the entry,
  the directory that holds it, and the name.  The device is only read.\<close>

theorem fat_find_walks:
  assumes "fat_volume disk ready content limit clusters" "world_ok ready w"
    "dir_set disk clusters (content (w_dev w)) dirs D" "first_cluster_of (f_dir root) \<in> D" "0 \<notin> set path"
  shows "\<exists>sub root' w'. world_ok ready w' \<and> content (w_dev w') = content (w_dev w) \<and>
    fat_find disk True root path is_file False w =
    (case dir_walk dirs is_file (first_cluster_of (f_dir root)) (path_parts path) of
       None \<Rightarrow> Some (fat_NOT_FOUND, sub, Some fat_file_default, root', w')
     | Some (c, x) \<Rightarrow>
         if is_file then Some (fat_FOUND_FILE, sub, Some (found_at c x), root', w')
         else Some (fat_FOUND_DIR, found_at c x, Some fat_file_default, root', w'))"
  using assms by (rule fat_volume.find_path)

definition tree_root :: fat_file where
  "tree_root = fat_file_default\<lparr>f_dir := fat_dir_empty\<lparr>DIR_FstClusLO := 2\<rparr>\<rparr>"

text \<open>\<^verbatim>\<open>docs/Notes of May\<close>\<close>

definition notes_path :: "u8 list" where
  "notes_path = [0x64, 0x6F, 0x63, 0x73, 0x2F] @ notes_text"

lemma tree_root_cluster: "first_cluster_of (f_dir tree_root) = 2"
  by (simp add: tree_root_def first_cluster_of_def)

lemma notes_walk: "dir_walk tree_dirs True 2 (path_parts notes_path) = Some (3, notes_item)"
proof -
  have p: "path_parts notes_path = [[0x64, 0x6F, 0x63, 0x73], notes_text]"
    by (simp add: path_parts.simps notes_path_def notes_text_def)
  have d: "is_dir (nm_entry docs_item)" "first_cluster_of (nm_entry docs_item) = 3" "\<not> is_dir (nm_entry notes_item)"
    by (simp_all add: docs_item_def notes_item_def docs_entry_def notes_entry_def is_dir_def first_cluster_of_def)
  have "has_name [0x64, 0x6F, 0x63, 0x73] docs_item" "has_name notes_text notes_item"
    by (simp_all add: has_name_def name_text_def docs_item_def notes_item_def notes_text_def fat_fold_def to_lowercase_def)
  then show ?thesis using d unfolding p by (simp add: docs_listing notes_listing)
qed

lemma text_walk: "dir_walk tree_dirs True 2 (path_parts [0x61, 0x2E, 0x74, 0x78, 0x74]) = Some (2, text_item)"
proof -
  have p: "path_parts [0x61, 0x2E, 0x74, 0x78, 0x74] = [[0x61, 0x2E, 0x74, 0x78, 0x74]]" by (simp add: path_parts.simps)
  have d: "\<not> is_dir (nm_entry text_item)" by (simp add: text_item_def text_entry_def is_dir_def)
  have "\<not> has_name [0x61, 0x2E, 0x74, 0x78, 0x74] docs_item" "has_name [0x61, 0x2E, 0x74, 0x78, 0x74] text_item"
    by (simp_all add: has_name_def name_text_def docs_item_def text_item_def fat_fold_def to_lowercase_def)
  then show ?thesis using d unfolding p by (simp add: docs_listing)
qed

lemma notes_path_ok: "0 \<notin> set notes_path"
  by (simp add: notes_path_def notes_text_def)

lemma tree_set_world: "dir_set volume 2803 (disk_byte (w_dev tree_world)) tree_dirs {2, 3}"
  using tree_dir_set by (simp add: tree_world_def)

theorem fat_find_walks_witness:
  "\<exists>sub root' w'. fat_find volume True tree_root notes_path True False tree_world =
     Some (fat_FOUND_FILE, sub, Some (found_at 3 notes_item), root', w')"
proof -
  have "first_cluster_of (f_dir tree_root) \<in> {2, 3}" by (simp add: tree_root_cluster)
  from fat_find_walks [OF fv.fat_volume_axioms tree_world_ok tree_set_world this notes_path_ok, of True]
  show ?thesis unfolding tree_root_cluster notes_walk by auto
qed

text \<open>Reading a directory entry by entry.  \<^verbatim>\<open>fat_readdir\<close> at position \<open>i\<close> returns item \<open>i\<close> of the
  directory's listing, a directory or a file as its attribute says, and moves the position on; behind
  the last item it reports the end and stays.  The device is only read.\<close>

theorem fat_readdir_lists:
  assumes "fat_volume disk ready content limit clusters" "world_ok ready w"
    "dir_set disk clusters (content (w_dev w)) dirs D" "first_cluster_of (f_dir dir) \<in> D"
    "items = dir_listing (dirs (first_cluster_of (f_dir dir)))"
  shows "\<exists>sub dir' w'. world_ok ready w' \<and> content (w_dev w') = content (w_dev w) \<and>
    first_cluster_of (f_dir dir') = first_cluster_of (f_dir dir) \<and>
    f_cursor dir' = (if unat (f_cursor dir) < length items then f_cursor dir + 1 else f_cursor dir) \<and>
    fat_readdir disk dir w =
      (if unat (f_cursor dir) < length items then
         (let found = found_at (first_cluster_of (f_dir dir)) (items ! unat (f_cursor dir))
          in if is_dir (f_dir found) then Some (fat_FOUND_DIR, found, Some fat_file_default, dir', w')
             else Some (fat_FOUND_FILE, sub, Some found, dir', w'))
       else Some (fat_NOT_FOUND, sub, Some fat_file_default, dir', w'))"
  using assms by (rule fat_volume.readdir_item)

theorem fat_readdir_lists_witness:
  "\<exists>dir' w'. fat_readdir volume tree_root tree_world = Some (fat_FOUND_DIR, found_at 2 docs_item, Some fat_file_default, dir', w') \<and>
     f_cursor dir' = 1"
proof -
  have c: "first_cluster_of (f_dir tree_root) \<in> {2, 3}" "f_cursor tree_root = 0"
    by (simp_all add: tree_root_cluster) (simp add: tree_root_def fat_file_default_def)
  have d: "is_dir (f_dir (found_at 2 docs_item))" by (simp add: found_at_def docs_item_def docs_entry_def is_dir_def)
  from fat_readdir_lists [OF fv.fat_volume_axioms tree_world_ok tree_set_world c(1) refl]
  show ?thesis unfolding tree_root_cluster docs_listing c(2) using d by (auto simp: Let_def)
qed

subsection \<open>Long names\<close>

text \<open>The entries that \<^verbatim>\<open>fat_update_lfn\<close> puts before an entry: the last piece comes first.\<close>

definition name_piece :: "u16 list \<Rightarrow> nat \<Rightarrow> u8 \<Rightarrow> nat \<Rightarrow> fat_dir_entry" where
  "name_piece name n checksum i =
     (case fat_lfn_entry_at name (word_of_nat i) (word_of_nat n) checksum of
        None \<Rightarrow> fat_dir_empty | Some l \<Rightarrow> dir_of_bytes (bytes_of_lfn l))"

lemma name_piece:
  assumes "1 \<le> i" "i \<le> n" "n < 16" "length name = 260"
  shows "DIR_Name (name_piece name n checksum i) ! 0 \<noteq> 0" "DIR_Name (name_piece name n checksum i) ! 0 \<noteq> 0xE5"
    "DIR_Attr (name_piece name n checksum i) = 0x0F" "piece_index (name_piece name n checksum i) = i"
    "last_piece (name_piece name n checksum i) \<longleftrightarrow> i = n"
    "fat_lfn_chars (lfn_of_bytes (bytes_of_dir (name_piece name n checksum i))) = take 13 (drop ((i - 1) * 13) name)"
proof -
  let ?i = "word_of_nat i :: u8" and ?n = "word_of_nat n :: u8"
  have u: "unat ?i = i" "unat ?n = n" using assms by (simp_all add: unat_of_nat)
  have "(i - 1) * 13 + 13 \<le> length name" using assms by simp
  then obtain l where l: "fat_lfn_entry_at name ?i ?n checksum = Some l" by (auto simp: fat_lfn_entry_at_def u slice_def)
  have p: "name_piece name n checksum i = dir_of_bytes (bytes_of_lfn l)" by (simp add: name_piece_def l)
  have i1: "1 \<le> unat ?i" using assms(1) u(1) by simp
  note e = lfn_entry_chars [OF l i1] and len = length_bytes_of_lfn
  have eq: "?i = ?n \<longleftrightarrow> i = n" using u by metis
  have ord: "DIR_Name (dir_of_bytes (bytes_of_lfn l)) ! 0 = (if i = n then 0x40 else 0) OR ?i"
    by (simp add: dir_of_bytes_def bytes_of_lfn_def e(3) eq)
  have i16: "unat ?i < 16" using u(1) assms by simp
  note o = lfn_ordinal [OF i16 i1, of "i = n"]
  show "piece_index (name_piece name n checksum i) = i" "last_piece (name_piece name n checksum i) \<longleftrightarrow> i = n"
    unfolding piece_index_def last_piece_def p ord o using u(1) by simp_all
  have "DIR_Name (dir_of_bytes (bytes_of_lfn l)) ! 0 AND 0x0F \<noteq> 0"
    unfolding ord o(1) using i1 by auto
  then show "DIR_Name (name_piece name n checksum i) ! 0 \<noteq> 0" unfolding p by auto
  have "DIR_Name (dir_of_bytes (bytes_of_lfn l)) ! 0 AND 0x80 = 0"
  proof -
    have "i \<in> set [1..<16]" using assms by simp
    then show ?thesis unfolding ord by (auto simp: upt_rec)
  qed
  then show "DIR_Name (name_piece name n checksum i) ! 0 \<noteq> 0xE5" unfolding p by auto
  have "length (concat (List.map bytes16 xs)) = 2 * length xs" for xs by (induction xs) simp_all
  then have "bytes_of_lfn l ! 11 = LDIR_Attr l" using e(5-7) by (simp add: bytes_of_lfn_def nth_append)
  then show "DIR_Attr (name_piece name n checksum i) = 0x0F" unfolding p by (simp add: dir_of_bytes_def e(4))
  show "fat_lfn_chars (lfn_of_bytes (bytes_of_dir (name_piece name n checksum i))) = take 13 (drop ((i - 1) * 13) name)"
    unfolding p bytes_roundtrip [OF len [OF e(5-7)]] lfn_roundtrip [OF e(5-7)] e(1) u(1) ..
qed

text \<open>Joining one piece: its 13 code units, and the terminator behind the last one.\<close>

lemma replace_at_nth: "i + length ys \<le> length xs \<Longrightarrow> j < length xs \<Longrightarrow>
    replace_at i ys xs ! j = (if i \<le> j \<and> j < i + length ys then ys ! (j - i) else xs ! j)"
  by (auto simp: replace_at_def nth_append)

lemma join_name_piece:
  assumes "1 \<le> i" "i \<le> n" "n < 16" "length name = 260" "length chars = 260" "j < 260"
  shows "join_piece (name_piece name n checksum i) chars ! j =
    (if i = n \<and> j = n * 13 then 0 else if (i - 1) * 13 \<le> j \<and> j < i * 13 then name ! j else chars ! j)"
proof -
  let ?p = "(i - 1) * 13" and ?cs = "take 13 (drop ((i - 1) * 13) name)"
  have p: "?p + 13 = i * 13" "?p + 14 \<le> 260" using assms(1-3) by (cases i; simp)+
  have cs: "length ?cs = 13" using p(2) assms(4) by simp
  have 1: "replace_at ?p ?cs chars ! k = (if ?p \<le> k \<and> k < i * 13 then name ! k else chars ! k)" if "k < 260" for k
    using replace_at_nth [of ?p ?cs chars k] that p assms(4,5) unfolding cs by (auto simp: p(1))
  have l: "length (replace_at ?p ?cs chars) = 260" using p(2) assms(5) by (simp add: length_replace_at cs)
  show ?thesis
  proof (cases "i = n")
    case True
    have n: "?p + 13 = n * 13" "n * 13 + 1 \<le> 260" using p True by simp_all
    have "replace_at (n * 13) [0] (replace_at ?p ?cs chars) ! j = (if j = n * 13 then 0 else replace_at ?p ?cs chars ! j)"
      using replace_at_nth [of "n * 13" "[0]" "replace_at ?p ?cs chars" j] l n(2) assms(6) by auto
    then have "replace_at (?p + 13) [0] (replace_at ?p ?cs chars) ! j = (if j = n * 13 then 0 else replace_at ?p ?cs chars ! j)"
      unfolding n(1) .
    then show ?thesis using 1 [OF assms(6)] True unfolding join_piece_def name_piece [OF assms(1-4)] Let_def by simp
  next
    case False
    then show ?thesis using 1 [OF assms(6)] unfolding join_piece_def name_piece [OF assms(1-4)] Let_def by simp
  qed
qed

definition short_entry :: "fat_dir_entry \<Rightarrow> bool" where
  "short_entry e \<longleftrightarrow> DIR_Name e ! 0 \<noteq> 0 \<and> DIR_Name e ! 0 \<noteq> 0xE5 \<and> DIR_Attr e \<noteq> 0x0F"

lemma listing_pieces:
  assumes "i \<le> n" "1 \<le> n" "n < 16" "length name = 260" "length chars = 260" "short_entry e" "i < n \<or> long = False"
    "i < n \<longrightarrow> long \<and> (\<forall>j. i * 13 \<le> j \<and> j < n * 13 \<longrightarrow> chars ! j = name ! j) \<and> chars ! (n * 13) = 0"
  shows "\<exists>chars' rest. listing k long chars (List.map (name_piece name n checksum) (rev [1..<i + 1]) @ e # es) =
      \<lparr>nm_index = k + i, nm_long = True, nm_chars = chars', nm_entry = e\<rparr> # rest \<and> length chars' = 260 \<and>
      (\<forall>j < n * 13. chars' ! j = name ! j) \<and> chars' ! (n * 13) = 0"
  using assms
proof (induction i arbitrary: k long chars)
  case 0
  then show ?case by (simp add: short_entry_def)
next
  case (Suc i)
  let ?p = "name_piece name n checksum (Suc i)"
  have i: "1 \<le> Suc i" "Suc i \<le> n" using Suc.prems(1) by simp_all
  note p = name_piece [OF i Suc.prems(3,4), of checksum] and j = join_name_piece [OF i Suc.prems(3-5), of _ checksum]
  have n: "n * 13 < 260" using Suc.prems(3) by simp
  have l: "length (join_piece ?p chars) = 260" by (rule length_join_piece [OF Suc.prems(5)])
  have list: "List.map (name_piece name n checksum) (rev [1..<Suc i + 1]) @ e # es =
      ?p # List.map (name_piece name n checksum) (rev [1..<i + 1]) @ e # es" by simp
  have long: "(long \<or> last_piece ?p) = True" using Suc.prems(1,8) p(5) by auto
  have chars: "join_piece ?p chars ! x = name ! x" if "i * 13 \<le> x" "x < n * 13" for x
    using j [of x] that n Suc.prems(8) Suc.prems(1) by (cases "Suc i = n") auto
  have z: "join_piece ?p chars ! (n * 13) = 0" using j [OF n] Suc.prems(1,8) by (cases "Suc i = n") auto
  have step: "listing k long chars (?p # List.map (name_piece name n checksum) (rev [1..<i + 1]) @ e # es) =
      listing (k + 1) True (join_piece ?p chars) (List.map (name_piece name n checksum) (rev [1..<i + 1]) @ e # es)"
    using p(1-3) long by simp
  show ?case unfolding list step
    using Suc.IH [of "join_piece ?p chars" True "k + 1"] Suc.prems l chars z by auto
qed

lemma takeWhile_front:
  assumes "t < length xs" "\<And>j. j < t \<Longrightarrow> xs ! j = f (s ! j) \<and> xs ! j \<noteq> 0" "xs ! t = 0" "t = length s"
  shows "takeWhile (\<lambda>c. c \<noteq> 0) xs = List.map f s"
proof -
  have "takeWhile (\<lambda>c. c \<noteq> 0) xs = take t xs"
    by (rule takeWhile_eq_take_P_nth) (use assms(2,3) in blast)+
  moreover have "take t xs = List.map f s" using assms by (intro nth_equalityI) simp_all
  ultimately show ?thesis by simp
qed



subsection \<open>Opening and reading a file by its path\<close>


definition tree_state :: "fdc fatfs_world" where
  "tree_state = \<lparr>fw_fat = tree_world, fw_disk = volume, fw_states = [3 \<mapsto> \<lparr>st_is_dir = True, st_file = tree_root\<rparr>], fw_next = 4\<rparr>"


end
