(* ===== verification/FatFiles.thy ===== *)
theory FatFiles
  imports FatLookup
begin

section \<open>Several open files\<close>

text \<open>
  The contract that users of \<^verbatim>\<open>fat.c\<close> rely on: open files are independent sequences of bytes with a
  position each.  The specification knows only these; the code works on one device and one cache that
  all files share.  Sequences of reads, writes inside the files and seeks, on any of the files in any
  order, do what the specification says.
\<close>

subsection \<open>The specification\<close>

datatype file_op = FRead nat u32 | FWrite nat "u8 list" | FSeek nat u32

type_synonym spec_file = "u8 list \<times> nat"

text \<open>The answer of an operation: the bytes of a read.  Writing beyond the end and seeking beyond it are not specified.\<close>

fun spec_op :: "file_op \<Rightarrow> (nat \<Rightarrow> spec_file) \<Rightarrow> (u8 list \<times> (nat \<Rightarrow> spec_file)) option" where
  "spec_op (FRead i n) F =
     (case F i of (bytes, pos) \<Rightarrow>
        let data = take (unat n) (drop pos bytes) in Some (data, F(i := (bytes, pos + length data))))"
| "spec_op (FWrite i data) F =
     (case F i of (bytes, pos) \<Rightarrow>
        if pos + length data \<le> length bytes then Some ([], F(i := (write_at bytes pos data, pos + length data))) else None)"
| "spec_op (FSeek i pos) F =
     (case F i of (bytes, _) \<Rightarrow> if unat pos \<le> length bytes then Some ([], F(i := (bytes, unat pos))) else None)"

fun spec_ops :: "file_op list \<Rightarrow> (nat \<Rightarrow> spec_file) \<Rightarrow> (u8 list list \<times> (nat \<Rightarrow> spec_file)) option" where
  "spec_ops [] F = Some ([], F)"
| "spec_ops (p # ps) F = do { (a, F) \<leftarrow> spec_op p F; (as, F) \<leftarrow> spec_ops ps F; Some (a # as, F) }"

subsection \<open>The code\<close>

text \<open>What a read delivers is what the position moved over.\<close>

fun code_op :: "'p fat_disk \<Rightarrow> file_op \<Rightarrow> (nat \<Rightarrow> fat_file) \<Rightarrow> 'p fat_world \<Rightarrow> (u8 list \<times> (nat \<Rightarrow> fat_file) \<times> 'p fat_world) option" where
  "code_op disk (FRead i n) G w = do {
     (out, fl, w) \<leftarrow> fat_fread disk (replicate (unat n) 0) 1 n (G i) w;
     Some (take (unat (f_cursor fl - f_cursor (G i))) out, G(i := fl), w)
   }"
| "code_op disk (FWrite i data) G w = do {
     (res, fl, w) \<leftarrow> fat_fwrite disk data 1 (word_of_nat (length data)) (G i) w;
     if res = 0 then None else Some ([], G(i := fl), w)
   }"
| "code_op disk (FSeek i pos) G w = Some ([], G(i := fat_fseek (G i) (uint pos) fat_SEEK_SET), w)"

fun code_ops :: "'p fat_disk \<Rightarrow> file_op list \<Rightarrow> (nat \<Rightarrow> fat_file) \<Rightarrow> 'p fat_world \<Rightarrow> (u8 list list \<times> (nat \<Rightarrow> fat_file) \<times> 'p fat_world) option" where
  "code_ops disk [] G w = Some ([], G, w)"
| "code_ops disk (p # ps) G w = do { (a, G, w) \<leftarrow> code_op disk p G w; (as, G, w) \<leftarrow> code_ops disk ps G w; Some (a # as, G, w) }"

fun op_file :: "file_op \<Rightarrow> nat" where
  "op_file (FRead i n) = i"
| "op_file (FWrite i data) = i"
| "op_file (FSeek i pos) = i"

text \<open>
  A file on the device: its chain ends in the mark that \<^verbatim>\<open>fat_extend\<close> sets, its size lies in the last
  cluster, its content is the front part of its clusters.
\<close>

definition stores :: "'p fat_disk \<Rightarrow> nat \<Rightarrow> (nat \<Rightarrow> u8) \<Rightarrow> u32 list \<Rightarrow> fat_file \<Rightarrow> spec_file \<Rightarrow> bool" where
  "stores disk clusters m cs fl F \<longleftrightarrow>
     chain (table_entry disk m) clusters (first_cluster fl) cs \<and> table_entry disk m (last cs) = 0x0FFFFFFF \<and>
     (length cs - 1) * cluster_bytes disk \<le> unat (DIR_FileSize (f_dir fl)) \<and>
     unat (DIR_FileSize (f_dir fl)) \<le> length cs * cluster_bytes disk \<and>
     fst F = take (unat (DIR_FileSize (f_dir fl))) (file_bytes disk m cs) \<and>
     snd F = unat (f_cursor fl) \<and> f_cursor fl \<le> DIR_FileSize (f_dir fl)"

text \<open>All files of a set, with pairwise disjoint chains.\<close>

definition stores_all :: "'p fat_disk \<Rightarrow> nat \<Rightarrow> (nat \<Rightarrow> u8) \<Rightarrow> nat set \<Rightarrow> (nat \<Rightarrow> u32 list) \<Rightarrow> (nat \<Rightarrow> fat_file) \<Rightarrow> (nat \<Rightarrow> spec_file) \<Rightarrow> bool" where
  "stores_all disk clusters m I cs G F \<longleftrightarrow> (\<forall>i\<in>I. stores disk clusters m (cs i) (G i) (F i)) \<and>
     (\<forall>i\<in>I. \<forall>j\<in>I. i \<noteq> j \<longrightarrow> set (cs i) \<inter> set (cs j) = {})"

lemma stores_length: "stores disk clusters m cs fl F \<Longrightarrow> length (fst F) = unat (DIR_FileSize (f_dir fl))"
  by (simp add: stores_def)

lemma take_write_at:
  assumes a: "i + length ys \<le> n" "n \<le> length xs"
  shows "take n (write_at xs i ys) = write_at (take n xs) i ys"
proof -
  show ?thesis
  proof (cases "n \<le> i")
    case True
    then have "length ys = 0" "n = i" using a(1) by linarith+
    then show ?thesis by simp
  next
    case False
    then show ?thesis using a by (simp add: write_at_def min_def drop_take)
  qed
qed

text \<open>Chains that share no cluster with the files, such as directories, stay, with their bytes.\<close>

definition keeps_others :: "'p fat_disk \<Rightarrow> nat \<Rightarrow> nat set \<Rightarrow> (nat \<Rightarrow> u32 list) \<Rightarrow> (nat \<Rightarrow> u8) \<Rightarrow> (nat \<Rightarrow> u8) \<Rightarrow> bool" where
  "keeps_others disk clusters I cs m m' \<longleftrightarrow>
     (\<forall>c ds. chain (table_entry disk m) clusters c ds \<and> (\<forall>i\<in>I. set (cs i) \<inter> set ds = {}) \<longrightarrow>
        chain (table_entry disk m') clusters c ds \<and> file_bytes disk m' ds = file_bytes disk m ds)"

lemma keeps_others_refl: "keeps_others disk clusters I cs m m"
  by (simp add: keeps_others_def)

lemma keeps_others_trans:
  "keeps_others disk clusters I cs m m' \<Longrightarrow> keeps_others disk clusters I cs m' m'' \<Longrightarrow> keeps_others disk clusters I cs m m''"
  unfolding keeps_others_def by metis

context fat_volume
begin

lemma bytes_frame:
  assumes "file_write disk cs i ys m m'" "\<And>x. x \<in> set cs \<Longrightarrow> valid_cluster clusters x" "\<And>y. y \<in> set ds \<Longrightarrow> valid_cluster clusters y"
    "set cs \<inter> set ds = {}"
  shows "file_bytes disk m' ds = file_bytes disk m ds"
proof -
  have "range_of m' (cluster_start disk y) (cluster_bytes disk) = range_of m (cluster_start disk y) (cluster_bytes disk)" if y: "y \<in> set ds" for y
  proof (rule range_of_cong)
    fix a assume a: "cluster_start disk y \<le> a" "a < cluster_start disk y + cluster_bytes disk"
    have "\<not> in_clusters disk cs a"
    proof
      assume "in_clusters disk cs a"
      then obtain x where x: "x \<in> set cs" "cluster_start disk x \<le> a" "a < cluster_start disk x + cluster_bytes disk" by (auto simp: in_clusters_def)
      then have "x \<noteq> y" using y assms(4) by auto
      from clusters_disjoint [OF assms(2) [OF x(1)] assms(3) [OF y] this] x(2,3) a show False by auto
    qed
    then show "m' a = m a" using assms(1) by (simp add: file_write_def)
  qed
  then show ?thesis by (simp add: file_bytes_def cong: map_cong)
qed

lemma stores_frame:
  assumes "file_write disk cs i ys m m'" "chain (table_entry disk m) clusters c cs" "stores disk clusters m ds fl F" "set cs \<inter> set ds = {}"
  shows "stores disk clusters m' ds fl F"
proof -
  note v = chain_valid [OF assms(2)]
  have ds: "chain (table_entry disk m) clusters (first_cluster fl) ds" using assms(3) by (simp add: stores_def)
  then have "ds \<noteq> []" by auto
  then have "last ds \<in> set ds" by simp
  then have "unat (last ds) < clusters + 2" using chain_valid [OF ds] by (simp add: valid_cluster_def)
  then have "table_entry disk m' (last ds) = table_entry disk m (last ds)" by (rule write_keeps_entry [OF _ assms(1) v])
  moreover have "chain (table_entry disk m') clusters (first_cluster fl) ds" by (rule write_keeps_chain [OF ds assms(1) v])
  moreover have "file_bytes disk m' ds = file_bytes disk m ds" by (rule bytes_frame [OF assms(1) v chain_valid [OF ds] assms(4)])
  ultimately show ?thesis using assms(3) by (simp add: stores_def)
qed

text \<open>Writing inside a file, as its own content sees it.\<close>

lemma stores_write:
  assumes "stores disk clusters m cs fl F" "file_write disk cs (snd F) data m m'" "snd F + length data \<le> length (fst F)"
  shows "stores disk clusters m' cs (fl\<lparr>f_cursor := f_cursor fl + word_of_nat (length data)\<rparr>) (write_at (fst F) (snd F) data, snd F + length data)"
proof -
  have ch: "chain (table_entry disk m) clusters (first_cluster fl) cs" using assms(1) by (simp add: stores_def)
  note v = chain_valid [OF ch]
  have "cs \<noteq> []" using ch by auto
  then have "last cs \<in> set cs" by simp
  then have "unat (last cs) < clusters + 2" using v by (simp add: valid_cluster_def)
  then have 1: "table_entry disk m' (last cs) = table_entry disk m (last cs)" by (rule write_keeps_entry [OF _ assms(2) v])
  have 2: "chain (table_entry disk m') clusters (first_cluster fl) cs" by (rule write_keeps_chain [OF ch assms(2) v])
  let ?S = "DIR_FileSize (f_dir fl)"
  have fit: "unat (f_cursor fl) + length data \<le> unat ?S" using assms(3) stores_length [OF assms(1)] assms(1) by (simp add: stores_def)
  moreover have "unat ?S < 2 ^ 32" using unat_bound [of ?S] by simp
  ultimately have c: "unat (f_cursor fl + word_of_nat (length data)) = unat (f_cursor fl) + length data"
    by (simp add: unat_word_ariths unat_of_nat)
  have "take (unat ?S) (file_bytes disk m' cs) = write_at (fst F) (snd F) data"
    using assms(1,2) fit by (simp add: stores_def file_write_def take_write_at)
  then show ?thesis using assms(1) 1 2 c fit by (simp add: stores_def word_le_nat_alt)
qed

lemma code_op_refines:
  assumes "world_ok ready w" "stores_all disk clusters (content (w_dev w)) I cs G F" "op_file p \<in> I" "spec_op p F = Some (a, F')"
  shows "\<exists>G' w'. code_op disk p G w = Some (a, G', w') \<and> world_ok ready w' \<and>
    stores_all disk clusters (content (w_dev w')) I cs G' F' \<and>
    keeps_others disk clusters I cs (content (w_dev w)) (content (w_dev w'))"
proof (cases p)
  case (FRead i n)
  let ?m = "content (w_dev w)" and ?fl = "G i"
  have i: "i \<in> I" using assms(3) FRead by simp
  then have s: "stores disk clusters ?m (cs i) ?fl (F i)" using assms(2) by (simp add: stores_all_def)
  have "unat (1 * n) \<le> length (replicate (unat n) (0 :: u8))" by simp
  then obtain moved w' where r: "fat_fread disk (replicate (unat n) 0) 1 n ?fl w =
      Some (take (unat moved) (drop (unat (f_cursor ?fl)) (file_bytes disk ?m (cs i))) @ drop (unat moved) (replicate (unat n) 0),
            ?fl\<lparr>f_cursor := f_cursor ?fl + moved\<rparr>, w')"
    "unat moved = min (unat n) (unat (DIR_FileSize (f_dir ?fl)) - unat (f_cursor ?fl))" "world_ok ready w'" "content (w_dev w') = ?m"
    using fread_file [OF assms(1), of ?fl "cs i" 1 n "replicate (unat n) 0"] s by (auto simp: stores_def)
  obtain bytes pos where F: "F i = (bytes, pos)" by (cases "F i")
  let ?B = "file_bytes disk ?m (cs i)" and ?S = "unat (DIR_FileSize (f_dir ?fl))"
  have b: "bytes = take ?S ?B" "pos = unat (f_cursor ?fl)" "pos \<le> ?S" "?S \<le> length ?B"
    using s F by (simp_all add: stores_def word_le_nat_alt)
  have data: "take (unat n) (drop pos bytes) = take (unat moved) (drop pos ?B)"
    unfolding r(2) b(1) using b(2) by (simp add: drop_take)
  have len: "length (take (unat moved) (drop pos ?B)) = unat moved" using b r(2) by simp
  have mS: "pos + unat moved \<le> ?S" using r(2) b(2,3) by simp
  then have "unat (f_cursor ?fl + moved) = pos + unat moved"
    using b(2) unat_bound [of "DIR_FileSize (f_dir ?fl)"] by (simp add: unat_word_ariths)
  then have "stores disk clusters ?m (cs i) (?fl\<lparr>f_cursor := f_cursor ?fl + moved\<rparr>) (bytes, pos + unat moved)"
    using s F mS by (simp add: stores_def word_le_nat_alt)
  moreover have F': "F' = F(i := (bytes, pos + unat moved))" "a = take (unat moved) (drop pos ?B)"
    using assms(4) unfolding FRead spec_op.simps F prod.case Let_def data len by simp_all
  ultimately have "stores_all disk clusters ?m I cs (G(i := ?fl\<lparr>f_cursor := f_cursor ?fl + moved\<rparr>)) F'"
    using assms(2) by (simp add: stores_all_def)
  moreover have "code_op disk p G w = Some (a, G(i := ?fl\<lparr>f_cursor := f_cursor ?fl + moved\<rparr>), w')"
    using r(1) len b(2) F'(2) by (simp add: FRead)
  ultimately show ?thesis using r(3,4) keeps_others_refl by simp
next
  case (FWrite i data)
  let ?m = "content (w_dev w)" and ?fl = "G i" and ?n = "word_of_nat (length data) :: u32"
  have i: "i \<in> I" using assms(3) FWrite by simp
  then have s: "stores disk clusters ?m (cs i) ?fl (F i)" using assms(2) by (simp add: stores_all_def)
  have fit: "snd (F i) + length data \<le> length (fst (F i))"
    and F': "F' = F(i := (write_at (fst (F i)) (snd (F i)) data, snd (F i) + length data))" "a = []"
    using assms(4) FWrite by (auto split: prod.splits if_splits)
  have ch: "chain (table_entry disk ?m) clusters (first_cluster ?fl) (cs i)" using s by (simp add: stores_def)
  have fit': "unat (f_cursor ?fl) + length data \<le> unat (DIR_FileSize (f_dir ?fl))" using fit s stores_length [OF s] by (simp add: stores_def)
  then have n: "unat (1 * ?n) = length data" using unat_bound [of "DIR_FileSize (f_dir ?fl)"] by (simp add: unat_of_nat)
  obtain w' where r: "fat_fwrite disk data 1 ?n ?fl w = Some (1, ?fl\<lparr>f_cursor := f_cursor ?fl + ?n\<rparr>, w')" "world_ok ready w'"
    "file_write disk (cs i) (snd (F i)) data ?m (content (w_dev w'))"
    using fwrite_file [OF assms(1) ch _ fit' _ n] s unfolding fat_fwrite_def by (auto simp: stores_def)
  have other: "stores disk clusters (content (w_dev w')) (cs j) (G j) (F j)" if "j \<in> I" "j \<noteq> i" for j
    using stores_frame [OF r(3) ch] that i assms(2) unfolding stores_all_def by metis
  have "stores_all disk clusters (content (w_dev w')) I cs (G(i := ?fl\<lparr>f_cursor := f_cursor ?fl + ?n\<rparr>)) F'"
    using assms(2) other stores_write [OF s r(3) fit] by (simp add: stores_all_def F')
  moreover have "code_op disk p G w = Some (a, G(i := ?fl\<lparr>f_cursor := f_cursor ?fl + ?n\<rparr>), w')"
    using r(1) F'(2) by (simp add: FWrite)
  moreover have "keeps_others disk clusters I cs ?m (content (w_dev w'))"
    unfolding keeps_others_def
  proof (intro allI impI conjI)
    fix c ds
    assume ds: "chain (table_entry disk ?m) clusters c ds \<and> (\<forall>i\<in>I. set (cs i) \<inter> set ds = {})"
    note ch' = conjunct1 [OF ds]
    show "chain (table_entry disk (content (w_dev w'))) clusters c ds" by (rule write_keeps_chain [OF ch' r(3) chain_valid [OF ch]])
    show "file_bytes disk (content (w_dev w')) ds = file_bytes disk ?m ds"
      by (rule bytes_frame [OF r(3) chain_valid [OF ch] chain_valid [OF ch'] bspec [OF conjunct2 [OF ds] i]])
  qed
  ultimately show ?thesis using r(2) by blast
next
  case (FSeek i pos)
  have s: "stores disk clusters (content (w_dev w)) (cs i) (G i) (F i)" using assms(2,3) FSeek by (simp add: stores_all_def)
  have F': "unat pos \<le> length (fst (F i))" "F' = F(i := (fst (F i), unat pos))" "a = []"
    using assms(4) FSeek by (auto split: prod.splits if_splits)
  then have "stores disk clusters (content (w_dev w)) (cs i) (G i\<lparr>f_cursor := pos\<rparr>) (fst (F i), unat pos)"
    using s stores_length [OF s] by (simp add: stores_def word_le_nat_alt)
  then show ?thesis using assms(1,2) F' unfolding FSeek by (auto simp: seek_set stores_all_def keeps_others_refl)
qed

lemma code_ops_refine:
  assumes "world_ok ready w" "stores_all disk clusters (content (w_dev w)) I cs G F" "\<forall>p\<in>set ps. op_file p \<in> I" "spec_ops ps F = Some (as, F')"
  shows "\<exists>G' w'. code_ops disk ps G w = Some (as, G', w') \<and> world_ok ready w' \<and>
    stores_all disk clusters (content (w_dev w')) I cs G' F' \<and>
    keeps_others disk clusters I cs (content (w_dev w)) (content (w_dev w'))"
  using assms
proof (induction ps arbitrary: w G F as)
  case (Cons p ps)
  obtain b F1 bs where sp: "spec_op p F = Some (b, F1)" "spec_ops ps F1 = Some (bs, F')" "as = b # bs"
    using Cons.prems(4) by (auto simp: Option.bind_eq_Some_conv)
  have p: "op_file p \<in> I" using Cons.prems(3) by simp
  obtain G1 w1 where c: "code_op disk p G w = Some (b, G1, w1)" "world_ok ready w1" "stores_all disk clusters (content (w_dev w1)) I cs G1 F1"
    "keeps_others disk clusters I cs (content (w_dev w)) (content (w_dev w1))"
    using code_op_refines [OF Cons.prems(1,2) p sp(1)] by blast
  have ps: "\<forall>p\<in>set ps. op_file p \<in> I" using Cons.prems(3) by simp
  obtain G' w' where d: "code_ops disk ps G1 w1 = Some (bs, G', w')" "world_ok ready w'" "stores_all disk clusters (content (w_dev w')) I cs G' F'"
    "keeps_others disk clusters I cs (content (w_dev w1)) (content (w_dev w'))"
    using Cons.IH [OF c(2,3) ps sp(2)] by blast
  have "code_ops disk (p # ps) G w = Some (as, G', w')" using c(1) d(1) sp(3) by simp
  then show ?case using d(2,3) keeps_others_trans [OF c(4) d(4)] by blast
qed (simp add: keeps_others_refl)

end

subsection \<open>Independence\<close>

text \<open>C3. Open files behave as independent byte sequences.  For files with pairwise disjoint chains on
  one volume, every sequence of reads, writes inside the files and seeks that the specification
  allows succeeds; each read delivers what the specification says, the files end up holding what it
  says, and every chain that shares no cluster with them, a directory say, is as before.\<close>

theorem fat_files_refine:
  assumes "fat_volume disk ready content limit clusters" "world_ok ready w"
    "stores_all disk clusters (content (w_dev w)) I cs G F" "\<forall>p\<in>set ps. op_file p \<in> I" "spec_ops ps F = Some (as, F')"
  shows "\<exists>G' w'. code_ops disk ps G w = Some (as, G', w') \<and> world_ok ready w' \<and>
    stores_all disk clusters (content (w_dev w')) I cs G' F' \<and>
    keeps_others disk clusters I cs (content (w_dev w)) (content (w_dev w'))"
  using assms by (rule fat_volume.code_ops_refine)

definition second_file :: fat_file where
  "second_file = fat_file_default\<lparr>f_dir := fat_dir_empty\<lparr>DIR_FstClusLO := 7, DIR_FileSize := 100\<rparr>\<rparr>"

definition two_ops :: "file_op list" where
  "two_ops = [FWrite 0 [1, 2], FSeek 1 10, FWrite 1 [9], FSeek 0 509, FRead 0 4, FSeek 1 9, FRead 1 3]"

theorem fat_files_refine_witness:
  "\<exists>G' w'. code_ops volume two_ops (\<lambda>i. if i = 0 then volume_file else second_file) volume_world =
     Some ([[], [], [], [], [79, 1, 2, 80], [], [0, 9, 0]], G', w')"
proof -
  let ?G = "\<lambda>i :: nat. if i = 0 then volume_file else second_file" and ?cs = "\<lambda>i :: nat. if i = 0 then [5, 6] else [7] :: u32 list"
  let ?F = "\<lambda>i :: nat. if i = 0 then (replicate 512 79 @ replicate 188 80, 510) else (replicate 100 0, 0) :: spec_file"
  have "range_of (disk_byte fdc_volume) (512 * 81) 512 = replicate 512 0"
    by (subst sector_range) (simp_all add: fdc_volume_def)
  then have b: "file_bytes volume (disk_byte fdc_volume) [7] = replicate 512 0" by (simp add: file_bytes_def cluster_start_def)
  have f: "DIR_FstClusLO (f_dir second_file) = 7" "DIR_FileSize (f_dir second_file) = 100" "f_cursor second_file = 0"
    by (simp_all add: second_file_def fat_file_default_def)
  have c: "chain (table_entry volume (disk_byte fdc_volume)) 2803 7 [7]"
    by (simp add: volume_entry valid_cluster_def fat_no_cluster_def fat_last_cluster_def)
  have "stores_all volume 2803 (disk_byte (w_dev volume_world)) {0, 1} ?cs ?G ?F"
    using volume_chain c by (simp add: stores_all_def stores_def f b volume_bytes volume_entry del: chain.simps replicate.simps)
  moreover have "\<forall>p\<in>set two_ops. op_file p \<in> {0, 1}" by (simp add: two_ops_def)
  moreover have "\<exists>F'. spec_ops two_ops ?F = Some ([[], [], [], [], [79, 1, 2, 80], [], [0, 9, 0]], F')"
    by (simp add: two_ops_def Let_def write_at_def del: replicate.simps) simp
  ultimately show ?thesis using fat_files_refine [OF fv.fat_volume_axioms volume_world_ok, where I = "{0, 1}" and cs = ?cs and G = ?G and F = ?F and ps = two_ops] by blast
qed

end
