(* ===== verification/Explorer.thy ===== *)
theory Explorer
  imports FatFiles FatPrint
begin

section \<open>The disk viewer (disks/viewer/main.c)\<close>

text \<open>
  The host program that is linked with \<^verbatim>\<open>fat.c\<close>: a shell over a disk image and a loader of host files
  into it.  Standard input and output are lists of bytes, a C string is the list of its bytes before
  the terminator; \<^verbatim>\<open>malloc\<close> yields a block with any content.  The host's own files are functions of a
  path; its directories give the names in the order of \<^verbatim>\<open>readdir\<close>.  \<open>None\<close> is undefined behaviour.
\<close>

subsection \<open>The host\<close>

datatype host_kind = Host_regular int | Host_directory | Host_other

record host =
  h_fresh :: "nat \<Rightarrow> u8 list"
  h_last_byte :: u8
  h_realpath :: "u8 list \<Rightarrow> u8 list"
  h_writable :: "u8 list \<Rightarrow> bool"
  h_opendir :: "u8 list \<Rightarrow> u8 list list option"
  h_stat :: "u8 list \<Rightarrow> host_kind option"
  h_content :: "u8 list \<Rightarrow> u8 list option"

record 'p viewer =
  v_world :: "'p fat_world"
  v_dir :: fat_file
  v_command :: "u8 list"
  v_input :: "u8 list"
  v_output :: "u8 list"
  v_saved :: "(u8 list \<times> u8 list) list"

definition host_print :: "u8 list \<Rightarrow> 'p viewer \<Rightarrow> 'p viewer" where
  "host_print s v = v\<lparr>v_output := v_output v @ s\<rparr>"

text \<open>\<^verbatim>\<open>fat_print_longname\<close> with the host's \<^verbatim>\<open>kprintf\<close>, which is \<^verbatim>\<open>vprintf\<close>: the low byte of each code unit.\<close>

definition longname_bytes :: "u16 list \<Rightarrow> u8 list" where
  "longname_bytes longname = List.map ucast (takeWhile (\<lambda>c. c \<noteq> 0) (take 260 longname))"

text \<open>\<^verbatim>\<open>fgets\<close> with room for \<open>n\<close> bytes: up to the end of the line, which is included.\<close>

fun fgets_bytes :: "nat \<Rightarrow> u8 list \<Rightarrow> u8 list \<times> u8 list" where
  "fgets_bytes 0 input = ([], input)"
| "fgets_bytes (Suc n) [] = ([], [])"
| "fgets_bytes (Suc n) (c # input) =
     (if c = 10 then ([c], input) else (case fgets_bytes n input of (line, rest) \<Rightarrow> (c # line, rest)))"

text \<open>
  \<^verbatim>\<open>fgets(command, 256, stdin); command[strlen(command) - 1] = 0\<close>: at the end of the input \<^verbatim>\<open>command\<close> stays as
  it was, and loses another character; an empty one is written to before its first byte.
\<close>

definition read_command :: "'p viewer \<Rightarrow> 'p viewer option" where
  "read_command v =
     (let (command, rest) = (if v_input v = [] then (v_command v, [])
                             else (case fgets_bytes 255 (v_input v) of (line, rest) \<Rightarrow> (takeWhile (\<lambda>c. c \<noteq> 0) line, rest)))
      in if command = [] then None else Some (v\<lparr>v_command := butlast command, v_input := rest\<rparr>))"

text \<open>\<^verbatim>\<open>strncmp(command, s, strlen(s)) == 0\<close>\<close>

definition starts_with :: "u8 list \<Rightarrow> string \<Rightarrow> bool" where
  "starts_with command s \<longleftrightarrow> take (length s) command = ascii s"

subsection \<open>The commands\<close>

partial_function (option) ls_loop :: "'p fat_disk \<Rightarrow> fat_file \<Rightarrow> u8 list \<Rightarrow> 'p fat_world \<Rightarrow> (fat_file \<times> u8 list \<times> 'p fat_world) option" where
  "ls_loop disk dir out w =
     do {
       (kind, tmp_dir, tmp_file, dir, w) \<leftarrow> fat_readdir disk dir w;
       if kind = fat_NOT_FOUND then Some (dir, out, w)
       else if kind = fat_FOUND_FILE then do {
         file \<leftarrow> tmp_file;
         ls_loop disk dir (out @ longname_bytes (f_long_filename file) @ [10]) w
       }
       else if kind = fat_FOUND_DIR then ls_loop disk dir (out @ longname_bytes (f_long_filename tmp_dir) @ [0x2F, 10]) w
       else ls_loop disk dir out w
     }"

definition cmd_ls :: "'p fat_disk \<Rightarrow> 'p viewer \<Rightarrow> 'p viewer option" where
  "cmd_ls disk v =
     do {
       (dir, out, w) \<leftarrow> ls_loop disk (fat_rewinddir (v_dir v)) [] (v_world v);
       Some (host_print out (v\<lparr>v_dir := dir, v_world := w\<rparr>))
     }"

text \<open>A final slash is cut off in the buffer of the command itself.\<close>

definition cmd_cd :: "'p fat_disk \<Rightarrow> 'p viewer \<Rightarrow> 'p viewer option" where
  "cmd_cd disk v =
     do {
       let path = drop 3 (v_command v);
       let path = (if path \<noteq> [] \<and> last path = 0x2F then butlast path else path);
       let v = v\<lparr>v_command := take 3 (v_command v) @ path\<rparr>;
       (res, tmp_dir, dir, w) \<leftarrow> fat_opendir disk (v_dir v) path (v_world v);
       if res \<noteq> 0 then Some (v\<lparr>v_dir := fat_copy_DIR tmp_dir, v_world := w\<rparr>)
       else Some (host_print (ascii ''Error: Could not open directory'' @ [10]) (v\<lparr>v_dir := dir, v_world := w\<rparr>))
     }"

definition file_error :: "u8 list" where
  "file_error = ascii ''Error: Could not open file'' @ [10]"

text \<open>A line of the input written to the open file; the result of the write is not looked at.\<close>

definition write_line :: "'p fat_disk \<Rightarrow> fat_file \<Rightarrow> 'p viewer \<Rightarrow> 'p viewer option" where
  "write_line disk file v =
     do {
       v \<leftarrow> read_command v;
       (res, file, w) \<leftarrow> fat_fwrite disk (v_command v) 1 (word_of_nat (length (v_command v))) file (v_world v);
       Some (v\<lparr>v_world := w\<rparr>)
     }"

definition redirect_path :: "nat \<Rightarrow> u8 list \<Rightarrow> u8 list" where
  "redirect_path n command = drop (n + (if byte_at command n = 0x20 then 1 else 0)) command"

text \<open>The last byte is read with the cursor already at the end, so that \<^verbatim>\<open>last_byte\<close> stays uninitialised.\<close>

definition cmd_append :: "host \<Rightarrow> 'p fat_disk \<Rightarrow> 'p viewer \<Rightarrow> 'p viewer option" where
  "cmd_append h disk v =
     do {
       (res, file, dir, w) \<leftarrow> fat_fopen disk (v_dir v) (redirect_path 6 (v_command v)) [0x61] (v_world v);
       let v = v\<lparr>v_dir := dir, v_world := w\<rparr>;
       if res \<noteq> 0 then do {
         let file = fat_fseek file 0 fat_SEEK_END;
         (file, w) \<leftarrow>
           (if fat_ftell file > 0 then do {
              (last_byte, file, w) \<leftarrow> fat_fread disk [h_last_byte h] 1 1 file w;
              let file = (if last_byte ! 0 = 0 then fat_fseek file (- 1) fat_SEEK_END else file);
              (res, file, w) \<leftarrow> fat_fwrite disk [10] 1 1 file w;
              Some (file, w)
            }
            else Some (file, w));
         write_line disk file (v\<lparr>v_world := w\<rparr>)
       }
       else Some (host_print file_error v)
     }"

definition cmd_write :: "'p fat_disk \<Rightarrow> 'p viewer \<Rightarrow> 'p viewer option" where
  "cmd_write disk v =
     do {
       (res, file, dir, w) \<leftarrow> fat_fopen disk (v_dir v) (redirect_path 5 (v_command v)) [0x77] (v_world v);
       let v = v\<lparr>v_dir := dir, v_world := w\<rparr>;
       if res \<noteq> 0 then write_line disk (fat_fseek file 0 fat_SEEK_END) v
       else Some (host_print file_error v)
     }"

text \<open>The whole file in a fresh block of \<open>n\<close> bytes, of which the file fills the front.\<close>

definition read_whole :: "host \<Rightarrow> 'p fat_disk \<Rightarrow> fat_file \<Rightarrow> nat \<Rightarrow> u32 \<Rightarrow> 'p fat_world \<Rightarrow> (u8 list \<times> 'p fat_world) option" where
  "read_whole h disk file n count w =
     do {
       (buffer, file, w) \<leftarrow> fat_fread disk (h_fresh h n) 1 count (fat_fseek file 0 fat_SEEK_SET) w;
       Some (buffer, w)
     }"

definition cmd_cat :: "host \<Rightarrow> 'p fat_disk \<Rightarrow> 'p viewer \<Rightarrow> 'p viewer option" where
  "cmd_cat h disk v =
     do {
       (res, file, dir, w) \<leftarrow> fat_fopen disk (v_dir v) (drop 4 (v_command v)) [0x72] (v_world v);
       let v = v\<lparr>v_dir := dir, v_world := w\<rparr>;
       if res \<noteq> 0 then do {
         let count = (word_of_int (fat_ftell (fat_fseek file 0 fat_SEEK_END)) :: u32);
         (buffer, w) \<leftarrow> read_whole h disk file (unat (count + 1)) count w;
         buffer \<leftarrow> store_at buffer (unat count) [0];
         Some (host_print (takeWhile (\<lambda>c. c \<noteq> 0) buffer) (v\<lparr>v_world := w\<rparr>))
       }
       else Some (host_print file_error v)
     }"

definition cmd_remove :: "'p fat_disk \<Rightarrow> bool \<Rightarrow> nat \<Rightarrow> string \<Rightarrow> string \<Rightarrow> 'p viewer \<Rightarrow> 'p viewer option" where
  "cmd_remove disk is_file n yes no v =
     do {
       (res, w) \<leftarrow> fat_remove disk (v_dir v) (drop n (v_command v)) is_file (v_world v);
       Some (host_print (ascii (if res \<noteq> 0 then yes else no) @ [10]) (v\<lparr>v_world := w\<rparr>))
     }"

definition cmd_mkdir :: "'p fat_disk \<Rightarrow> 'p viewer \<Rightarrow> 'p viewer option" where
  "cmd_mkdir disk v =
     do {
       (res, new_dir, dir, w) \<leftarrow> fat_create_dir disk (v_dir v) (drop 6 (v_command v)) 0 (v_world v);
       Some (host_print (ascii (if res \<noteq> 0 then ''Directory created'' else ''Error: Could not create directory'') @ [10])
               (v\<lparr>v_dir := dir, v_world := w\<rparr>))
     }"

text \<open>The name is put into an array of 256 bytes; \<^verbatim>\<open>realpath\<close> only serves the message.\<close>

definition cmd_save :: "host \<Rightarrow> 'p fat_disk \<Rightarrow> 'p viewer \<Rightarrow> 'p viewer option" where
  "cmd_save h disk v =
     do {
       (res, file, dir, w) \<leftarrow> fat_fopen disk (v_dir v) (drop 5 (v_command v)) [0x72] (v_world v);
       let v = v\<lparr>v_dir := dir, v_world := w\<rparr>;
       if res \<noteq> 0 then do {
         name \<leftarrow> fat_longname_to_string (f_long_filename file);
         if length name \<ge> 256 then None
         else do {
           let v = host_print (ascii ''Saving file '' @ name @ ascii '' to '' @ h_realpath h name @ [10]) v;
           if \<not> h_writable h name then Some (host_print (ascii ''Error: Could not open save file'' @ [10]) v)
           else do {
             let count = (word_of_int (fat_ftell (fat_fseek file 0 fat_SEEK_END)) :: u32);
             (buffer, w) \<leftarrow> read_whole h disk file (unat count) count w;
             Some (v\<lparr>v_world := w, v_saved := v_saved v @ [(name, take (unat (min count 0xfffffff)) buffer)]\<rparr>)
           }
         }
       }
       else Some (host_print file_error v)
     }"

definition explorer_command :: "host \<Rightarrow> 'p fat_disk \<Rightarrow> 'p viewer \<Rightarrow> 'p viewer option" where
  "explorer_command h disk v =
     (let command = v_command v in
      if starts_with command ''ls'' then cmd_ls disk v
      else if starts_with command ''cd '' then cmd_cd disk v
      else if starts_with command ''cat '' then
        (if starts_with command ''cat >>'' then cmd_append h disk v
         else if starts_with command ''cat >'' then cmd_write disk v
         else cmd_cat h disk v)
      else if starts_with command ''rm '' then cmd_remove disk True 3 ''File removed'' ''Error: Could not remove file'' v
      else if starts_with command ''mkdir '' then cmd_mkdir disk v
      else if starts_with command ''rmdir '' then
        cmd_remove disk False 6 ''Directory removed'' ''Error: Could not remove directory'' v
      else if starts_with command ''save '' then cmd_save h disk v
      else Some (host_print (ascii ''Error: Unknown command'' @ [10]) v))"

partial_function (option) explorer_loop :: "host \<Rightarrow> 'p fat_disk \<Rightarrow> 'p viewer \<Rightarrow> 'p viewer option" where
  "explorer_loop h disk v =
     do {
       v \<leftarrow> read_command (host_print (longname_bytes (f_long_filename (v_dir v)) @ [0x3E, 0x20]) v);
       if v_command v = ascii ''exit'' \<or> v_command v = ascii ''quit'' then Some v
       else do {
         v \<leftarrow> explorer_command h disk v;
         explorer_loop h disk v
       }
     }"

definition explorer_banner :: "u8 list" where
  "explorer_banner = concat (List.map (\<lambda>s. ascii s @ [10])
     [''---===### FAT Explorer 2000 ###===---'',
      ''Commands:'',
      ''  ls               list files in current directory'',
      ''  cd <directory>   change directory'',
      ''  cat <file>       print file contents'',
      ''  cat > <file>     write to file'',
      ''  cat >> <file>    append to file'',
      ''  rm <file>        remove file'',
      ''  mkdir <dir>      create directory'',
      ''  rmdir <dir>      remove directory'',
      ''  save <file>      save file to disk'',
      ''  exit             exit the program''])"

definition interactive_file_explorer :: "host \<Rightarrow> 'p fat_disk \<Rightarrow> 'p viewer \<Rightarrow> 'p viewer option" where
  "interactive_file_explorer h disk v =
     explorer_loop h disk (host_print explorer_banner v\<lparr>v_dir := fat_copy_DIR (d_root_directory disk)\<rparr>)"

subsection \<open>Loading host files\<close>

definition host_path :: "u8 list \<Rightarrow> u8 list \<Rightarrow> u8 list" where
  "host_path source_dir name = take 1023 (source_dir @ [0x2F] @ name)"

text \<open>
  The loop over the names of a host directory; the recursive call for a subdirectory starts its own.
  The file is read into a block of its size as \<^verbatim>\<open>stat\<close> gave it, converted to \<^verbatim>\<open>int\<close>.
\<close>

definition load_file :: "host \<Rightarrow> 'p fat_disk \<Rightarrow> fat_file \<Rightarrow> u8 list \<Rightarrow> u8 list \<Rightarrow> int \<Rightarrow> 'p viewer \<Rightarrow> (int \<times> fat_file \<times> 'p viewer) option" where
  "load_file h disk root_dir name fullpath st_size v =
     do {
       (res, new_file, root_dir, w) \<leftarrow> fat_create_file disk root_dir name 0 (v_world v);
       let v = v\<lparr>v_world := w\<rparr>;
       if res = 0 then Some (0, root_dir, v)
       else (case h_content h fullpath of
           None \<Rightarrow> Some (0, root_dir, host_print (ascii ''Error: Could not open file '' @ fullpath @ [10]) v)
         | Some content \<Rightarrow> do {
             let file_size = i32 st_size;
             if file_size < 0 then None
             else do {
               let data = take (nat file_size) content;
               let buffer = data @ drop (length data) (h_fresh h (nat file_size));
               (res, new_file, w) \<leftarrow> fat_fwrite disk buffer 1 (word_of_int file_size) new_file (v_world v);
               let v = v\<lparr>v_world := w\<rparr>;
               if res \<noteq> 0 then Some (1, root_dir, v)
               else Some (0, root_dir, host_print (ascii ''Error: Could not write file '' @ fullpath @ [10]) v)
             }
           })
     }"

partial_function (option) load_entries ::
  "host \<Rightarrow> 'p fat_disk \<Rightarrow> fat_file \<Rightarrow> u8 list \<Rightarrow> u8 list list \<Rightarrow> int \<Rightarrow> 'p viewer \<Rightarrow> (int \<times> 'p viewer) option" where
  "load_entries h disk root_dir source_dir names files_loaded v =
     (case names of
        [] \<Rightarrow> Some (files_loaded, v)
      | name # names \<Rightarrow>
          (if name = [0x2E] \<or> name = [0x2E, 0x2E] then load_entries h disk root_dir source_dir names files_loaded v
           else (case h_stat h (host_path source_dir name) of
               None \<Rightarrow>
                 load_entries h disk root_dir source_dir names files_loaded
                   (host_print (ascii ''Error: Could not stat file '' @ host_path source_dir name @ [10]) v)
             | Some Host_directory \<Rightarrow> do {
                 (res, new_dir, root_dir, w) \<leftarrow> fat_create_dir disk root_dir name 0 (v_world v);
                 let v = v\<lparr>v_world := w\<rparr>;
                 (n, v) \<leftarrow>
                   (if res = 0 then Some (0, v)
                    else (case h_opendir h (host_path source_dir name) of
                        None \<Rightarrow> Some (0, host_print (ascii ''Error: Could not open directory '' @ host_path source_dir name @ [10]) v)
                      | Some entries \<Rightarrow> load_entries h disk new_dir (host_path source_dir name) entries 0 v));
                 load_entries h disk root_dir source_dir names (i32 (files_loaded + n)) v
               }
             | Some (Host_regular st_size) \<Rightarrow> do {
                 (n, root_dir, v) \<leftarrow> load_file h disk root_dir name (host_path source_dir name) st_size v;
                 load_entries h disk root_dir source_dir names (i32 (files_loaded + n)) v
               }
             | Some Host_other \<Rightarrow> load_entries h disk root_dir source_dir names files_loaded v)))"

definition load_files :: "host \<Rightarrow> 'p fat_disk \<Rightarrow> fat_file \<Rightarrow> u8 list \<Rightarrow> 'p viewer \<Rightarrow> (int \<times> 'p viewer) option" where
  "load_files h disk root_dir source_dir v =
     (case h_opendir h source_dir of
        None \<Rightarrow> Some (0, host_print (ascii ''Error: Could not open directory '' @ source_dir @ [10]) v)
      | Some names \<Rightarrow> load_entries h disk root_dir source_dir names 0 v)"

subsection \<open>The image\<close>

text \<open>The two functions of the disk, over the bytes of the image file: a read stops at the end of the
  file and leaves the rest of the buffer; a write beyond the end fills the gap with zeros.\<close>

definition disk_read_func :: "u32 \<Rightarrow> u32 \<Rightarrow> (u8 list, u8 list) state" where
  "disk_read_func offset n = State (\<lambda>img. (take (unat n) (drop (unat offset) img), img))"

definition disk_write_func :: "u32 \<Rightarrow> u8 list \<Rightarrow> (u8 list, unit) state" where
  "disk_write_func offset data = State (\<lambda>img.
     ((), if data = [] then img
          else take (unat offset) (img @ replicate (unat offset - length img) 0) @ data @ drop (unat offset + length data) img))"

text \<open>\<^verbatim>\<open>%d\<close> of the host's \<^verbatim>\<open>printf\<close>.\<close>

definition decimal_text :: "int \<Rightarrow> u8 list" where
  "decimal_text n = (if n < 0 then [0x2D] else []) @
     (if n = 0 then [0x30] else List.map (\<lambda>d. 0x30 + word_of_nat d) (to_digits 10 (nat \<bar>n\<bar>)))"

text \<open>
  \<^verbatim>\<open>main\<close>: the exit status and what the program leaves.  The arguments are those behind the name of the
  program, the image is \<^verbatim>\<open>None\<close> when it cannot be opened.
\<close>

definition viewer_main ::
  "host \<Rightarrow> u8 list fat_disk \<Rightarrow> u8 list list \<Rightarrow> u8 list option \<Rightarrow> u8 list viewer \<Rightarrow> (int \<times> u8 list viewer) option" where
  "viewer_main h disk args image_file v =
     (case image_file of
        None \<Rightarrow> Some (1, host_print (ascii ''Error: Could not open file floppy.img'' @ [10]) v)
      | Some img \<Rightarrow> do {
          (res, disk, w) \<leftarrow> fat_init disk disk_read_func disk_write_func ((v_world v)\<lparr>w_dev := img\<rparr>);
          let v = v\<lparr>v_world := w\<rparr>;
          if res = 0 then Some (1, v)
          else if ascii ''-l'' \<in> set args then do {
            let v = host_print (ascii ''Loading files from files'' @ [10]) v;
            (loaded, v) \<leftarrow> load_files h disk (d_root_directory disk) (ascii ''files'') v;
            Some (0, host_print (ascii ''Loaded '' @ decimal_text loaded @ ascii '' files'' @ [10]) v)
          }
          else do {
            v \<leftarrow> interactive_file_explorer h disk v;
            Some (0, v)
          }
        })"

end
