(* ===== verification/FatRemove.thy ===== *)
theory FatRemove
  imports FatFiles
begin

section \<open>Removing a file by its path\<close>

text \<open>
  \<^verbatim>\<open>fat_remove\<close> as a whole, for files without a long name: what the directory and the table hold afterwards.
\<close>

subsection \<open>Directories and their bytes\<close>

lemma listing_items:
  "x \<in> set (listing k long chars es) \<Longrightarrow> k \<le> nm_index x \<and> nm_index x < k + length es \<and> nm_entry x = es ! (nm_index x - k) \<and>
     DIR_Name (nm_entry x) ! 0 \<noteq> 0 \<and> DIR_Name (nm_entry x) ! 0 \<noteq> 0xE5"
proof (induction k long chars es rule: listing.induct)
  case (2 k long chars e es)
  let ?chars = "if long then chars else replace_at 0 (short_chars (DIR_Name e)) chars"
  consider (first) "x = \<lparr>nm_index = k, nm_long = long, nm_chars = ?chars, nm_entry = e\<rparr>" "DIR_Name e ! 0 \<noteq> 0" "DIR_Name e ! 0 \<noteq> 0xE5"
    | (later) "k + 1 \<le> nm_index x \<and> nm_index x < k + 1 + length es \<and> nm_entry x = es ! (nm_index x - (k + 1)) \<and>
        DIR_Name (nm_entry x) ! 0 \<noteq> 0 \<and> DIR_Name (nm_entry x) ! 0 \<noteq> 0xE5"
    using 2 by (auto simp: Let_def split: if_splits)
  then show ?case by cases (auto simp: nth_Cons')
qed simp

lemma dir_entries_write:
  assumes "length bs = 32" "k < length B div 32"
  shows "dir_entries (write_at B (32 * k) bs) = (dir_entries B)[k := dir_of_bytes bs]"
proof (rule nth_equalityI)
  have "32 * k + length bs \<le> length B" using assms by linarith
  then have l: "length (write_at B (32 * k) bs) = length B" by (rule length_write_at)
  then show "length (dir_entries (write_at B (32 * k) bs)) = length ((dir_entries B)[k := dir_of_bytes bs])" by simp
  fix i assume "i < length (dir_entries (write_at B (32 * k) bs))"
  then have i: "i < length B div 32" by (simp add: l)
  have "take 32 (drop (32 * i) (write_at B (32 * k) bs)) = (if i = k then bs else take 32 (drop (32 * i) B))"
  proof (rule nth_equalityI)
    show "length (take 32 (drop (32 * i) (write_at B (32 * k) bs))) = length (if i = k then bs else take 32 (drop (32 * i) B))"
      using i assms(1) l by auto
    fix j assume "j < length (take 32 (drop (32 * i) (write_at B (32 * k) bs)))"
    then have j: "j < 32" "32 * i + j < length B" using i l by auto
    have n: "write_at B (32 * k) bs ! a = (if 32 * k \<le> a \<and> a < 32 * k + 32 then bs ! (a - 32 * k) else B ! a)" if "a < length B" for a
      using that assms by (auto simp: write_at_def nth_append)
    have "32 * k \<le> 32 * i + j \<and> 32 * i + j < 32 * k + 32 \<longleftrightarrow> i = k" using j(1) by auto
    then show "take 32 (drop (32 * i) (write_at B (32 * k) bs)) ! j = (if i = k then bs else take 32 (drop (32 * i) B)) ! j"
      using n [OF j(2)] j l i by auto
  qed
  then show "dir_entries (write_at B (32 * k) bs) ! i = (dir_entries B)[k := dir_of_bytes bs] ! i"
    using i l by (simp add: nth_dir_entries nth_list_update)
qed

lemma walk_item:
  assumes "dir_set disk clusters m dirs D" "c \<in> D" "dir_walk dirs is_file c parts = Some (c', x)"
  shows "c' \<in> D \<and> x \<in> set (dir_listing (dirs c'))"
  using assms
proof (induction dirs is_file c parts rule: dir_walk.induct)
  case (2 dirs is_file c part)
  then show ?case by (auto dest: find_in_set)
next
  case (3 dirs is_file c part p parts)
  then obtain y where y: "List.find (\<lambda>x. has_name part x \<and> is_dir (nm_entry x)) (dir_listing (dirs c)) = Some y"
    "dir_walk dirs is_file (first_cluster_of (nm_entry y)) (p # parts) = Some (c', x)" by (auto split: option.splits)
  have "first_cluster_of (nm_entry y) \<in> D" using find_in_set [OF y(1)] 3(2,3) unfolding dir_set_def by blast
  then show ?case using 3(1) [OF y(1) 3(2)] y(2) by simp
qed simp

subsection \<open>Removing\<close>

definition freed_entry :: "fat_dir_entry \<Rightarrow> fat_dir_entry" where
  "freed_entry e = e\<lparr>DIR_Name := (DIR_Name e)[0 := 0xE5]\<rparr>"

context fat_volume
begin

lemma file_bytes_data:
  assumes "\<And>a. data_start disk \<le> a \<Longrightarrow> m' a = m a"
  shows "file_bytes disk m' cs = file_bytes disk m cs"
proof -
  have "range_of m' (cluster_start disk c) (cluster_bytes disk) = range_of m (cluster_start disk c) (cluster_bytes disk)" for c
    by (rule range_of_cong) (simp add: assms cluster_start_def)
  then show ?thesis by (simp add: file_bytes_def)
qed

text \<open>A file without a long name whose entry is entry \<open>k\<close> of the directory with the chain \<open>ps\<close>.\<close>

lemma remove_short:
  assumes w: "world_ok ready w" and m: "m = content (w_dev w)" and dvd: "32 dvd cluster_bytes disk"
    and ps: "chain (table_entry disk m) clusters (ucast c) ps" "table_entry disk m (last ps) = 0x0FFFFFFF"
    and es: "es = dir_entries (file_bytes disk m ps)" "nm_index x < length es" "nm_entry x = es ! nm_index x" "\<not> nm_long x"
    and cs: "chain (table_entry disk m) clusters (ucast (DIR_FstClusLO (nm_entry x))) cs" "set cs \<inter> set ps = {}"
  shows "\<exists>f w' m'. fat_fremove disk (found_at c x) w = Some (1, f, w') \<and> world_ok ready w' \<and> m' = content (w_dev w') \<and>
    (\<forall>d. unat d < clusters + 2 \<longrightarrow> table_entry disk m' d = (if d \<in> set cs then 0 else table_entry disk m d)) \<and>
    chain (table_entry disk m') clusters (ucast c) ps \<and>
    dir_entries (file_bytes disk m' ps) = es[nm_index x := freed_entry (nm_entry x)]"
proof -
  let ?f = "found_at c x" and ?k = "nm_index x" and ?e = "nm_entry x"
  let ?g = "fat_mark_free ?f"
  have f: "f_dir ?f = ?e" "f_entry_position ?f = word_of_nat (32 * ?k)" "f_first_parent_cluster ?f = ucast c" "f_lfn_present ?f = 0"
    using es(4) by (simp_all add: found_at_def)
  have g: "f_dir ?g = freed_entry ?e" "f_entry_position ?g = word_of_nat (32 * ?k)" "f_first_parent_cluster ?g = ucast c"
    using f by (simp_all add: fat_mark_free_def freed_entry_def)
  have name: "length (DIR_Name ?e) = 11" using length_dir_entry_name es(1-3) by simp
  have len: "32 * length es = length ps * cluster_bytes disk" using dvd by (simp add: es(1))
  note room = chain_room [OF ps(1)]
  have k: "32 * ?k + 32 \<le> length ps * cluster_bytes disk" using es(2) unfolding len [symmetric] by linarith
  then have pos: "unat (word_of_nat (32 * ?k) :: u32) = 32 * ?k" using room(1) by (simp add: unat_of_nat del: of_nat_mult)
  have c2: "2 \<le> (ucast c :: u32)" using ps(1) by (cases ps) (auto simp: valid_cluster_def)
  have uc: "(ucast (ucast (ucast c :: u32) :: u16) :: u32) = ucast c" by (rule bit_word_eqI) (auto simp: bit_simps dest: bit_imp_le_length)
  obtain w1 where w1: "fat_update_lfn disk ?f True w = Some w1" "world_ok ready w1" "content (w_dev w1) = m"
  proof -
    let ?p = "fat_parent (ucast c)" let ?q = "?p\<lparr>f_dir := (f_dir ?p)\<lparr>DIR_FstClusHI := ucast (drop_bit 16 (ucast c :: u32))\<rparr>\<rparr>"
    have "chain (table_entry disk m) clusters (first_cluster ?q) ps" using ps(1) uc by (simp add: fat_parent_def)
    moreover have "on w m" using w m by (simp add: on_world)
    ultimately obtain p' w1 where "fat_chain_size disk ?q w = Some (p', w1)" "on w1 m" using chain_size by blast
    then show ?thesis using that f by (simp add: fat_update_lfn_def on_world)
  qed
  have "entry_in disk clusters (content (w_dev w1)) ?g ps"
    using ps c2 name k pos uc by (simp add: entry_in_def g w1(3) freed_entry_def fat_parent_def del: of_nat_mult)
  from update_entry [OF w1(2) this] obtain w2 where w2: "fat_update_entry disk ?g w1 = Some w2" "world_ok ready w2"
    "file_write disk ps (32 * ?k) (bytes_of_dir (freed_entry ?e)) m (content (w_dev w2))" unfolding g w1(3) pos by blast
  note v = chain_valid [OF ps(1)]
  let ?m2 = "content (w_dev w2)"
  have T2: "table_entry disk ?m2 d = table_entry disk m d" if "unat d < clusters + 2" for d by (rule write_keeps_entry [OF that w2(3) v])
  have "chain (table_entry disk ?m2) clusters (ucast (DIR_FstClusLO ?e)) cs" by (rule write_keeps_chain [OF cs(1) w2(3) v])
  then have cs2: "chain (table_entry disk ?m2) clusters (first_cluster ?g) cs" by (simp add: g freed_entry_def)
  from remove_chain [OF w2(2) cs2] obtain w3 where w3: "fat_remove_fat_chain disk ?g w2 = Some w3" "world_ok ready w3"
    "\<forall>d. unat d < clusters + 2 \<longrightarrow> table_entry disk (content (w_dev w3)) d = (if d \<in> set cs then 0 else table_entry disk ?m2 d)"
    "\<forall>a. a < table_start disk \<or> data_start disk \<le> a \<longrightarrow> content (w_dev w3) a = ?m2 a" by blast
  let ?m3 = "content (w_dev w3)"
  have "table_entry disk m d = table_entry disk ?m3 d" if "d \<in> set ps" for d
  proof -
    have "unat d < clusters + 2" using v [OF that] by (simp add: valid_cluster_def)
    moreover have "d \<notin> set cs" using that cs(2) by blast
    ultimately show ?thesis using w3(3) T2 by simp
  qed
  then have ch3: "chain (table_entry disk ?m3) clusters (ucast c) ps" using ps(1) chain_cong [of ps "table_entry disk m" "table_entry disk ?m3"] by simp
  have "file_bytes disk ?m3 ps = file_bytes disk ?m2 ps" by (rule file_bytes_data) (use w3(4) in blast)
  also have "\<dots> = write_at (file_bytes disk m ps) (32 * ?k) (bytes_of_dir (freed_entry ?e))" using w2(3) by (simp add: file_write_def)
  finally have "dir_entries (file_bytes disk ?m3 ps) = es[?k := dir_of_bytes (bytes_of_dir (freed_entry ?e))]"
    using es(1,2) name by (simp add: dir_entries_write length_bytes_of_dir freed_entry_def)
  moreover have "dir_of_bytes (bytes_of_dir (freed_entry ?e)) = freed_entry ?e" using name by (simp add: dir_roundtrip freed_entry_def)
  moreover have "fat_fremove disk ?f w = Some (1, ?g, w3)" using w1(1) w2(1) w3(1) by (simp add: fat_fremove_def fat_release_def)
  ultimately show ?thesis using w3(2,3) T2 ch3 by (intro exI [of _ ?g] exI [of _ w3] exI [of _ ?m3]) simp
qed

end



end
