(* ===== verification/ExplorerLaws.thy ===== *)
theory ExplorerLaws
  imports Explorer FatRemove
begin

section \<open>Properties of the disk viewer\<close>

text \<open>
  The image file is a second provider of the contract of a byte device, so that every result about
  volumes holds for the viewer.  What \<^verbatim>\<open>ls\<close> and \<^verbatim>\<open>cat\<close> print, and what the shell does at the end of its input.
\<close>

subsection \<open>The image as a device\<close>

definition image_byte :: "u8 list \<Rightarrow> nat \<Rightarrow> u8" where
  "image_byte img a = (if a < length img then img ! a else 0)"

lemma image_read:
  assumes "length img = L" "unat offset + unat n < L"
  shows "run_state (disk_read_func offset n) img = (range_of (image_byte img) (unat offset) (unat n), img)"
proof -
  have "take (unat n) (drop (unat offset) img) = range_of (image_byte img) (unat offset) (unat n)"
    using assms by (intro nth_equalityI) (simp_all add: image_byte_def)
  then show ?thesis by (simp add: disk_read_func_def)
qed

lemma image_write:
  assumes "length img = L" "unat offset + length data < L"
  shows "\<exists>img'. run_state (disk_write_func offset data) img = ((), img') \<and> length img' = L \<and>
    image_byte img' = overwrite (image_byte img) (unat offset) data"
proof (cases "data = []")
  case True
  moreover have "overwrite (image_byte img) (unat offset) [] = image_byte img" by (auto simp: fun_eq_iff overwrite_def)
  ultimately show ?thesis using assms(1) by (simp add: disk_write_func_def)
next
  case False
  let ?img = "take (unat offset) img @ data @ drop (unat offset + length data) img"
  have "run_state (disk_write_func offset data) img = ((), ?img)" using assms False by (simp add: disk_write_func_def)
  moreover have "length ?img = L" using assms by simp
  moreover have "image_byte ?img = overwrite (image_byte img) (unat offset) data"
    using assms by (auto simp: fun_eq_iff image_byte_def overwrite_def nth_append)
  ultimately show ?thesis by blast
qed

lemma image_device: "byte_device disk_read_func disk_write_func (\<lambda>img. length img = L) image_byte L"
  using image_read image_write by unfold_locales simp_all

interpretation vd: byte_device disk_read_func disk_write_func "\<lambda>img. length img = L" image_byte L for L
  by (rule image_device)

definition viewer_disk :: "fat_bpb \<Rightarrow> u8 list fat_disk" where
  "viewer_disk b = \<lparr>d_read_func = disk_read_func, d_write_func = disk_write_func, d_bpb = b, d_root_directory = fat_root_directory b\<rparr>"

lemma viewer_volume:
  assumes "fat_geometry (viewer_disk b) L clusters"
  shows "fat_volume (viewer_disk b) (\<lambda>img. length img = L) image_byte L clusters"
  using image_device [of L] assms by (simp add: fat_volume_def fat_volume_axioms_def viewer_disk_def)

text \<open>What a volume holds depends on its parameter block only, not on the functions of its device.\<close>

lemma same_layout:
  assumes "d_bpb disk = d_bpb disk'"
  shows "sector_bytes disk = sector_bytes disk'" "cluster_bytes disk = cluster_bytes disk'" "table_start disk = table_start disk'"
    "table_bytes disk = table_bytes disk'" "data_start disk = data_start disk'" "bytes_per_sector disk = bytes_per_sector disk'"
  using assms by (simp_all add: sector_bytes_def cluster_bytes_def table_start_def table_bytes_def data_start_def bytes_per_sector_def)

lemma same_tables:
  assumes "d_bpb disk = d_bpb disk'"
  shows "table_entry disk = table_entry disk'" "file_bytes disk = file_bytes disk'" "dir_set disk = dir_set disk'"
proof -
  note l = same_layout [OF assms]
  show t: "table_entry disk = table_entry disk'" by (simp add: fun_eq_iff table_entry_def l)
  show f: "file_bytes disk = file_bytes disk'" by (simp add: fun_eq_iff file_bytes_def cluster_start_def l)
  show "dir_set disk = dir_set disk'" by (simp add: fun_eq_iff dir_set_def t f l)
qed

lemma viewer_layout: "d_bpb (viewer_disk floppy_bpb) = d_bpb volume"
  by (simp add: viewer_disk_def fatfs_disk_def)

lemmas viewer_tables = same_tables [OF viewer_layout]

lemma viewer_geometry: "fat_geometry (viewer_disk floppy_bpb) 1474560 2803"
proof -
  have "fat_geometry volume 1474560 2803" by (rule floppy_geometry)
  then show ?thesis unfolding fat_geometry_def same_layout [OF viewer_layout] viewer_layout .
qed

interpretation vv: fat_volume "viewer_disk floppy_bpb" "\<lambda>img. length img = 1474560" image_byte 1474560 2803
  by (rule viewer_volume [OF viewer_geometry])

text \<open>The image of the volume with directories of \<open>FatLookup\<close>.\<close>

definition tree_image :: "u8 list" where
  "tree_image = List.map (disk_byte fdc_tree) [0..<1474560]"

definition tree_viewer :: "u8 list \<Rightarrow> u8 list viewer" where
  "tree_viewer input = \<lparr>v_world = \<lparr>w_dev = tree_image, w_cache = replicate 512 0, w_cache_sector = 0xFFFFFFFF\<rparr>, v_dir = tree_root,
     v_command = [], v_input = input, v_output = [], v_saved = []\<rparr>"

lemma length_tree_image: "length tree_image = 1474560"
  unfolding tree_image_def length_map length_upt by simp

lemma tree_image_byte: "image_byte tree_image = disk_byte fdc_tree"
proof
  fix a
  show "image_byte tree_image a = disk_byte fdc_tree a"
  proof (cases "a < 1474560")
    case True
    then have "tree_image ! a = disk_byte fdc_tree a" unfolding tree_image_def by (subst nth_map) simp_all
    then show ?thesis using True by (simp add: image_byte_def length_tree_image)
  next
    case False
    then have "2880 \<le> a div 512" by simp
    then have "disk_byte fdc_tree a = 0" by (simp add: disk_byte_def fdc_tree_def)
    then show ?thesis using False by (simp add: image_byte_def length_tree_image)
  qed
qed

lemma tree_viewer_ok: "world_ok (\<lambda>img. length img = 1474560) (v_world (tree_viewer input))"
  by (simp add: world_ok_def tree_viewer_def length_tree_image)

lemma tree_viewer_set: "dir_set (viewer_disk floppy_bpb) 2803 (image_byte (w_dev (v_world (tree_viewer input)))) tree_dirs {2, 3}"
  using tree_dir_set unfolding viewer_tables(3) by (simp add: tree_viewer_def tree_image_byte)

subsection \<open>Listing\<close>

definition ls_line :: "named_entry \<Rightarrow> u8 list" where
  "ls_line x = longname_bytes (nm_chars x) @ (if is_dir (nm_entry x) then [0x2F, 10] else [10])"

context fat_volume
begin

lemma ls_loop_lists:
  assumes "world_ok ready w" "dir_set disk clusters (content (w_dev w)) dirs D" "first_cluster_of (f_dir dir) \<in> D"
    "items = dir_listing (dirs (first_cluster_of (f_dir dir)))" "unat (f_cursor dir) \<le> length items"
  shows "\<exists>dir' w'. ls_loop disk dir out w = Some (dir', out @ concat (List.map ls_line (drop (unat (f_cursor dir)) items)), w') \<and>
    world_ok ready w' \<and> content (w_dev w') = content (w_dev w) \<and> first_cluster_of (f_dir dir') = first_cluster_of (f_dir dir)"
  using assms
proof (induction "length items - unat (f_cursor dir)" arbitrary: dir out w)
  case 0
  then have e: "\<not> unat (f_cursor dir) < length items" "drop (unat (f_cursor dir)) items = []" by simp_all
  obtain sub dir' w' where r: "world_ok ready w'" "content (w_dev w') = content (w_dev w)"
    "first_cluster_of (f_dir dir') = first_cluster_of (f_dir dir)" "fat_readdir disk dir w = Some (fat_NOT_FOUND, sub, Some fat_file_default, dir', w')"
    using readdir_item [OF 0(2-5)] e(1) by auto
  then show ?case using e(2) by (simp add: ls_loop.simps [of _ dir])
next
  case (Suc n)
  let ?i = "unat (f_cursor dir)" and ?c = "first_cluster_of (f_dir dir)"
  have i: "?i < length items" using Suc(2) by simp
  obtain sub dir' w' where r: "world_ok ready w'" "content (w_dev w') = content (w_dev w)"
    "first_cluster_of (f_dir dir') = ?c" "f_cursor dir' = f_cursor dir + 1"
    "fat_readdir disk dir w =
      (let found = found_at ?c (items ! ?i)
       in if is_dir (f_dir found) then Some (fat_FOUND_DIR, found, Some fat_file_default, dir', w')
          else Some (fat_FOUND_FILE, sub, Some found, dir', w'))"
    using readdir_item [OF Suc(3-6)] i by auto
  have "length items < 2 ^ 32" by (rule listing_small [OF Suc(4,5,6)])
  then have c: "unat (f_cursor dir') = ?i + 1" using i by (simp add: r(4) unat_word_ariths)
  have set': "dir_set disk clusters (content (w_dev w')) dirs D" "first_cluster_of (f_dir dir') \<in> D"
    "items = dir_listing (dirs (first_cluster_of (f_dir dir')))" "unat (f_cursor dir') \<le> length items"
    using Suc(4-6) i by (simp_all add: r(2,3) c)
  have n: "n = length items - unat (f_cursor dir')" using Suc(2) c by simp
  obtain dir'' w'' where IH: "ls_loop disk dir' (out @ ls_line (items ! ?i)) w' =
      Some (dir'', (out @ ls_line (items ! ?i)) @ concat (List.map ls_line (drop (?i + 1) items)), w'')"
    "world_ok ready w''" "content (w_dev w'') = content (w_dev w)" "first_cluster_of (f_dir dir'') = ?c"
    using Suc(1) [OF n r(1) set', of "out @ ls_line (items ! ?i)"] unfolding c r(2,3) by blast
  have d: "drop ?i items = items ! ?i # drop (?i + 1) items" using Cons_nth_drop_Suc [OF i] by simp
  have f: "f_dir (found_at ?c x) = nm_entry x" "f_long_filename (found_at ?c x) = nm_chars x" for x by (simp_all add: found_at_def)
  have "ls_loop disk dir out w = ls_loop disk dir' (out @ ls_line (items ! ?i)) w'"
    using r(5) by (simp add: ls_loop.simps [of _ dir] f ls_line_def Let_def)
  then show ?case using IH unfolding d by auto
qed

end

text \<open>C17. \<^verbatim>\<open>ls\<close> ends and prints the listing of the current directory: every item once, in the order of
  the directory, with its name on a line of its own and a slash behind the name of a directory; the
  image is only read and the current directory stays.\<close>

theorem explorer_ls_lists:
  assumes "fat_volume disk ready content limit clusters" "world_ok ready (v_world v)"
    "dir_set disk clusters (content (w_dev (v_world v))) dirs D" "first_cluster_of (f_dir (v_dir v)) \<in> D"
  shows "\<exists>v'. cmd_ls disk v = Some v' \<and>
    v_output v' = v_output v @ concat (List.map ls_line (dir_listing (dirs (first_cluster_of (f_dir (v_dir v)))))) \<and>
    world_ok ready (v_world v') \<and> content (w_dev (v_world v')) = content (w_dev (v_world v)) \<and>
    first_cluster_of (f_dir (v_dir v')) = first_cluster_of (f_dir (v_dir v)) \<and> v_command v' = v_command v \<and> v_input v' = v_input v"
proof -
  have d: "f_dir (fat_rewinddir (v_dir v)) = f_dir (v_dir v)" "f_cursor (fat_rewinddir (v_dir v)) = 0"
    by (simp_all add: fat_rewinddir_def)
  have D: "first_cluster_of (f_dir (fat_rewinddir (v_dir v))) \<in> D" using assms(4) by (simp add: d)
  from fat_volume.ls_loop_lists [OF assms(1,2,3) D refl, of "[]"] show ?thesis
    unfolding d by (auto simp: cmd_ls_def host_print_def)
qed

theorem explorer_ls_lists_witness:
  "\<exists>v'. cmd_ls (viewer_disk floppy_bpb) (tree_viewer []) = Some v' \<and> v_output v' = [0x44, 0x4F, 0x43, 0x53, 0x2F, 10, 0x41, 0x2E, 0x54, 0x58, 0x54, 10]"
proof -
  have c: "first_cluster_of (f_dir (v_dir (tree_viewer []))) = 2" using tree_root_cluster by (simp add: tree_viewer_def)
  then have D: "first_cluster_of (f_dir (v_dir (tree_viewer []))) \<in> {2, 3}" by simp
  have "concat (List.map ls_line (dir_listing (tree_dirs 2))) = [0x44, 0x4F, 0x43, 0x53, 0x2F, 10, 0x41, 0x2E, 0x54, 0x58, 0x54, 10]"
    by (simp add: docs_listing ls_line_def longname_bytes_def docs_item_def docs_entry_def text_item_def text_entry_def is_dir_def)
  then show ?thesis
    using explorer_ls_lists [OF vv.fat_volume_axioms tree_viewer_ok tree_viewer_set D] unfolding c by (auto simp: tree_viewer_def)
qed

subsection \<open>Printing a file\<close>

text \<open>C16. \<^verbatim>\<open>cat\<close> prints the file that the walk along the path finds, up to its first zero byte, whatever
  the fresh block of memory held; if there is none, it prints the error message and nothing else.  The
  image is only read.\<close>

theorem explorer_cat_prints:
  assumes "fat_volume disk ready content limit clusters" "world_ok ready (v_world v)"
    and m: "m = content (w_dev (v_world v))"
    and D: "dir_set disk clusters m dirs D" "first_cluster_of (f_dir (v_dir v)) \<in> D"
    and path: "0 \<notin> set path" "drop 4 (v_command v) = path" and fresh: "\<forall>n. length (h_fresh h n) = n"
    and files: "\<forall>c x. dir_walk dirs True (first_cluster_of (f_dir (v_dir v))) (path_parts path) = Some (c, x) \<longrightarrow>
      chain (table_entry disk m) clusters (ucast (DIR_FstClusLO (nm_entry x))) (cs x) \<and>
      (length (cs x) - 1) * cluster_bytes disk \<le> unat (DIR_FileSize (nm_entry x)) \<and>
      unat (DIR_FileSize (nm_entry x)) \<le> length (cs x) * cluster_bytes disk"
  shows "\<exists>v'. cmd_cat h disk v = Some v' \<and> content (w_dev (v_world v')) = m \<and> v_output v' = v_output v @
    (case dir_walk dirs True (first_cluster_of (f_dir (v_dir v))) (path_parts path) of
       None \<Rightarrow> file_error
     | Some (c, x) \<Rightarrow> takeWhile (\<lambda>b. b \<noteq> 0) (take (unat (DIR_FileSize (nm_entry x))) (file_bytes disk m (cs x))))"
proof -
  let ?walk = "dir_walk dirs True (first_cluster_of (f_dir (v_dir v))) (path_parts path)"
  obtain sub root' w1 where o: "world_ok ready w1" "content (w_dev w1) = m"
    "fat_find disk True (v_dir v) path True False (v_world v) =
    (case ?walk of
       None \<Rightarrow> Some (fat_NOT_FOUND, sub, Some fat_file_default, root', w1)
     | Some (c, x) \<Rightarrow> Some (fat_FOUND_FILE, sub, Some (found_at c x), root', w1))"
    using fat_volume.find_path [OF assms(1,2) D(1) [unfolded m] D(2) path(1), of True] unfolding if_True m by blast
  show ?thesis
  proof (cases ?walk)
    case None
    then show ?thesis using o path(2) by (simp add: cmd_cat_def fat_fopen_def byte_at_def host_print_def)
  next
    case (Some cx)
    obtain c x where cx: "cx = (c, x)" by (cases cx)
    note fx = files [rule_format, OF Some [unfolded cx]]
    let ?S = "DIR_FileSize (nm_entry x)"
    let ?fl = "fat_fseek (found_at c x) 0 fat_SEEK_SET"
    have fl: "f_dir ?fl = nm_entry x" "f_cursor ?fl = 0" "f_dir (found_at c x) = nm_entry x" by (simp_all add: found_at_def fat_fseek_def)
    have opened: "fat_fopen disk (v_dir v) path [0x72] (v_world v) = Some (1, found_at c x, root', w1)"
      using o(3) Some cx by (simp add: fat_fopen_def byte_at_def)
    have count: "(word_of_int (fat_ftell (fat_fseek (found_at c x) 0 fat_SEEK_END)) :: u32) = ?S"
      by (simp add: fat_ftell_def fat_fseek_def fl)
    have "length (cs x) * cluster_bytes disk \<le> clusters * cluster_bytes disk"
      by (rule mult_le_mono1 [OF chain_length [OF conjunct1 [OF fx]]])
    also have "\<dots> < 2 ^ 32 - 1"
      using fat_volume.geometry_parts(6,7,8) [OF assms(1)] fat_volume.tables_before_data [OF assms(1)] by simp
    finally have small: "unat ?S < 2 ^ 32 - 1" using fx by simp
    then have n: "unat (?S + 1) = unat ?S + 1" by (simp add: unat_word_ariths)
    have ch: "chain (table_entry disk (content (w_dev w1))) clusters (first_cluster ?fl) (cs x)" using fx o(2) fl(1) by simp
    have s: "(length (cs x) - 1) * cluster_bytes disk \<le> unat (DIR_FileSize (f_dir ?fl))"
      "unat (DIR_FileSize (f_dir ?fl)) \<le> length (cs x) * cluster_bytes disk" "f_cursor ?fl \<le> DIR_FileSize (f_dir ?fl)"
      "unat (1 * ?S) \<le> length (h_fresh h (unat (?S + 1)))" using fx fresh n unfolding fl by simp_all
    obtain w2 where rd: "fat_fread disk (h_fresh h (unat (?S + 1))) 1 ?S ?fl w1 =
        Some (take (unat ?S) (file_bytes disk m (cs x)) @ drop (unat ?S) (h_fresh h (unat (?S + 1))), ?fl\<lparr>f_cursor := ?S\<rparr>, w2)"
      "content (w_dev w2) = m"
      using fat_volume.fread_file [OF assms(1) o(1) ch s] unfolding fl o(2) by (auto simp: word_unat_eq_iff)
    let ?data = "take (unat ?S) (file_bytes disk m (cs x))"
    have len: "length ?data = unat ?S" using fx by simp
    have "store_at (?data @ drop (unat ?S) (h_fresh h (unat (?S + 1)))) (unat ?S) [0] = Some (?data @ [0])"
      using len fresh n by (simp add: store_at_def)
    then have "cmd_cat h disk v = Some (host_print (takeWhile (\<lambda>b. b \<noteq> 0) (?data @ [0])) (v\<lparr>v_dir := root', v_world := w2\<rparr>))"
      unfolding cmd_cat_def read_whole_def path(2) opened using count rd(1) by (simp add: Let_def)
    moreover have "takeWhile (\<lambda>b. b \<noteq> 0) (?data @ [0]) = takeWhile (\<lambda>b. b \<noteq> 0) ?data" by (simp add: takeWhile_tail)
    ultimately show ?thesis using rd(2) Some cx by (simp add: host_print_def)
  qed
qed

definition cat_viewer :: "u8 list viewer" where
  "cat_viewer = (tree_viewer [])\<lparr>v_command := ascii ''cat '' @ notes_path\<rparr>"

definition tree_host :: host where
  "tree_host = \<lparr>h_fresh = (\<lambda>n. replicate n 0xAA), h_last_byte = 0, h_realpath = id, h_writable = (\<lambda>_. True),
     h_opendir = (\<lambda>_. None), h_stat = (\<lambda>_. None), h_content = (\<lambda>_. None)\<rparr>"

theorem explorer_cat_prints_witness:
  "\<exists>v'. cmd_cat tree_host (viewer_disk floppy_bpb) cat_viewer = Some v' \<and> v_output v' = replicate 512 79 @ replicate 188 80"
proof -
  have c: "first_cluster_of (f_dir (v_dir cat_viewer)) = 2" using tree_root_cluster by (simp add: cat_viewer_def tree_viewer_def)
  have w: "v_world cat_viewer = v_world (tree_viewer [])" "v_output cat_viewer = []" by (simp_all add: cat_viewer_def tree_viewer_def)
  have m: "disk_byte fdc_tree = image_byte (w_dev (v_world cat_viewer))" by (simp add: w tree_viewer_def tree_image_byte)
  have ok: "world_ok (\<lambda>img. length img = 1474560) (v_world cat_viewer)" using tree_viewer_ok by (simp add: w)
  have D: "dir_set (viewer_disk floppy_bpb) 2803 (disk_byte fdc_tree) tree_dirs {2, 3}" using tree_dir_set by (simp add: viewer_tables)
  have c2: "first_cluster_of (f_dir (v_dir cat_viewer)) \<in> {2, 3}" by (simp add: c)
  have p: "drop 4 (v_command cat_viewer) = notes_path" by (simp add: cat_viewer_def ascii_def)
  have fresh: "\<forall>n. length (h_fresh tree_host n) = n" by (simp add: tree_host_def)
  have e: "nm_entry notes_item = notes_entry" "DIR_FstClusLO notes_entry = 5" "DIR_FileSize notes_entry = 700"
    by (simp_all add: notes_item_def notes_entry_def)
  have files: "\<forall>c x. dir_walk tree_dirs True (first_cluster_of (f_dir (v_dir cat_viewer))) (path_parts notes_path) = Some (c, x) \<longrightarrow>
      chain (table_entry (viewer_disk floppy_bpb) (disk_byte fdc_tree)) 2803 (ucast (DIR_FstClusLO (nm_entry x))) [5, 6] \<and>
      (length [5 :: u32, 6] - 1) * cluster_bytes (viewer_disk floppy_bpb) \<le> unat (DIR_FileSize (nm_entry x)) \<and>
      unat (DIR_FileSize (nm_entry x)) \<le> length [5 :: u32, 6] * cluster_bytes (viewer_disk floppy_bpb)"
    using tree_chains(3) unfolding c notes_walk viewer_tables same_layout [OF viewer_layout] by (simp add: e del: chain.simps)
  obtain v' where v': "cmd_cat tree_host (viewer_disk floppy_bpb) cat_viewer = Some v'" "v_output v' = v_output cat_viewer @
      takeWhile (\<lambda>b. b \<noteq> 0) (take (unat (DIR_FileSize (nm_entry notes_item))) (file_bytes (viewer_disk floppy_bpb) (disk_byte fdc_tree) [5, 6]))"
    using explorer_cat_prints [where cs = "\<lambda>_. [5, 6]", OF vv.fat_volume_axioms ok m D c2 notes_path_ok p fresh files]
    unfolding c notes_walk by auto
  have "file_bytes (viewer_disk floppy_bpb) (disk_byte fdc_tree) [5, 6] = replicate 512 79 @ replicate 512 80"
    unfolding viewer_tables by (rule tree_bytes(3))
  then have "v_output v' = takeWhile (\<lambda>b. b \<noteq> 0) (replicate 512 79 @ replicate 188 80)"
    using v'(2) by (simp add: e w del: replicate.simps)
  also have "\<dots> = replicate 512 79 @ replicate 188 80" by (subst takeWhile_eq_all_conv) auto
  finally show ?thesis using v'(1) by blast
qed

subsection \<open>The end of the input\<close>

lemma read_command_eof: "v_input v = [] \<Longrightarrow> read_command v =
    (if v_command v = [] then None else Some (v\<lparr>v_command := butlast (v_command v), v_input := []\<rparr>))"
  by (simp add: read_command_def)

text \<open>Each command leaves the end of the input and at most cuts the text of the command.\<close>

definition cuts :: "'p viewer \<Rightarrow> 'p viewer \<Rightarrow> bool" where
  "cuts v v' \<longleftrightarrow> v_input v' = [] \<and> (\<exists>k. v_command v' = take k (v_command v))"

lemma cuts_same: "v_input v' = [] \<Longrightarrow> v_command v' = v_command v \<Longrightarrow> cuts v v'"
  by (auto simp: cuts_def intro: exI [of _ "length (v_command v)"])

lemma write_line_cuts:
  assumes "v_input v = []" "write_line disk file v = Some v'"
  shows "cuts v v'"
  using assms read_command_eof [OF assms(1)]
  by (auto simp: write_line_def cuts_def Option.bind_eq_Some_conv butlast_conv_take split: if_splits)

lemma write_line_cuts_from:
  "write_line disk file u = Some v' \<Longrightarrow> v_input u = [] \<Longrightarrow> v_command u = v_command v \<Longrightarrow> cuts v v'"
  using write_line_cuts [of u disk _ v'] by (simp add: cuts_def)

lemma cd_cuts:
  assumes "v_input v = []" "cmd_cd disk v = Some v'"
  shows "cuts v v'"
proof -
  let ?p = "drop 3 (v_command v)" and ?c = "v_command v"
  have "\<exists>k. take 3 ?c @ (if ?p \<noteq> [] \<and> last ?p = 0x2F then butlast ?p else ?p) = take k ?c"
  proof (cases "?p \<noteq> [] \<and> last ?p = 0x2F")
    case True
    have "take 3 ?c @ butlast ?p = take (3 + (length ?p - 1)) ?c" by (simp only: take_add butlast_conv_take)
    then show ?thesis using True by auto
  next
    case False
    then show ?thesis by (intro exI [of _ "length ?c"]) auto
  qed
  moreover have "v_command v' = take 3 ?c @ (if ?p \<noteq> [] \<and> last ?p = 0x2F then butlast ?p else ?p) \<and> v_input v' = v_input v"
    using assms(2) unfolding cmd_cd_def Let_def
    by (auto simp: Option.bind_eq_Some_conv host_print_def split: if_splits)
  ultimately show ?thesis using assms(1) by (simp add: cuts_def)
qed

lemma command_cuts:
  assumes "v_input v = []" "explorer_command h disk v = Some v'"
  shows "cuts v v'"
proof -
  have ls: "cmd_ls disk v = Some v' \<Longrightarrow> cuts v v'"
    using assms(1) by (auto simp: cmd_ls_def Option.bind_eq_Some_conv host_print_def intro: cuts_same)
  have append: "cmd_append h disk v = Some v' \<Longrightarrow> cuts v v'"
    using assms(1) by (auto simp: cmd_append_def Let_def Option.bind_eq_Some_conv host_print_def intro: cuts_same write_line_cuts_from split: if_splits)
  have redirect: "cmd_write disk v = Some v' \<Longrightarrow> cuts v v'"
    using assms(1) by (auto simp: cmd_write_def Let_def Option.bind_eq_Some_conv host_print_def intro: cuts_same write_line_cuts_from split: if_splits)
  have cat: "cmd_cat h disk v = Some v' \<Longrightarrow> cuts v v'"
    using assms(1) by (auto simp: cmd_cat_def Let_def Option.bind_eq_Some_conv host_print_def intro: cuts_same split: if_splits)
  have rm: "cmd_remove disk is_file n yes no v = Some v' \<Longrightarrow> cuts v v'" for is_file n yes no
    using assms(1) by (auto simp: cmd_remove_def Option.bind_eq_Some_conv host_print_def intro: cuts_same)
  have mkdir: "cmd_mkdir disk v = Some v' \<Longrightarrow> cuts v v'"
    using assms(1) by (auto simp: cmd_mkdir_def Option.bind_eq_Some_conv host_print_def intro: cuts_same)
  have save: "cmd_save h disk v = Some v' \<Longrightarrow> cuts v v'"
    using assms(1) by (auto simp: cmd_save_def Let_def Option.bind_eq_Some_conv host_print_def intro: cuts_same split: if_splits)
  have unknown: "cuts v (host_print s v)" for s
    using assms(1) by (auto simp: host_print_def intro: cuts_same)
  show ?thesis using assms(2) unfolding explorer_command_def Let_def
    by (auto split: if_splits intro: ls cd_cuts [OF assms(1)] append redirect cat rm mkdir save unknown)
qed

lemma end_of_input_loop:
  assumes "v_input v = []" "\<forall>k < length (v_command v). take k (v_command v) \<noteq> ascii ''exit'' \<and> take k (v_command v) \<noteq> ascii ''quit''"
  shows "explorer_loop h disk v = None"
  using assms
proof (induction "length (v_command v)" arbitrary: v rule: less_induct)
  case less
  let ?v = "host_print (longname_bytes (f_long_filename (v_dir v)) @ [0x3E, 0x20]) v"
  let ?u = "?v\<lparr>v_command := butlast (v_command v), v_input := []\<rparr>"
  have v: "v_input ?v = []" "v_command ?v = v_command v" using less.prems(1) by (simp_all add: host_print_def)
  show ?case
  proof (cases "v_command v = []")
    case True
    then show ?thesis using v read_command_eof [OF v(1)] by (simp add: explorer_loop.simps [of h disk v])
  next
    case False
    then have r: "read_command ?v = Some ?u" using v read_command_eof [OF v(1)] by simp
    have len: "length (butlast (v_command v)) < length (v_command v)" using False by simp
    have "butlast (v_command v) = take (length (v_command v) - 1) (v_command v)" by (rule butlast_conv_take)
    then have no: "v_command ?u \<noteq> ascii ''exit'' \<and> v_command ?u \<noteq> ascii ''quit''" using less.prems(2) False by simp
    show ?thesis
    proof (cases "explorer_command h disk ?u")
      case None
      then show ?thesis using r no by (simp add: explorer_loop.simps [of h disk v])
    next
      case (Some u)
      have "cuts ?u u" by (rule command_cuts [OF _ Some]) simp
      then obtain k where u: "v_input u = []" "v_command u = take k (butlast (v_command v))" by (auto simp: cuts_def)
      have l: "length (v_command u) < length (v_command v)" using u(2) len by simp
      have "\<forall>j < length (v_command u). take j (v_command u) \<noteq> ascii ''exit'' \<and> take j (v_command u) \<noteq> ascii ''quit''"
        using less.prems(2) l unfolding u(2) by (auto simp: butlast_conv_take min_def)
      then show ?thesis using less.hyps [OF l u(1)] r no Some by (simp add: explorer_loop.simps [of h disk v])
    qed
  qed
qed

lemma end_of_input_round:
  assumes "v_input v = []" "v_command v \<noteq> []"
  shows "\<exists>c. read_command (host_print s v) = Some c \<and> v_input c = [] \<and> v_command c = butlast (v_command v) \<and>
    (\<forall>u. explorer_command h disk c = Some u \<longrightarrow> v_input u = [] \<and> length (v_command u) < length (v_command v))"
proof -
  let ?c = "(host_print s v)\<lparr>v_command := butlast (v_command v), v_input := []\<rparr>"
  have "read_command (host_print s v) = Some ?c"
    using assms read_command_eof [of "host_print s v"] by (simp add: host_print_def)
  moreover have "v_input u = [] \<and> length (v_command u) < length (v_command v)" if "explorer_command h disk ?c = Some u" for u
    using command_cuts [OF _ that] assms(2) by (cases "v_command v") (auto simp: cuts_def)
  ultimately show ?thesis by (intro exI [of _ ?c]) auto
qed

text \<open>C36. At the end of its input the shell does not end.  Each round takes the last command
  without its last character and executes it, which is neither \<^verbatim>\<open>exit\<close> nor \<^verbatim>\<open>quit\<close> when no such part
  of the command is; after it the command is shorter still, so that after finitely many rounds it is empty, and
  then the next round writes to the byte before the array of the command.  The shell never returns.\<close>

theorem explorer_end_of_input:
  assumes "v_input v = []" "\<forall>k < length (v_command v). take k (v_command v) \<noteq> ascii ''exit'' \<and> take k (v_command v) \<noteq> ascii ''quit''"
  shows "explorer_loop h disk v = None \<and>
    (v_command v = [] \<longrightarrow> read_command (host_print s v) = None) \<and>
    (v_command v \<noteq> [] \<longrightarrow>
      (\<exists>c. read_command (host_print s v) = Some c \<and> v_input c = [] \<and> v_command c = butlast (v_command v) \<and>
        (\<forall>u. explorer_command h disk c = Some u \<longrightarrow> v_input u = [] \<and> length (v_command u) < length (v_command v))))"
proof (intro conjI impI)
  show "explorer_loop h disk v = None" using assms by (rule end_of_input_loop)
  show "read_command (host_print s v) = None" if "v_command v = []"
    using read_command_eof [of "host_print s v"] assms(1) that by (simp add: host_print_def)
  show "\<exists>c. read_command (host_print s v) = Some c \<and> v_input c = [] \<and> v_command c = butlast (v_command v) \<and>
      (\<forall>u. explorer_command h disk c = Some u \<longrightarrow> v_input u = [] \<and> length (v_command u) < length (v_command v))"
    if "v_command v \<noteq> []"
    using assms(1) that by (rule end_of_input_round)
qed

theorem explorer_end_of_input_witness:
  "explorer_loop tree_host (viewer_disk floppy_bpb) ((tree_viewer [])\<lparr>v_command := ascii ''rm notes''\<rparr>) = None"
proof -
  have c: "ascii ''rm notes'' = 0x72 # ascii ''m notes''" "ascii ''exit'' = 0x65 # ascii ''xit''" "ascii ''quit'' = 0x71 # ascii ''uit''"
    by (simp_all add: ascii_def of_char_def)
  have "\<forall>k < length (ascii ''rm notes''). take k (ascii ''rm notes'') \<noteq> ascii ''exit'' \<and> take k (ascii ''rm notes'') \<noteq> ascii ''quit''"
    unfolding c by (auto simp: take_Cons' split: if_splits)
  then show ?thesis
    by (intro explorer_end_of_input [of "(tree_viewer [])\<lparr>v_command := ascii ''rm notes''\<rparr>" tree_host "viewer_disk floppy_bpb" "[]", THEN conjunct1])
      (simp_all add: tree_viewer_def)
qed

end
