(* ===== verification/Spec2Isabelle.thy ===== *)
theory Spec2Isabelle
  imports ConsoleStream Print FatProps FatNames SyscallDir Boot FatPrint SchedReach ExplorerLaws
begin

text \<open>
  A verification library for the NEOS kernel, a small 32-bit x86 kernel written in C with its
  boot path and allocator in assembly (sources under \<^verbatim>\<open>src/src/kernel\<close>), and for the shell over disk
  images that is built from the same FAT code (\<^verbatim>\<open>src/disks/viewer\<close>).

  \<^bold>\<open>The program and the theories.\<close>  The C parts call each other in layers, and every layer has
  its theories:

  \<^item> \<open>Prelude\<close>, \<open>CMath\<close>, \<open>CMemory\<close>: the machine types, signed 32-bit arithmetic with its
    wrap-around (\<open>i32\<close>), \<^verbatim>\<open>math.c\<close>, and \<^verbatim>\<open>memory.c\<close> over a byte memory that is a function of
    addresses.
  \<^item> \<open>Console\<close> (\<^verbatim>\<open>console.c\<close>): the static variables are the record \<open>console\<close>, the function pointer
    \<^verbatim>\<open>output_lexer\<close> is the datatype \<open>lexer\<close>, the video memory at \<^verbatim>\<open>0xB8000\<close> is part of the byte memory.
    \<open>ConsoleSafety\<close> shows what each operation keeps and changes, \<open>ConsoleInvariant\<close> that every
    lexer preserves the invariant \<open>con_ok\<close>, \<open>ConsoleStream\<close> what whole output streams do.
  \<^item> \<open>Print\<close> (\<^verbatim>\<open>print.c\<close>, on \<open>Digits\<close>): \<^verbatim>\<open>kprintf\<close> as the bytes it hands to \<^verbatim>\<open>con_write\<close>; a missing or
    ill-typed argument is \<open>None\<close>.
  \<^item> \<open>Vfs\<close> (\<^verbatim>\<open>vfs.c\<close>): nodes are entries of a list that only grows, pointers to them are indices;
    a driver is a record of functions that thread a world \<open>'w\<close>, as the C driver is a record of
    function pointers; \<open>None\<close> is a null dereference or \<^verbatim>\<open>panic\<close>.  \<open>VfsTree\<close> abstracts the tree to the map
    from paths to drivers, \<open>VfsWalk\<close> states the contract between the file system and its drivers as
    locales and derives opening and tracing inside them.
  \<^item> \<open>Scheduler\<close> (\<^verbatim>\<open>scheduler.c\<close>): the process table as a list, accesses out of range as \<open>None\<close>, and the
    descriptor table of a process as an instance of an abstract descriptor table.  \<open>SchedReach\<close> has the
    operations as a step relation, and the invariant of the tables that are reachable from the start.
  \<^item> \<open>Procfs\<close> (\<^verbatim>\<open>procfs.c\<close>): the driver over the heap of its \<^verbatim>\<open>ProcState\<close> objects and the scheduler's
    table; \<open>ProcfsText\<close> holds the number routines, \<open>ProcfsLaws\<close> shows that the driver satisfies the
    contract of \<open>VfsWalk\<close> and draws the consequences for the file system, \<open>ProcfsFiles\<close> treats listing,
    reading and opening by number.
  \<^item> \<open>Floppy\<close> (\<^verbatim>\<open>floppy.c\<close>): programs of the state monad over the ports, which are parameters.
    \<open>FloppyDisk\<close> states the contract of a sector device and derives reading and writing of byte
    ranges; \<open>FloppyController\<close> describes the controller behind the ports and runs the driver on it;
    \<open>FloppyLaws\<close> carries the results to any ports that behave like it.

  \<^item> \<open>Fat\<close>, \<open>FatDir\<close>, \<open>FatOps\<close> (\<^verbatim>\<open>fat.c\<close>, on \<open>Bytes\<close>): the table cache, cluster chains, reading and writing; the
    directory with its long names; creating, removing and mounting.  The two functions of \<^verbatim>\<open>fat_DISK\<close>
    are fields of a record, the device is a world.  \<open>FatDevice\<close> states the contract of a byte device and
    the geometry of a volume, \<open>FatChain\<close> the chains of the table; \<open>FatRead\<close>, \<open>FatWrite\<close>, \<open>FatEntry\<close> and \<open>FatExtend\<close>
    prove the loops against the content of a file as a list of bytes, inside the locale of a volume;
    \<open>FatLaws\<close> and \<open>FatNames\<close> collect the laws, the latter of names and packed structures.
    \<open>FatFind\<close> reads a directory as the listing of its entries and shows that the search is the walk of
    a path through the listings; \<open>FatLookup\<close> draws the consequences for searching, listing and opening, on
    a volume with subdirectories and long names; \<open>FatRemove\<close> treats the removal of a file by its path, and
    \<open>FatFiles\<close> refines reading, writing and seeking to operations on a position and a list of bytes.
  \<^item> \<open>Fatfs\<close> (\<^verbatim>\<open>fatfs.c\<close>): the driver that joins the floppy driver, the FAT code and the file system layer.
    \<open>FatfsLaws\<close> shows that the floppy driver is a byte device, interprets the volume on it, and states
    the results for the whole stack; \<open>FatProps\<close> adds directory entries, extension and mounting.
  \<^item> \<open>Gdt\<close> (\<^verbatim>\<open>gdt.c\<close>): the descriptor table as a list of 64-bit words, and as an allocator of pairs.
  \<^item> \<open>Interrupt\<close> (\<^verbatim>\<open>interrupt.c\<close>): the handler table, and waiting as a step relation in which interrupts
    arrive between any two instructions; endless fair executions return.
  \<^item> \<open>Mem\<close> (\<^verbatim>\<open>mem.c\<close>): the memory map of the boot loader, and the calls that it leads to.
  \<^item> \<open>Elf\<close> (\<^verbatim>\<open>rivendell.c\<close>): the loader over the file system layer and the byte memory; what a
    copy of a segment writes, for drivers that deliver no more than they are asked for.
  \<^item> \<open>Exec\<close> (\<^verbatim>\<open>scheduler_create_process\<close>): loading a program and entering it into the process table, with
    the interrupt flag; the loader keeps to its block, and where it misplaces the cleared bytes.  The
    FAT driver is shown to be such a driver.
  \<^item> \<open>Syscall\<close> (\<^verbatim>\<open>syscall.c\<close>): the handlers over the file system layer and the process table, and the
    dispatch.  \<open>SyscallLaws\<close> treats descriptors, on the contract that drivers leave the process table
    alone; \<open>SyscallDir\<close> the directory entries in the caller's buffer.

  \<^item> \<open>FatPrint\<close>: the diagnostic output of \<^verbatim>\<open>fat.c\<close>, and that of \<^verbatim>\<open>floppy.c\<close> and \<^verbatim>\<open>sys_exit\<close>, as bytes of \<open>Print\<close>.
  \<^item> \<open>Explorer\<close> (\<^verbatim>\<open>src/disks/viewer/main.c\<close>): the shell on a disk image, a list of bytes, with its commands; the
    host's files and its standard input and output are functions and lists.  \<open>ExplorerLaws\<close> shows that an
    image is a byte device, the second provider of that contract, interprets the volume on it, and
    states what the commands print and what happens at the end of the input.
  \<^item> \<open>Boot\<close> (\<^verbatim>\<open>entry.c\<close>, and \<^verbatim>\<open>vfs_print\<close>): the order in which \<^verbatim>\<open>start\<close> brings the components up, over one world
    of both drivers, into which each driver is lifted; where the kernel stands when it halts.  Both drivers together satisfy the
    contract of \<open>SyscallLaws\<close>.

  \<^bold>\<open>Conventions.\<close>  C \<^verbatim>\<open>int\<close> and \<^verbatim>\<open>long\<close> are 32 bits wide and wrap (\<^verbatim>\<open>gcc -m32 -O0\<close>): they are integers
  of which every result that can leave the range is wrapped by \<open>i32\<close>.  Unsigned types are words.
  An allocation is a fresh address whose content is arbitrary, so results never depend on it.
  Uninitialised local buffers are arguments.

  \<^bold>\<open>Bounds and fuel.\<close>  All loops are total functions with a measure, except the following.  The scans for a
  string's end (\<open>strlen_loop\<close>, \<open>wstrlen_loop\<close>, \<open>streq_loop\<close>), the loops of \<^verbatim>\<open>fat.c\<close> along a cluster chain or a
  directory, the listing loop of the system calls, and the loops of the shell (\<open>ls_loop\<close>, \<open>load_entries\<close>,
  \<open>explorer_loop\<close>) need not end and are partial functions; for
  the volumes and directories that their contracts describe, the theorems say that they return.
  The loops over \<^verbatim>\<open>scheduler_process_list\<close> in \<open>procfs_find_pid\<close> and \<open>procfs_pids\<close> have fuel, the process count
  plus two; each round raises the PID, so that the fuel suffices (\<open>open_by_number\<close>,
  \<open>listed_names_open\<close> show that the result is never \<open>None\<close>).  The floppy of the stack theorems has
  2880 sectors of 512 bytes and 2803 clusters.

  \<^bold>\<open>Not modelled.\<close>  The assembly parts (the allocator, the interrupt stubs, the context switch), the boot
  loader, the linker scripts and the build tools; output to the hardware cursor; the
  diagnostic lines that the loader, the scheduler, the mounts and the memory set-up print on their way.
\<close>

text \<open>
  The law that \<^verbatim>\<open>math.h\<close> promises of \<^verbatim>\<open>sgn\<close> and \<^verbatim>\<open>abs\<close>: the product of the two
  gives the value back, for every 32-bit value, the most negative one included, where the
  negation and the product both wrap.
\<close>

theorem sgn_abs_product:
  assumes "in_i32 v"
  shows "i32 (sgn_c v * abs_c v) = v"
proof (cases "v = - 2147483648")
  case True
  then show ?thesis by (simp add: sgn_c_def abs_c_def i32_def)
next
  case False
  with assms show ?thesis by (auto simp: sgn_c_def abs_c_def in_i32_def)
qed

theorem sgn_abs_product_witness: "i32 (sgn_c (- 2147483648) * abs_c (- 2147483648)) = - 2147483648"
  by (rule sgn_abs_product) (simp add: in_i32_def)

end
